(* ===== verification/Iso_Prelude.thy ===== *)
theory Iso_Prelude
  imports
    Main
    "HOL-Library.Char_ord"
    "HOL-Library.List_Lexorder"
    "HOL-Library.Sublist"
    "HOL-Library.Word"
begin

text \<open>
  Shared vocabulary of the development: results as sums, Rust's string
  operations over the UTF-8 bytes of a \<^verbatim>\<open>str\<close>, decimal and hexadecimal
  numerals, and the generic lemmas the component theories rely on.

  A Rust \<^verbatim>\<open>&str\<close> is modelled by the list of its UTF-8 bytes (\<^typ>\<open>char\<close> is a
  byte). \<open>u16\<close>, \<open>u32\<close> and \<open>u64\<close> are the words of that width.
\<close>

named_theorems res_simps \<open>unfolding the result combinators\<close>
named_theorems str_simps \<open>laws of the string operations\<close>

type_synonym u8 = "8 word"
type_synonym u16 = "16 word"
type_synonym u32 = "32 word"
type_synonym u64 = "64 word"
type_synonym u128 = "128 word"

section \<open>Results\<close>

type_synonym ('e, 'a) result = "'e + 'a"

abbreviation Err :: "'e \<Rightarrow> ('e, 'a) result" where
  "Err \<equiv> Inl"

abbreviation Ok :: "'a \<Rightarrow> ('e, 'a) result" where
  "Ok \<equiv> Inr"

text \<open>Rust's \<^verbatim>\<open>?\<close>: the first error ends the computation.\<close>

definition and_then :: "('e, 'a) result \<Rightarrow> ('a \<Rightarrow> ('e, 'b) result) \<Rightarrow> ('e, 'b) result" where
  "and_then r f = (case r of Inl e \<Rightarrow> Inl e | Inr x \<Rightarrow> f x)"

lemma and_then_simps [simp, res_simps]:
  "and_then (Inl e) f = Inl e"
  "and_then (Inr x) f = f x"
  by (simp_all add: and_then_def)

lemma and_then_Inr_iff:
  "and_then r f = Inr y \<longleftrightarrow> (\<exists>x. r = Inr x \<and> f x = Inr y)"
  by (cases r) auto

lemma and_then_Inl_iff:
  "and_then r f = Inl e \<longleftrightarrow> r = Inl e \<or> (\<exists>x. r = Inr x \<and> f x = Inl e)"
  by (cases r) auto

lemma and_then_split:
  "P (and_then r f) \<longleftrightarrow> (\<forall>e. r = Inl e \<longrightarrow> P (Inl e)) \<and> (\<forall>x. r = Inr x \<longrightarrow> P (f x))"
  by (cases r) auto

definition map_ok :: "('a \<Rightarrow> 'b) \<Rightarrow> ('e, 'a) result \<Rightarrow> ('e, 'b) result" where
  "map_ok f r = and_then r (\<lambda>x. Inr (f x))"

definition map_err :: "('e \<Rightarrow> 'f) \<Rightarrow> ('e, 'a) result \<Rightarrow> ('f, 'a) result" where
  "map_err f r = (case r of Inl e \<Rightarrow> Inl (f e) | Inr x \<Rightarrow> Inr x)"

lemma map_ok_simps [simp, res_simps]:
  "map_ok f (Inl e) = Inl e"
  "map_ok f (Inr x) = Inr (f x)"
  by (simp_all add: map_ok_def)

lemma map_ok_Inr_iff: "map_ok f r = Inr y \<longleftrightarrow> (\<exists>x. r = Inr x \<and> y = f x)"
  by (cases r) auto

lemma map_err_simps [simp, res_simps]:
  "map_err f (Inl e) = Inl (f e)"
  "map_err f (Inr x) = Inr x"
  by (simp_all add: map_err_def)

lemma map_err_Inr_iff: "map_err f r = Inr x \<longleftrightarrow> r = Inr x"
  by (cases r) auto

text \<open>\<^verbatim>\<open>collect::<Result<Vec<_>, _>>()\<close>: every element, or the first error.\<close>

fun collect :: "('a \<Rightarrow> ('e, 'b) result) \<Rightarrow> 'a list \<Rightarrow> ('e, 'b list) result" where
  "collect f [] = Inr []"
| "collect f (x # xs) = and_then (f x) (\<lambda>y. and_then (collect f xs) (\<lambda>ys. Inr (y # ys)))"

lemma collect_Inr_iff:
  "collect f xs = Inr ys \<longleftrightarrow> list_all2 (\<lambda>x y. f x = Inr y) xs ys"
proof (induction xs arbitrary: ys)
  case Nil
  then show ?case by auto
next
  case (Cons x xs)
  show ?case
    by (cases ys) (auto simp: and_then_Inr_iff Cons)
qed

lemma collect_set: "collect f xs = Inr ys \<Longrightarrow> y \<in> set ys \<longleftrightarrow> (\<exists>x \<in> set xs. f x = Inr y)"
  by (induction xs arbitrary: ys) (auto simp: and_then_Inr_iff)

lemma collect_map_inverse:
  "(\<And>y. y \<in> set ys \<Longrightarrow> f (g y) = Inr y) \<Longrightarrow> collect f (map g ys) = Inr ys"
  by (induction ys) auto

lemma collect_append:
  "collect f (xs @ ys) =
     and_then (collect f xs) (\<lambda>as. and_then (collect f ys) (\<lambda>bs. Inr (as @ bs)))"
proof (induction xs)
  case Nil
  show ?case by (cases "collect f ys") auto
next
  case (Cons x xs)
  show ?case
    by (cases "f x"; cases "collect f xs"; cases "collect f ys") (auto simp: Cons)
qed

lemma not_isl_Ok: "\<not> isl r \<Longrightarrow> \<exists>x. r = Ok x"
  by (cases r) auto

definition ok_and :: "('e, 'a) result \<Rightarrow> ('a \<Rightarrow> bool) \<Rightarrow> bool" where
  "ok_and r P = (case r of Inl _ \<Rightarrow> False | Inr x \<Rightarrow> P x)"

lemma ok_and_iff: "ok_and r P \<longleftrightarrow> (\<exists>x. r = Ok x \<and> P x)"
  by (cases r) (auto simp: ok_and_def)

section \<open>Arithmetic\<close>

lemma mod_less_of_less: "i < n \<Longrightarrow> m mod n < (n :: nat)"
  by (cases n) simp_all

lemma rotate_onto:
  assumes "k < (n :: nat)"
  shows "(c + (k + (n - c mod n)) mod n) mod n = k"
proof -
  have "c mod n < n" using assms by (rule mod_less_of_less)
  then have "c + (k + (n - c mod n)) = k + n + n * (c div n)"
    using mult_div_mod_eq [of n c] by linarith
  moreover have "(k + n + n * (c div n)) mod n = k" using assms by simp
  ultimately show ?thesis by (metis mod_add_right_eq)
qed

lemma rotate_back:
  assumes "c < (n :: nat)" and "i < n"
  shows "((c + i) mod n + n - c) mod n = i"
proof (cases "c + i < n")
  case True
  then have "(c + i) mod n + n - c = i + n" by simp
  with assms(2) show ?thesis by simp
next
  case False
  then have "(c + i) mod n = c + i - n" using assms by (simp add: mod_if)
  with False assms show ?thesis by simp
qed

end
