(* ===== verification/Iso_Strings.thy ===== *)
theory Iso_Strings
  imports Iso_Prelude
begin

text \<open>
  The operations of Rust's \<^verbatim>\<open>str\<close> the program uses, over UTF-8 bytes:
  ASCII case, splitting, trimming of Unicode white space, and the decimal and
  hexadecimal numerals of \<^verbatim>\<open>fmt\<close> and \<^verbatim>\<open>FromStr\<close>.
\<close>

section \<open>ASCII classes and case\<close>

definition byte :: "char \<Rightarrow> nat" where
  "byte c = of_char c"

definition ascii_digit :: "char \<Rightarrow> bool" where
  "ascii_digit c \<longleftrightarrow> 48 \<le> byte c \<and> byte c \<le> 57"

definition ascii_upper :: "char \<Rightarrow> bool" where
  "ascii_upper c \<longleftrightarrow> 65 \<le> byte c \<and> byte c \<le> 90"

definition ascii_lower :: "char \<Rightarrow> bool" where
  "ascii_lower c \<longleftrightarrow> 97 \<le> byte c \<and> byte c \<le> 122"

definition ascii_alphanumeric :: "char \<Rightarrow> bool" where
  "ascii_alphanumeric c \<longleftrightarrow> ascii_digit c \<or> ascii_upper c \<or> ascii_lower c"

definition lower_char :: "char \<Rightarrow> char" where
  "lower_char c = (if ascii_upper c then char_of (byte c + 32) else c)"

definition to_ascii_lowercase :: "string \<Rightarrow> string" where
  "to_ascii_lowercase s = map lower_char s"

lemma byte_less: "byte c < 256"
  unfolding byte_def by (metis mod_less_divisor of_char_mod_256 zero_less_numeral)

lemma byte_inj: "byte c = byte d \<longleftrightarrow> c = d"
  by (simp add: byte_def)

lemma byte_char_of: "n < 256 \<Longrightarrow> byte (char_of n) = n"
  by (simp add: byte_def)

lemma byte_lower_char: "byte (lower_char c) = (if ascii_upper c then byte c + 32 else byte c)"
  by (auto simp: lower_char_def ascii_upper_def byte_char_of)

lemma lower_char_not_upper [simp]: "\<not> ascii_upper (lower_char c)"
  by (auto simp: ascii_upper_def byte_lower_char)

lemma lower_char_id: "\<not> ascii_upper c \<Longrightarrow> lower_char c = c"
  by (simp add: lower_char_def)

lemma lower_char_idem [simp]: "lower_char (lower_char c) = lower_char c"
  by (simp add: lower_char_id)

lemma lowercase_idem [simp]:
  "to_ascii_lowercase (to_ascii_lowercase s) = to_ascii_lowercase s"
  by (simp add: to_ascii_lowercase_def)

lemma lowercase_append [simp]:
  "to_ascii_lowercase (s @ t) = to_ascii_lowercase s @ to_ascii_lowercase t"
  by (simp add: to_ascii_lowercase_def)

lemma lowercase_Nil_iff [simp]:
  "to_ascii_lowercase s = [] \<longleftrightarrow> s = []"
  "[] = to_ascii_lowercase s \<longleftrightarrow> s = []"
  by (simp_all add: to_ascii_lowercase_def)

lemma length_lowercase [simp]: "length (to_ascii_lowercase s) = length s"
  by (simp add: to_ascii_lowercase_def)

definition lowercase :: "string \<Rightarrow> bool" where
  "lowercase s \<longleftrightarrow> list_all (\<lambda>c. \<not> ascii_upper c) s"

lemma lowercase_lowercase [simp]: "lowercase (to_ascii_lowercase s)"
  by (simp add: lowercase_def to_ascii_lowercase_def list_all_iff)

lemma to_ascii_lowercase_id: "lowercase s \<Longrightarrow> to_ascii_lowercase s = s"
  by (simp add: lowercase_def to_ascii_lowercase_def list_all_iff lower_char_id map_idI)

lemma lowercase_iff: "lowercase s \<longleftrightarrow> to_ascii_lowercase s = s"
  by (metis lowercase_lowercase to_ascii_lowercase_id)

text \<open>\<^verbatim>\<open>eq_ignore_ascii_case\<close>\<close>

definition eq_ignore_ascii_case :: "string \<Rightarrow> string \<Rightarrow> bool" where
  "eq_ignore_ascii_case s t \<longleftrightarrow> to_ascii_lowercase s = to_ascii_lowercase t"

section \<open>Prefixes, suffixes and splitting\<close>

text \<open>\<^verbatim>\<open>strip_prefix\<close>, \<^verbatim>\<open>starts_with\<close>, \<^verbatim>\<open>ends_with\<close> and \<^verbatim>\<open>contains\<close>\<close>

fun strip_prefix :: "string \<Rightarrow> string \<Rightarrow> string option" where
  "strip_prefix [] s = Some s"
| "strip_prefix (p # ps) [] = None"
| "strip_prefix (p # ps) (c # cs) = (if p = c then strip_prefix ps cs else None)"

definition starts_with :: "string \<Rightarrow> string \<Rightarrow> bool" where
  "starts_with p s \<longleftrightarrow> strip_prefix p s \<noteq> None"

definition ends_with :: "string \<Rightarrow> string \<Rightarrow> bool" where
  "ends_with p s \<longleftrightarrow> strip_prefix (rev p) (rev s) \<noteq> None"

lemma strip_prefix_Some_iff: "strip_prefix p s = Some r \<longleftrightarrow> s = p @ r"
  by (induction p s rule: strip_prefix.induct) auto

lemma strip_prefix_None_iff: "strip_prefix p s = None \<longleftrightarrow> \<not> prefix p s"
  by (auto simp: prefix_def) (metis not_None_eq strip_prefix_Some_iff)+

lemma starts_with_iff: "starts_with p s \<longleftrightarrow> prefix p s"
  by (simp add: starts_with_def strip_prefix_None_iff)

lemma ends_with_iff: "ends_with p s \<longleftrightarrow> suffix p s"
  by (simp add: ends_with_def strip_prefix_None_iff suffix_to_prefix)

text \<open>\<^verbatim>\<open>split(d)\<close>: always at least one piece.\<close>

fun split_on :: "char \<Rightarrow> string \<Rightarrow> string list" where
  "split_on d [] = [[]]"
| "split_on d (c # cs) =
     (if c = d then [] # split_on d cs
      else (case split_on d cs of [] \<Rightarrow> [[c]] | p # ps \<Rightarrow> (c # p) # ps))"

fun join_with :: "char \<Rightarrow> string list \<Rightarrow> string" where
  "join_with d [] = []"
| "join_with d [p] = p"
| "join_with d (p # q # ps) = p @ d # join_with d (q # ps)"

lemma split_on_not_Nil [simp]: "split_on d s \<noteq> []"
  by (induction s) (auto split: list.splits)

lemma split_on_no_sep: "d \<notin> set s \<Longrightarrow> split_on d s = [s]"
  by (induction s) auto

lemma split_on_append:
  "d \<notin> set p \<Longrightarrow> split_on d (p @ d # s) = p # split_on d s"
  by (induction p) auto

lemma join_split: "join_with d (split_on d s) = s"
proof (induction s)
  case Nil
  then show ?case by simp
next
  case (Cons c cs)
  obtain p ps where ps: "split_on d cs = p # ps"
    by (cases "split_on d cs") auto
  show ?case
    using Cons by (cases ps) (auto simp: ps)
qed

lemma split_join:
  "ps \<noteq> [] \<Longrightarrow> \<forall>p \<in> set ps. d \<notin> set p \<Longrightarrow> split_on d (join_with d ps) = ps"
  by (induction d ps rule: join_with.induct) (auto simp: split_on_no_sep split_on_append)

lemma split_on_pieces: "p \<in> set (split_on d s) \<Longrightarrow> d \<notin> set p"
  by (induction s arbitrary: p) (auto split: list.splits if_splits)

lemma join_with_Cons: "ps \<noteq> [] \<Longrightarrow> join_with d (p # ps) = p @ d # join_with d ps"
  by (cases ps) auto

lemma concat_join: "ps \<noteq> [] \<Longrightarrow> concat (map (\<lambda>p. d # p) ps) = d # join_with d ps"
  by (induction d ps rule: join_with.induct) auto

text \<open>\<^verbatim>\<open>split_once(pat)\<close> with a string pattern: at its first occurrence.\<close>

fun split_once :: "string \<Rightarrow> string \<Rightarrow> (string \<times> string) option" where
  "split_once pat [] = (if pat = [] then Some ([], []) else None)"
| "split_once pat (c # cs) =
     (case strip_prefix pat (c # cs) of
        Some r \<Rightarrow> Some ([], r)
      | None \<Rightarrow> map_option (\<lambda>(a, b). (c # a, b)) (split_once pat cs))"

lemma split_once_SomeD: "split_once pat s = Some (a, b) \<Longrightarrow> s = a @ pat @ b"
  by (induction s arbitrary: a b)
    (auto split: option.splits if_splits simp: strip_prefix_Some_iff)

lemma split_once_first:
  "hd pat \<notin> set a \<Longrightarrow> pat \<noteq> [] \<Longrightarrow> split_once pat (a @ pat @ b) = Some (a, b)"
proof (induction a)
  case Nil
  then obtain c cs where "pat = c # cs" by (cases pat) auto
  moreover have "strip_prefix pat (pat @ b) = Some b"
    by (simp add: strip_prefix_Some_iff)
  ultimately show ?case by simp
next
  case (Cons c a)
  then obtain p ps where pat: "pat = p # ps" by (cases pat) auto
  with Cons.prems have "strip_prefix pat (c # a @ pat @ b) = None"
    by auto
  with Cons show ?case by simp
qed

text \<open>\<^verbatim>\<open>rsplit_once(d)\<close> with a single character: at its last occurrence.\<close>

definition rsplit_once :: "char \<Rightarrow> string \<Rightarrow> (string \<times> string) option" where
  "rsplit_once d s =
     (case split_once [d] (rev s) of
        None \<Rightarrow> None
      | Some (a, b) \<Rightarrow> Some (rev b, rev a))"

lemma split_once_None_iff: "split_once [d] s = None \<longleftrightarrow> d \<notin> set s"
  by (induction s) (auto split: option.splits)

lemma rsplit_once_None_iff: "rsplit_once d s = None \<longleftrightarrow> d \<notin> set s"
  by (auto simp: rsplit_once_def split_once_None_iff split: option.splits dest: split_once_SomeD)
    (metis option.distinct(1) set_rev split_once_None_iff)

lemma rsplit_once_last: "d \<notin> set b \<Longrightarrow> rsplit_once d (a @ d # b) = Some (a, b)"
  using split_once_first [of "[d]" "rev b" "rev a"] by (simp add: rsplit_once_def)

lemma rsplit_once_SomeD: "rsplit_once d s = Some (a, b) \<Longrightarrow> s = a @ d # b"
  by (auto simp: rsplit_once_def split: option.splits dest!: split_once_SomeD)
    (metis append.assoc append_Cons append_Nil rev.simps(2) rev_append rev_rev_ident)

text \<open>\<^verbatim>\<open>trim_end_matches(d)\<close>\<close>

definition trim_end_matches :: "char \<Rightarrow> string \<Rightarrow> string" where
  "trim_end_matches d s = rev (dropWhile (\<lambda>c. c = d) (rev s))"

lemma trim_end_matches_id: "s = [] \<or> last s \<noteq> d \<Longrightarrow> trim_end_matches d s = s"
  by (cases s rule: rev_cases) (auto simp: trim_end_matches_def)

lemma trim_end_matches_snoc: "trim_end_matches d (s @ [d]) = trim_end_matches d s"
  by (simp add: trim_end_matches_def)

lemma trim_end_matches_last: "trim_end_matches d s = [] \<or> last (trim_end_matches d s) \<noteq> d"
proof (cases "dropWhile (\<lambda>c. c = d) (rev s)")
  case Nil
  then show ?thesis by (simp add: trim_end_matches_def)
next
  case (Cons c cs)
  then have "c \<noteq> d" by (metis (mono_tags, lifting) hd_dropWhile list.distinct(1) list.sel(1))
  with Cons show ?thesis by (simp add: trim_end_matches_def)
qed

section \<open>White space\<close>

text \<open>
  \<^verbatim>\<open>char::is_whitespace\<close> is Unicode's \<^verbatim>\<open>White_Space\<close>: U+0009..U+000D, U+0020,
  U+0085, U+00A0, U+1680, U+2000..U+200A, U+2028, U+2029, U+202F, U+205F and
  U+3000. In UTF-8 these take one, two or three bytes.
\<close>

definition ws1 :: "char \<Rightarrow> bool" where
  "ws1 c \<longleftrightarrow> (9 \<le> byte c \<and> byte c \<le> 13) \<or> byte c = 32"

definition ws2 :: "char \<Rightarrow> char \<Rightarrow> bool" where
  "ws2 a b \<longleftrightarrow> byte a = 194 \<and> (byte b = 133 \<or> byte b = 160)"

definition ws3 :: "char \<Rightarrow> char \<Rightarrow> char \<Rightarrow> bool" where
  "ws3 a b c \<longleftrightarrow>
     (byte a = 225 \<and> byte b = 154 \<and> byte c = 128) \<or>
     (byte a = 226 \<and> byte b = 128 \<and>
       ((128 \<le> byte c \<and> byte c \<le> 138) \<or> byte c = 168 \<or> byte c = 169 \<or> byte c = 175)) \<or>
     (byte a = 226 \<and> byte b = 129 \<and> byte c = 159) \<or>
     (byte a = 227 \<and> byte b = 128 \<and> byte c = 128)"

text \<open>How many bytes the white space at the front takes (0: there is none).\<close>

fun ws_len :: "string \<Rightarrow> nat" where
  "ws_len (a # b # c # _) =
     (if ws1 a then 1 else if ws2 a b then 2 else if ws3 a b c then 3 else 0)"
| "ws_len [a, b] = (if ws1 a then 1 else if ws2 a b then 2 else 0)"
| "ws_len [a] = (if ws1 a then 1 else 0)"
| "ws_len [] = 0"

text \<open>The same at the back, on the reversed string.\<close>

fun ws_len_rev :: "string \<Rightarrow> nat" where
  "ws_len_rev (c # b # a # _) =
     (if ws1 c then 1 else if ws2 b c then 2 else if ws3 a b c then 3 else 0)"
| "ws_len_rev [c, b] = (if ws1 c then 1 else if ws2 b c then 2 else 0)"
| "ws_len_rev [c] = (if ws1 c then 1 else 0)"
| "ws_len_rev [] = 0"

lemma ws_len_le: "ws_len s \<le> length s"
  by (induction s rule: ws_len.induct) auto

lemma ws_len_rev_le: "ws_len_rev s \<le> length s"
  by (induction s rule: ws_len_rev.induct) auto

function trim_start :: "string \<Rightarrow> string" where
  "trim_start s = (if ws_len s = 0 then s else trim_start (drop (ws_len s) s))"
  by pat_completeness auto
termination
proof (relation "measure length")
  fix s :: string
  assume "ws_len s \<noteq> 0"
  moreover have "s \<noteq> []" using \<open>ws_len s \<noteq> 0\<close> by auto
  ultimately show "(drop (ws_len s) s, s) \<in> measure length"
    by (cases s) auto
qed simp

function trim_rev :: "string \<Rightarrow> string" where
  "trim_rev s = (if ws_len_rev s = 0 then s else trim_rev (drop (ws_len_rev s) s))"
  by pat_completeness auto
termination
proof (relation "measure length")
  fix s :: string
  assume "ws_len_rev s \<noteq> 0"
  moreover have "s \<noteq> []" using \<open>ws_len_rev s \<noteq> 0\<close> by auto
  ultimately show "(drop (ws_len_rev s) s, s) \<in> measure length"
    by (cases s) auto
qed simp

declare trim_start.simps [simp del] trim_rev.simps [simp del]

definition trim_end :: "string \<Rightarrow> string" where
  "trim_end s = rev (trim_rev (rev s))"

definition trim :: "string \<Rightarrow> string" where
  "trim s = trim_end (trim_start s)"

lemma trim_start_id: "ws_len s = 0 \<Longrightarrow> trim_start s = s"
  by (subst trim_start.simps) simp

lemma trim_end_id: "ws_len_rev (rev s) = 0 \<Longrightarrow> trim_end s = s"
  by (subst trim_end_def, subst trim_rev.simps) simp

lemma trim_id: "ws_len s = 0 \<Longrightarrow> ws_len_rev (rev s) = 0 \<Longrightarrow> trim s = s"
  by (simp add: trim_def trim_start_id trim_end_id)

lemma ws_len_trim_start: "ws_len (trim_start s) = 0"
  by (induction s rule: trim_start.induct) (metis trim_start.simps)

lemma ws_len_rev_trim_rev: "ws_len_rev (trim_rev s) = 0"
  by (induction s rule: trim_rev.induct) (metis trim_rev.simps)

lemma ws_len_rev_trim [simp]: "ws_len_rev (rev (trim s)) = 0"
  by (simp add: trim_def trim_end_def ws_len_rev_trim_rev)

text \<open>\<^verbatim>\<open>split_once(char::is_whitespace)\<close>: at the first white space character.\<close>

fun split_once_ws :: "string \<Rightarrow> (string \<times> string) option" where
  "split_once_ws [] = None"
| "split_once_ws (c # cs) =
     (if ws_len (c # cs) > 0 then Some ([], drop (ws_len (c # cs)) (c # cs))
      else map_option (\<lambda>(a, b). (c # a, b)) (split_once_ws cs))"

text \<open>Plain ASCII text: no byte starts or ends a white space character.\<close>

definition plain :: "char \<Rightarrow> bool" where
  "plain c \<longleftrightarrow> 33 \<le> byte c \<and> byte c \<le> 127"

lemma plain_ws:
  "plain c \<Longrightarrow> \<not> ws1 c" "plain a \<Longrightarrow> \<not> ws2 a b" "plain b \<Longrightarrow> \<not> ws2 a b"
  "plain a \<Longrightarrow> \<not> ws3 a b c" "plain b \<Longrightarrow> \<not> ws3 a b c" "plain c \<Longrightarrow> \<not> ws3 a b c"
  by (auto simp: plain_def ws1_def ws2_def ws3_def)

lemma ws_len_plain: "plain c \<Longrightarrow> ws_len (c # cs) = 0"
  by (cases "c # cs" rule: ws_len.cases) (auto simp: plain_ws)

lemma ws_len_rev_plain: "plain c \<Longrightarrow> ws_len_rev (c # cs) = 0"
  by (cases "c # cs" rule: ws_len_rev.cases) (auto simp: plain_ws)

text \<open>What lies before a plain byte has no say in how the text ends.\<close>

lemma ws_len_rev_before_plain:
  assumes "plain d"
  shows "ws_len_rev (rev p @ d # y) = ws_len_rev (rev p @ [d])"
proof -
  have "ws_len_rev (q @ d # y) = ws_len_rev (q @ [d])" for q
    by (cases q rule: ws_len_rev.cases; cases y rule: ws_len_rev.cases)
      (use assms in \<open>auto simp: plain_ws ws_len_rev_plain\<close>)
  then show ?thesis .
qed

lemma split_once_ws_plain:
  "list_all plain a \<Longrightarrow> split_once_ws (a @ CHR '' '' # b) = Some (a, b)"
proof (induction a)
  case Nil
  show ?case by (cases "CHR '' '' # b" rule: ws_len.cases) (auto simp: ws1_def byte_def)
next
  case (Cons c a)
  then show ?case by (simp add: ws_len_plain)
qed

lemma suffix_trim_start: "suffix (trim_start s) s"
proof (induction s rule: trim_start.induct)
  case (1 s)
  then show ?case
    by (metis suffix_drop suffix_order.trans suffix_order.refl trim_start.simps)
qed

lemma split_once_ws_suffix: "split_once_ws s = Some (a, r) \<Longrightarrow> suffix r s"
proof (induction s arbitrary: a r)
  case Nil
  then show ?case by simp
next
  case (Cons c cs)
  show ?case
  proof (cases "ws_len (c # cs) > 0")
    case True
    with Cons.prems show ?thesis by (auto intro: suffix_drop simp del: ws_len.simps)
  next
    case False
    with Cons.prems obtain a' where "split_once_ws cs = Some (a', r)"
      by (auto simp del: ws_len.simps)
    then show ?thesis by (auto dest: Cons.IH intro: suffix_ConsI)
  qed
qed

section \<open>Decimal numerals\<close>

definition digit :: "nat \<Rightarrow> char" where
  "digit n = char_of (48 + n)"

fun show_nat :: "nat \<Rightarrow> string" where
  "show_nat n = (if n < 10 then [digit n] else show_nat (n div 10) @ [digit (n mod 10)])"

declare show_nat.simps [simp del]

definition digit_value :: "char \<Rightarrow> nat option" where
  "digit_value c = (if ascii_digit c then Some (byte c - 48) else None)"

fun parse_digits :: "nat \<Rightarrow> string \<Rightarrow> nat option" where
  "parse_digits n [] = Some n"
| "parse_digits n (c # cs) =
     (case digit_value c of None \<Rightarrow> None | Some d \<Rightarrow> parse_digits (10 * n + d) cs)"

text \<open>
  \<^verbatim>\<open>str::parse::<u16>()\<close>: one optional leading plus sign, then at least one digit,
  and the value fits.
\<close>

definition parse_u16 :: "string \<Rightarrow> u16 option" where
  "parse_u16 s =
     (let ds = (case s of c # cs \<Rightarrow> if c = CHR ''+'' then cs else s | [] \<Rightarrow> s) in
      if ds = [] then None
      else (case parse_digits 0 ds of
              None \<Rightarrow> None
            | Some n \<Rightarrow> if n < 65536 then Some (of_nat n) else None))"

lemma digit_value_digit: "n < 10 \<Longrightarrow> digit_value (digit n) = Some n"
  by (simp add: digit_value_def digit_def ascii_digit_def byte_char_of)

lemma parse_digits_append:
  "parse_digits n (s @ t) =
     (case parse_digits n s of None \<Rightarrow> None | Some m \<Rightarrow> parse_digits m t)"
  by (induction s arbitrary: n) (auto split: option.splits)

lemma parse_digits_show_nat: "parse_digits 0 (show_nat n) = Some n"
proof (induction n rule: show_nat.induct)
  case (1 n)
  show ?case
  proof (cases "n < 10")
    case True
    then show ?thesis by (subst show_nat.simps) (simp add: digit_value_digit)
  next
    case False
    with 1 show ?thesis
      by (subst show_nat.simps) (simp add: parse_digits_append digit_value_digit)
  qed
qed

lemma ascii_digit_digit: "n < 10 \<Longrightarrow> ascii_digit (digit n)"
  by (simp add: ascii_digit_def digit_def byte_char_of)

lemma show_nat_digits: "list_all ascii_digit (show_nat n)"
proof (induction n rule: show_nat.induct)
  case (1 n)
  then show ?case
    by (subst show_nat.simps) (auto simp: ascii_digit_digit)
qed

lemma show_nat_not_Nil [simp]: "show_nat n \<noteq> []"
  by (subst show_nat.simps) simp

lemma ascii_digit_plain: "ascii_digit c \<Longrightarrow> plain c"
  by (simp add: ascii_digit_def plain_def)

lemma parse_u16_show_nat: "parse_u16 (show_nat (unat p)) = Some p"
proof -
  obtain c cs where s: "show_nat (unat p) = c # cs"
    by (cases "show_nat (unat p)") auto
  with show_nat_digits [of "unat p"] have "ascii_digit c" by simp
  then have "c \<noteq> CHR ''+''" by (auto simp: ascii_digit_def byte_def)
  with s parse_digits_show_nat [of "unat p"] unsigned_less [of p, where 'a = nat]
  show ?thesis by (simp add: parse_u16_def)
qed

end
