(* ===== verification/Iso_Common.thy ===== *)
theory Iso_Common
  imports Complex_Main Iso_Strings
begin

text \<open>
  The contracts crate (\<^verbatim>\<open>crates/iso-common\<close>) and the control plane's domain types
  (\<^verbatim>\<open>crates/iso-control-plane/src/types.rs\<close>): identifiers, network, storage and VMM
  vocabulary, durable records, and the strings they are stored as. Paths are their
  bytes. A \<^verbatim>\<open>f64\<close> percentage is a rational, or \<open>None\<close> for NaN.
\<close>

section \<open>Hexadecimal\<close>

definition hexdigit :: "nat \<Rightarrow> char" where
  "hexdigit n = (if n < 10 then char_of (48 + n) else char_of (87 + n))"

text \<open>Exactly \<open>k\<close> lower-case digits of \<open>n\<close>, as \<^verbatim>\<open>{:02x}\<close> and \<^verbatim>\<open>{:04x}\<close> print values that fit.\<close>

fun hex_fixed :: "nat \<Rightarrow> nat \<Rightarrow> string" where
  "hex_fixed 0 n = []"
| "hex_fixed (Suc k) n = hex_fixed k (n div 16) @ [hexdigit (n mod 16)]"

definition hex_value :: "char \<Rightarrow> nat option" where
  "hex_value c =
     (if ascii_digit c then Some (byte c - 48)
      else if 97 \<le> byte c \<and> byte c \<le> 102 then Some (byte c - 87)
      else if 65 \<le> byte c \<and> byte c \<le> 70 then Some (byte c - 55)
      else None)"

fun parse_hex :: "nat \<Rightarrow> string \<Rightarrow> nat option" where
  "parse_hex n [] = Some n"
| "parse_hex n (c # cs) =
     (case hex_value c of None \<Rightarrow> None | Some d \<Rightarrow> parse_hex (16 * n + d) cs)"

section \<open>Identifiers\<close>

type_synonym VmId = u128

datatype SlotId = SlotId (slot_get: u16)

definition slot_max :: u16 where
  "slot_max = 32767"

datatype Protocol = P_Tcp | P_Udp

text \<open>\<^verbatim>\<open>iso_common::Error\<close>\<close>

datatype CommonError =
    SlotOutOfRange u16
  | AlreadyProvisioned
  | NotProvisioned
  | DuplicatePortForward u16 Protocol
  | Backend string

definition slot_new :: "u16 \<Rightarrow> (CommonError, SlotId) result" where
  "slot_new v = (if v \<le> slot_max then Ok (SlotId v) else Err (SlotOutOfRange v))"

instantiation SlotId :: linorder
begin

definition less_eq_SlotId :: "SlotId \<Rightarrow> SlotId \<Rightarrow> bool" where
  "less_eq_SlotId a b \<longleftrightarrow> slot_get a \<le> slot_get b"

definition less_SlotId :: "SlotId \<Rightarrow> SlotId \<Rightarrow> bool" where
  "less_SlotId a b \<longleftrightarrow> slot_get a < slot_get b"

instance
  by standard (auto simp: less_eq_SlotId_def less_SlotId_def SlotId.expand)

end

text \<open>\<^verbatim>\<open>u128::to_be_bytes\<close>, and \<^verbatim>\<open>VmId\<close>'s text.\<close>

definition be_bytes :: "VmId \<Rightarrow> nat list" where
  "be_bytes v = map (\<lambda>i. (unat v div 256 ^ (15 - i)) mod 256) [0..<16]"

definition vmid_display :: "VmId \<Rightarrow> string" where
  "vmid_display v =
     (let hx = map (hex_fixed 2) (be_bytes v) in
      concat (take 4 hx) @ ''-'' @ concat (take 2 (drop 4 hx)) @ ''-'' @
      concat (take 2 (drop 6 hx)) @ ''-'' @ concat (take 2 (drop 8 hx)) @ ''-'' @
      concat (drop 10 hx))"

text \<open>\<^verbatim>\<open>u128::from_str_radix(_, 16)\<close> takes one leading plus sign; 32 digits always fit.\<close>

definition vmid_parse :: "string \<Rightarrow> VmId option" where
  "vmid_parse s =
     (let hex = filter (\<lambda>c. c \<noteq> CHR ''-'') s in
      if length hex \<noteq> 32 then None
      else
        let ds = (case hex of c # cs \<Rightarrow> if c = CHR ''+'' then cs else hex | [] \<Rightarrow> hex) in
        map_option of_nat (parse_hex 0 ds))"

section \<open>Network vocabulary\<close>

fun proto_display :: "Protocol \<Rightarrow> string" where
  "proto_display P_Tcp = ''tcp''"
| "proto_display P_Udp = ''udp''"

datatype EgressMode = E_Proxy | E_Deny

record PortForward =
  host_port :: u16
  vm_port :: u16
  proto :: Protocol

record NetworkPolicy =
  np_egress :: EgressMode
  np_ingress :: "PortForward list"
  np_direct :: bool

definition network_policy_default :: NetworkPolicy where
  "network_policy_default = \<lparr>np_egress = E_Deny, np_ingress = [], np_direct = False\<rparr>"

text \<open>IPv4 addresses are 32 bits; a MAC is its six bytes.\<close>

type_synonym Ipv4Addr = u32

datatype MacAddr = MacAddr "u8 list"

record HostNetwork =
  hn_services_addr :: Ipv4Addr
  hn_proxy_port :: u16

record NetworkFixture =
  fx_slot :: SlotId
  fx_netns :: string
  fx_tap :: string
  fx_veth_host :: string
  fx_veth_netns :: string
  fx_vh_ip :: Ipv4Addr
  fx_vp_ip :: Ipv4Addr
  fx_mac :: MacAddr

section \<open>Storage and VMM vocabulary\<close>

type_synonym f64 = "rat option"

definition f64_ge :: "f64 \<Rightarrow> f64 \<Rightarrow> bool" where
  "f64_ge a b = (case (a, b) of (Some x, Some y) \<Rightarrow> y \<le> x | _ \<Rightarrow> False)"

record StorageHandle =
  sh_vm :: VmId
  sh_device_path :: string
  sh_backing_device :: "string option"

record PoolStats =
  ps_backend :: "string option"
  capacity_bytes :: "u64 option"
  filesystem_capacity_bytes :: "u64 option"
  filesystem_available_bytes :: "u64 option"
  data_percent :: f64
  metadata_percent :: f64

record SnapshotRef =
  mem_file :: string
  vmstate :: string

record InstanceSpec =
  is_vm :: VmId
  is_netns :: string
  is_tap :: string
  is_mac :: MacAddr
  is_rootfs_device :: string
  is_vcpus :: u32
  is_mem_mib :: u32
  is_kernel :: string
  is_boot_args :: string
  is_resume_from :: "SnapshotRef option"
  is_rootfs_backing :: "string option"
  is_vsock_cid :: "u32 option"

datatype VmStatus = VS_Absent | VS_Created | VS_Running | VS_Suspended | VS_Stopped

section \<open>Control-plane records\<close>

datatype Lifecycle = Ephemeral | Durable

datatype RestartPolicy = Never | OnFailure | Always

datatype VmState = Creating | Running | Suspended | Stopped | Failed

fun lifecycle_as_str :: "Lifecycle \<Rightarrow> string" where
  "lifecycle_as_str Ephemeral = ''ephemeral''"
| "lifecycle_as_str Durable = ''durable''"

definition lifecycle_parse :: "string \<Rightarrow> Lifecycle option" where
  "lifecycle_parse s =
     (if s = ''ephemeral'' then Some Ephemeral
      else if s = ''durable'' then Some Durable else None)"

fun restart_as_str :: "RestartPolicy \<Rightarrow> string" where
  "restart_as_str Never = ''never''"
| "restart_as_str OnFailure = ''on_failure''"
| "restart_as_str Always = ''always''"

definition restart_parse :: "string \<Rightarrow> RestartPolicy option" where
  "restart_parse s =
     (if s = ''never'' then Some Never
      else if s = ''on_failure'' then Some OnFailure
      else if s = ''always'' then Some Always else None)"

fun vmstate_as_str :: "VmState \<Rightarrow> string" where
  "vmstate_as_str Creating = ''creating''"
| "vmstate_as_str Running = ''running''"
| "vmstate_as_str Suspended = ''suspended''"
| "vmstate_as_str Stopped = ''stopped''"
| "vmstate_as_str Failed = ''failed''"

definition vmstate_parse :: "string \<Rightarrow> VmState option" where
  "vmstate_parse s =
     (if s = ''creating'' then Some Creating
      else if s = ''running'' then Some Running
      else if s = ''suspended'' then Some Suspended
      else if s = ''stopped'' then Some Stopped
      else if s = ''failed'' then Some Failed else None)"

fun egress_str :: "EgressMode \<Rightarrow> string" where
  "egress_str E_Proxy = ''proxy''"
| "egress_str E_Deny = ''deny''"

definition egress_parse :: "string \<Rightarrow> EgressMode option" where
  "egress_parse s =
     (if s = ''proxy'' then Some E_Proxy else if s = ''deny'' then Some E_Deny else None)"

text \<open>\<^verbatim>\<open>iso_common::identify::SignedPolicy\<close>\<close>

record SignedPolicy =
  sp_claims :: string
  sp_sig :: string

type_synonym Labels = "(string \<times> string) list"

record TemplateDef =
  t_name :: string
  t_rootfs_template :: string
  t_snapshot :: "SnapshotRef option"
  t_vcpus :: u32
  t_mem_mib :: u32
  t_kernel :: string
  t_boot_args :: string

record VmRecord =
  v_id :: VmId
  v_slot :: "SlotId option"
  v_template :: string
  v_egress :: EgressMode
  v_ingress :: "PortForward list"
  v_labels :: Labels
  v_lifecycle :: Lifecycle
  v_restart :: RestartPolicy
  v_vcpus :: "u32 option"
  v_mem_mib :: "u32 option"
  v_state :: VmState
  v_rootfs_device :: "string option"
  v_tap :: "string option"
  v_principal :: "string option"
  v_allow :: "string list"
  v_rules :: "string list"
  v_policy_gen :: u64
  v_signed :: "SignedPolicy option"
  v_snapshot :: "SnapshotRef option"

record CreateVm =
  c_id :: "VmId option"
  c_template :: string
  c_egress :: EgressMode
  c_ingress :: "PortForward list"
  c_labels :: Labels
  c_lifecycle :: Lifecycle
  c_restart :: RestartPolicy
  c_vcpus :: "u32 option"
  c_mem_mib :: "u32 option"
  c_principal :: "string option"
  c_allow :: "string list"
  c_rules :: "string list"
  c_signed :: "SignedPolicy option"

definition create_vm_new :: "string \<Rightarrow> CreateVm" where
  "create_vm_new template =
     \<lparr>c_id = None, c_template = template, c_egress = E_Deny, c_ingress = [], c_labels = [],
      c_lifecycle = Ephemeral, c_restart = Never, c_vcpus = None, c_mem_mib = None,
      c_principal = None, c_allow = [], c_rules = [], c_signed = None\<rparr>"

section \<open>Lemmas\<close>

named_theorems enum_roundtrip \<open>parsing what an enum prints\<close>

lemma lifecycle_roundtrip [simp, enum_roundtrip]: "lifecycle_parse (lifecycle_as_str x) = Some x"
  by (cases x) (simp_all add: lifecycle_parse_def)

lemma restart_roundtrip [simp, enum_roundtrip]: "restart_parse (restart_as_str x) = Some x"
  by (cases x) (simp_all add: restart_parse_def)

lemma vmstate_roundtrip [simp, enum_roundtrip]: "vmstate_parse (vmstate_as_str x) = Some x"
  by (cases x) (simp_all add: vmstate_parse_def)

lemma egress_roundtrip [simp, enum_roundtrip]: "egress_parse (egress_str x) = Some x"
  by (cases x) (simp_all add: egress_parse_def)

lemma slot_new_Ok_iff: "slot_new v = Ok s \<longleftrightarrow> v \<le> slot_max \<and> s = SlotId v"
  by (auto simp: slot_new_def)

lemma byte_hexdigit:
  "n < 16 \<Longrightarrow> byte (hexdigit n) = (if n < 10 then 48 + n else 87 + n)"
  by (simp add: hexdigit_def byte_char_of)

lemma hex_value_hexdigit: "n < 16 \<Longrightarrow> hex_value (hexdigit n) = Some n"
  by (simp add: hex_value_def ascii_digit_def byte_hexdigit)

lemma hexdigit_not_sign: "n < 16 \<Longrightarrow> hexdigit n \<noteq> CHR ''-'' \<and> hexdigit n \<noteq> CHR ''+''"
  using byte_hexdigit [of n] by (auto simp: byte_def split: if_splits)

lemma length_hex_fixed [simp]: "length (hex_fixed k n) = k"
  by (induction k arbitrary: n) auto

lemma hex_fixed_chars: "c \<in> set (hex_fixed k n) \<Longrightarrow> c \<noteq> CHR ''-'' \<and> c \<noteq> CHR ''+''"
  by (induction k arbitrary: n) (auto simp: hexdigit_not_sign)

lemma parse_hex_append:
  "parse_hex n (s @ t) = (case parse_hex n s of None \<Rightarrow> None | Some m \<Rightarrow> parse_hex m t)"
  by (induction s arbitrary: n) (auto split: option.splits)

lemma parse_hex_fixed: "parse_hex m (hex_fixed k n) = Some (m * 16 ^ k + n mod 16 ^ k)"
proof (induction k arbitrary: n)
  case 0
  then show ?case by simp
next
  case (Suc k)
  have "n mod 16 ^ Suc k = 16 * (n div 16 mod 16 ^ k) + n mod 16"
    by (simp add: mod_mult2_eq)
  moreover have "parse_hex m (hex_fixed (Suc k) n) =
      Some (16 * (m * 16 ^ k + n div 16 mod 16 ^ k) + n mod 16)"
    by (simp add: parse_hex_append hex_value_hexdigit Suc)
  ultimately show ?case by (simp only: power_Suc distrib_left ac_simps)
qed

lemma hex_fixed_inj:
  assumes "hex_fixed k m = hex_fixed k n" and "m < 16 ^ k" and "n < 16 ^ k"
  shows "m = n"
proof -
  have "m mod 16 ^ k = n mod 16 ^ k"
    using parse_hex_fixed [of 0 k m] parse_hex_fixed [of 0 k n]
    by (metis add_0 assms(1) mult_zero_left option.inject)
  with assms(2,3) show ?thesis by (metis mod_less)
qed

lemma parse_hex_bytes:
  "parse_hex m (concat (map (hex_fixed 2) bs)) = Some (foldl (\<lambda>a b. 256 * a + b mod 256) m bs)"
proof (induction bs arbitrary: m)
  case Nil
  then show ?case by simp
next
  case (Cons b bs)
  have "parse_hex m (hex_fixed 2 b) = Some (256 * m + b mod 256)"
    using parse_hex_fixed [of m 2 b] by (simp del: hex_fixed.simps)
  with Cons show ?case by (simp add: parse_hex_append del: hex_fixed.simps)
qed

lemma foldl_be_bytes:
  "foldl (\<lambda>a b. 256 * a + b mod 256) 0 (be_bytes v) = unat v"
proof -
  have "foldl (\<lambda>a b. 256 * a + b mod 256) 0
      (map (\<lambda>i. (n div 256 ^ (k - Suc i)) mod 256) [0..<k]) = n mod 256 ^ k" for n k :: nat
  proof (induction k arbitrary: n)
    case 0
    then show ?case by simp
  next
    case (Suc k)
    have "map (\<lambda>i. n div 256 ^ (Suc k - Suc i) mod 256) [0..<k] =
        map (\<lambda>i. (n div 256) div 256 ^ (k - Suc i) mod 256) [0..<k]"
      by (rule map_cong) (auto simp: Suc_diff_Suc simp flip: div_mult2_eq power_Suc)
    with Suc [of "n div 256"] have "foldl (\<lambda>a b. 256 * a + b mod 256) 0
        (map (\<lambda>i. n div 256 ^ (Suc k - Suc i) mod 256) [0..<k]) = n div 256 mod 256 ^ k"
      by metis
    then show ?case by (simp add: mod_mult2_eq)
  qed
  from this [where k = 16 and n = "unat v"] unsigned_less [of v, where 'a = nat]
  show ?thesis by (simp add: be_bytes_def)
qed

lemma vmid_display_digits:
  "filter (\<lambda>c. c \<noteq> CHR ''-'') (vmid_display v) = concat (map (hex_fixed 2) (be_bytes v))"
proof -
  let ?hx = "map (hex_fixed 2) (be_bytes v)"
  have keep: "filter (\<lambda>c. c \<noteq> CHR ''-'') (concat xs) = concat xs" if "set xs \<subseteq> set ?hx" for xs
    using that hex_fixed_chars by (intro filter_True) fastforce
  have sub: "set (take i ?hx) \<subseteq> set ?hx" "set (drop i ?hx) \<subseteq> set ?hx"
    "set (take i (drop j ?hx)) \<subseteq> set ?hx" for i j
    using set_take_subset set_drop_subset by (metis order.trans)+
  have split: "take 4 xs @ take 2 (drop 4 xs) @ take 2 (drop 6 xs) @
      take 2 (drop 8 xs) @ drop 10 xs = xs" for xs :: "string list"
    using append_take_drop_id [of 2 "drop 8 xs"] append_take_drop_id [of 2 "drop 6 xs"]
      append_take_drop_id [of 2 "drop 4 xs"] append_take_drop_id [of 4 xs]
    by simp
  have "filter (\<lambda>c. c \<noteq> CHR ''-'') (vmid_display v) =
      concat (take 4 ?hx) @ concat (take 2 (drop 4 ?hx)) @ concat (take 2 (drop 6 ?hx)) @
      concat (take 2 (drop 8 ?hx)) @ concat (drop 10 ?hx)"
    by (simp only: vmid_display_def Let_def filter_append)
      (simp only: keep [OF sub(1)] keep [OF sub(2)] keep [OF sub(3)] filter.simps simp_thms if_False append.simps)
  also have "\<dots> = concat ?hx" by (simp only: concat_append [symmetric] split)
  finally show ?thesis .
qed

lemma vmid_parse_display [simp]: "vmid_parse (vmid_display v) = Some v"
proof -
  let ?ds = "concat (map (hex_fixed 2) (be_bytes v))"
  have len: "length ?ds = 32"
    by (simp add: be_bytes_def length_concat o_def sum_list_triv)
  then obtain c cs where ds: "?ds = c # cs" by (cases ?ds) auto
  have "c \<in> set ?ds" by (simp add: ds)
  then have "c \<noteq> CHR ''+''" using hex_fixed_chars by auto
  moreover have "parse_hex 0 ?ds = Some (unat v)"
    by (simp only: parse_hex_bytes foldl_be_bytes)
  ultimately show ?thesis
    using len by (simp add: vmid_parse_def vmid_display_digits ds del: concat.simps)
qed

lemma vmid_display_inj [simp]: "vmid_display v = vmid_display w \<longleftrightarrow> v = w"
  by (metis vmid_parse_display option.inject)

end
