(* ===== verification/Iso_Net.thy ===== *)
theory Iso_Net
  imports Iso_Common
begin

text \<open>
  The network manager's pure core (\<^verbatim>\<open>crates/iso-network-manager\<close>): the fixtures a slot
  stands for (\<^verbatim>\<open>fixture.rs\<close>), the declarative plan (\<^verbatim>\<open>plan.rs\<close>), the rules it renders
  to (\<^verbatim>\<open>nft.rs\<close>) and the manager's validation and address arithmetic (\<^verbatim>\<open>manager.rs\<close>).
  A rendered rule is its list of matches and its verdict; what the kernel does with
  them (first match in a chain, the chain's policy otherwise, a drop in any table is
  final) is written out as the evaluation of a packet. Netlink calls are not modelled.
\<close>

section \<open>Configuration and fixtures\<close>

record NetConfig =
  veth_net :: Ipv4Addr
  inner_tap :: Ipv4Addr
  inner_vm :: Ipv4Addr
  services :: Ipv4Addr
  proxy_port :: u16
  service_ports :: "(Protocol \<times> u16) list"
  uplink :: string
  host_addr :: "Ipv4Addr option"
  cfg_mac :: MacAddr
  tap_mac :: MacAddr
  tap_name :: string
  tap_owner :: "(u32 \<times> u32) option"

definition ipv4 :: "nat \<Rightarrow> nat \<Rightarrow> nat \<Rightarrow> nat \<Rightarrow> Ipv4Addr" where
  "ipv4 a b c d = of_nat (((a * 256 + b) * 256 + c) * 256 + d)"

definition net_config_default :: NetConfig where
  "net_config_default =
     \<lparr>veth_net = ipv4 172 21 0 0, inner_tap = ipv4 172 20 0 0, inner_vm = ipv4 172 20 0 1,
      services = ipv4 172 22 0 1, proxy_port = 3128,
      service_ports = [(P_Udp, 53), (P_Tcp, 53), (P_Tcp, 80)],
      uplink = ''eth0'', host_addr = None,
      cfg_mac = MacAddr [2, 0, 0, 0, 0, 1], tap_mac = MacAddr [2, 0, 0, 0, 0, 0],
      tap_name = ''tap0'', tap_owner = None\<rparr>"

definition derive :: "SlotId \<Rightarrow> NetConfig \<Rightarrow> NetworkFixture" where
  "derive slot cfg =
     (let s = unat (slot_get slot); base = veth_net cfg in
      \<lparr>fx_slot = slot,
       fx_netns = ''vm'' @ hex_fixed 4 s,
       fx_tap = tap_name cfg,
       fx_veth_host = ''vm'' @ hex_fixed 4 s,
       fx_veth_netns = ''vp'' @ hex_fixed 4 s,
       fx_vh_ip = base + of_nat s * 2,
       fx_vp_ip = base + of_nat s * 2 + 1,
       fx_mac = cfg_mac cfg\<rparr>)"

section \<open>Plans\<close>

datatype ChainKind = Prerouting | Forward | Input | Output | Postrouting

datatype NftRule =
    AcceptEstablished
  | AcceptInbound string string
  | AcceptEgress string string
  | AcceptService string Ipv4Addr Protocol u16
  | DropToNet string Ipv4Addr nat
  | DropFrom string
  | Masquerade Ipv4Addr string
  | Snat string Ipv4Addr
  | Dnat string Protocol u16 Ipv4Addr u16
  | DnatInner string Ipv4Addr Protocol u16 Ipv4Addr
  | DnatHairpin Ipv4Addr Protocol u16 Ipv4Addr u16
  | RedirectProxy string Ipv4Addr Protocol Ipv4Addr u16

record ChainSpec =
  cs_kind :: ChainKind
  cs_rules :: "NftRule list"

record Ruleset =
  tbl_name :: string
  tbl_chains :: "ChainSpec list"

record Route =
  rt_dest :: "(Ipv4Addr \<times> nat) option"
  rt_gateway :: Ipv4Addr

record Plan =
  pl_fixture :: NetworkFixture
  pl_host :: Ruleset
  pl_netns :: Ruleset
  pl_routes :: "Route list"
  pl_sysctls :: "(string \<times> string) list"
  pl_inner_tap :: Ipv4Addr

definition table_name :: "SlotId \<Rightarrow> string" where
  "table_name slot = ''iso_vm'' @ hex_fixed 4 (unat (slot_get slot))"

definition host_prerouting :: "NetworkFixture \<Rightarrow> NetworkPolicy \<Rightarrow> NetConfig \<Rightarrow> NftRule list" where
  "host_prerouting fx policy cfg =
     map (\<lambda>f. Dnat (uplink cfg) (proto f) (host_port f) (fx_vp_ip fx) (vm_port f)) (np_ingress policy) @
     (if np_egress policy = E_Proxy \<and> \<not> np_direct policy
      then map (\<lambda>pr. RedirectProxy (fx_veth_host fx) (services cfg) pr (services cfg) (proxy_port cfg))
             [P_Tcp, P_Udp]
      else [])"

definition host_forward :: "NetworkFixture \<Rightarrow> NetworkPolicy \<Rightarrow> NetConfig \<Rightarrow> NftRule list" where
  "host_forward fx policy cfg =
     [AcceptEstablished, AcceptInbound (uplink cfg) (fx_veth_host fx),
      DropToNet (fx_veth_host fx) (veth_net cfg) 16] @
     (if np_direct policy \<and> np_egress policy \<noteq> E_Deny
      then [AcceptEgress (fx_veth_host fx) (uplink cfg)] else []) @
     [DropFrom (fx_veth_host fx)]"

definition host_input :: "NetworkFixture \<Rightarrow> NetConfig \<Rightarrow> NftRule list" where
  "host_input fx cfg =
     [AcceptEstablished] @
     map (\<lambda>(pr, dport). AcceptService (fx_veth_host fx) (services cfg) pr dport)
       (service_ports cfg @ [(P_Tcp, proxy_port cfg)]) @
     [DropFrom (fx_veth_host fx)]"

definition host_output :: "NetworkFixture \<Rightarrow> NetworkPolicy \<Rightarrow> NetConfig \<Rightarrow> ChainSpec list" where
  "host_output fx policy cfg =
     (case host_addr cfg of
        None \<Rightarrow> []
      | Some ha \<Rightarrow>
          let output = map (\<lambda>f. DnatHairpin ha (proto f) (host_port f) (fx_vp_ip fx) (vm_port f))
                         (np_ingress policy)
          in if output \<noteq> [] then [\<lparr>cs_kind = Output, cs_rules = output\<rparr>] else [])"

definition host_ruleset :: "NetworkFixture \<Rightarrow> NetworkPolicy \<Rightarrow> NetConfig \<Rightarrow> Ruleset" where
  "host_ruleset fx policy cfg =
     \<lparr>tbl_name = table_name (fx_slot fx),
      tbl_chains =
        [\<lparr>cs_kind = Prerouting, cs_rules = host_prerouting fx policy cfg\<rparr>,
         \<lparr>cs_kind = Forward, cs_rules = host_forward fx policy cfg\<rparr>,
         \<lparr>cs_kind = Input, cs_rules = host_input fx cfg\<rparr>,
         \<lparr>cs_kind = Postrouting, cs_rules = [Masquerade (fx_vp_ip fx) (uplink cfg)]\<rparr>] @
        host_output fx policy cfg\<rparr>"

definition netns_ruleset :: "NetworkFixture \<Rightarrow> NetworkPolicy \<Rightarrow> NetConfig \<Rightarrow> Ruleset" where
  "netns_ruleset fx policy cfg =
     \<lparr>tbl_name = ''iso'',
      tbl_chains =
        [\<lparr>cs_kind = Postrouting, cs_rules = [Snat (fx_veth_netns fx) (fx_vp_ip fx)]\<rparr>,
         \<lparr>cs_kind = Prerouting,
          cs_rules = map (\<lambda>f. DnatInner (fx_veth_netns fx) (fx_vp_ip fx) (proto f) (vm_port f)
                            (inner_vm cfg)) (np_ingress policy)\<rparr>]\<rparr>"

definition plan_routes :: "NetworkFixture \<Rightarrow> NetworkPolicy \<Rightarrow> NetConfig \<Rightarrow> Route list" where
  "plan_routes fx policy cfg =
     [\<lparr>rt_dest = Some (services cfg, 32), rt_gateway = fx_vh_ip fx\<rparr>] @
     (if np_egress policy \<noteq> E_Deny then [\<lparr>rt_dest = None, rt_gateway = fx_vh_ip fx\<rparr>] else [])"

definition plan_sysctls :: "(string \<times> string) list" where
  "plan_sysctls = [(''net.ipv4.ip_forward'', ''1''), (''net.ipv4.conf.all.rp_filter'', ''2'')]"

definition plan_build :: "NetworkFixture \<Rightarrow> NetworkPolicy \<Rightarrow> NetConfig \<Rightarrow> Plan" where
  "plan_build fx policy cfg =
     \<lparr>pl_fixture = fx, pl_host = host_ruleset fx policy cfg, pl_netns = netns_ruleset fx policy cfg,
      pl_routes = plan_routes fx policy cfg, pl_sysctls = plan_sysctls,
      pl_inner_tap = inner_tap cfg\<rparr>"

section \<open>The manager\<close>

text \<open>The loop of \<^verbatim>\<open>Manager::validate\<close>, with its set of pairs seen.\<close>

fun validate_loop ::
  "(u16 \<times> Protocol) set \<Rightarrow> PortForward list \<Rightarrow> (CommonError, unit) result" where
  "validate_loop seen [] = Ok ()"
| "validate_loop seen (f # fs) =
     (if (host_port f, proto f) \<in> seen then Err (DuplicatePortForward (host_port f) (proto f))
      else validate_loop (insert (host_port f, proto f) seen) fs)"

definition validate :: "NetworkPolicy \<Rightarrow> (CommonError, unit) result" where
  "validate policy = validate_loop {} (np_ingress policy)"

definition manager_plan :: "NetConfig \<Rightarrow> SlotId \<Rightarrow> NetworkPolicy \<Rightarrow> (CommonError, Plan) result" where
  "manager_plan cfg slot policy =
     and_then (validate policy) (\<lambda>_. Ok (plan_build (derive slot cfg) policy cfg))"

text \<open>\<^verbatim>\<open>checked_sub\<close> fails below the base; \<^verbatim>\<open>(offset / 2) as u16\<close> of an offset below \<open>2^16\<close>.\<close>

definition address_to_slot :: "NetConfig \<Rightarrow> Ipv4Addr \<Rightarrow> SlotId option" where
  "address_to_slot cfg addr =
     (if addr < veth_net cfg then None
      else
        let offset = addr - veth_net cfg in
        if offset \<ge> 65536 then None
        else (case slot_new (of_nat (unat offset div 2)) of Inr s \<Rightarrow> Some s | Inl _ \<Rightarrow> None))"

section \<open>Rendered rules and packets\<close>

datatype CtState = CtNew | CtEstablished | CtRelated | CtInvalid

datatype L4 = L4 Protocol u16 | OtherL4

record Packet =
  pk_iif :: string
  pk_oif :: string
  pk_src :: Ipv4Addr
  pk_dst :: Ipv4Addr
  pk_l4 :: L4
  pk_ct :: CtState

datatype NftMatch =
    MIif string
  | MOif string
  | MSaddr Ipv4Addr
  | MDaddr Ipv4Addr
  | MDaddrNot Ipv4Addr
  | MDnetwork Ipv4Addr nat
  | MDport u16 Protocol
  | MProtocol Protocol
  | MCtState "CtState list"

datatype NftVerdict = VAccept | VDrop | VMasquerade | VSnat Ipv4Addr | VDnat Ipv4Addr "u16 option"

fun build_rule :: "NftRule \<Rightarrow> NftMatch list \<times> NftVerdict" where
  "build_rule AcceptEstablished = ([MCtState [CtEstablished, CtRelated]], VAccept)"
| "build_rule (AcceptInbound iif oif) = ([MIif iif, MOif oif, MCtState [CtNew]], VAccept)"
| "build_rule (AcceptEgress iif oif) = ([MIif iif, MOif oif], VAccept)"
| "build_rule (AcceptService iif daddr pr dport) = ([MIif iif, MDaddr daddr, MDport dport pr], VAccept)"
| "build_rule (DropToNet iif net pfx) = ([MIif iif, MDnetwork net pfx], VDrop)"
| "build_rule (DropFrom iif) = ([MIif iif], VDrop)"
| "build_rule (Masquerade saddr oif) = ([MSaddr saddr, MOif oif], VMasquerade)"
| "build_rule (Snat oif to) = ([MOif oif], VSnat to)"
| "build_rule (Dnat iif pr dport to to_port) = ([MIif iif, MDport dport pr], VDnat to (Some to_port))"
| "build_rule (DnatInner iif daddr pr dport to) = ([MIif iif, MDaddr daddr, MDport dport pr], VDnat to None)"
| "build_rule (DnatHairpin ha pr hp to to_port) = ([MDaddr ha, MDport hp pr], VDnat to (Some to_port))"
| "build_rule (RedirectProxy iif except pr to to_port) =
     ([MIif iif, MDaddrNot except, MProtocol pr], VDnat to (Some to_port))"

datatype ChainType = ChainNat | ChainFilter

text \<open>\<^verbatim>\<open>chain_attrs\<close>: type, priority and policy; every chain hooks where its kind says.\<close>

fun chain_attrs :: "ChainKind \<Rightarrow> ChainType \<times> int \<times> NftVerdict option" where
  "chain_attrs Prerouting = (ChainNat, -100, None)"
| "chain_attrs Postrouting = (ChainNat, 100, None)"
| "chain_attrs Output = (ChainNat, -100, None)"
| "chain_attrs Forward = (ChainFilter, 0, Some VAccept)"
| "chain_attrs Input = (ChainFilter, 0, Some VAccept)"

definition same_prefix :: "nat \<Rightarrow> Ipv4Addr \<Rightarrow> Ipv4Addr \<Rightarrow> bool" where
  "same_prefix n a b \<longleftrightarrow> drop_bit (32 - n) a = drop_bit (32 - n) b"

fun match_packet :: "Packet \<Rightarrow> NftMatch \<Rightarrow> bool" where
  "match_packet p (MIif i) = (pk_iif p = i)"
| "match_packet p (MOif i) = (pk_oif p = i)"
| "match_packet p (MSaddr a) = (pk_src p = a)"
| "match_packet p (MDaddr a) = (pk_dst p = a)"
| "match_packet p (MDaddrNot a) = (pk_dst p \<noteq> a)"
| "match_packet p (MDnetwork net n) = same_prefix n (pk_dst p) net"
| "match_packet p (MDport d pr) = (pk_l4 p = L4 pr d)"
| "match_packet p (MProtocol pr) = (case pk_l4 p of L4 q _ \<Rightarrow> q = pr | OtherL4 \<Rightarrow> False)"
| "match_packet p (MCtState ss) = (pk_ct p \<in> set ss)"

fun eval_rules :: "NftRule list \<Rightarrow> Packet \<Rightarrow> NftVerdict" where
  "eval_rules [] p = VAccept"
| "eval_rules (r # rs) p =
     (if list_all (match_packet p) (fst (build_rule r)) then snd (build_rule r) else eval_rules rs p)"

text \<open>The verdict of one table at a hook; a table without a chain there lets the packet pass.\<close>

definition eval_hook :: "ChainKind \<Rightarrow> Ruleset \<Rightarrow> Packet \<Rightarrow> NftVerdict" where
  "eval_hook k t p =
     (case find (\<lambda>c. cs_kind c = k) (tbl_chains t) of
        None \<Rightarrow> VAccept
      | Some c \<Rightarrow> eval_rules (cs_rules c) p)"

text \<open>A packet is filtered out at a hook as soon as one table drops it there.\<close>

definition dropped_at :: "ChainKind \<Rightarrow> Ruleset list \<Rightarrow> Packet \<Rightarrow> bool" where
  "dropped_at k ts p = list_ex (\<lambda>t. eval_hook k t p = VDrop) ts"

section \<open>Lemmas\<close>

text \<open>The address plan: the base leaves room for the /16, and slots are valid.\<close>

definition wf_net :: "NetConfig \<Rightarrow> bool" where
  "wf_net cfg \<longleftrightarrow> unat (veth_net cfg) + 65536 \<le> 2 ^ 32"

definition wf_slot :: "SlotId \<Rightarrow> bool" where
  "wf_slot s \<longleftrightarrow> slot_get s \<le> slot_max"

lemma wf_slot_less: "wf_slot s \<longleftrightarrow> unat (slot_get s) < 32768"
  by (auto simp: wf_slot_def slot_max_def word_le_nat_alt)

lemma unat_add_of_nat:
  "unat (b :: u32) + 65536 \<le> 2 ^ 32 \<Longrightarrow> k < 65536 \<Longrightarrow> unat (b + of_nat k) = unat b + k"
  by (simp add: unat_word_ariths unat_of_nat)

lemma fixture_addrs:
  "fx_vh_ip (derive s cfg) = veth_net cfg + of_nat (2 * unat (slot_get s))"
  "fx_vp_ip (derive s cfg) = veth_net cfg + of_nat (2 * unat (slot_get s) + 1)"
proof -
  have "b + of_nat n * 2 = b + (of_nat (2 * n) :: u32)"
    "b + of_nat n * 2 + 1 = b + (of_nat (2 * n + 1) :: u32)" for b n
    by simp_all
  then show "fx_vh_ip (derive s cfg) = veth_net cfg + of_nat (2 * unat (slot_get s))"
    "fx_vp_ip (derive s cfg) = veth_net cfg + of_nat (2 * unat (slot_get s) + 1)"
    by (simp_all only: derive_def Let_def NetworkFixture.select_convs)
qed

lemma unat_vh: "wf_net cfg \<Longrightarrow> wf_slot s \<Longrightarrow>
    unat (fx_vh_ip (derive s cfg)) = unat (veth_net cfg) + 2 * unat (slot_get s)"
  unfolding fixture_addrs by (intro unat_add_of_nat) (simp_all add: wf_net_def wf_slot_less)

lemma unat_vp: "wf_net cfg \<Longrightarrow> wf_slot s \<Longrightarrow>
    unat (fx_vp_ip (derive s cfg)) = unat (veth_net cfg) + (2 * unat (slot_get s) + 1)"
  unfolding fixture_addrs by (intro unat_add_of_nat) (simp_all add: wf_net_def wf_slot_less)

lemma hex_3: "hex_fixed 4 3 = ''0003''"
  by code_simp

lemma address_to_slot_eq:
  "address_to_slot cfg addr =
     (if unat addr < unat (veth_net cfg) \<or> unat (veth_net cfg) + 65536 \<le> unat addr then None
      else Some (SlotId (of_nat ((unat addr - unat (veth_net cfg)) div 2))))"
proof (cases "unat addr < unat (veth_net cfg)")
  case True
  then show ?thesis by (simp add: address_to_slot_def word_less_nat_alt)
next
  case False
  let ?off = "unat addr - unat (veth_net cfg)"
  have off: "unat (addr - veth_net cfg) = ?off"
    using False by (intro unat_sub) (simp add: word_le_nat_alt)
  have "slot_new (of_nat (?off div 2)) = Ok (SlotId (of_nat (?off div 2)))" if "?off < 65536"
    using that by (simp add: slot_new_def slot_max_def word_le_nat_alt unat_of_nat)
  moreover have "\<not> addr < veth_net cfg" using False by (simp add: word_less_nat_alt)
  moreover have "65536 \<le> addr - veth_net cfg \<longleftrightarrow> 65536 \<le> ?off"
    using off by (simp add: word_le_nat_alt)
  ultimately show ?thesis
    using False by (auto simp: address_to_slot_def Let_def off)
qed

lemma slotid_of_nat_unat [simp]: "SlotId (of_nat (unat (slot_get s))) = s"
  by (cases s) simp

lemma derive_fields [simp]:
  "fx_slot (derive s cfg) = s"
  "fx_veth_host (derive s cfg) = ''vm'' @ hex_fixed 4 (unat (slot_get s))"
  "fx_netns (derive s cfg) = ''vm'' @ hex_fixed 4 (unat (slot_get s))"
  "fx_veth_netns (derive s cfg) = ''vp'' @ hex_fixed 4 (unat (slot_get s))"
  "fx_tap (derive s cfg) = tap_name cfg"
  by (simp_all add: derive_def Let_def)

lemma hex_slot_inj:
  "hex_fixed 4 (unat (slot_get a)) = hex_fixed 4 (unat (slot_get b)) \<longleftrightarrow> a = b"
proof
  assume eq: "hex_fixed 4 (unat (slot_get a)) = hex_fixed 4 (unat (slot_get b))"
  have "unat (slot_get a) < 16 ^ 4" "unat (slot_get b) < 16 ^ 4"
    using unsigned_less [of "slot_get a", where 'a = nat] unsigned_less [of "slot_get b", where 'a = nat]
    by simp_all
  with eq have "unat (slot_get a) = unat (slot_get b)" by (rule hex_fixed_inj)
  then show "a = b" by (metis slotid_of_nat_unat)
qed simp

lemma validate_loop_Ok_iff:
  "validate_loop seen fs = Ok () \<longleftrightarrow>
     distinct (map (\<lambda>f. (host_port f, proto f)) fs) \<and>
     seen \<inter> set (map (\<lambda>f. (host_port f, proto f)) fs) = {}"
  by (induction seen fs rule: validate_loop.induct) auto

lemma eval_hook_host:
  "eval_hook Forward (host_ruleset fx policy cfg) p = eval_rules (host_forward fx policy cfg) p"
  "eval_hook Input (host_ruleset fx policy cfg) p = eval_rules (host_input fx cfg) p"
  "eval_hook Prerouting (host_ruleset fx policy cfg) p = eval_rules (host_prerouting fx policy cfg) p"
  by (simp_all add: eval_hook_def host_ruleset_def)

lemma eval_rules_append:
  "list_all (\<lambda>r. \<not> list_all (match_packet p) (fst (build_rule r))) rs \<Longrightarrow>
     eval_rules (rs @ qs) p = eval_rules qs p"
  by (induction rs) auto

lemma eval_rules_no_match:
  "list_all (\<lambda>r. \<not> list_all (match_packet p) (fst (build_rule r))) rs \<Longrightarrow> eval_rules rs p = VAccept"
  by (induction rs) auto

lemma host_input_accept:
  assumes "pk_ct p \<notin> {CtEstablished, CtRelated}" and "pk_iif p = fx_veth_host fx"
  shows "eval_rules (host_input fx cfg) p =
    (if pk_dst p = services cfg \<and>
        (\<exists>(pr, d) \<in> set (service_ports cfg @ [(P_Tcp, proxy_port cfg)]). pk_l4 p = L4 pr d)
     then VAccept else VDrop)"
proof -
  have "eval_rules (map (\<lambda>(pr, d). AcceptService (fx_veth_host fx) (services cfg) pr d) ps @
      [DropFrom (fx_veth_host fx)]) p =
    (if pk_dst p = services cfg \<and> (\<exists>(pr, d) \<in> set ps. pk_l4 p = L4 pr d) then VAccept else VDrop)"
    for ps
    using assms(2) by (induction ps) auto
  from this [of "service_ports cfg @ [(P_Tcp, proxy_port cfg)]"] assms(1) show ?thesis
    by (simp add: host_input_def)
qed

lemma address_to_slot_iff:
  assumes "wf_net cfg"
  shows "address_to_slot cfg addr = Some s \<longleftrightarrow>
    wf_slot s \<and> (addr = fx_vh_ip (derive s cfg) \<or> addr = fx_vp_ip (derive s cfg))"
proof
  let ?b = "unat (veth_net cfg)" and ?a = "unat addr"
  assume "address_to_slot cfg addr = Some s"
  then have range: "?b \<le> ?a" "?a < ?b + 65536" and s: "s = SlotId (of_nat ((?a - ?b) div 2))"
    by (auto simp: address_to_slot_eq split: if_splits)
  then have us: "unat (slot_get s) = (?a - ?b) div 2"
    by (simp add: unat_of_nat)
  then have wf: "wf_slot s" using range by (simp add: wf_slot_less)
  have "?a = ?b + 2 * unat (slot_get s) \<or> ?a = ?b + 2 * unat (slot_get s) + 1"
    using us range by linarith
  then show "wf_slot s \<and> (addr = fx_vh_ip (derive s cfg) \<or> addr = fx_vp_ip (derive s cfg))"
    using wf unat_vh [OF assms wf] unat_vp [OF assms wf] by (auto simp: word_unat_eq_iff)
next
  assume "wf_slot s \<and> (addr = fx_vh_ip (derive s cfg) \<or> addr = fx_vp_ip (derive s cfg))"
  then have wf: "wf_slot s"
    and "unat addr = unat (veth_net cfg) + 2 * unat (slot_get s) \<or>
      unat addr = unat (veth_net cfg) + 2 * unat (slot_get s) + 1"
    using unat_vh [OF assms] unat_vp [OF assms] by auto
  moreover from this have "(unat addr - unat (veth_net cfg)) div 2 = unat (slot_get s)" by auto
  ultimately show "address_to_slot cfg addr = Some s"
    by (auto simp: address_to_slot_eq wf_slot_less)
qed

section \<open>Properties of the network plan\<close>

text \<open>The slot is the address allocation, in both directions. The two addresses of a
  slot map back to it, and any address that maps to a slot is one of that slot's two; so
  the address a service sees names at most one slot.\<close>

theorem address_to_slot_exact:
  assumes "wf_net cfg"
  shows "address_to_slot cfg addr = Some s \<longleftrightarrow>
    wf_slot s \<and> (addr = fx_vh_ip (derive s cfg) \<or> addr = fx_vp_ip (derive s cfg))"
  using assms by (rule address_to_slot_iff)

theorem address_to_slot_exact_witness:
  "wf_net net_config_default \<and>
   address_to_slot net_config_default (fx_vp_ip (derive (SlotId 7) net_config_default)) = Some (SlotId 7)"
proof -
  have wf: "wf_net net_config_default"
    by (simp add: wf_net_def net_config_default_def ipv4_def)
  moreover have "wf_slot (SlotId 7)" by (simp add: wf_slot_def slot_max_def)
  ultimately show ?thesis using address_to_slot_exact [OF wf] by blast
qed

text \<open>slots do not overlap. Two different slots share no address, no namespace, no
  interface and no table.\<close>

theorem fixtures_disjoint:
  assumes "wf_net cfg" and "wf_slot a" and "wf_slot b" and "a \<noteq> b"
  shows "{fx_vh_ip (derive a cfg), fx_vp_ip (derive a cfg)} \<inter>
           {fx_vh_ip (derive b cfg), fx_vp_ip (derive b cfg)} = {} \<and>
    fx_netns (derive a cfg) \<noteq> fx_netns (derive b cfg) \<and>
    {fx_veth_host (derive a cfg), fx_veth_netns (derive a cfg)} \<inter>
      {fx_veth_host (derive b cfg), fx_veth_netns (derive b cfg)} = {} \<and>
    table_name a \<noteq> table_name b"
proof -
  have u: "unat (slot_get a) \<noteq> unat (slot_get b)"
    using assms(4) by (metis slotid_of_nat_unat)
  have "{fx_vh_ip (derive a cfg), fx_vp_ip (derive a cfg)} \<inter>
      {fx_vh_ip (derive b cfg), fx_vp_ip (derive b cfg)} = {}"
    using unat_vh [OF assms(1,2)] unat_vp [OF assms(1,2)] unat_vh [OF assms(1,3)]
      unat_vp [OF assms(1,3)] u
    by (auto simp: word_unat_eq_iff)
  moreover have "hex_fixed 4 (unat (slot_get a)) \<noteq> hex_fixed 4 (unat (slot_get b))"
    using assms(4) hex_slot_inj by blast
  ultimately show ?thesis by (simp add: table_name_def)
qed

theorem fixtures_disjoint_witness:
  "fx_netns (derive (SlotId 1) net_config_default) \<noteq> fx_netns (derive (SlotId 2) net_config_default)"
proof -
  have "wf_net net_config_default" "wf_slot (SlotId 1)" "wf_slot (SlotId 2)"
    by (simp_all add: wf_net_def net_config_default_def ipv4_def wf_slot_def slot_max_def)
  from fixtures_disjoint [OF this] show ?thesis by simp
qed

text \<open>C39: no VM the control plane places has a way out of its own. Whatever its egress
  mode and forwards, and whatever other slots' tables are loaded, a packet that starts a
  flow from its interface is dropped at the forward hook.\<close>

theorem no_forwarded_egress:
  assumes "\<not> np_direct policy" and "pk_iif p = fx_veth_host fx"
    and "pk_ct p \<notin> {CtEstablished, CtRelated}" and "fx_veth_host fx \<noteq> uplink cfg"
    and "host_ruleset fx policy cfg \<in> set tables"
  shows "dropped_at Forward tables p"
proof -
  have "eval_hook Forward (host_ruleset fx policy cfg) p = VDrop"
    using assms(1-4) by (simp add: eval_hook_host host_forward_def)
  with assms(5) show ?thesis by (auto simp: dropped_at_def list_ex_iff)
qed

theorem no_forwarded_egress_witness:
  "dropped_at Forward
     [host_ruleset (derive (SlotId 3) net_config_default)
        \<lparr>np_egress = E_Proxy, np_ingress = [], np_direct = False\<rparr> net_config_default]
     \<lparr>pk_iif = ''vm0003'', pk_oif = ''eth0'', pk_src = 7, pk_dst = 9, pk_l4 = L4 P_Tcp 443, pk_ct = CtNew\<rparr>"
proof (rule no_forwarded_egress)
  show "fx_veth_host (derive (SlotId 3) net_config_default) \<noteq> uplink net_config_default"
    by (simp add: net_config_default_def)
  show "pk_iif \<lparr>pk_iif = ''vm0003'', pk_oif = ''eth0'', pk_src = 7, pk_dst = 9,
      pk_l4 = L4 P_Tcp 443, pk_ct = CtNew\<rparr> = fx_veth_host (derive (SlotId 3) net_config_default)"
    by (simp add: hex_3)
qed simp_all

text \<open>what a VM may open on the host itself: exactly the ports iso serves on the
  services address, in every mode. A flow it starts to anything else on the host is
  dropped at the input hook.\<close>

theorem host_services_only:
  assumes "pk_iif p = fx_veth_host fx" and "pk_ct p \<notin> {CtEstablished, CtRelated}"
  shows "eval_hook Input (host_ruleset fx policy cfg) p =
    (if pk_dst p = services cfg \<and>
        (\<exists>(pr, d) \<in> set (service_ports cfg @ [(P_Tcp, proxy_port cfg)]). pk_l4 p = L4 pr d)
     then VAccept else VDrop)"
  using host_input_accept [OF assms(2,1)] by (simp add: eval_hook_host)

theorem host_services_only_witness:
  "eval_hook Input (host_ruleset (derive (SlotId 3) net_config_default) network_policy_default net_config_default)
     \<lparr>pk_iif = ''vm0003'', pk_oif = [], pk_src = 7, pk_dst = services net_config_default,
      pk_l4 = L4 P_Tcp 22, pk_ct = CtNew\<rparr> = VDrop"
proof -
  have "fx_veth_host (derive (SlotId 3) net_config_default) = ''vm0003''" by (simp add: hex_3)
  then show ?thesis
    by (subst host_services_only) (simp_all add: net_config_default_def)
qed

text \<open>the proxy intercept is complete. In proxy mode every TCP or UDP packet from the
  VM that is not for the services address is redirected to the proxy; in deny mode nothing
  is, and no default route exists inside the namespace.\<close>

theorem proxy_intercept:
  assumes "pk_iif p = fx_veth_host fx" and "fx_veth_host fx \<noteq> uplink cfg"
    and "pk_l4 p \<noteq> OtherL4" and "pk_dst p \<noteq> services cfg" and "\<not> np_direct policy"
  shows "eval_hook Prerouting (host_ruleset fx policy cfg) p =
      (if np_egress policy = E_Proxy then VDnat (services cfg) (Some (proxy_port cfg)) else VAccept) \<and>
    (\<lparr>rt_dest = None, rt_gateway = fx_vh_ip fx\<rparr> \<in> set (plan_routes fx policy cfg) \<longleftrightarrow>
      np_egress policy = E_Proxy)"
proof -
  have skip: "eval_rules (map (\<lambda>f. Dnat (uplink cfg) (proto f) (host_port f) (fx_vp_ip fx) (vm_port f)) fs @ rs) p =
      eval_rules rs p" for fs rs
    using assms(1,2) by (induction fs) auto
  obtain pr d where l4: "pk_l4 p = L4 pr d" using assms(3) by (cases "pk_l4 p") auto
  have mode: "np_egress policy \<noteq> E_Deny \<longleftrightarrow> np_egress policy = E_Proxy"
    by (cases "np_egress policy") auto
  have "eval_rules (host_prerouting fx policy cfg) p =
      (if np_egress policy = E_Proxy then VDnat (services cfg) (Some (proxy_port cfg)) else VAccept)"
    unfolding host_prerouting_def skip using assms(1,4,5) l4 by (cases pr) auto
  with mode show ?thesis by (simp add: eval_hook_host plan_routes_def)
qed

theorem proxy_intercept_witness:
  "eval_hook Prerouting
     (host_ruleset (derive (SlotId 3) net_config_default)
        \<lparr>np_egress = E_Proxy, np_ingress = [], np_direct = False\<rparr> net_config_default)
     \<lparr>pk_iif = ''vm0003'', pk_oif = [], pk_src = 7, pk_dst = 9, pk_l4 = L4 P_Udp 53, pk_ct = CtNew\<rparr>
   = VDnat (services net_config_default) (Some 3128)"
proof -
  have "fx_veth_host (derive (SlotId 3) net_config_default) = ''vm0003''" by (simp add: hex_3)
  moreover have "services net_config_default \<noteq> 9" by (simp add: net_config_default_def ipv4_def)
  ultimately show ?thesis
    using proxy_intercept [of "\<lparr>pk_iif = ''vm0003'', pk_oif = [], pk_src = 7, pk_dst = 9,
        pk_l4 = L4 P_Udp 53, pk_ct = CtNew\<rparr>" "derive (SlotId 3) net_config_default" net_config_default
        "\<lparr>np_egress = E_Proxy, np_ingress = [], np_direct = False\<rparr>"]
    by (simp add: net_config_default_def)
qed

text \<open>A policy is planned exactly when no host port and protocol is forwarded twice,
  and a refusal names a pair that is.\<close>

theorem manager_plan_spec:
  "case manager_plan cfg slot policy of
     Inr plan \<Rightarrow> distinct (map (\<lambda>f. (host_port f, proto f)) (np_ingress policy)) \<and>
       plan = plan_build (derive slot cfg) policy cfg
   | Inl e \<Rightarrow> (\<exists>i j. i < j \<and> j < length (np_ingress policy) \<and>
       e = DuplicatePortForward (host_port (np_ingress policy ! j)) (proto (np_ingress policy ! j)) \<and>
       (host_port (np_ingress policy ! i), proto (np_ingress policy ! i)) =
       (host_port (np_ingress policy ! j), proto (np_ingress policy ! j)))"
proof -
  let ?key = "\<lambda>f. (host_port f, proto f)"
  have err: "\<exists>j < length fs. e = DuplicatePortForward (host_port (fs ! j)) (proto (fs ! j)) \<and>
      (?key (fs ! j) \<in> seen \<or> (\<exists>i < j. ?key (fs ! i) = ?key (fs ! j)))"
    if "validate_loop seen fs = Inl e" for seen fs e
    using that
  proof (induction seen fs rule: validate_loop.induct)
    case (2 seen f fs)
    show ?case
    proof (cases "?key f \<in> seen")
      case True
      with 2 show ?thesis by (intro exI [of _ 0]) auto
    next
      case False
      with 2 obtain j where "j < length fs"
        "e = DuplicatePortForward (host_port (fs ! j)) (proto (fs ! j))"
        "?key (fs ! j) \<in> insert (?key f) seen \<or> (\<exists>i < j. ?key (fs ! i) = ?key (fs ! j))"
        by auto
      then show ?thesis
        by (intro exI [of _ "Suc j"]) (force simp: nth_Cons' dest: spec [of _ "Suc _"])
    qed
  qed simp
  show ?thesis
  proof (cases "validate policy")
    case (Inl e)
    with err [of "{}" "np_ingress policy" e] show ?thesis
      by (fastforce simp: manager_plan_def validate_def)
  next
    case (Inr u)
    with validate_loop_Ok_iff [of "{}" "np_ingress policy"] show ?thesis
      by (simp add: manager_plan_def validate_def)
  qed
qed

end
