(* ===== verification/Iso_Policy.thy ===== *)
theory Iso_Policy
  imports Iso_Strings
begin

text \<open>
  The egress rule language of \<^verbatim>\<open>crates/iso-policy/src/lib.rs\<close>: host and path
  patterns, rules, their parser and printer, and the evaluation of a rule set
  in its two phases. Error messages are kept as the data they are formatted from.
\<close>

section \<open>Data\<close>

text \<open>The fixed explanations \<^verbatim>\<open>HostPattern::parse\<close> and \<^verbatim>\<open>PathPattern::parse\<close> give.\<close>

datatype host_reason = HostEmpty | HostStar | HostLabels | HostChars
datatype path_reason = PathSlash | PathQuery | PathRestLast | PathStar
datatype tunnel_reason = TunnelNeedsTcp | TcpIsTunnelled | TcpNamesPort | TcpHasNoPath

datatype ParseError =
    PE_Action string
  | PE_Scheme string
  | PE_Tunnel tunnel_reason string
  | PE_Host string host_reason
  | PE_Port string
  | PE_Path string path_reason

datatype Action = Allow | Deny | Tunnel

datatype Scheme = Https | Wss | Tcp

fun scheme_as_str :: "Scheme \<Rightarrow> string" where
  "scheme_as_str Https = ''https''"
| "scheme_as_str Wss = ''wss''"
| "scheme_as_str Tcp = ''tcp''"

datatype HostPattern = Exact string | Subdomains string | Any

datatype Seg = Lit string | One | Rest

record PathPattern =
  pp_segs :: "Seg list"

record Rule =
  r_action :: Action
  r_scheme :: Scheme
  r_host :: HostPattern
  r_port :: "u16 option"
  r_path :: PathPattern

datatype Decision = DecAllow | DecDeny "string option"

record RuleSet =
  rs_rules :: "Rule list"

section \<open>Host patterns\<close>

definition host_char :: "char \<Rightarrow> bool" where
  "host_char c \<longleftrightarrow> ascii_alphanumeric c \<or> c = CHR ''-'' \<or> c = CHR ''.''"

definition contains_dotdot :: "string \<Rightarrow> bool" where
  "contains_dotdot s \<longleftrightarrow> split_once ''..'' s \<noteq> None"

definition host_parse :: "string \<Rightarrow> (ParseError, HostPattern) result" where
  "host_parse raw =
     (let s = to_ascii_lowercase raw in
      if s = [] then Err (PE_Host raw HostEmpty)
      else if s = ''*'' then Ok Any
      else
        let (wild, name) = (case strip_prefix ''*.'' s of
                              Some rest \<Rightarrow> (True, rest) | None \<Rightarrow> (False, s)) in
        if name = [] \<or> CHR ''*'' \<in> set name then Err (PE_Host raw HostStar)
        else if starts_with ''.'' name \<or> ends_with ''.'' name \<or> contains_dotdot name
          then Err (PE_Host raw HostLabels)
        else if \<not> list_all host_char name then Err (PE_Host raw HostChars)
        else Ok (if wild then Subdomains name else Exact name))"

definition host_matches :: "HostPattern \<Rightarrow> string \<Rightarrow> bool" where
  "host_matches p h0 =
     (let h = to_ascii_lowercase (trim_end_matches (CHR ''.'') h0) in
      case p of
        Exact e \<Rightarrow> e = h
      | Subdomains suf \<Rightarrow>
          length h > length suf + 1 \<and> ends_with suf h \<and>
          h ! (length h - length suf - 1) = CHR ''.''
      | Any \<Rightarrow> h \<noteq> [])"

fun host_literal :: "HostPattern \<Rightarrow> string option" where
  "host_literal (Exact h) = Some h"
| "host_literal (Subdomains _) = None"
| "host_literal Any = None"

fun host_display :: "HostPattern \<Rightarrow> string" where
  "host_display (Exact h) = h"
| "host_display (Subdomains s) = ''*.'' @ s"
| "host_display Any = ''*''"

section \<open>Path patterns\<close>

text \<open>The loop of \<^verbatim>\<open>PathPattern::parse\<close> over the segments.\<close>

fun path_segs :: "string \<Rightarrow> string list \<Rightarrow> (ParseError, Seg list) result" where
  "path_segs raw [] = Ok []"
| "path_segs raw (p # ps) =
     (if p = ''**'' then
        if ps \<noteq> [] then Err (PE_Path raw PathRestLast)
        else and_then (path_segs raw ps) (\<lambda>ss. Ok (Rest # ss))
      else if p = ''*'' then and_then (path_segs raw ps) (\<lambda>ss. Ok (One # ss))
      else if CHR ''*'' \<in> set p then Err (PE_Path raw PathStar)
      else and_then (path_segs raw ps) (\<lambda>ss. Ok (Lit p # ss)))"

definition path_parse :: "string \<Rightarrow> (ParseError, PathPattern) result" where
  "path_parse s =
     (if \<not> starts_with ''/'' s then Err (PE_Path s PathSlash)
      else if CHR ''?'' \<in> set s \<or> CHR ''#'' \<in> set s then Err (PE_Path s PathQuery)
      else and_then (path_segs s (split_on (CHR ''/'') (drop 1 s)))
             (\<lambda>ss. Ok \<lparr>pp_segs = ss\<rparr>))"

fun match_from :: "Seg list \<Rightarrow> string list \<Rightarrow> bool" where
  "match_from [] [] = True"
| "match_from (Rest # _) _ = True"
| "match_from [] (_ # _) = False"
| "match_from (_ # _) [] = False"
| "match_from (One # ss) (_ # ps) = match_from ss ps"
| "match_from (Lit l # ss) (p # ps) = (l = p \<and> match_from ss ps)"

definition path_matches :: "PathPattern \<Rightarrow> string \<Rightarrow> bool" where
  "path_matches pat p0 =
     (let p = hd (split_on (CHR ''?'') p0);
          p' = (case strip_prefix ''/'' p of Some r \<Rightarrow> r | None \<Rightarrow> p)
      in match_from (pp_segs pat) (split_on (CHR ''/'') p'))"

fun seg_display :: "Seg \<Rightarrow> string" where
  "seg_display (Lit l) = l"
| "seg_display One = ''*''"
| "seg_display Rest = ''**''"

definition path_display :: "PathPattern \<Rightarrow> string" where
  "path_display p = concat (map (\<lambda>s. ''/'' @ seg_display s) (pp_segs p))"

section \<open>Rules\<close>

definition action_parse :: "string \<Rightarrow> Action option" where
  "action_parse a =
     (if a = ''allow'' then Some Allow
      else if a = ''deny'' then Some Deny
      else if a = ''tunnel'' then Some Tunnel
      else None)"

definition scheme_split :: "string \<Rightarrow> (Scheme \<times> string) option" where
  "scheme_split rest =
     (case split_once ''://'' rest of
        None \<Rightarrow> None
      | Some (sch, r) \<Rightarrow>
          if sch = ''https'' then Some (Https, r)
          else if sch = ''wss'' then Some (Wss, r)
          else if sch = ''tcp'' then Some (Tcp, r)
          else None)"

text \<open>\<^verbatim>\<open>authority.rsplit_once(':')\<close> and the port's numeral.\<close>

definition authority_parse :: "string \<Rightarrow> (ParseError, string \<times> u16 option) result" where
  "authority_parse authority =
     (case rsplit_once (CHR '':'') authority of
        None \<Rightarrow> Ok (authority, None)
      | Some (h, p) \<Rightarrow>
          (case parse_u16 p of
             None \<Rightarrow> Err (PE_Port authority)
           | Some n \<Rightarrow> Ok (h, Some n)))"

text \<open>\<^verbatim>\<open>rest.find('/')\<close>: what precedes the first slash, and the path from it on.\<close>

definition authority_part :: "string \<Rightarrow> string" where
  "authority_part rest = takeWhile (\<lambda>c. c \<noteq> CHR ''/'') rest"

definition path_part :: "string \<Rightarrow> string" where
  "path_part rest =
     (let tail = dropWhile (\<lambda>c. c \<noteq> CHR ''/'') rest in if tail = [] then ''/'' else tail)"

definition rule_parse :: "string \<Rightarrow> (ParseError, Rule) result" where
  "rule_parse s0 =
     (let s = trim s0 in
      case split_once_ws s of
        None \<Rightarrow> Err (PE_Action s)
      | Some (a, r) \<Rightarrow>
      let rest = trim_start r in
      case action_parse a of
        None \<Rightarrow> Err (PE_Action s)
      | Some act \<Rightarrow>
      case scheme_split rest of
        None \<Rightarrow> Err (PE_Scheme rest)
      | Some (sch, rest) \<Rightarrow>
      if act = Tunnel \<and> sch \<noteq> Tcp then Err (PE_Tunnel TunnelNeedsTcp s)
      else if act = Allow \<and> sch = Tcp then Err (PE_Tunnel TcpIsTunnelled s)
      else
      let authority = authority_part rest; pth = path_part rest in
      and_then (authority_parse authority) (\<lambda>(h, prt).
      if sch = Tcp \<and> prt = None then Err (PE_Tunnel TcpNamesPort s)
      else if sch = Tcp \<and> pth \<noteq> ''/'' then Err (PE_Tunnel TcpHasNoPath s)
      else
      and_then (host_parse h) (\<lambda>hp.
      and_then (path_parse pth) (\<lambda>pp.
      Ok \<lparr>r_action = act, r_scheme = sch, r_host = hp, r_port = prt, r_path = pp\<rparr>))))"

definition rule_matches :: "Rule \<Rightarrow> Scheme \<Rightarrow> string \<Rightarrow> u16 option \<Rightarrow> string \<Rightarrow> bool" where
  "rule_matches r sch h prt p \<longleftrightarrow>
     r_scheme r = sch \<and> host_matches (r_host r) h \<and>
     (case r_port r of None \<Rightarrow> True
      | Some a \<Rightarrow> (case prt of None \<Rightarrow> True | Some b \<Rightarrow> a = b)) \<and>
     path_matches (r_path r) p"

fun action_display :: "Action \<Rightarrow> string" where
  "action_display Allow = ''allow''"
| "action_display Deny = ''deny''"
| "action_display Tunnel = ''tunnel''"

definition port_display :: "u16 option \<Rightarrow> string" where
  "port_display p = (case p of None \<Rightarrow> [] | Some n \<Rightarrow> CHR '':'' # show_nat (unat n))"

definition rule_display :: "Rule \<Rightarrow> string" where
  "rule_display r =
     action_display (r_action r) @ '' '' @ scheme_as_str (r_scheme r) @ ''://'' @
     host_display (r_host r) @ port_display (r_port r) @
     (if r_scheme r = Tcp then [] else path_display (r_path r))"

section \<open>Rule sets\<close>

fun is_allow :: "Decision \<Rightarrow> bool" where
  "is_allow DecAllow = True"
| "is_allow (DecDeny _) = False"

definition ruleset_new :: "Rule list \<Rightarrow> RuleSet" where
  "ruleset_new rs = \<lparr>rs_rules = remdups_adj (sort_key rule_display rs)\<rparr>"

definition ruleset_parse :: "string list \<Rightarrow> (ParseError, RuleSet) result" where
  "ruleset_parse ss = map_ok ruleset_new (collect rule_parse ss)"

text \<open>The two rules a host of the allow-list stands for.\<close>

definition allow_rules :: "HostPattern \<Rightarrow> Rule list" where
  "allow_rules h =
     map (\<lambda>sch. \<lparr>r_action = Allow, r_scheme = sch, r_host = h, r_port = None,
                 r_path = \<lparr>pp_segs = [Rest]\<rparr>\<rparr>) [Https, Wss]"

definition from_allow_list :: "string list \<Rightarrow> (ParseError, RuleSet) result" where
  "from_allow_list hosts =
     map_ok (\<lambda>hs. ruleset_new (concat (map allow_rules hs))) (collect host_parse hosts)"

definition from_record :: "string list \<Rightarrow> string list \<Rightarrow> (ParseError, RuleSet) result" where
  "from_record allow rls =
     and_then (from_allow_list allow) (\<lambda>a.
     and_then (ruleset_parse rls) (\<lambda>b.
     Ok (ruleset_new (rs_rules a @ rs_rules b))))"

definition to_strings :: "RuleSet \<Rightarrow> string list" where
  "to_strings rs = map rule_display (rs_rules rs)"

definition host_allowed :: "RuleSet \<Rightarrow> string \<Rightarrow> bool" where
  "host_allowed rs sni \<longleftrightarrow>
     list_ex (\<lambda>r. r_action r = Allow \<and> host_matches (r_host r) sni) (rs_rules rs)"

text \<open>The loop of \<^verbatim>\<open>RuleSet::evaluate\<close>, with its flag \<^verbatim>\<open>allowed\<close>.\<close>

fun evaluate_loop ::
  "Rule list \<Rightarrow> bool \<Rightarrow> Scheme \<Rightarrow> string \<Rightarrow> u16 option \<Rightarrow> string \<Rightarrow> Decision" where
  "evaluate_loop [] allowed sch h prt p = (if allowed then DecAllow else DecDeny None)"
| "evaluate_loop (r # rs) allowed sch h prt p =
     (if \<not> rule_matches r sch h prt p then evaluate_loop rs allowed sch h prt p
      else if r_action r = Deny then DecDeny (Some (rule_display r))
      else evaluate_loop rs True sch h prt p)"

definition evaluate :: "RuleSet \<Rightarrow> Scheme \<Rightarrow> string \<Rightarrow> u16 option \<Rightarrow> string \<Rightarrow> Decision" where
  "evaluate rs sch h prt p = evaluate_loop (rs_rules rs) False sch h prt p"

definition tunnel_allowed :: "RuleSet \<Rightarrow> string \<Rightarrow> u16 \<Rightarrow> bool" where
  "tunnel_allowed rs h prt = is_allow (evaluate rs Tcp h (Some prt) ''/'')"

definition literal_allow_hosts :: "RuleSet \<Rightarrow> string list" where
  "literal_allow_hosts rs =
     remdups_adj (sort (List.map_filter (\<lambda>r. host_literal (r_host r))
        (filter (\<lambda>r. r_action r = Allow) (rs_rules rs))))"

section \<open>Host patterns: well-formedness, round trip, meaning\<close>

text \<open>What every name that comes out of \<^const>\<open>host_parse\<close> satisfies.\<close>

definition wf_name :: "string \<Rightarrow> bool" where
  "wf_name n \<longleftrightarrow>
     n \<noteq> [] \<and> CHR ''*'' \<notin> set n \<and> \<not> starts_with ''.'' n \<and> \<not> ends_with ''.'' n \<and>
     \<not> contains_dotdot n \<and> list_all host_char n \<and> lowercase n"

fun wf_host :: "HostPattern \<Rightarrow> bool" where
  "wf_host (Exact n) = wf_name n"
| "wf_host (Subdomains n) = wf_name n"
| "wf_host Any = True"

text \<open>A host as the matcher sees it: no trailing dots, lower case.\<close>

definition norm_host :: "string \<Rightarrow> string" where
  "norm_host h = to_ascii_lowercase (trim_end_matches (CHR ''.'') h)"

lemma host_parse_wf:
  assumes "host_parse s = Ok h"
  shows "wf_host h"
proof (cases "strip_prefix ''*.'' (to_ascii_lowercase s)")
  case None
  with assms show ?thesis
    by (auto simp: host_parse_def Let_def wf_name_def split: if_splits)
next
  case (Some rest)
  then have "lowercase (''*.'' @ rest)"
    by (metis lowercase_lowercase strip_prefix_Some_iff)
  then have "lowercase rest" by (simp add: lowercase_def)
  with assms Some show ?thesis
    by (auto simp: host_parse_def Let_def wf_name_def split: if_splits)
qed

lemma host_parse_display: "wf_host h \<Longrightarrow> host_parse (host_display h) = Ok h"
proof (cases h)
  case (Exact n)
  assume "wf_host h"
  with Exact have n: "wf_name n" by simp
  then have "strip_prefix ''*.'' n = None"
    by (cases n) (auto simp: wf_name_def)
  moreover have "n \<noteq> ''*''" using n by (auto simp: wf_name_def)
  ultimately show ?thesis
    using n Exact by (simp add: host_parse_def wf_name_def to_ascii_lowercase_id)
next
  case (Subdomains n)
  assume "wf_host h"
  with Subdomains have n: "wf_name n" by simp
  then have "to_ascii_lowercase (''*.'' @ n) = ''*.'' @ n"
    by (simp add: wf_name_def lowercase_iff)
      (simp add: to_ascii_lowercase_def lower_char_def ascii_upper_def byte_def)
  then show ?thesis
    using n Subdomains by (simp add: host_parse_def wf_name_def)
next
  case Any
  then show ?thesis
    by (simp add: host_parse_def to_ascii_lowercase_def lower_char_def ascii_upper_def byte_def)
qed

lemma host_display_chars:
  assumes "wf_host h"
  shows "list_all (\<lambda>c. plain c \<and> c \<noteq> CHR ''/'' \<and> c \<noteq> CHR '':'') (host_display h)"
proof -
  have plain_host: "plain c \<and> c \<noteq> CHR ''/'' \<and> c \<noteq> CHR '':''" if "host_char c" for c
  proof -
    have bytes: "byte (CHR ''-'') = 45" "byte (CHR ''.'') = 46" "byte (CHR ''/'') = 47"
      "byte (CHR '':'') = 58" by (simp_all add: byte_def)
    show ?thesis
      using that bytes
      by (auto simp: host_char_def ascii_alphanumeric_def ascii_digit_def ascii_upper_def
          ascii_lower_def plain_def)
  qed
  have "plain (CHR ''*'')" "plain (CHR ''.'')" by (simp_all add: plain_def byte_def)
  with assms plain_host show ?thesis
    by (cases h) (auto simp: wf_name_def list_all_iff)
qed

lemma host_matches_Exact: "host_matches (Exact e) h \<longleftrightarrow> norm_host h = e"
  by (auto simp: host_matches_def norm_host_def Let_def)

lemma host_matches_Any: "host_matches Any h \<longleftrightarrow> norm_host h \<noteq> []"
  by (simp add: host_matches_def norm_host_def Let_def)

text \<open>\<open>*.suffix\<close>: one or more leading labels, a dot, the suffix.\<close>

lemma host_matches_Subdomains:
  "host_matches (Subdomains s) h \<longleftrightarrow> (\<exists>l. l \<noteq> [] \<and> norm_host h = l @ CHR ''.'' # s)"
    (is "?L \<longleftrightarrow> ?R")
proof
  assume ?L
  then have len: "length (norm_host h) > length s + 1" and suf: "suffix s (norm_host h)"
    and dot: "norm_host h ! (length (norm_host h) - length s - 1) = CHR ''.''"
    by (auto simp: host_matches_def norm_host_def Let_def ends_with_iff)
  from suf obtain l where l: "norm_host h = l @ s" by (auto simp: suffix_def)
  with len have "length l > 1" by simp
  then obtain l' c where l': "l = l' @ [c]" "l' \<noteq> []"
    by (cases l rule: rev_cases) auto
  with dot l have "c = CHR ''.''" by (simp add: nth_append)
  with l l' show ?R by auto
next
  assume ?R
  then obtain l where "l \<noteq> []" "norm_host h = l @ CHR ''.'' # s" by auto
  then show ?L
    unfolding host_matches_def Let_def norm_host_def [symmetric]
    by (auto simp: ends_with_iff suffix_def nth_append)
qed

lemma host_matches_norm: "norm_host h = norm_host h' \<Longrightarrow> host_matches p h = host_matches p h'"
  by (cases p) (simp_all add: host_matches_Exact host_matches_Any host_matches_Subdomains)

section \<open>Path patterns: well-formedness, round trip, meaning\<close>

definition wf_path :: "PathPattern \<Rightarrow> bool" where
  "wf_path p \<longleftrightarrow>
     pp_segs p \<noteq> [] \<and> Rest \<notin> set (butlast (pp_segs p)) \<and>
     (\<forall>l. Lit l \<in> set (pp_segs p) \<longrightarrow>
        CHR ''*'' \<notin> set l \<and> CHR ''/'' \<notin> set l \<and> CHR ''?'' \<notin> set l \<and> CHR ''#'' \<notin> set l)"

lemma path_segs_Ok:
  "path_segs raw ps = Ok ss \<Longrightarrow>
     map seg_display ss = ps \<and> Rest \<notin> set (butlast ss) \<and>
     (\<forall>l. Lit l \<in> set ss \<longrightarrow> l \<in> set ps \<and> CHR ''*'' \<notin> set l)"
  by (induction ps arbitrary: ss) (auto simp: and_then_Inr_iff split: if_splits)

lemma path_segs_display:
  "Rest \<notin> set (butlast ss) \<Longrightarrow> (\<And>l. Lit l \<in> set ss \<Longrightarrow> CHR ''*'' \<notin> set l) \<Longrightarrow>
     path_segs raw (map seg_display ss) = Ok ss"
proof (induction ss)
  case Nil
  then show ?case by simp
next
  case (Cons s ss)
  have "path_segs raw (map seg_display ss) = Ok ss"
    using Cons by (cases ss) auto
  moreover have "s = Rest \<longrightarrow> ss = []" using Cons.prems(1) by (cases ss) auto
  moreover have "CHR ''*'' \<notin> set l" if "s = Lit l" for l
    using Cons.prems(2) [of l] that by simp
  moreover have "l \<noteq> ''*'' \<and> l \<noteq> ''**''" if "CHR ''*'' \<notin> set l" for l
    using that by auto
  ultimately show ?case by (cases s) simp_all
qed

lemma path_display_join:
  "pp_segs p \<noteq> [] \<Longrightarrow> path_display p = CHR ''/'' # join_with (CHR ''/'') (map seg_display (pp_segs p))"
  using concat_join [of "map seg_display (pp_segs p)" "CHR ''/''"]
  by (simp add: path_display_def o_def)

lemma path_parse_Ok:
  assumes "path_parse s = Ok p"
  shows "path_display p = s" and "wf_path p"
proof -
  from assms obtain t where s: "s = CHR ''/'' # t"
    by (auto simp: path_parse_def starts_with_iff split: if_splits) (auto simp: prefix_def)
  from assms have q: "CHR ''?'' \<notin> set s" "CHR ''#'' \<notin> set s"
    and pp_segs: "path_segs s (split_on (CHR ''/'') t) = Ok (pp_segs p)"
    by (auto simp: path_parse_def and_then_Inr_iff s split: if_splits)
  note ok = path_segs_Ok [OF pp_segs]
  then have nonempty: "pp_segs p \<noteq> []" by (metis list.map_disc_iff split_on_not_Nil)
  with ok s show "path_display p = s" by (simp add: path_display_join join_split)
  have "set l \<subseteq> set s" if "l \<in> set (split_on (CHR ''/'') t)" for l
  proof -
    have "set l \<subseteq> set (join_with (CHR ''/'') ps)" if "l \<in> set ps" for ps
      using that by (induction "CHR ''/''" ps rule: join_with.induct) auto
    from this [OF that] show ?thesis by (auto simp: join_split s)
  qed
  with ok q nonempty show "wf_path p"
    unfolding wf_path_def by (meson in_mono split_on_pieces)
qed

lemma path_parse_display:
  assumes "wf_path p"
  shows "path_parse (path_display p) = Ok p"
proof -
  let ?ds = "map seg_display (pp_segs p)"
  have clean: "CHR ''/'' \<notin> set d \<and> CHR ''?'' \<notin> set d \<and> CHR ''#'' \<notin> set d" if "d \<in> set ?ds" for d
  proof -
    from that obtain s where "s \<in> set (pp_segs p)" "d = seg_display s" by auto
    with assms show ?thesis by (cases s) (auto simp: wf_path_def)
  qed
  have disp: "path_display p = CHR ''/'' # join_with (CHR ''/'') ?ds"
    using assms by (simp add: wf_path_def path_display_join)
  have split: "split_on (CHR ''/'') (join_with (CHR ''/'') ?ds) = ?ds"
    using assms clean by (intro split_join) (auto simp: wf_path_def)
  have chars: "c \<in> set (join_with (CHR ''/'') ds) \<Longrightarrow> c = CHR ''/'' \<or> (\<exists>d \<in> set ds. c \<in> set d)"
    for c and ds by (induction "CHR ''/''" ds rule: join_with.induct) auto
  have "CHR ''?'' \<notin> set (path_display p)" "CHR ''#'' \<notin> set (path_display p)"
    using chars [of _ ?ds] clean by (fastforce simp: disp)+
  moreover have "path_segs (path_display p) ?ds = Ok (pp_segs p)"
    using assms by (intro path_segs_display) (auto simp: wf_path_def)
  ultimately show ?thesis
    by (simp add: path_parse_def disp split starts_with_iff)
qed

text \<open>A pattern without \<open>**\<close> matches segment by segment; \<open>**\<close> matches any rest.\<close>

fun seg_ok :: "Seg \<Rightarrow> string \<Rightarrow> bool" where
  "seg_ok (Lit l) p = (l = p)"
| "seg_ok One p = True"
| "seg_ok Rest p = False"

lemma match_from_exact:
  "Rest \<notin> set ss \<Longrightarrow> match_from ss ps \<longleftrightarrow> list_all2 seg_ok ss ps"
  by (induction ss ps rule: match_from.induct) auto

lemma match_from_rest:
  "Rest \<notin> set ss \<Longrightarrow>
     match_from (ss @ [Rest]) ps \<longleftrightarrow> (\<exists>qs rs. ps = qs @ rs \<and> list_all2 seg_ok ss qs)"
proof (induction ss ps rule: match_from.induct)
  case (5 ss p ps)
  then have "match_from (ss @ [Rest]) ps \<longleftrightarrow> (\<exists>qs rs. ps = qs @ rs \<and> list_all2 seg_ok ss qs)"
    by simp
  then show ?case by (auto simp: list_all2_Cons1 Cons_eq_append_conv)
next
  case (6 l ss p ps)
  then have "match_from (ss @ [Rest]) ps \<longleftrightarrow> (\<exists>qs rs. ps = qs @ rs \<and> list_all2 seg_ok ss qs)"
    by simp
  then show ?case by (auto simp: list_all2_Cons1 Cons_eq_append_conv)
qed (auto simp: list_all2_Cons1)

section \<open>Rules: well-formedness and round trip\<close>

definition wf_rule :: "Rule \<Rightarrow> bool" where
  "wf_rule r \<longleftrightarrow>
     wf_host (r_host r) \<and> wf_path (r_path r) \<and>
     (r_action r = Tunnel \<longrightarrow> r_scheme r = Tcp) \<and> (r_action r = Allow \<longrightarrow> r_scheme r \<noteq> Tcp) \<and>
     (if r_scheme r = Tcp then r_port r \<noteq> None \<and> pp_segs (r_path r) = [Lit []]
      else ws_len_rev (rev (path_display (r_path r))) = 0)"

lemma plain_slash: "plain (CHR ''/'')"
  by (simp add: plain_def byte_def)

text \<open>What follows the first slash of a trimmed rule does not end in white space.\<close>

lemma tail_no_ws:
  assumes "suffix (CHR ''/'' # p) s" and "ws_len_rev (rev s) = 0"
  shows "ws_len_rev (rev (CHR ''/'' # p)) = 0"
proof -
  from assms(1) obtain y where "s = y @ CHR ''/'' # p" by (auto simp: suffix_def)
  with assms(2) ws_len_rev_before_plain [OF plain_slash, of p "rev y"] show ?thesis by simp
qed

lemma rule_parse_OkE:
  assumes "rule_parse s0 = Ok r"
  obtains a r1 rest hs where
    "split_once_ws (trim s0) = Some (a, r1)"
    "scheme_split (trim_start r1) = Some (r_scheme r, rest)"
    "r_action r = Tunnel \<longrightarrow> r_scheme r = Tcp" "r_action r = Allow \<longrightarrow> r_scheme r \<noteq> Tcp"
    "r_scheme r = Tcp \<longrightarrow> r_port r \<noteq> None \<and> path_part rest = ''/''"
    "authority_parse (authority_part rest) = Ok (hs, r_port r)"
    "host_parse hs = Ok (r_host r)" "path_parse (path_part rest) = Ok (r_path r)"
  using assms
  by (auto simp: rule_parse_def Let_def and_then_Inr_iff split: option.splits if_splits)

lemma path_part_no_ws:
  assumes "suffix rest s" and "ws_len_rev (rev s) = 0"
  shows "ws_len_rev (rev (path_part rest)) = 0"
proof (cases "dropWhile (\<lambda>c. c \<noteq> CHR ''/'') rest")
  case Nil
  then show ?thesis by (simp add: path_part_def plain_ws(1) plain_slash)
next
  case (Cons c cs)
  then have "c = CHR ''/''"
    by (metis (mono_tags, lifting) hd_dropWhile list.distinct(1) list.sel(1))
  moreover have "suffix (c # cs) s"
    using assms(1) Cons suffix_dropWhile by (metis suffix_order.trans)
  ultimately show ?thesis
    using Cons tail_no_ws [OF _ assms(2)] by (simp add: path_part_def Let_def)
qed

lemma rule_parse_wf:
  assumes "rule_parse s0 = Ok r"
  shows "wf_rule r"
  using assms
proof (rule rule_parse_OkE)
  fix a r1 rest hs
  assume ws: "split_once_ws (trim s0) = Some (a, r1)"
    and sch: "scheme_split (trim_start r1) = Some (r_scheme r, rest)"
    and combo: "r_action r = Tunnel \<longrightarrow> r_scheme r = Tcp" "r_action r = Allow \<longrightarrow> r_scheme r \<noteq> Tcp"
    and tcp: "r_scheme r = Tcp \<longrightarrow> r_port r \<noteq> None \<and> path_part rest = ''/''"
    and hp: "host_parse hs = Ok (r_host r)" and pp: "path_parse (path_part rest) = Ok (r_path r)"
  have "suffix rest (trim_start r1)"
    using sch by (auto simp: scheme_split_def suffix_def split: option.splits if_splits
        dest!: split_once_SomeD)
  then have "suffix rest (trim s0)"
    using split_once_ws_suffix [OF ws] suffix_trim_start [of r1] by (metis suffix_order.trans)
  then have "ws_len_rev (rev (path_display (r_path r))) = 0"
    using path_part_no_ws path_parse_Ok(1) [OF pp] by simp
  moreover have "pp_segs (r_path r) = [Lit []]" if "r_scheme r = Tcp"
  proof -
    have "path_parse ''/'' = Ok \<lparr>pp_segs = [Lit []]\<rparr>"
      by (simp add: path_parse_def starts_with_iff)
    with pp tcp that have "r_path r = \<lparr>pp_segs = [Lit []]\<rparr>" by simp
    then show ?thesis by simp
  qed
  ultimately show ?thesis
    using host_parse_wf [OF hp] path_parse_Ok(2) [OF pp] combo tcp by (auto simp: wf_rule_def)
qed

lemma authority_parse_display:
  assumes "wf_host h"
  shows "authority_parse (host_display h @ port_display p) = Ok (host_display h, p)"
proof -
  have no_colon: "CHR '':'' \<notin> set (host_display h)"
    using host_display_chars [OF assms] by (auto simp: list_all_iff)
  show ?thesis
  proof (cases p)
    case None
    with no_colon rsplit_once_None_iff [of "CHR '':''" "host_display h"] show ?thesis
      by (simp add: authority_parse_def port_display_def)
  next
    case (Some n)
    have "CHR '':'' \<notin> set (show_nat (unat n))"
      using show_nat_digits [of "unat n"] by (auto simp: list_all_iff ascii_digit_def byte_def)
    with Some show ?thesis
      by (simp add: authority_parse_def port_display_def rsplit_once_last parse_u16_show_nat)
  qed
qed

lemma scheme_split_display: "scheme_split (scheme_as_str s @ ''://'' @ t) = Some (s, t)"
  using split_once_first [of "''://''" "scheme_as_str s" t]
  by (cases s) (simp_all add: scheme_split_def)

lemma action_parse_display: "action_parse (action_display a) = Some a"
  by (cases a) (simp_all add: action_parse_def)

lemma plain_words:
  "list_all plain (action_display a)" "list_all plain (scheme_as_str s)"
  by (cases a; simp add: plain_def byte_def) (cases s; simp add: plain_def byte_def)

lemma split_at_slash:
  "CHR ''/'' \<notin> set a \<Longrightarrow> authority_part (a @ CHR ''/'' # t) = a"
  "CHR ''/'' \<notin> set a \<Longrightarrow> path_part (a @ CHR ''/'' # t) = CHR ''/'' # t"
  "CHR ''/'' \<notin> set a \<Longrightarrow> authority_part a = a"
  "CHR ''/'' \<notin> set a \<Longrightarrow> path_part a = ''/''"
  by (induction a) (auto simp: authority_part_def path_part_def Let_def)

text \<open>The text between a rule's scheme and its end, and how it splits again.\<close>

definition rule_tail :: "Rule \<Rightarrow> string" where
  "rule_tail r = host_display (r_host r) @ port_display (r_port r) @
     (if r_scheme r = Tcp then [] else path_display (r_path r))"

lemma rule_display_tail:
  "rule_display r = action_display (r_action r) @ CHR '' '' # scheme_as_str (r_scheme r) @ ''://'' @ rule_tail r"
  by (simp add: rule_display_def rule_tail_def)

lemma rule_tail_split:
  assumes "wf_rule r"
  shows "authority_part (rule_tail r) = host_display (r_host r) @ port_display (r_port r)"
    and "path_part (rule_tail r) = path_display (r_path r)"
proof -
  let ?a = "host_display (r_host r) @ port_display (r_port r)"
  have "CHR ''/'' \<notin> set (port_display (r_port r))"
    using show_nat_digits
    by (auto simp: port_display_def list_all_iff ascii_digit_def byte_def split: option.splits)
      fastforce
  then have slash: "CHR ''/'' \<notin> set ?a"
    using assms host_display_chars [of "r_host r"] by (auto simp: wf_rule_def list_all_iff)
  have pd: "path_display (r_path r) = CHR ''/'' # join_with (CHR ''/'') (map seg_display (pp_segs (r_path r)))"
    using assms by (simp add: wf_rule_def wf_path_def path_display_join)
  have tcp: "path_display (r_path r) = ''/''" if "r_scheme r = Tcp"
    using assms that by (simp add: wf_rule_def path_display_def)
  show "authority_part (rule_tail r) = ?a" and "path_part (rule_tail r) = path_display (r_path r)"
    using split_at_slash [OF slash] pd tcp by (auto simp: rule_tail_def)
qed

lemma rule_display_trim:
  assumes "wf_rule r"
  shows "trim (rule_display r) = rule_display r"
proof (rule trim_id)
  obtain c cs where "action_display (r_action r) = c # cs" "plain c"
    using plain_words(1) [of "r_action r"] by (cases "r_action r") auto
  then show "ws_len (rule_display r) = 0"
    by (simp add: rule_display_def ws_len_plain)
  show "ws_len_rev (rev (rule_display r)) = 0"
  proof (cases "r_scheme r = Tcp")
    case True
    with assms obtain p where p: "r_port r = Some p" by (auto simp: wf_rule_def)
    obtain ds d where "show_nat (unat p) = ds @ [d]"
      by (cases "show_nat (unat p)" rule: rev_cases) auto
    moreover from this have "plain d"
      using show_nat_digits [of "unat p"] by (simp add: ascii_digit_plain)
    ultimately show ?thesis
      using True p by (simp add: rule_display_def port_display_def ws_len_rev_plain)
  next
    case False
    with assms have "ws_len_rev (rev (path_display (r_path r))) = 0" by (simp add: wf_rule_def)
    moreover obtain t where "path_display (r_path r) = CHR ''/'' # t"
      using assms by (auto simp: wf_rule_def wf_path_def path_display_join)
    ultimately show ?thesis
      using False ws_len_rev_before_plain [OF plain_slash, of t] by (simp add: rule_display_def)
  qed
qed

lemma rule_parse_display:
  assumes "wf_rule r"
  shows "rule_parse (rule_display r) = Ok r"
proof -
  define rest where "rest = scheme_as_str (r_scheme r) @ ''://'' @ rule_tail r"
  have ws: "split_once_ws (rule_display r) = Some (action_display (r_action r), rest)"
    unfolding rule_display_tail rest_def by (rule split_once_ws_plain) (rule plain_words)
  have ts: "trim_start rest = rest"
    using plain_words(2) [of "r_scheme r"] unfolding rest_def
    by (intro trim_start_id) (cases "r_scheme r"; simp add: plain_ws)
  have sp: "scheme_split rest = Some (r_scheme r, rule_tail r)"
    unfolding rest_def by (rule scheme_split_display)
  have au: "authority_parse (authority_part (rule_tail r)) = Ok (host_display (r_host r), r_port r)"
    using assms rule_tail_split(1) authority_parse_display by (simp add: wf_rule_def)
  have pa: "path_parse (path_part (rule_tail r)) = Ok (r_path r)"
    using assms rule_tail_split(2) path_parse_display by (simp add: wf_rule_def)
  have ho: "host_parse (host_display (r_host r)) = Ok (r_host r)"
    using assms by (simp add: wf_rule_def host_parse_display)
  have tcp: "r_scheme r = Tcp \<Longrightarrow> path_part (rule_tail r) = ''/''"
    using assms rule_tail_split(2) [OF assms] by (simp add: wf_rule_def path_display_def)
  have "\<not> (r_action r = Tunnel \<and> r_scheme r \<noteq> Tcp)" "\<not> (r_action r = Allow \<and> r_scheme r = Tcp)"
    "\<not> (r_scheme r = Tcp \<and> r_port r = None)" "\<not> (r_scheme r = Tcp \<and> path_part (rule_tail r) \<noteq> ''/'')"
    using assms tcp by (auto simp: wf_rule_def split: if_splits)
  then show ?thesis
    by (simp only: rule_parse_def Let_def rule_display_trim [OF assms] ws option.case prod.case
        ts action_parse_display sp au pa ho and_then_simps if_False) simp
qed

lemma rule_display_inj: "wf_rule r \<Longrightarrow> wf_rule q \<Longrightarrow> rule_display r = rule_display q \<Longrightarrow> r = q"
  by (metis rule_parse_display sum.inject(2))

section \<open>Rule sets: canonical form\<close>

lemma remdups_adj_sort_key_unique:
  assumes "inj_on f (set xs \<union> set ys)" and "set xs = set ys"
  shows "remdups_adj (sort_key f xs) = remdups_adj (sort_key f ys)"
proof -
  have canon: "sorted (map f (remdups_adj (sort_key f zs))) \<and>
      distinct (map f (remdups_adj (sort_key f zs)))" if "inj_on f (set zs)" for zs
  proof -
    have "map f (remdups_adj ws) = remdups_adj (map f ws)" if "inj_on f (set ws)" for ws
      using that by (induction ws rule: remdups_adj.induct) (auto simp: inj_on_def)
    then have "map f (remdups_adj (sort_key f zs)) = remdups_adj (map f (sort_key f zs))"
      using that by simp
    moreover have "sorted ws \<Longrightarrow> distinct (remdups_adj ws)" for ws :: "'b list"
      by (induction ws rule: remdups_adj.induct) (auto intro: order.antisym)
    ultimately show ?thesis by (simp add: sorted_remdups_adj)
  qed
  let ?xs = "remdups_adj (sort_key f xs)" and ?ys = "remdups_adj (sort_key f ys)"
  have "map f ?xs = map f ?ys"
    using canon [of xs] canon [of ys] assms
    by (intro sorted_distinct_set_unique) (auto intro: inj_on_subset)
  then show ?thesis
    using assms by (intro map_inj_on [of f]) (auto simp: inj_on_def)
qed

definition wf_ruleset :: "RuleSet \<Rightarrow> bool" where
  "wf_ruleset rs \<longleftrightarrow> (\<forall>r \<in> set (rs_rules rs). wf_rule r) \<and> ruleset_new (rs_rules rs) = rs"

lemma inj_on_rule_display: "\<forall>r \<in> A. wf_rule r \<Longrightarrow> inj_on rule_display A"
  by (meson inj_onI rule_display_inj)

lemma set_ruleset_new [simp]: "set (rs_rules (ruleset_new rs)) = set rs"
  by (simp add: ruleset_new_def)

lemma ruleset_new_cong:
  assumes "\<forall>r \<in> set xs. wf_rule r" and "set xs = set ys"
  shows "ruleset_new xs = ruleset_new ys"
  unfolding ruleset_new_def
  using remdups_adj_sort_key_unique [of rule_display xs ys] inj_on_rule_display [of "set xs"] assms
  by simp

lemma wf_ruleset_new: "\<forall>r \<in> set xs. wf_rule r \<Longrightarrow> wf_ruleset (ruleset_new xs)"
  unfolding wf_ruleset_def by (auto intro!: ruleset_new_cong)

lemma wf_ruleset_eq_iff:
  assumes "wf_ruleset a" and "wf_ruleset b"
  shows "a = b \<longleftrightarrow> set (rs_rules a) = set (rs_rules b)"
  using assms ruleset_new_cong [of "rs_rules a" "rs_rules b"] by (auto simp: wf_ruleset_def)

lemma collect_rule_parse_wf:
  "collect rule_parse ss = Ok rs \<Longrightarrow> r \<in> set rs \<Longrightarrow> wf_rule r"
  by (auto simp: collect_Inr_iff list_all2_conv_all_nth in_set_conv_nth dest: rule_parse_wf)

lemma wf_allow_rules:
  assumes "wf_host h" and "r \<in> set (allow_rules h)"
  shows "wf_rule r"
proof -
  have "ws_len_rev (rev ''/**'') = 0"
    by (simp add: ws1_def ws2_def ws3_def byte_def)
  with assms show ?thesis
    by (auto simp: allow_rules_def wf_rule_def wf_path_def path_display_def)
qed

lemma collect_host_parse_wf:
  "collect host_parse ss = Ok hs \<Longrightarrow> h \<in> set hs \<Longrightarrow> wf_host h"
  by (auto simp: collect_Inr_iff list_all2_conv_all_nth in_set_conv_nth dest: host_parse_wf)

lemma ruleset_parse_wf: "ruleset_parse ss = Ok rs \<Longrightarrow> wf_ruleset rs"
  by (auto simp: ruleset_parse_def map_ok_Inr_iff
      intro!: wf_ruleset_new dest: collect_rule_parse_wf)

lemma from_allow_list_wf: "from_allow_list hs = Ok rs \<Longrightarrow> wf_ruleset rs"
  by (auto simp: from_allow_list_def map_ok_Inr_iff
      intro!: wf_ruleset_new) (meson collect_host_parse_wf wf_allow_rules)

lemma from_record_wf: "from_record allow rls = Ok rs \<Longrightarrow> wf_ruleset rs"
proof -
  assume "from_record allow rls = Ok rs"
  then obtain a b where "from_allow_list allow = Ok a" "ruleset_parse rls = Ok b"
    and rs: "rs = ruleset_new (rs_rules a @ rs_rules b)"
    by (auto simp: from_record_def and_then_Inr_iff)
  then have "wf_ruleset a" "wf_ruleset b"
    by (auto intro: from_allow_list_wf ruleset_parse_wf)
  then show ?thesis unfolding rs by (intro wf_ruleset_new) (auto simp: wf_ruleset_def)
qed

section \<open>Evaluation\<close>

lemma to_strings_parse:
  assumes "from_record allow rls = Ok rs"
  shows "ruleset_parse (to_strings rs) = Ok rs"
proof -
  have wf: "wf_ruleset rs" using assms by (rule from_record_wf)
  then have "collect rule_parse (to_strings rs) = Ok (rs_rules rs)"
    unfolding to_strings_def
    by (intro collect_map_inverse) (auto simp: wf_ruleset_def rule_parse_display)
  with wf show ?thesis by (simp add: ruleset_parse_def wf_ruleset_def)
qed

lemma evaluate_loop_Deny:
  "(\<exists>r \<in> set rs. r_action r = Deny \<and> rule_matches r sch h prt p) \<Longrightarrow>
   \<exists>t. evaluate_loop rs b sch h prt p = DecDeny (Some t)"
  by (induction rs arbitrary: b) auto

lemma evaluate_loop_Deny_rule:
  "evaluate_loop rs b sch h prt p = DecDeny (Some t) \<Longrightarrow>
   \<exists>r \<in> set rs. r_action r = Deny \<and> rule_matches r sch h prt p \<and> t = rule_display r"
  by (induction rs arbitrary: b) (auto split: if_splits)

lemma evaluate_loop_no_Deny:
  "\<not> (\<exists>r \<in> set rs. r_action r = Deny \<and> rule_matches r sch h prt p) \<Longrightarrow>
   evaluate_loop rs b sch h prt p =
     (if b \<or> (\<exists>r \<in> set rs. rule_matches r sch h prt p) then DecAllow else DecDeny None)"
  by (induction rs arbitrary: b) auto

lemma evaluate_DecAllow_iff:
  "evaluate rs sch h prt p = DecAllow \<longleftrightarrow>
     (\<exists>r \<in> set (rs_rules rs). rule_matches r sch h prt p) \<and>
     \<not> (\<exists>r \<in> set (rs_rules rs). r_action r = Deny \<and> rule_matches r sch h prt p)"
proof (cases "\<exists>r \<in> set (rs_rules rs). r_action r = Deny \<and> rule_matches r sch h prt p")
  case True
  with evaluate_loop_Deny [OF True, of False] show ?thesis by (auto simp: evaluate_def)
next
  case False
  with evaluate_loop_no_Deny [OF False, of False] show ?thesis
    by (auto simp: evaluate_def split: if_splits)
qed

lemma is_allow_iff: "is_allow d \<longleftrightarrow> d = DecAllow"
  by (cases d) auto

section \<open>Properties of the rule language\<close>

text \<open>Every rule that parses prints to a text that parses to the same rule, so the
  stored and the served form of a rule mean what the rule given means.\<close>

theorem rule_roundtrip:
  assumes "rule_parse s = Ok r"
  shows "rule_parse (rule_display r) = Ok r"
  using assms by (intro rule_parse_display rule_parse_wf)

theorem rule_roundtrip_witness:
  "rule_parse (rule_display \<lparr>r_action = Tunnel, r_scheme = Tcp, r_host = Exact ''h.example'',
      r_port = Some 443, r_path = \<lparr>pp_segs = [Lit []]\<rparr>\<rparr>) =
   Ok \<lparr>r_action = Tunnel, r_scheme = Tcp, r_host = Exact ''h.example'',
      r_port = Some 443, r_path = \<lparr>pp_segs = [Lit []]\<rparr>\<rparr>"
proof -
  have "rule_parse '' tunnel  tcp://H.example:443/ '' =
    Ok \<lparr>r_action = Tunnel, r_scheme = Tcp, r_host = Exact ''h.example'',
      r_port = Some 443, r_path = \<lparr>pp_segs = [Lit []]\<rparr>\<rparr>"
    by code_simp
  then show ?thesis by (rule rule_roundtrip)
qed

text \<open>C2: what the evaluation loop decides. A matching deny rule denies, whatever the
  allow rules say, and its text is reported (the first one in the canonical order);
  without one, a matching rule allows, and nothing matching is denied.\<close>

theorem evaluate_spec:
  "evaluate rs sch h prt p =
     (case find (\<lambda>r. r_action r = Deny \<and> rule_matches r sch h prt p) (rs_rules rs) of
        Some r \<Rightarrow> DecDeny (Some (rule_display r))
      | None \<Rightarrow> if \<exists>r \<in> set (rs_rules rs). rule_matches r sch h prt p then DecAllow else DecDeny None)"
proof -
  have loop: "evaluate_loop rl b sch h prt p =
     (case find (\<lambda>r. r_action r = Deny \<and> rule_matches r sch h prt p) rl of
        Some r \<Rightarrow> DecDeny (Some (rule_display r))
      | None \<Rightarrow> if b \<or> (\<exists>r \<in> set rl. rule_matches r sch h prt p) then DecAllow else DecDeny None)"
    for rl b
    by (induction rl arbitrary: b) auto
  show ?thesis unfolding evaluate_def loop by (simp only: simp_thms)
qed

text \<open>rules are a set. Two lists of rule texts with the same elements, in any order
  and with any repetition, compile to the same rule set.\<close>

theorem ruleset_order_irrelevant:
  assumes "ruleset_parse ss = Ok rs" and "set ss = set ts"
  shows "ruleset_parse ts = Ok rs"
proof -
  from assms(1) obtain as where as: "collect rule_parse ss = Ok as" and rs: "rs = ruleset_new as"
    by (auto simp: ruleset_parse_def map_ok_Inr_iff)
  have as_map: "as = map (\<lambda>s. projr (rule_parse s)) ss" and
    ok: "\<forall>s \<in> set ss. rule_parse s = Ok (projr (rule_parse s))"
    using as by (auto simp: collect_Inr_iff list_all2_conv_all_nth in_set_conv_nth
        intro!: nth_equalityI)
  have "collect rule_parse ts = Ok (map (\<lambda>s. projr (rule_parse s)) ts)"
    using ok assms(2) by (auto simp: collect_Inr_iff list_all2_conv_all_nth)
  moreover have "ruleset_new (map (\<lambda>s. projr (rule_parse s)) ts) = ruleset_new as"
    using assms(2) collect_rule_parse_wf [OF as] as_map by (intro ruleset_new_cong [symmetric]) auto
  ultimately show ?thesis by (simp add: ruleset_parse_def rs)
qed

theorem ruleset_order_irrelevant_witness:
  "\<exists>rs. ruleset_parse [''deny https://a.b/k'', ''allow https://a.b/**''] = Ok rs \<and>
     ruleset_parse [''allow https://a.b/**'', ''deny https://a.b/k'', ''allow https://a.b/**''] = Ok rs"
proof -
  have "\<not> isl (ruleset_parse [''deny https://a.b/k'', ''allow https://a.b/**''])"
    by code_simp
  then obtain rs where rs: "ruleset_parse [''deny https://a.b/k'', ''allow https://a.b/**''] = Ok rs"
    using not_isl_Ok by blast
  have "set [''deny https://a.b/k'', ''allow https://a.b/**''] =
      set [''allow https://a.b/**'', ''deny https://a.b/k'', ''allow https://a.b/**'']"
    by auto
  with rs show ?thesis using ruleset_order_irrelevant by blast
qed

text \<open>the two phases agree. A request the URI phase allows over TLS is to a host the
  host phase lets be terminated, so nothing is allowed behind the SNI check's back.\<close>

theorem uri_phase_within_host_phase:
  assumes "from_record allow rls = Ok rs" and "sch \<noteq> Tcp"
    and "evaluate rs sch h prt p = DecAllow"
  shows "host_allowed rs h"
proof -
  obtain r where r: "r \<in> set (rs_rules rs)" "rule_matches r sch h prt p" "r_action r \<noteq> Deny"
    using assms(3) by (auto simp: evaluate_DecAllow_iff)
  moreover have "wf_rule r"
    using from_record_wf [OF assms(1)] r(1) by (simp add: wf_ruleset_def)
  ultimately have "r_action r = Allow" "host_matches (r_host r) h"
    using assms(2) by (cases "r_action r"; auto simp: wf_rule_def rule_matches_def)+
  with r(1) show ?thesis by (auto simp: host_allowed_def list_ex_iff)
qed

theorem uri_phase_within_host_phase_witness:
  "\<exists>rs. from_record [''api.x.io''] [] = Ok rs \<and> host_allowed rs ''API.x.io.''"
proof -
  have "ok_and (from_record [''api.x.io''] [])
      (\<lambda>rs. evaluate rs Wss ''API.x.io.'' None ''/ws'' = DecAllow)"
    by code_simp
  then obtain rs where "from_record [''api.x.io''] [] = Ok rs"
    "evaluate rs Wss ''API.x.io.'' None ''/ws'' = DecAllow"
    unfolding ok_and_iff by blast
  then show ?thesis using uri_phase_within_host_phase [of "[''api.x.io'']" "[]" rs Wss] by auto
qed

text \<open>The wire form of a VM's policy loses nothing. The texts of a compiled policy
  compile to that policy again, and two policies with the same texts are the same.\<close>

theorem to_strings_roundtrip:
  assumes "from_record allow rls = Ok rs"
  shows "ruleset_parse (to_strings rs) = Ok rs"
  using assms by (rule to_strings_parse)

theorem to_strings_roundtrip_witness:
  "\<exists>rs. from_record [''api.x.io''] [''deny https://api.x.io/keys''] = Ok rs \<and>
     ruleset_parse (to_strings rs) = Ok rs"
proof -
  have "\<not> isl (from_record [''api.x.io''] [''deny https://api.x.io/keys''])"
    by code_simp
  then show ?thesis using to_strings_roundtrip not_isl_Ok by blast
qed

text \<open>What the allow-list sugar means. A host of the list allows every path over https
  and wss on any port, and nothing else is allowed.\<close>

theorem allow_list_spec:
  assumes "from_allow_list hs = Ok rs"
  shows "evaluate rs sch h prt p = DecAllow \<longleftrightarrow>
    sch \<noteq> Tcp \<and> (\<exists>s \<in> set hs. \<exists>hp. host_parse s = Ok hp \<and> host_matches hp h)"
proof -
  from assms obtain ps where ps: "collect host_parse hs = Ok ps"
    and rs: "set (rs_rules rs) = (\<Union>hp \<in> set ps. set (allow_rules hp))"
    by (auto simp: from_allow_list_def map_ok_Inr_iff)
  have matches: "rule_matches r sch h prt p \<longleftrightarrow> r_scheme r = sch \<and> host_matches hp h"
    if "r \<in> set (allow_rules hp)" for r hp
    using that by (auto simp: allow_rules_def rule_matches_def path_matches_def Let_def)
  have schemes: "(\<exists>r \<in> set (allow_rules hp). r_scheme r = sch) \<longleftrightarrow> sch \<noteq> Tcp" for hp
    by (cases sch) (auto simp: allow_rules_def)
  have allow: "r_action r = Allow" if "r \<in> set (rs_rules rs)" for r
  proof -
    from that obtain hp where "r \<in> set (allow_rules hp)" unfolding rs by blast
    then show ?thesis by (auto simp: allow_rules_def)
  qed
  have "evaluate rs sch h prt p = DecAllow \<longleftrightarrow>
      (\<exists>r \<in> set (rs_rules rs). rule_matches r sch h prt p)"
    using allow by (auto simp: evaluate_DecAllow_iff)
  also have "\<dots> \<longleftrightarrow> (\<exists>hp \<in> set ps. \<exists>r \<in> set (allow_rules hp). r_scheme r = sch \<and> host_matches hp h)"
    using matches unfolding rs by auto
  also have "\<dots> \<longleftrightarrow> (\<exists>hp \<in> set ps. sch \<noteq> Tcp \<and> host_matches hp h)"
    using schemes by blast
  also have "\<dots> \<longleftrightarrow> sch \<noteq> Tcp \<and> (\<exists>s \<in> set hs. \<exists>hp. host_parse s = Ok hp \<and> host_matches hp h)"
    using collect_set [OF ps] by blast
  finally show ?thesis .
qed

theorem allow_list_spec_witness:
  "\<exists>rs. from_allow_list [''*.debian.org''] = Ok rs \<and>
     evaluate rs Https ''deb.debian.org'' None ''/x'' = DecAllow"
proof -
  have "\<not> isl (from_allow_list [''*.debian.org''])" by code_simp
  then obtain rs where rs: "from_allow_list [''*.debian.org''] = Ok rs" using not_isl_Ok by blast
  have "host_parse ''*.debian.org'' = Ok (Subdomains ''debian.org'') \<and>
      host_matches (Subdomains ''debian.org'') ''deb.debian.org''"
    by code_simp
  with rs show ?thesis using allow_list_spec [OF rs, of Https] by auto
qed

text \<open>What a host pattern matches, up to letter case and trailing dots: an exact name
  itself, \<open>*.suffix\<close> every name with at least one label more (never the apex, never a
  name that only ends in the same letters), \<open>*\<close> any name.\<close>

theorem host_pattern_spec:
  "host_matches pat h \<longleftrightarrow>
     (case pat of
        Exact e \<Rightarrow> norm_host h = e
      | Subdomains s \<Rightarrow> (\<exists>l. l \<noteq> [] \<and> norm_host h = l @ CHR ''.'' # s)
      | Any \<Rightarrow> norm_host h \<noteq> [])"
  by (cases pat) (simp_all add: host_matches_Exact host_matches_Subdomains host_matches_Any)

text \<open>what a path pattern that parsed matches. The query is cut off; then the segments
  agree one by one, a star standing for any one of them, and a final double star for any
  rest, including none.\<close>

theorem path_pattern_spec:
  assumes "path_parse s = Ok pat"
  shows "path_matches pat p \<longleftrightarrow>
    (let q = hd (split_on (CHR ''?'') p);
         parts = split_on (CHR ''/'') (case strip_prefix ''/'' q of Some r \<Rightarrow> r | None \<Rightarrow> q)
     in if last (pp_segs pat) = Rest
        then (\<exists>qs rs. parts = qs @ rs \<and> list_all2 seg_ok (butlast (pp_segs pat)) qs)
        else list_all2 seg_ok (pp_segs pat) parts)"
proof -
  have wf: "pp_segs pat \<noteq> []" "Rest \<notin> set (butlast (pp_segs pat))"
    using path_parse_Ok(2) [OF assms] by (auto simp: wf_path_def)
  then have split: "pp_segs pat = butlast (pp_segs pat) @ [last (pp_segs pat)]" by simp
  show ?thesis
  proof (cases "last (pp_segs pat) = Rest")
    case True
    with split match_from_rest [OF wf(2)] show ?thesis
      by (simp add: path_matches_def Let_def)
  next
    case False
    with wf split have "Rest \<notin> set (pp_segs pat)"
      by (metis Un_iff empty_iff insert_iff list.set(1) list.set(2) set_append)
    with False show ?thesis by (simp add: path_matches_def Let_def match_from_exact)
  qed
qed

theorem path_pattern_spec_witness:
  "\<exists>pat. path_parse ''/v1/*/m/**'' = Ok pat \<and> path_matches pat ''/v1/x/m?q=1''"
proof -
  have "path_parse ''/v1/*/m/**'' = Ok \<lparr>pp_segs = [Lit ''v1'', One, Lit ''m'', Rest]\<rparr>"
    by code_simp
  moreover from path_pattern_spec [OF this, of "''/v1/x/m?q=1''"]
  have "path_matches \<lparr>pp_segs = [Lit ''v1'', One, Lit ''m'', Rest]\<rparr> ''/v1/x/m?q=1''"
    by simp (rule exI [of _ "[''v1'', ''x'', ''m'']"], simp)
  ultimately show ?thesis by blast
qed

end
