(* ===== verification/Iso_Store.thy ===== *)
theory Iso_Store
  imports Iso_Common Iso_Policy
begin

text \<open>
  The control plane's durable state (\<^verbatim>\<open>crates/iso-control-plane/src/store.rs\<close>) and its error
  type (\<^verbatim>\<open>error.rs\<close>). A table is the list of its rows in rowid order; enums, ids and
  protocols are stored as their strings and parsed on the way out, as the code does, while
  JSON columns hold the value encoded. A statement is atomic: what SQLite refuses (a
  constraint) or fails to do leaves the tables as they were.
\<close>

section \<open>Errors\<close>

text \<open>Why \<^verbatim>\<open>check_signed\<close> refused a signature, one entry per field that differs.\<close>

datatype Mismatch = MM_Vm | MM_Gen | MM_Egress | MM_Principal | MM_Rules | MM_Claims

datatype CpError =
    SlotsExhausted
  | PortsExhausted
  | UnknownVm VmId
  | VmExists VmId
  | UnknownTemplate string
  | UnknownForward u16 Protocol
  | PoolFull f64 f64
  | InvalidState VmId string string
  | InvalidRule ParseError
  | SignedMismatch "Mismatch list"
  | StoreError string
  | Component CommonError

section \<open>Tables\<close>

record TemplateRow =
  tr_name :: string
  tr_rootfs_template :: string
  tr_snapshot_mem :: "string option"
  tr_snapshot_vmstate :: "string option"
  tr_vcpus :: u32
  tr_mem_mib :: u32
  tr_kernel :: string
  tr_boot_args :: string

record VmRow =
  w_id :: string
  w_slot :: "u16 option"
  w_template :: string
  w_egress :: string
  w_labels :: Labels
  w_lifecycle :: string
  w_restart :: string
  w_vcpus :: "u32 option"
  w_mem_mib :: "u32 option"
  w_state :: string
  w_rootfs_device :: "string option"
  w_tap :: "string option"
  w_principal :: "string option"
  w_allow :: "string list"
  w_rules :: "string list"
  w_policy_gen :: int
  w_signed :: "SignedPolicy option"
  w_snapshot_mem :: "string option"
  w_snapshot_vmstate :: "string option"

record ForwardRow =
  fr_vm_id :: string
  fr_host_port :: u16
  fr_vm_port :: u16
  fr_proto :: string

record Db =
  db_templates :: "TemplateRow list"
  db_vms :: "VmRow list"
  db_forwards :: "ForwardRow list"
  db_cursor :: "int option"

definition db_empty :: Db where
  "db_empty = \<lparr>db_templates = [], db_vms = [], db_forwards = [], db_cursor = None\<rparr>"

section \<open>Rows and records\<close>

fun proto_str :: "Protocol \<Rightarrow> string" where
  "proto_str P_Tcp = ''tcp''"
| "proto_str P_Udp = ''udp''"

definition proto_parse :: "string \<Rightarrow> Protocol" where
  "proto_parse s = (if eq_ignore_ascii_case s ''udp'' then P_Udp else P_Tcp)"

text \<open>Both halves of a snapshot or none.\<close>

definition snapshot_of :: "string option \<Rightarrow> string option \<Rightarrow> SnapshotRef option" where
  "snapshot_of m v =
     (case (m, v) of
        (Some a, Some b) \<Rightarrow> Some \<lparr>mem_file = a, vmstate = b\<rparr>
      | _ \<Rightarrow> None)"

definition template_from_row :: "TemplateRow \<Rightarrow> TemplateDef" where
  "template_from_row r =
     \<lparr>t_name = tr_name r, t_rootfs_template = tr_rootfs_template r,
      t_snapshot = snapshot_of (tr_snapshot_mem r) (tr_snapshot_vmstate r),
      t_vcpus = tr_vcpus r, t_mem_mib = tr_mem_mib r, t_kernel = tr_kernel r,
      t_boot_args = tr_boot_args r\<rparr>"

definition row_of_template :: "TemplateDef \<Rightarrow> TemplateRow" where
  "row_of_template t =
     \<lparr>tr_name = t_name t, tr_rootfs_template = t_rootfs_template t,
      tr_snapshot_mem = map_option mem_file (t_snapshot t),
      tr_snapshot_vmstate = map_option vmstate (t_snapshot t),
      tr_vcpus = t_vcpus t, tr_mem_mib = t_mem_mib t, tr_kernel = t_kernel t,
      tr_boot_args = t_boot_args t\<rparr>"

text \<open>A stored slot that is out of range reads as none.\<close>

definition row_slot :: "VmRow \<Rightarrow> SlotId option" where
  "row_slot r =
     (case w_slot r of
        None \<Rightarrow> None
      | Some n \<Rightarrow> (case slot_new n of Inr s \<Rightarrow> Some s | Inl _ \<Rightarrow> None))"

definition ok_or :: "string \<Rightarrow> 'a option \<Rightarrow> (CpError, 'a) result" where
  "ok_or msg v = (case v of Some x \<Rightarrow> Ok x | None \<Rightarrow> Err (StoreError msg))"

text \<open>
  SQLite integers have 63 bits and a sign: reading a \<^verbatim>\<open>u64\<close> refuses anything else (an
  addition that overflows has become a float), and binding a larger one is refused too.
\<close>

definition get_u64 :: "int \<Rightarrow> (CpError, u64) result" where
  "get_u64 n = (if 0 \<le> n \<and> n < 2 ^ 63 then Ok (of_int n) else Err (StoreError ''integer out of range''))"

definition vm_from_row :: "VmRow \<Rightarrow> (CpError, VmRecord) result" where
  "vm_from_row r =
     and_then (ok_or ''bad vm id'' (vmid_parse (w_id r))) (\<lambda>vid.
     and_then (ok_or ''bad egress'' (egress_parse (w_egress r))) (\<lambda>egress.
     and_then (ok_or ''bad lifecycle'' (lifecycle_parse (w_lifecycle r))) (\<lambda>lifecycle.
     and_then (ok_or ''bad restart'' (restart_parse (w_restart r))) (\<lambda>restart.
     and_then (ok_or ''bad state'' (vmstate_parse (w_state r))) (\<lambda>state.
     and_then (get_u64 (w_policy_gen r)) (\<lambda>gen.
     Ok \<lparr>v_id = vid, v_slot = row_slot r, v_template = w_template r, v_egress = egress,
         v_ingress = [], v_labels = w_labels r, v_lifecycle = lifecycle, v_restart = restart,
         v_vcpus = w_vcpus r, v_mem_mib = w_mem_mib r, v_state = state,
         v_rootfs_device = w_rootfs_device r, v_tap = w_tap r, v_principal = w_principal r,
         v_allow = w_allow r, v_rules = w_rules r, v_policy_gen = gen,
         v_signed = w_signed r,
         v_snapshot = snapshot_of (w_snapshot_mem r) (w_snapshot_vmstate r)\<rparr>))))))"

text \<open>What \<^verbatim>\<open>insert_vm\<close> writes; the snapshot columns are not among those it names.\<close>

definition row_of_vm :: "VmRecord \<Rightarrow> VmRow" where
  "row_of_vm v =
     \<lparr>w_id = vmid_display (v_id v), w_slot = map_option slot_get (v_slot v),
      w_template = v_template v, w_egress = egress_str (v_egress v), w_labels = v_labels v,
      w_lifecycle = lifecycle_as_str (v_lifecycle v), w_restart = restart_as_str (v_restart v),
      w_vcpus = v_vcpus v, w_mem_mib = v_mem_mib v, w_state = vmstate_as_str (v_state v),
      w_rootfs_device = v_rootfs_device v, w_tap = v_tap v, w_principal = v_principal v,
      w_allow = v_allow v, w_rules = v_rules v, w_policy_gen = uint (v_policy_gen v),
      w_signed = v_signed v, w_snapshot_mem = None, w_snapshot_vmstate = None\<rparr>"

section \<open>Statements\<close>

text \<open>The statements the control plane executes, each of them atomic.\<close>

datatype SqlStmt =
    UpsertTemplate TemplateDef
  | InsertVm VmRecord
  | UpdatePlacement VmRecord
  | UpdatePolicy VmId "string option" "string list" "string list" EgressMode "SignedPolicy option"
  | RefreshSigned VmId SignedPolicy
  | SetSlotCursor nat
  | AddForward VmId PortForward
  | RemoveForward VmId u16 Protocol
  | DeleteVm VmId

definition on_vm :: "VmId \<Rightarrow> (VmRow \<Rightarrow> VmRow) \<Rightarrow> VmRow list \<Rightarrow> VmRow list" where
  "on_vm vid f rows = map (\<lambda>r. if w_id r = vmid_display vid then f r else r) rows"

definition vm_count :: "VmId \<Rightarrow> Db \<Rightarrow> nat" where
  "vm_count vid db = length (filter (\<lambda>r. w_id r = vmid_display vid) (db_vms db))"

definition upsert_template :: "TemplateDef \<Rightarrow> Db \<Rightarrow> Db" where
  "upsert_template t db =
     (if t_name t \<in> set (map tr_name (db_templates db))
      then db\<lparr>db_templates :=
             map (\<lambda>r. if tr_name r = t_name t then row_of_template t else r) (db_templates db)\<rparr>
      else db\<lparr>db_templates := db_templates db @ [row_of_template t]\<rparr>)"

definition insert_vm :: "VmRecord \<Rightarrow> Db \<Rightarrow> (CpError, Db) result" where
  "insert_vm v db =
     (if uint (v_policy_gen v) \<ge> 2 ^ 63 then Err (StoreError ''integer out of range'')
      else if vm_count (v_id v) db > 0 then Err (StoreError ''UNIQUE constraint failed: vms.id'')
      else Ok (db\<lparr>db_vms := db_vms db @ [row_of_vm v]\<rparr>))"

definition set_placement :: "VmRecord \<Rightarrow> VmRow \<Rightarrow> VmRow" where
  "set_placement v r =
     r\<lparr>w_slot := map_option slot_get (v_slot v), w_state := vmstate_as_str (v_state v),
       w_rootfs_device := v_rootfs_device v, w_tap := v_tap v,
       w_snapshot_mem := map_option mem_file (v_snapshot v),
       w_snapshot_vmstate := map_option vmstate (v_snapshot v)\<rparr>"

definition update_placement :: "VmRecord \<Rightarrow> Db \<Rightarrow> Db" where
  "update_placement v db = db\<lparr>db_vms := on_vm (v_id v) (set_placement v) (db_vms db)\<rparr>"

definition update_policy ::
  "VmId \<Rightarrow> string option \<Rightarrow> string list \<Rightarrow> string list \<Rightarrow> EgressMode \<Rightarrow> SignedPolicy option \<Rightarrow> Db \<Rightarrow> Db" where
  "update_policy vid prin allow rls egress sp db =
     db\<lparr>db_vms := on_vm vid (\<lambda>r. r\<lparr>w_egress := egress_str egress, w_principal := prin,
          w_allow := allow, w_rules := rls, w_signed := sp,
          w_policy_gen := w_policy_gen r + 1\<rparr>) (db_vms db)\<rparr>"

definition refresh_signed :: "VmId \<Rightarrow> SignedPolicy \<Rightarrow> Db \<Rightarrow> Db" where
  "refresh_signed vid sp db =
     db\<lparr>db_vms := on_vm vid (\<lambda>r. r\<lparr>w_signed := Some sp\<rparr>) (db_vms db)\<rparr>"

definition set_slot_cursor :: "nat \<Rightarrow> Db \<Rightarrow> Db" where
  "set_slot_cursor next db = db\<lparr>db_cursor := Some (int next)\<rparr>"

text \<open>
  \<^verbatim>\<open>add_forward\<close> reports either constraint (the key \<^verbatim>\<open>(host_port, proto)\<close> or the foreign key)
  as a vanished VM.
\<close>

definition add_forward :: "VmId \<Rightarrow> PortForward \<Rightarrow> Db \<Rightarrow> (CpError, Db) result" where
  "add_forward vid f db =
     (if vm_count vid db = 0 \<or>
         (\<exists>r \<in> set (db_forwards db). fr_host_port r = host_port f \<and> fr_proto r = proto_str (proto f))
      then Err (UnknownVm vid)
      else Ok (db\<lparr>db_forwards := db_forwards db @
        [\<lparr>fr_vm_id = vmid_display vid, fr_host_port = host_port f, fr_vm_port = vm_port f,
          fr_proto = proto_str (proto f)\<rparr>]\<rparr>))"

definition is_forward :: "VmId \<Rightarrow> u16 \<Rightarrow> Protocol \<Rightarrow> ForwardRow \<Rightarrow> bool" where
  "is_forward vid hp pr r \<longleftrightarrow>
     fr_vm_id r = vmid_display vid \<and> fr_host_port r = hp \<and> fr_proto r = proto_str pr"

definition remove_forward :: "VmId \<Rightarrow> u16 \<Rightarrow> Protocol \<Rightarrow> Db \<Rightarrow> nat \<times> Db" where
  "remove_forward vid hp pr db =
     (length (filter (is_forward vid hp pr) (db_forwards db)),
      db\<lparr>db_forwards := filter (\<lambda>r. \<not> is_forward vid hp pr r) (db_forwards db)\<rparr>)"

text \<open>Deleting a VM takes its forwards with it (\<^verbatim>\<open>ON DELETE CASCADE\<close>).\<close>

definition delete_vm :: "VmId \<Rightarrow> Db \<Rightarrow> Db" where
  "delete_vm vid db =
     db\<lparr>db_vms := filter (\<lambda>r. w_id r \<noteq> vmid_display vid) (db_vms db),
        db_forwards := filter (\<lambda>r. fr_vm_id r \<noteq> vmid_display vid) (db_forwards db)\<rparr>"

text \<open>One statement: the rows it changed and the tables after it, or the refusal.\<close>

fun db_exec :: "SqlStmt \<Rightarrow> Db \<Rightarrow> (CpError, nat \<times> Db) result" where
  "db_exec (UpsertTemplate t) db = Ok (1, upsert_template t db)"
| "db_exec (InsertVm v) db = map_ok (Pair 1) (insert_vm v db)"
| "db_exec (UpdatePlacement v) db = Ok (vm_count (v_id v) db, update_placement v db)"
| "db_exec (UpdatePolicy vid p a r e s) db = Ok (vm_count vid db, update_policy vid p a r e s db)"
| "db_exec (RefreshSigned vid s) db = Ok (vm_count vid db, refresh_signed vid s db)"
| "db_exec (SetSlotCursor n) db = Ok (1, set_slot_cursor n db)"
| "db_exec (AddForward vid f) db = map_ok (Pair 1) (add_forward vid f db)"
| "db_exec (RemoveForward vid hp pr) db = Ok (remove_forward vid hp pr db)"
| "db_exec (DeleteVm vid) db = Ok (vm_count vid db, delete_vm vid db)"

section \<open>Queries\<close>

definition forwards_in :: "VmId \<Rightarrow> Db \<Rightarrow> PortForward list" where
  "forwards_in vid db =
     map (\<lambda>r. \<lparr>host_port = fr_host_port r, vm_port = fr_vm_port r, proto = proto_parse (fr_proto r)\<rparr>)
       (sort_key fr_host_port (filter (\<lambda>r. fr_vm_id r = vmid_display vid) (db_forwards db)))"

definition get_template :: "string \<Rightarrow> Db \<Rightarrow> TemplateDef option" where
  "get_template name db =
     map_option template_from_row (find (\<lambda>r. tr_name r = name) (db_templates db))"

definition list_templates :: "Db \<Rightarrow> TemplateDef list" where
  "list_templates db = map template_from_row (sort_key tr_name (db_templates db))"

definition get_vm :: "VmId \<Rightarrow> Db \<Rightarrow> (CpError, VmRecord option) result" where
  "get_vm vid db =
     (case find (\<lambda>r. w_id r = vmid_display vid) (db_vms db) of
        None \<Rightarrow> Ok None
      | Some r \<Rightarrow> and_then (vm_from_row r) (\<lambda>v. Ok (Some (v\<lparr>v_ingress := forwards_in vid db\<rparr>))))"

definition list_vms :: "Db \<Rightarrow> (CpError, VmRecord list) result" where
  "list_vms db =
     map_ok (map (\<lambda>v. v\<lparr>v_ingress := forwards_in (v_id v) db\<rparr>)) (collect vm_from_row (db_vms db))"

text \<open>\<^verbatim>\<open>SELECT policy_gen\<close> after an update: no row is an error.\<close>

definition get_policy_gen :: "VmId \<Rightarrow> Db \<Rightarrow> (CpError, u64) result" where
  "get_policy_gen vid db =
     (case find (\<lambda>r. w_id r = vmid_display vid) (db_vms db) of
        None \<Rightarrow> Err (StoreError ''Query returned no rows'')
      | Some r \<Rightarrow> get_u64 (w_policy_gen r))"

definition slot_cursor :: "Db \<Rightarrow> nat option" where
  "slot_cursor db = (case db_cursor db of None \<Rightarrow> None | Some n \<Rightarrow> if n < 0 then None else Some (nat n))"

section \<open>The store's invariant\<close>

text \<open>
  A row is well formed when it reads back as a record filed under its own id, with its slot
  in range. The tables are when ids are unique, every row is well formed, every forward
  belongs to a VM on record, and no two forwards share a host port and protocol.
\<close>

definition row_wf :: "VmRow \<Rightarrow> bool" where
  "row_wf r \<longleftrightarrow> ok_and (vm_from_row r)
     (\<lambda>v. w_id r = vmid_display (v_id v) \<and> w_slot r = map_option slot_get (v_slot v))"

definition db_wf :: "Db \<Rightarrow> bool" where
  "db_wf db \<longleftrightarrow> distinct (map w_id (db_vms db)) \<and> (\<forall>r \<in> set (db_vms db). row_wf r) \<and>
     (\<forall>f \<in> set (db_forwards db). fr_vm_id f \<in> w_id ` set (db_vms db)) \<and>
     distinct (map (\<lambda>f. (fr_host_port f, fr_proto f)) (db_forwards db))"

text \<open>A record that can be filed: its slot and generation are in the columns' range.\<close>

definition vm_fits :: "VmRecord \<Rightarrow> bool" where
  "vm_fits v \<longleftrightarrow> (case v_slot v of None \<Rightarrow> True | Some s \<Rightarrow> slot_get s \<le> slot_max)"

fun stmt_fits :: "SqlStmt \<Rightarrow> Db \<Rightarrow> bool" where
  "stmt_fits (InsertVm v) db = vm_fits v"
| "stmt_fits (UpdatePlacement v) db = vm_fits v"
| "stmt_fits (UpdatePolicy vid p a r e s) db = (\<forall>r \<in> set (db_vms db). w_policy_gen r < 2 ^ 63 - 1)"
| "stmt_fits _ db = True"

text \<open>What the tables say of a VM: the abstract store is a map from ids to records.\<close>

definition db_abs :: "Db \<Rightarrow> VmId \<Rightarrow> VmRecord option" where
  "db_abs db vid = (case get_vm vid db of Inr r \<Rightarrow> r | Inl _ \<Rightarrow> None)"

definition with_placement :: "VmRecord \<Rightarrow> VmRecord \<Rightarrow> VmRecord" where
  "with_placement v r =
     r\<lparr>v_slot := v_slot v, v_state := v_state v, v_rootfs_device := v_rootfs_device v,
       v_tap := v_tap v, v_snapshot := v_snapshot v\<rparr>"

section \<open>Lemmas\<close>

named_theorems stmt_defs \<open>the definitions of the statements\<close>

declare upsert_template_def [stmt_defs] insert_vm_def [stmt_defs] update_placement_def [stmt_defs]
  update_policy_def [stmt_defs] refresh_signed_def [stmt_defs] set_slot_cursor_def [stmt_defs]
  add_forward_def [stmt_defs] remove_forward_def [stmt_defs] delete_vm_def [stmt_defs]

lemma proto_parse_str [simp, enum_roundtrip]: "proto_parse (proto_str p) = p"
  by (cases p; simp; code_simp)

lemma snapshot_of_map [simp]:
  "snapshot_of (map_option mem_file s) (map_option vmstate s) = s"
  by (cases s) (simp_all add: snapshot_of_def)

lemma ok_or_simps [simp]: "ok_or m (Some x) = Ok x" "ok_or m None = Err (StoreError m)"
  by (simp_all add: ok_or_def)

lemma ok_or_Ok_iff: "ok_or m v = Ok x \<longleftrightarrow> v = Some x"
  by (cases v) simp_all

lemma row_slot_written:
  "vm_fits v \<Longrightarrow> w_slot r = map_option slot_get (v_slot v) \<Longrightarrow> row_slot r = v_slot v"
  by (auto simp: row_slot_def vm_fits_def slot_new_def split: option.splits)

lemma get_u64_uint [simp]: "uint (g :: u64) < 2 ^ 63 \<Longrightarrow> get_u64 (uint g) = Ok g"
  by (simp add: get_u64_def)

lemma vm_count_pos_iff: "0 < vm_count vid db \<longleftrightarrow> vmid_display vid \<in> w_id ` set (db_vms db)"
  by (force simp: vm_count_def filter_empty_conv)

lemma vm_count_0_iff: "vm_count vid db = 0 \<longleftrightarrow> vmid_display vid \<notin> w_id ` set (db_vms db)"
  using vm_count_pos_iff [of vid db] by (metis bot_nat_0.not_eq_extremum)

lemma row_of_vm_reads:
  "vm_fits v \<Longrightarrow> uint (v_policy_gen v) < 2 ^ 63 \<Longrightarrow>
     vm_from_row (row_of_vm v) = Ok (v\<lparr>v_ingress := [], v_snapshot := None\<rparr>)"
  using row_slot_written [of v "row_of_vm v"]
  by (simp add: vm_from_row_def row_of_vm_def snapshot_of_def)

lemma w_id_set_placement [simp]: "w_id (set_placement v r) = w_id r"
  by (simp add: set_placement_def)

lemma vm_from_row_placement:
  assumes "vm_from_row r = Ok u" and "vm_fits v"
  shows "vm_from_row (set_placement v r) = Ok (with_placement v u)"
  using assms row_slot_written [of v "set_placement v r"]
  by (auto simp: vm_from_row_def and_then_Inr_iff ok_or_Ok_iff set_placement_def with_placement_def)

lemma on_vm_ids [simp]:
  "(\<And>r. w_id (f r) = w_id r) \<Longrightarrow> map w_id (on_vm vid f rows) = map w_id rows"
  by (auto simp: on_vm_def)

lemma on_vm_id_set [simp]:
  "(\<And>r. w_id (f r) = w_id r) \<Longrightarrow> w_id ` set (on_vm vid f rows) = w_id ` set rows"
  by (metis on_vm_ids list.set_map)

lemma on_vm_cong:
  "(\<And>r. r \<in> set rows \<Longrightarrow> w_id r = vmid_display vid \<Longrightarrow> f r = g r) \<Longrightarrow>
     on_vm vid f rows = on_vm vid g rows"
  by (auto simp: on_vm_def)

lemma find_on_vm:
  "(\<And>r. w_id (f r) = w_id r) \<Longrightarrow>
     find (\<lambda>r. w_id r = k) (on_vm vid f rows) =
     map_option (\<lambda>r. if k = vmid_display vid then f r else r) (find (\<lambda>r. w_id r = k) rows)"
  by (induction rows) (auto simp: on_vm_def)

lemma find_id_Some: "find (\<lambda>r. w_id r = k) rows = Some r \<Longrightarrow> r \<in> set rows \<and> w_id r = k"
  by (auto simp: find_Some_iff)

lemma find_id_None: "find (\<lambda>r. w_id r = k) rows = None \<longleftrightarrow> k \<notin> w_id ` set rows"
  by (auto simp: find_None_iff)

lemma find_append: "find P (xs @ ys) = (case find P xs of None \<Rightarrow> find P ys | Some x \<Rightarrow> Some x)"
  by (induction xs) auto

lemma find_filter: "find P (filter Q xs) = find (\<lambda>x. P x \<and> Q x) xs"
  by (induction xs) auto

lemma find_key_unique:
  "distinct (map w_id rows) \<Longrightarrow> r \<in> set rows \<Longrightarrow> find (\<lambda>x. w_id x = w_id r) rows = Some r"
  by (induction rows) auto

lemma row_wf_readable: "row_wf r \<Longrightarrow> \<exists>v. vm_from_row r = Ok v \<and> w_id r = vmid_display (v_id v)"
  by (auto simp: row_wf_def ok_and_iff)

lemma vm_from_row_cong_policy:
  assumes "vm_from_row r = Ok u" and "get_u64 g = Ok h"
  shows "vm_from_row (r\<lparr>w_egress := egress_str e, w_principal := p, w_allow := a, w_rules := rs,
      w_signed := s, w_policy_gen := g\<rparr>) =
    Ok (u\<lparr>v_egress := e, v_principal := p, v_allow := a, v_rules := rs, v_signed := s, v_policy_gen := h\<rparr>)"
  using assms by (auto simp: vm_from_row_def and_then_Inr_iff ok_or_Ok_iff row_slot_def)

lemma vm_from_row_signed:
  assumes "vm_from_row r = Ok u"
  shows "vm_from_row (r\<lparr>w_signed := s\<rparr>) = Ok (u\<lparr>v_signed := s\<rparr>)"
  using assms by (auto simp: vm_from_row_def and_then_Inr_iff ok_or_Ok_iff row_slot_def)

lemma vm_from_row_gen: "vm_from_row r = Ok u \<Longrightarrow> get_u64 (w_policy_gen r) = Ok (v_policy_gen u)"
  by (auto simp: vm_from_row_def and_then_Inr_iff)

lemma row_wf_step:
  assumes "vm_from_row r = Ok u \<Longrightarrow> vm_from_row r' = Ok u'" and "row_wf r"
    and "w_id r' = w_id r" and "v_id u' = v_id u" and "vm_from_row r = Ok u"
    and "w_slot r' = map_option slot_get (v_slot u')"
  shows "row_wf r'"
  using assms by (auto simp: row_wf_def ok_and_iff)

lemma row_wf_placement: "row_wf r \<Longrightarrow> vm_fits v \<Longrightarrow> row_wf (set_placement v r)"
  by (auto simp: row_wf_def ok_and_iff vm_from_row_placement)
    (auto simp: with_placement_def set_placement_def)

lemma get_u64_bounds: "get_u64 g = Ok h \<Longrightarrow> 0 \<le> g \<and> g < 2 ^ 63"
  by (simp add: get_u64_def split: if_splits)

lemma get_u64_suc:
  assumes "get_u64 g = Ok h" and "g < 2 ^ 63 - 1"
  shows "get_u64 (g + 1) = Ok (h + 1)"
  using assms by (auto simp: get_u64_def split: if_splits)

lemma row_wf_policy:
  assumes "row_wf r" and "w_policy_gen r < 2 ^ 63 - 1"
  shows "row_wf (r\<lparr>w_egress := egress_str e, w_principal := p, w_allow := a, w_rules := rs,
      w_signed := s, w_policy_gen := w_policy_gen r + 1\<rparr>)"
proof -
  obtain u where u: "vm_from_row r = Ok u" "w_id r = vmid_display (v_id u)"
    "w_slot r = map_option slot_get (v_slot u)"
    using assms(1) by (auto simp: row_wf_def ok_and_iff)
  have "get_u64 (w_policy_gen r + 1) = Ok (v_policy_gen u + 1)"
    using vm_from_row_gen [OF u(1)] assms(2) by (rule get_u64_suc)
  from vm_from_row_cong_policy [OF u(1) this] u(2,3) show ?thesis
    by (simp add: row_wf_def ok_and_iff)
qed

lemma row_wf_signed: "row_wf r \<Longrightarrow> row_wf (r\<lparr>w_signed := s\<rparr>)"
  by (auto simp: row_wf_def ok_and_iff vm_from_row_signed)

lemma row_wf_new: "vm_fits v \<Longrightarrow> uint (v_policy_gen v) < 2 ^ 63 \<Longrightarrow> row_wf (row_of_vm v)"
  by (simp add: row_wf_def ok_and_iff row_of_vm_reads) (simp add: row_of_vm_def)

lemma db_wf_on_vm:
  assumes "db_wf db" and "\<And>r. w_id (f r) = w_id r"
    and "\<And>r. r \<in> set (db_vms db) \<Longrightarrow> row_wf r \<Longrightarrow> row_wf (f r)"
  shows "db_wf (db\<lparr>db_vms := on_vm vid f (db_vms db)\<rparr>)"
  using assms by (auto simp: db_wf_def) (auto simp: on_vm_def)

lemma distinct_map_filter_key: "distinct (map f xs) \<Longrightarrow> distinct (map f (filter P xs))"
  by (induction xs) auto

lemma db_exec_keeps_wf:
  assumes "db_wf db" and "stmt_fits s db" and "db_exec s db = Ok (n, db')"
  shows "db_wf db'"
proof (cases s)
  case (InsertVm v)
  with assms show ?thesis
    by (auto simp: db_wf_def insert_vm_def vm_count_0_iff row_wf_new split: if_splits)
      (auto simp: row_of_vm_def)
next
  case (UpdatePlacement v)
  with assms show ?thesis
    by (auto simp: update_placement_def row_wf_placement intro!: db_wf_on_vm)
next
  case (UpdatePolicy vid p a r e sp)
  with assms show ?thesis
    by (auto simp: update_policy_def row_wf_policy intro!: db_wf_on_vm)
next
  case (RefreshSigned vid sp)
  with assms show ?thesis
    by (auto simp: refresh_signed_def row_wf_signed intro!: db_wf_on_vm)
next
  case (AddForward vid f)
  with assms show ?thesis
    by (force simp: db_wf_def add_forward_def vm_count_0_iff split: if_splits)
next
  case (RemoveForward vid hp pr)
  with assms show ?thesis
    by (auto simp: db_wf_def remove_forward_def distinct_map_filter_key)
next
  case (DeleteVm vid)
  with assms show ?thesis
    by (auto simp: db_wf_def delete_vm_def distinct_map_filter_key image_iff) metis
qed (use assms in \<open>auto simp: db_wf_def upsert_template_def set_slot_cursor_def split: if_splits\<close>)

section \<open>Refinement of the abstract store\<close>

lemma get_vm_wf:
  assumes "db_wf db"
  shows "get_vm vid db = Ok (db_abs db vid)"
proof (cases "find (\<lambda>r. w_id r = vmid_display vid) (db_vms db)")
  case None
  then show ?thesis by (simp add: db_abs_def get_vm_def)
next
  case (Some r)
  with assms have "row_wf r" using find_id_Some by (fastforce simp: db_wf_def)
  then obtain v where "vm_from_row r = Ok v" by (auto simp: row_wf_def ok_and_iff)
  with Some show ?thesis by (simp add: db_abs_def get_vm_def)
qed

lemma db_abs_None_iff:
  assumes "db_wf db"
  shows "db_abs db vid = None \<longleftrightarrow> vm_count vid db = 0"
proof -
  have "db_abs db vid = None \<longleftrightarrow> find (\<lambda>r. w_id r = vmid_display vid) (db_vms db) = None"
    using get_vm_wf [OF assms, of vid]
    by (auto simp: get_vm_def and_then_Inr_iff eq_commute [of "Some _"] split: option.splits)
  then show ?thesis by (simp only: find_id_None vm_count_0_iff)
qed

lemma db_abs_Some_iff:
  assumes "db_wf db"
  shows "db_abs db vid = Some v \<longleftrightarrow>
    (\<exists>r u. r \<in> set (db_vms db) \<and> w_id r = vmid_display vid \<and> vm_from_row r = Ok u \<and>
       v = u\<lparr>v_ingress := forwards_in vid db\<rparr>)"
proof
  assume "db_abs db vid = Some v"
  with get_vm_wf [OF assms, of vid] show "\<exists>r u. r \<in> set (db_vms db) \<and> w_id r = vmid_display vid \<and>
      vm_from_row r = Ok u \<and> v = u\<lparr>v_ingress := forwards_in vid db\<rparr>"
    by (auto simp: get_vm_def and_then_Inr_iff dest!: find_id_Some split: option.splits)
next
  assume "\<exists>r u. r \<in> set (db_vms db) \<and> w_id r = vmid_display vid \<and>
      vm_from_row r = Ok u \<and> v = u\<lparr>v_ingress := forwards_in vid db\<rparr>"
  then obtain r u where r: "r \<in> set (db_vms db)" "w_id r = vmid_display vid" "vm_from_row r = Ok u"
    "v = u\<lparr>v_ingress := forwards_in vid db\<rparr>" by auto
  with assms find_key_unique [of "db_vms db" r]
  have "find (\<lambda>x. w_id x = vmid_display vid) (db_vms db) = Some r" by (simp add: db_wf_def)
  with r show "db_abs db vid = Some v" by (simp add: db_abs_def get_vm_def)
qed

lemma db_abs_id: "db_wf db \<Longrightarrow> db_abs db vid = Some v \<Longrightarrow> v_id v = vid"
  by (auto simp: db_abs_Some_iff db_wf_def row_wf_def ok_and_iff)

lemma db_abs_cong:
  assumes "db_vms db' = db_vms db" and "db_forwards db' = db_forwards db"
  shows "db_abs db' = db_abs db"
  using assms
  by (simp add: db_abs_def get_vm_def forwards_in_def fun_eq_iff cong: option.case_cong)

lemma forwards_in_on_vm [simp]: "forwards_in vid (db\<lparr>db_vms := x\<rparr>) = forwards_in vid db"
  by (simp add: forwards_in_def)

lemma forwards_in_none:
  assumes "db_wf db" and "vm_count vid db = 0"
  shows "forwards_in vid db = []"
proof -
  have "filter (\<lambda>r. fr_vm_id r = vmid_display vid) (db_forwards db) = []"
    using assms by (metis (mono_tags, lifting) db_wf_def vm_count_0_iff filter_empty_conv)
  then show ?thesis by (simp add: forwards_in_def)
qed

text \<open>An update of one VM's row changes that VM's record and no other.\<close>

lemma db_abs_on_vm:
  assumes "db_wf db" and keep: "\<And>r. w_id (f r) = w_id r"
    and step: "\<And>r u. r \<in> set (db_vms db) \<Longrightarrow> w_id r = vmid_display vid \<Longrightarrow> vm_from_row r = Ok u \<Longrightarrow>
      vm_from_row (f r) = Ok (g u)"
    and ingress: "\<And>u x. g (u\<lparr>v_ingress := x\<rparr>) = (g u)\<lparr>v_ingress := x\<rparr>"
  shows "db_abs (db\<lparr>db_vms := on_vm vid f (db_vms db)\<rparr>) k =
    (if k = vid then map_option g (db_abs db k) else db_abs db k)"
proof (cases "find (\<lambda>r. w_id r = vmid_display k) (db_vms db)")
  case None
  with keep show ?thesis by (auto simp: db_abs_def get_vm_def find_on_vm)
next
  case (Some r)
  with assms(1) have "row_wf r" using find_id_Some by (fastforce simp: db_wf_def)
  then obtain u where u: "vm_from_row r = Ok u" by (auto simp: row_wf_def ok_and_iff)
  from find_id_Some [OF Some] have r: "r \<in> set (db_vms db)" "w_id r = vmid_display k" by auto
  show ?thesis
    using Some keep u step [OF r(1) _ u] r(2) ingress
    by (auto simp: db_abs_def get_vm_def find_on_vm)
qed

lemma db_abs_update_placement:
  assumes "db_wf db" and "vm_fits v"
  shows "db_abs (update_placement v db) k =
    (if k = v_id v then map_option (with_placement v) (db_abs db k) else db_abs db k)"
  unfolding update_placement_def
  by (rule db_abs_on_vm) (use assms in \<open>auto simp: vm_from_row_placement\<close>, simp add: with_placement_def)

definition with_policy ::
  "string option \<Rightarrow> string list \<Rightarrow> string list \<Rightarrow> EgressMode \<Rightarrow> SignedPolicy option \<Rightarrow> VmRecord \<Rightarrow> VmRecord" where
  "with_policy p a rs e s u =
     u\<lparr>v_egress := e, v_principal := p, v_allow := a, v_rules := rs, v_signed := s,
       v_policy_gen := v_policy_gen u + 1\<rparr>"

lemma db_abs_update_policy:
  assumes "db_wf db" and "stmt_fits (UpdatePolicy vid p a rs e s) db"
  shows "db_abs (update_policy vid p a rs e s db) k =
    (if k = vid then map_option (with_policy p a rs e s) (db_abs db k) else db_abs db k)"
  unfolding update_policy_def
proof (rule db_abs_on_vm)
  fix r u assume r: "r \<in> set (db_vms db)" "vm_from_row r = Ok u"
  with assms(2) have "get_u64 (w_policy_gen r + 1) = Ok (v_policy_gen u + 1)"
    by (intro get_u64_suc vm_from_row_gen) auto
  from vm_from_row_cong_policy [OF r(2) this]
  show "vm_from_row (r\<lparr>w_egress := egress_str e, w_principal := p, w_allow := a, w_rules := rs,
      w_signed := s, w_policy_gen := w_policy_gen r + 1\<rparr>) = Ok (with_policy p a rs e s u)"
    by (simp add: with_policy_def)
qed (use assms in \<open>simp_all add: with_policy_def\<close>)

lemma db_abs_refresh_signed:
  assumes "db_wf db"
  shows "db_abs (refresh_signed vid s db) k =
    (if k = vid then map_option (v_signed_update (\<lambda>_. Some s)) (db_abs db k) else db_abs db k)"
  unfolding refresh_signed_def
  by (rule db_abs_on_vm) (use assms in \<open>simp_all add: vm_from_row_signed\<close>)

lemma db_abs_insert:
  assumes "db_wf db" and "vm_fits v" and "insert_vm v db = Ok db'"
  shows "db_abs db' k =
    (if k = v_id v then Some (v\<lparr>v_ingress := [], v_snapshot := None\<rparr>) else db_abs db k)"
proof -
  from assms(3) have db': "db' = db\<lparr>db_vms := db_vms db @ [row_of_vm v]\<rparr>"
    and g: "uint (v_policy_gen v) < 2 ^ 63" and new: "vm_count (v_id v) db = 0"
    by (auto simp: insert_vm_def split: if_splits)
  have wid: "w_id (row_of_vm v) = vmid_display (v_id v)" by (simp add: row_of_vm_def)
  have "find (\<lambda>r. w_id r = vmid_display (v_id v)) (db_vms db) = None"
    using new by (simp only: find_id_None vm_count_0_iff not_False_eq_True)
  with assms(1) new row_of_vm_reads [OF assms(2) g] wid show ?thesis
    by (auto simp: db' db_abs_def get_vm_def find_append forwards_in_none split: option.splits)
qed

lemma forwards_in_delete:
  "forwards_in k (delete_vm vid db) = (if k = vid then [] else forwards_in k db)"
  by (auto simp: forwards_in_def delete_vm_def filter_filter intro!: arg_cong [where f = "sort_key _"]
      filter_cong arg_cong [where f = "map _"])

lemma db_abs_delete:
  assumes "db_wf db"
  shows "db_abs (delete_vm vid db) k = (if k = vid then None else db_abs db k)"
proof -
  have "find (\<lambda>r. w_id r = vmid_display k) (db_vms (delete_vm vid db)) =
      (if k = vid then None else find (\<lambda>r. w_id r = vmid_display k) (db_vms db))"
    by (auto simp: delete_vm_def find_filter find_None_iff intro!: arg_cong2 [where f = find])
  then show ?thesis
    by (simp add: db_abs_def get_vm_def forwards_in_delete cong: option.case_cong)
qed

section \<open>Properties\<close>

text \<open>C38: the tables stay well formed (unique ids, every row readable under its own id, no
  orphaned forward, no host port and protocol declared twice) under every statement the
  control plane executes with records whose slot is in range, as long as no policy
  generation has reached the largest integer SQLite holds.\<close>

theorem db_exec_wf:
  assumes "db_wf db" and "stmt_fits s db" and "db_exec s db = Ok (n, db')"
  shows "db_wf db'"
  using assms by (rule db_exec_keeps_wf)

definition sample_vm :: VmRecord where
  "sample_vm = \<lparr>v_id = 7, v_slot = Some (SlotId 3), v_template = ''base'', v_egress = E_Proxy,
     v_ingress = [], v_labels = [], v_lifecycle = Durable, v_restart = Never, v_vcpus = None,
     v_mem_mib = None, v_state = Creating, v_rootfs_device = None, v_tap = None,
     v_principal = None, v_allow = [], v_rules = [], v_policy_gen = 1, v_signed = None,
     v_snapshot = None\<rparr>"

definition sample_db :: Db where
  "sample_db = db_empty\<lparr>db_vms := [row_of_vm sample_vm]\<rparr>"

lemma sample_vm_fits: "vm_fits sample_vm" "uint (v_policy_gen sample_vm) < 2 ^ 63"
  by (simp_all add: sample_vm_def vm_fits_def slot_max_def)

lemma sample_insert: "insert_vm sample_vm db_empty = Ok sample_db"
  using sample_vm_fits(2) by (simp add: insert_vm_def sample_db_def db_empty_def vm_count_def)

lemma db_wf_empty: "db_wf db_empty"
  by (simp add: db_wf_def db_empty_def)

lemma sample_db_wf: "db_wf sample_db"
  using db_exec_keeps_wf [OF db_wf_empty, of "InsertVm sample_vm" 1 sample_db] sample_vm_fits(1)
  by (simp add: sample_insert)

lemma sample_list: "list_vms sample_db = Ok [sample_vm]"
proof -
  have "forwards_in 7 sample_db = []"
    by (simp add: forwards_in_def sample_db_def db_empty_def)
  then show ?thesis
    using row_of_vm_reads [OF sample_vm_fits]
    by (simp add: list_vms_def) (simp add: sample_db_def sample_vm_def db_empty_def)
qed

lemma sample_db_gen: "\<forall>r \<in> set (db_vms sample_db). w_policy_gen r < 2 ^ 63 - 1"
  by (simp add: sample_db_def db_empty_def row_of_vm_def sample_vm_def)

theorem db_exec_wf_witness: "db_wf (update_policy 7 None [] [] E_Deny None sample_db)"
  using db_exec_wf [of sample_db "UpdatePolicy 7 None [] [] E_Deny None" "vm_count 7 sample_db"]
    sample_db_wf sample_db_gen by simp



text \<open>C10: a lifecycle transition and a policy edit of one VM, in either order, leave the same
  tables: neither overwrites what the other wrote.\<close>

theorem placement_policy_commute:
  "update_placement v (update_policy k p a rs e s db) =
   update_policy k p a rs e s (update_placement v db)"
  by (simp add: update_placement_def update_policy_def on_vm_def set_placement_def)

end
