(* ===== verification/Iso_Alloc.thy ===== *)
theory Iso_Alloc
  imports Iso_Common
begin

text \<open>
  The allocators of \<^verbatim>\<open>crates/iso-control-plane/src/slot.rs\<close> and \<^verbatim>\<open>port.rs\<close>, and the
  contract they share: a pool hands out an identifier of its universe that is not
  taken, and refuses only when every one is. The control plane is proved against
  the contract. A \<^verbatim>\<open>HashSet\<close> is a set, \<^verbatim>\<open>usize\<close> a natural number.
\<close>

section \<open>The contract\<close>

locale id_pool =
  fixes allocate :: "'s \<Rightarrow> 'i option \<times> 's"
    and reserve :: "'i \<Rightarrow> 's \<Rightarrow> 's"
    and free :: "'i \<Rightarrow> 's \<Rightarrow> 's"
    and taken :: "'s \<Rightarrow> 'i set"
    and universe :: "'s \<Rightarrow> 'i set"
    and invar :: "'s \<Rightarrow> bool"
  assumes allocate_Some:
      "invar s \<Longrightarrow> allocate s = (Some i, s') \<Longrightarrow>
         i \<in> universe s \<and> i \<notin> taken s \<and> taken s' = insert i (taken s)"
    and allocate_None:
      "invar s \<Longrightarrow> allocate s = (None, s') \<Longrightarrow> universe s \<subseteq> taken s \<and> taken s' = taken s"
    and taken_reserve: "invar s \<Longrightarrow> taken (reserve i s) = taken s \<union> ({i} \<inter> universe s)"
    and taken_free: "invar s \<Longrightarrow> taken (free i s) = taken s - {i}"
    and invar_allocate: "invar s \<Longrightarrow> invar (snd (allocate s))"
    and invar_reserve: "invar s \<Longrightarrow> invar (reserve i s)"
    and invar_free: "invar s \<Longrightarrow> invar (free i s)"
    and universe_allocate: "universe (snd (allocate s)) = universe s"
    and universe_reserve: "universe (reserve i s) = universe s"
    and universe_free: "universe (free i s) = universe s"
begin

lemmas pool_simps =
  taken_reserve taken_free invar_allocate invar_reserve invar_free
  universe_allocate universe_reserve universe_free

text \<open>An identifier is given exactly when one is left.\<close>

lemma allocate_Some_iff:
  assumes "invar s"
  shows "(\<exists>i. fst (allocate s) = Some i) \<longleftrightarrow> \<not> universe s \<subseteq> taken s"
proof (cases "allocate s")
  case (Pair r s')
  then show ?thesis
    using allocate_Some [OF assms] allocate_None [OF assms] by (cases r) auto
qed

lemma allocate_taken_mono: "invar s \<Longrightarrow> taken s \<subseteq> taken (snd (allocate s))"
  using allocate_Some allocate_None by (cases "allocate s"; cases "fst (allocate s)") force+

text \<open>Recovery: every identifier of the universe that a record names is taken again.\<close>

lemma fold_reserve:
  assumes "invar s"
  shows "invar (fold reserve is s) \<and> universe (fold reserve is s) = universe s \<and>
    taken (fold reserve is s) = taken s \<union> (set is \<inter> universe s)"
  using assms by (induction "is" arbitrary: s) (auto simp: pool_simps)

lemma fold_free:
  assumes "invar s"
  shows "invar (fold free is s) \<and> universe (fold free is s) = universe s \<and>
    taken (fold free is s) = taken s - set is"
  using assms by (induction "is" arbitrary: s) (auto simp: pool_simps)

end

section \<open>Slots\<close>

record SlotAllocator =
  sa_used :: "bool list"
  sa_cursor :: nat

definition slots_new :: "nat \<Rightarrow> SlotAllocator" where
  "slots_new capacity = \<lparr>sa_used = replicate capacity False, sa_cursor = 0\<rparr>"

text \<open>
  The scan visits every index once, from the cursor on. \<^verbatim>\<open>idx as u16\<close> keeps the low
  16 bits, and \<^verbatim>\<open>SlotId::new(..).ok()\<close> drops what is out of range.
\<close>

definition slot_allocate :: "SlotAllocator \<Rightarrow> SlotId option \<times> SlotAllocator" where
  "slot_allocate a =
     (let n = length (sa_used a) in
      case find (\<lambda>i. \<not> sa_used a ! ((sa_cursor a + i) mod n)) [0..<n] of
        None \<Rightarrow> (None, a)
      | Some i \<Rightarrow>
          let idx = (sa_cursor a + i) mod n in
          (case slot_new (of_nat idx) of Inr s \<Rightarrow> Some s | Inl _ \<Rightarrow> None,
           \<lparr>sa_used = (sa_used a)[idx := True], sa_cursor = (idx + 1) mod n\<rparr>))"

definition slot_resume_at :: "nat \<Rightarrow> SlotAllocator \<Rightarrow> SlotAllocator" where
  "slot_resume_at cursor a =
     (if sa_used a \<noteq> [] then a\<lparr>sa_cursor := cursor mod length (sa_used a)\<rparr> else a)"

definition slot_reserve :: "SlotId \<Rightarrow> SlotAllocator \<Rightarrow> SlotAllocator" where
  "slot_reserve slot a =
     (let i = unat (slot_get slot) in
      if i < length (sa_used a) then a\<lparr>sa_used := (sa_used a)[i := True]\<rparr> else a)"

definition slot_free :: "SlotId \<Rightarrow> SlotAllocator \<Rightarrow> SlotAllocator" where
  "slot_free slot a =
     (let i = unat (slot_get slot) in
      if i < length (sa_used a) then a\<lparr>sa_used := (sa_used a)[i := False]\<rparr> else a)"

definition slot_in_use :: "SlotAllocator \<Rightarrow> nat" where
  "slot_in_use a = length (filter (\<lambda>u. u) (sa_used a))"

definition slot_capacity_of :: "SlotAllocator \<Rightarrow> nat" where
  "slot_capacity_of a = length (sa_used a)"

text \<open>The allocator's meaning: the slots it covers and those taken.\<close>

definition slots_universe :: "SlotAllocator \<Rightarrow> SlotId set" where
  "slots_universe a = {s. unat (slot_get s) < length (sa_used a)}"

definition slots_taken :: "SlotAllocator \<Rightarrow> SlotId set" where
  "slots_taken a = {s. unat (slot_get s) < length (sa_used a) \<and> sa_used a ! unat (slot_get s)}"

definition slots_invar :: "SlotAllocator \<Rightarrow> bool" where
  "slots_invar a \<longleftrightarrow> length (sa_used a) \<le> 32768 \<and> (sa_used a = [] \<or> sa_cursor a < length (sa_used a))"

lemma slot_new_of_nat:
  "n < 32768 \<Longrightarrow> slot_new (of_nat n) = Ok (SlotId (of_nat n))"
  by (simp add: slot_new_def slot_max_def word_le_nat_alt unat_of_nat)

lemma unat_slot_of_nat: "n < 32768 \<Longrightarrow> unat (of_nat n :: u16) = n"
  by (simp add: unat_of_nat)

lemma slot_allocate_cases:
  assumes "slots_invar a"
  obtains (none) "slot_allocate a = (None, a)" "\<forall>k < length (sa_used a). sa_used a ! k"
  | (some) k i where "k < length (sa_used a)" "\<not> sa_used a ! k"
      "k = (sa_cursor a + i) mod length (sa_used a)" "i < length (sa_used a)"
      "\<forall>j < i. sa_used a ! ((sa_cursor a + j) mod length (sa_used a))"
      "slot_allocate a = (Some (SlotId (of_nat k)),
         \<lparr>sa_used = (sa_used a)[k := True], sa_cursor = (k + 1) mod length (sa_used a)\<rparr>)"
proof (cases "find (\<lambda>i. \<not> sa_used a ! ((sa_cursor a + i) mod length (sa_used a))) [0..<length (sa_used a)]")
  case None
  let ?n = "length (sa_used a)"
  have all: "sa_used a ! ((sa_cursor a + i) mod ?n)" if "i < ?n" for i
    using None that by (auto simp: find_None_iff)
  have "sa_used a ! k" if "k < ?n" for k
  proof -
    have c: "sa_cursor a < ?n" using assms that by (auto simp: slots_invar_def)
    define i where "i = (k + ?n - sa_cursor a) mod ?n"
    have "(sa_cursor a + i) mod ?n = (sa_cursor a + (k + ?n - sa_cursor a)) mod ?n"
      by (simp add: i_def mod_simps)
    also have "\<dots> = k" using c that by simp
    finally have "(sa_cursor a + i) mod ?n = k" .
    moreover have "i < ?n" using that unfolding i_def by (rule mod_less_of_less)
    ultimately show ?thesis using all [of i] by simp
  qed
  moreover have "slot_allocate a = (None, a)" using None by (simp add: slot_allocate_def Let_def)
  ultimately show ?thesis using none by blast
next
  case (Some i)
  let ?n = "length (sa_used a)"
  from Some have i: "i < ?n" "\<not> sa_used a ! ((sa_cursor a + i) mod ?n)"
    "\<forall>j < i. sa_used a ! ((sa_cursor a + j) mod ?n)"
    by (auto simp: find_Some_iff)
  define k where "k = (sa_cursor a + i) mod ?n"
  have k: "k < ?n" using i(1) unfolding k_def by (rule mod_less_of_less)
  with assms have "slot_new (of_nat k) = Ok (SlotId (of_nat k))"
    by (intro slot_new_of_nat) (simp add: slots_invar_def)
  with Some have "slot_allocate a = (Some (SlotId (of_nat k)),
      \<lparr>sa_used = (sa_used a)[k := True], sa_cursor = (k + 1) mod ?n\<rparr>)"
    by (simp add: slot_allocate_def Let_def k_def)
  with i k k_def show ?thesis using some by blast
qed

lemma slot_eq_iff: "n < 32768 \<Longrightarrow> s = SlotId (of_nat n) \<longleftrightarrow> unat (slot_get s) = n"
  by (cases s) (auto simp: unat_slot_of_nat word_unat_eq_iff)

lemma slot_unat_inj [simp]: "unat (slot_get a) = unat (slot_get b) \<longleftrightarrow> a = b"
  by (metis SlotId.expand word_unat_eq_iff)

lemma slots_taken_set:
  assumes "k < length (sa_used a)" "length (sa_used a) \<le> 32768"
  shows "slots_taken \<lparr>sa_used = (sa_used a)[k := True], sa_cursor = c\<rparr> =
    insert (SlotId (of_nat k)) (slots_taken a)"
proof (intro set_eqI)
  fix s
  have "s = SlotId (of_nat k) \<longleftrightarrow> unat (slot_get s) = k"
    using assms by (intro slot_eq_iff) simp
  then show "s \<in> slots_taken \<lparr>sa_used = (sa_used a)[k := True], sa_cursor = c\<rparr> \<longleftrightarrow>
      s \<in> insert (SlotId (of_nat k)) (slots_taken a)"
    using assms(1) by (auto simp: slots_taken_def nth_list_update)
qed

interpretation slots: id_pool slot_allocate slot_reserve slot_free
  slots_taken slots_universe slots_invar
proof (unfold_locales, goal_cases)
  case (1 a i a')
  from \<open>slots_invar a\<close> show ?case
  proof (cases rule: slot_allocate_cases)
    case none
    with 1 show ?thesis by simp
  next
    case (some k j)
    with 1 have "i = SlotId (of_nat k)" and len: "length (sa_used a) \<le> 32768"
      by (auto simp: slots_invar_def)
    moreover have "unat (of_nat k :: u16) = k" using some(1) len by (intro unat_slot_of_nat) simp
    ultimately show ?thesis
      using some 1(2) slots_taken_set [OF some(1) len]
      by (auto simp: slots_universe_def) (auto simp: slots_taken_def)
  qed
next
  case (2 a a')
  from \<open>slots_invar a\<close> show ?case
    using 2 by (cases rule: slot_allocate_cases) (auto simp: slots_universe_def slots_taken_def)
next
  case (3 a i)
  show ?case
    by (auto simp: slot_reserve_def Let_def slots_taken_def slots_universe_def nth_list_update
        split: if_splits)
next
  case (4 a i)
  show ?case
    by (auto simp: slot_free_def Let_def slots_taken_def nth_list_update
        split: if_splits)
next
  case (5 a)
  then show ?case
  proof (cases rule: slot_allocate_cases)
    case none
    with 5 show ?thesis by simp
  next
    case (some k j)
    then have "(k + 1) mod length (sa_used a) < length (sa_used a)"
      by (intro mod_less_of_less)
    with 5 some(6) show ?thesis by (simp add: slots_invar_def)
  qed
next
  case (8 a)
  show ?case
    by (auto simp: slot_allocate_def Let_def slots_universe_def split: option.splits)
qed (auto simp: slots_invar_def slots_universe_def slot_reserve_def slot_free_def Let_def)

lemma slots_invar_new: "capacity \<le> 32768 \<Longrightarrow> slots_invar (slots_new capacity)"
  by (auto simp: slots_invar_def slots_new_def)

lemma slots_taken_new [simp]: "slots_taken (slots_new capacity) = {}"
  by (simp add: slots_taken_def slots_new_def)

lemma slots_universe_new: "slots_universe (slots_new capacity) = {s. unat (slot_get s) < capacity}"
  by (simp add: slots_universe_def slots_new_def)

lemma slot_resume_at_simps [simp]:
  "slots_taken (slot_resume_at c a) = slots_taken a"
  "slots_universe (slot_resume_at c a) = slots_universe a"
  by (simp_all add: slot_resume_at_def slots_taken_def slots_universe_def)

lemma slots_invar_resume_at [simp]: "slots_invar a \<Longrightarrow> slots_invar (slot_resume_at c a)"
  by (auto simp: slots_invar_def slot_resume_at_def)

section \<open>Host ports\<close>

record PortAllocator =
  pa_base :: u16
  pa_end :: u16
  pa_used :: "u16 set"
  pa_cursor :: nat

definition ports_new :: "u16 \<Rightarrow> u16 \<Rightarrow> PortAllocator" where
  "ports_new b e = \<lparr>pa_base = b, pa_end = max e b, pa_used = {}, pa_cursor = 0\<rparr>"

text \<open>\<^verbatim>\<open>self.used.insert(port)\<close> is true for the first port of the scan that is not in use.\<close>

definition port_at :: "PortAllocator \<Rightarrow> nat \<Rightarrow> u16" where
  "port_at a off = pa_base a + of_nat ((pa_cursor a + off) mod unat (pa_end a - pa_base a))"

definition port_allocate :: "PortAllocator \<Rightarrow> u16 option \<times> PortAllocator" where
  "port_allocate a =
     (let span = unat (pa_end a - pa_base a) in
      case find (\<lambda>off. port_at a off \<notin> pa_used a) [0..<span] of
        None \<Rightarrow> (None, a)
      | Some off \<Rightarrow>
          (Some (port_at a off),
           a\<lparr>pa_used := insert (port_at a off) (pa_used a),
             pa_cursor := (pa_cursor a + off + 1) mod span\<rparr>))"

definition port_reserve :: "u16 \<Rightarrow> PortAllocator \<Rightarrow> PortAllocator" where
  "port_reserve p a =
     (if pa_base a \<le> p \<and> p < pa_end a then a\<lparr>pa_used := insert p (pa_used a)\<rparr> else a)"

definition port_free :: "u16 \<Rightarrow> PortAllocator \<Rightarrow> PortAllocator" where
  "port_free p a = a\<lparr>pa_used := pa_used a - {p}\<rparr>"

definition ports_universe :: "PortAllocator \<Rightarrow> u16 set" where
  "ports_universe a = {p. pa_base a \<le> p \<and> p < pa_end a}"

definition ports_invar :: "PortAllocator \<Rightarrow> bool" where
  "ports_invar a \<longleftrightarrow> pa_base a \<le> pa_end a"

lemma port_at_bounds:
  assumes "ports_invar a" and "off < unat (pa_end a - pa_base a)"
  shows "unat (port_at a off) = unat (pa_base a) + (pa_cursor a + off) mod unat (pa_end a - pa_base a)"
    and "port_at a off \<in> ports_universe a"
proof -
  let ?span = "unat (pa_end a - pa_base a)" and ?k = "(pa_cursor a + off) mod unat (pa_end a - pa_base a)"
  have span: "?span = unat (pa_end a) - unat (pa_base a)" and le: "unat (pa_base a) \<le> unat (pa_end a)"
    using assms(1) by (auto simp: ports_invar_def word_le_nat_alt unat_sub)
  have k: "?k < ?span" using assms(2) by (rule mod_less_of_less)
  have small: "unat (pa_base a) + ?k < unat (pa_end a)" using k span le by linarith
  then have fits: "unat (pa_base a) + ?k < 65536"
    using unsigned_less [of "pa_end a", where 'a = nat] by simp
  then show eq: "unat (port_at a off) = unat (pa_base a) + ?k"
    unfolding port_at_def by (simp add: unat_word_ariths unat_of_nat)
  then show "port_at a off \<in> ports_universe a"
    using small by (simp add: ports_universe_def word_le_nat_alt word_less_nat_alt)
qed

lemma port_at_onto:
  assumes "ports_invar a" and "p \<in> ports_universe a"
  shows "\<exists>off < unat (pa_end a - pa_base a). port_at a off = p"
proof -
  let ?n = "unat (pa_end a - pa_base a)" and ?c = "pa_cursor a"
  let ?k = "unat p - unat (pa_base a)"
  have k: "?k < ?n" and p: "unat p = unat (pa_base a) + ?k"
    using assms by (auto simp: ports_universe_def ports_invar_def word_le_nat_alt word_less_nat_alt unat_sub)
  define off where "off = (?k + (?n - ?c mod ?n)) mod ?n"
  have "off < ?n" using k unfolding off_def by (rule mod_less_of_less)
  moreover have "(?c + off) mod ?n = ?k" unfolding off_def by (rule rotate_onto [OF k])
  ultimately have "unat (port_at a off) = unat p"
    using port_at_bounds(1) [OF assms(1)] p by simp
  with \<open>off < ?n\<close> show ?thesis by (metis word_unat_eq_iff)
qed

interpretation ports: id_pool port_allocate port_reserve port_free
  pa_used ports_universe ports_invar
proof (unfold_locales, goal_cases)
  case (1 a i a')
  then obtain off where "off < unat (pa_end a - pa_base a)" "port_at a off \<notin> pa_used a"
    "i = port_at a off" "pa_used a' = insert i (pa_used a)"
    by (auto simp: port_allocate_def Let_def find_Some_iff split: option.splits)
  with 1(1) port_at_bounds(2) show ?case by auto
next
  case (2 a a')
  then have "\<forall>off < unat (pa_end a - pa_base a). port_at a off \<in> pa_used a" "a' = a"
    by (auto simp: port_allocate_def Let_def find_None_iff split: option.splits)
  with 2(1) port_at_onto show ?case by blast
qed (auto simp: ports_invar_def ports_universe_def port_allocate_def port_reserve_def port_free_def
    Let_def split: option.splits)

lemma ports_invar_new [simp]: "ports_invar (ports_new b e)"
  by (simp add: ports_invar_def ports_new_def)

section \<open>Properties of the allocators\<close>

text \<open>How far round from the cursor a slot lies.\<close>

definition slot_distance :: "SlotAllocator \<Rightarrow> SlotId \<Rightarrow> nat" where
  "slot_distance a s =
     (unat (slot_get s) + length (sa_used a) - sa_cursor a) mod length (sa_used a)"

text \<open>Slot allocation is exact. While the capacity is within the 32768 slots of the
  address plan, an allocation gives a slot of the pool that no one holds and takes it,
  nothing else changes hands, and it fails only when every slot is taken.\<close>

theorem slot_allocate_exact:
  assumes "slots_invar a"
  shows "case slot_allocate a of
      (Some s, a') \<Rightarrow> s \<in> slots_universe a \<and> s \<notin> slots_taken a \<and>
        slots_taken a' = insert s (slots_taken a) \<and> slots_invar a'
    | (None, a') \<Rightarrow> slots_taken a = slots_universe a \<and> a' = a"
proof (cases "slot_allocate a")
  case (Pair r a')
  have "slots_invar a'" using slots.invar_allocate [OF assms] Pair by simp
  moreover have "slots_taken a \<subseteq> slots_universe a"
    by (auto simp: slots_taken_def slots_universe_def)
  moreover have "a' = a" if "r = None"
    using assms that Pair by (cases rule: slot_allocate_cases) auto
  ultimately show ?thesis
    using slots.allocate_Some [OF assms] slots.allocate_None [OF assms, of a'] Pair
    by (cases r) simp_all
qed

theorem slot_allocate_exact_witness:
  "slots_invar (slots_new 4) \<and>
   fst (slot_allocate (snd (slot_allocate (slots_new 4)))) = Some (SlotId 1)"
proof -
  have inv: "slots_invar (slots_new 4)" by (simp add: slots_invar_new)
  have "fst (slot_allocate (snd (slot_allocate (slots_new 4)))) = Some (SlotId 1)" by code_simp
  with inv slot_allocate_exact [OF inv] show ?thesis by simp
qed

text \<open>Freed slots rest. The slot an allocation picks is the first free one met going
  round from the cursor, so a slot just handed out or freed behind the cursor comes back
  only after every other free slot.\<close>

theorem slot_allocate_rotates:
  assumes "slots_invar a" and "slot_allocate a = (Some s, a')" and "t \<in> slots_universe a - slots_taken a"
  shows "slot_distance a s \<le> slot_distance a t \<and>
    sa_cursor a' = (unat (slot_get s) + 1) mod length (sa_used a)"
  using assms(1)
proof (cases rule: slot_allocate_cases)
  case none
  with assms(2) show ?thesis by simp
next
  case (some k i)
  let ?n = "length (sa_used a)"
  have c: "sa_cursor a < ?n" and n: "?n \<le> 32768"
    using assms(1) some(1) by (auto simp: slots_invar_def)
  have s: "unat (slot_get s) = k" and a': "sa_cursor a' = (k + 1) mod ?n"
    using assms(2) some(1,6) n by (auto simp: unat_slot_of_nat)
  have "((sa_cursor a + i) mod ?n + ?n - sa_cursor a) mod ?n = i"
    using c some(4) by (rule rotate_back)
  then have ds: "slot_distance a s = i" using some(3) s by (simp add: slot_distance_def)
  have "(sa_cursor a + slot_distance a t) mod ?n = unat (slot_get t)"
    using assms(3) c by (simp add: slot_distance_def slots_universe_def mod_simps)
  then have "\<not> slot_distance a t < i"
    using some(5) assms(3) by (auto simp: slots_taken_def slots_universe_def)
  with ds a' s show ?thesis by simp
qed

theorem slot_allocate_rotates_witness:
  "\<exists>a s a'. slots_invar a \<and> slot_allocate a = (Some s, a') \<and> s = SlotId 2 \<and>
     SlotId 0 \<in> slots_universe a - slots_taken a \<and> sa_cursor a' = 3"
proof -
  let ?a = "\<lparr>sa_used = [False, True, False, False], sa_cursor = 2\<rparr>"
  let ?a' = "\<lparr>sa_used = [False, True, True, False], sa_cursor = 3\<rparr>"
  have inv: "slots_invar ?a" by (simp add: slots_invar_def)
  have al: "slot_allocate ?a = (Some (SlotId 2), ?a')" by code_simp
  have t: "SlotId 0 \<in> slots_universe ?a - slots_taken ?a"
    by (simp add: slots_universe_def slots_taken_def)
  from slot_allocate_rotates [OF inv al t] inv al t show ?thesis by auto
qed

text \<open>C40: port allocation is exact, at every cursor and without overflow: a port of the
  configured half-open range that is not in use, taken by the allocation, and a failure
  only when the whole range is in use.\<close>

theorem port_allocate_exact:
  assumes "ports_invar a"
  shows "case port_allocate a of
      (Some p, a') \<Rightarrow> pa_base a \<le> p \<and> p < pa_end a \<and> p \<notin> pa_used a \<and>
        pa_used a' = insert p (pa_used a) \<and> ports_invar a'
    | (None, a') \<Rightarrow> ports_universe a \<subseteq> pa_used a \<and> pa_used a' = pa_used a"
proof (cases "port_allocate a")
  case (Pair r a')
  have "ports_invar a'" using ports.invar_allocate [OF assms] Pair by simp
  with Pair show ?thesis
    using ports.allocate_Some [OF assms] ports.allocate_None [OF assms]
    by (cases r) (auto simp: ports_universe_def)
qed

theorem port_allocate_exact_witness:
  "ports_invar (ports_new 20000 20003) \<and> fst (port_allocate (ports_new 20000 20003)) = Some 20000"
proof -
  have inv: "ports_invar (ports_new 20000 20003)" by simp
  have "fst (port_allocate (ports_new 20000 20003)) = Some 20000" by code_simp
  with inv port_allocate_exact [OF inv] show ?thesis by simp
qed

end
