(* ===== verification/Iso_Prog.thy ===== *)
theory Iso_Prog
  imports Iso_Store Iso_Alloc
begin

text \<open>
  The programs the control plane's handlers are. A handler is an \<^verbatim>\<open>async fn\<close> that other
  handlers run beside: between two of its accesses to shared state anything may happen. A
  program is therefore a tree of atomic actions (taking a VM's lock, a change under one of
  the in-memory mutexes, one SQL statement, one call of a backend) with a continuation for
  every reply. The shared state is the record \<open>ControlPlane\<close>; networking, storage and the VMM
  are behind traits, so their replies are arbitrary. Iso-Sched interleaves programs;
  \<open>run\<close> executes one alone, against an oracle that decides every reply from what happened
  so far.
\<close>

section \<open>Shared state\<close>

text \<open>
  \<^verbatim>\<open>vm_locks\<close> maps an id to an \<^verbatim>\<open>Arc\<close> of a lock, here the lock's number; a lock dropped from
  the map lives on in the handlers that have it. \<open>cp_held\<close> are the locks held now and
  \<open>cp_released\<close> the slots the release hooks were told of, latest first.
\<close>

record ControlPlane =
  cp_store :: Db
  cp_slots :: SlotAllocator
  cp_ports :: PortAllocator
  cp_services :: "HostNetwork option"
  cp_locks :: "VmId \<Rightarrow> nat option"
  cp_next_lock :: nat
  cp_held :: "nat set"
  cp_unresponsive :: "VmId set"
  cp_released :: "SlotId list"

record Config =
  pool_watermark_percent :: f64
  graceful_stop_ms :: nat
  slot_capacity :: nat
  forward_ports :: "u16 \<times> u16"
  vsock_cid :: "u32 option"
  guest_agent_port :: u32

definition control_plane_new :: "Config \<Rightarrow> Db \<Rightarrow> ControlPlane" where
  "control_plane_new cfg db =
     \<lparr>cp_store = db, cp_slots = slots_new (slot_capacity cfg),
      cp_ports = ports_new (fst (forward_ports cfg)) (snd (forward_ports cfg)),
      cp_services = None, cp_locks = (\<lambda>_. None), cp_next_lock = 0, cp_held = {},
      cp_unresponsive = {}, cp_released = []\<rparr>"

section \<open>Actions\<close>

text \<open>Changes of the in-memory state, each under its mutex.\<close>

datatype MemOp =
    ReleaseLock nat
  | ForgetLock VmId
  | TellReleased SlotId
  | FreeSlot SlotId
  | ReserveSlots "SlotId list"
  | ResumeSlotsAt nat
  | FreePorts "u16 list"
  | ReservePorts "u16 list"
  | SetServices HostNetwork
  | MarkUnresponsive VmId
  | ClearUnresponsive VmId
  | RetainUnresponsive "VmId list"

fun mem_exec :: "MemOp \<Rightarrow> ControlPlane \<Rightarrow> ControlPlane" where
  "mem_exec (ReleaseLock h) cp = cp\<lparr>cp_held := cp_held cp - {h}\<rparr>"
| "mem_exec (ForgetLock vid) cp = cp\<lparr>cp_locks := (cp_locks cp)(vid := None)\<rparr>"
| "mem_exec (TellReleased s) cp = cp\<lparr>cp_released := s # cp_released cp\<rparr>"
| "mem_exec (FreeSlot s) cp = cp\<lparr>cp_slots := slot_free s (cp_slots cp)\<rparr>"
| "mem_exec (ReserveSlots ss) cp = cp\<lparr>cp_slots := fold slot_reserve ss (cp_slots cp)\<rparr>"
| "mem_exec (ResumeSlotsAt n) cp = cp\<lparr>cp_slots := slot_resume_at n (cp_slots cp)\<rparr>"
| "mem_exec (FreePorts ps) cp = cp\<lparr>cp_ports := fold port_free ps (cp_ports cp)\<rparr>"
| "mem_exec (ReservePorts ps) cp = cp\<lparr>cp_ports := fold port_reserve ps (cp_ports cp)\<rparr>"
| "mem_exec (SetServices hn) cp = cp\<lparr>cp_services := Some hn\<rparr>"
| "mem_exec (MarkUnresponsive vid) cp = cp\<lparr>cp_unresponsive := insert vid (cp_unresponsive cp)\<rparr>"
| "mem_exec (ClearUnresponsive vid) cp = cp\<lparr>cp_unresponsive := cp_unresponsive cp - {vid}\<rparr>"
| "mem_exec (RetainUnresponsive vs) cp = cp\<lparr>cp_unresponsive := cp_unresponsive cp \<inter> set vs\<rparr>"

text \<open>\<^verbatim>\<open>vm_lock\<close>: the id's lock, made on first use.\<close>

definition vm_lock :: "VmId \<Rightarrow> ControlPlane \<Rightarrow> nat \<times> ControlPlane" where
  "vm_lock vid cp =
     (case cp_locks cp vid of
        Some h \<Rightarrow> (h, cp)
      | None \<Rightarrow> (cp_next_lock cp,
          cp\<lparr>cp_locks := (cp_locks cp)(vid \<mapsto> cp_next_lock cp), cp_next_lock := Suc (cp_next_lock cp)\<rparr>))"

text \<open>Backend calls without a value to return, and what a file check finds.\<close>

datatype BackendCall =
    NetTeardown SlotId
  | NetReapply SlotId NetworkPolicy
  | StInit
  | StTeardown VmId
  | RtCreate InstanceSpec
  | RtStart VmId
  | RtRelease VmId
  | RtStop VmId
  | RtHalt VmId
  | RtDestroy VmId
  | SyncGuestClock VmId
  | ReseedGuest VmId bool

datatype FsResult = FsNotFound | FsFound | FsError string

section \<open>Programs\<close>

datatype 'a prog =
    Ret 'a
  | GetLock VmId "nat \<Rightarrow> 'a prog"
  | Acquire nat "'a prog"
  | MemDo MemOp "'a prog"
  | AllocSlot "SlotId option \<Rightarrow> 'a prog"
  | AllocPort "u16 option \<Rightarrow> 'a prog"
  | Sql SqlStmt "(CpError, nat) result \<Rightarrow> 'a prog"
  | Query "(CpError, Db) result \<Rightarrow> 'a prog"
  | Call BackendCall "(CommonError, unit) result \<Rightarrow> 'a prog"
  | NetInit "(CommonError, HostNetwork) result \<Rightarrow> 'a prog"
  | NetApply SlotId NetworkPolicy "(CommonError, NetworkFixture) result \<Rightarrow> 'a prog"
  | Provision VmId string "(CommonError, StorageHandle) result \<Rightarrow> 'a prog"
  | PoolStatsOf "(CommonError, PoolStats) result \<Rightarrow> 'a prog"
  | RtSuspend VmId "(CommonError, SnapshotRef) result \<Rightarrow> 'a prog"
  | RtStatus VmId "(CommonError, VmStatus) result \<Rightarrow> 'a prog"
  | FsStat string "FsResult \<Rightarrow> 'a prog"
  | RandomVmId "VmId \<Rightarrow> 'a prog"
  | Deadline "bool \<Rightarrow> 'a prog"

primrec bind :: "'a prog \<Rightarrow> ('a \<Rightarrow> 'b prog) \<Rightarrow> 'b prog" where
  "bind (Ret x) f = f x"
| "bind (GetLock vid k) f = GetLock vid (\<lambda>r. bind (k r) f)"
| "bind (Acquire h p) f = Acquire h (bind p f)"
| "bind (MemDo m p) f = MemDo m (bind p f)"
| "bind (AllocSlot k) f = AllocSlot (\<lambda>r. bind (k r) f)"
| "bind (AllocPort k) f = AllocPort (\<lambda>r. bind (k r) f)"
| "bind (Sql s k) f = Sql s (\<lambda>r. bind (k r) f)"
| "bind (Query k) f = Query (\<lambda>r. bind (k r) f)"
| "bind (Call c k) f = Call c (\<lambda>r. bind (k r) f)"
| "bind (NetInit k) f = NetInit (\<lambda>r. bind (k r) f)"
| "bind (NetApply s p k) f = NetApply s p (\<lambda>r. bind (k r) f)"
| "bind (Provision vid t k) f = Provision vid t (\<lambda>r. bind (k r) f)"
| "bind (PoolStatsOf k) f = PoolStatsOf (\<lambda>r. bind (k r) f)"
| "bind (RtSuspend vid k) f = RtSuspend vid (\<lambda>r. bind (k r) f)"
| "bind (RtStatus vid k) f = RtStatus vid (\<lambda>r. bind (k r) f)"
| "bind (FsStat path k) f = FsStat path (\<lambda>r. bind (k r) f)"
| "bind (RandomVmId k) f = RandomVmId (\<lambda>r. bind (k r) f)"
| "bind (Deadline k) f = Deadline (\<lambda>r. bind (k r) f)"

text \<open>\<^verbatim>\<open>?\<close> on a result, and on a backend's, whose error becomes \<open>Component\<close>.\<close>

definition qmark :: "('e, 'a) result \<Rightarrow> ('a \<Rightarrow> ('e, 'b) result prog) \<Rightarrow> ('e, 'b) result prog" where
  "qmark r f = (case r of Inl e \<Rightarrow> Ret (Err e) | Inr x \<Rightarrow> f x)"

definition qmark_c :: "(CommonError, 'a) result \<Rightarrow> ('a \<Rightarrow> (CpError, 'b) result prog) \<Rightarrow> (CpError, 'b) result prog" where
  "qmark_c r f = qmark (map_err Component r) f"

definition qmark_p :: "('e, 'a) result prog \<Rightarrow> ('a \<Rightarrow> ('e, 'b) result prog) \<Rightarrow> ('e, 'b) result prog" where
  "qmark_p p f = bind p (\<lambda>r. qmark r f)"

text \<open>A call whose result is discarded (\<^verbatim>\<open>let _ =\<close>).\<close>

definition best_effort :: "BackendCall \<Rightarrow> 'a prog \<Rightarrow> 'a prog" where
  "best_effort c p = Call c (\<lambda>_. p)"

text \<open>Hold \<open>vid\<close>'s lock for the whole of \<open>p\<close>: the guard is dropped when \<open>p\<close> returns.\<close>

definition locked :: "VmId \<Rightarrow> 'a prog \<Rightarrow> 'a prog" where
  "locked vid p = GetLock vid (\<lambda>h. Acquire h (bind p (\<lambda>x. MemDo (ReleaseLock h) (Ret x))))"

text \<open>Store queries, on the tables at the moment they run.\<close>

definition q_get_vm :: "VmId \<Rightarrow> ((CpError, VmRecord option) result \<Rightarrow> 'a prog) \<Rightarrow> 'a prog" where
  "q_get_vm vid k = Query (\<lambda>r. k (and_then r (get_vm vid)))"

definition q_list_vms :: "((CpError, VmRecord list) result \<Rightarrow> 'a prog) \<Rightarrow> 'a prog" where
  "q_list_vms k = Query (\<lambda>r. k (and_then r list_vms))"

definition q_get_template :: "string \<Rightarrow> ((CpError, TemplateDef option) result \<Rightarrow> 'a prog) \<Rightarrow> 'a prog" where
  "q_get_template name k = Query (\<lambda>r. k (map_ok (get_template name) r))"

definition q_policy_gen :: "VmId \<Rightarrow> ((CpError, u64) result \<Rightarrow> 'a prog) \<Rightarrow> 'a prog" where
  "q_policy_gen vid k = Query (\<lambda>r. k (and_then r (get_policy_gen vid)))"

definition q_slot_cursor :: "((CpError, nat option) result \<Rightarrow> 'a prog) \<Rightarrow> 'a prog" where
  "q_slot_cursor k = Query (\<lambda>r. k (map_ok slot_cursor r))"

section \<open>One program alone\<close>

text \<open>What a program did, in order. A statement carries whether it took effect.\<close>

datatype Event =
    EvMem MemOp
  | EvSlot "SlotId option"
  | EvPort "u16 option"
  | EvSql SqlStmt bool
  | EvCall BackendCall
  | EvApply SlotId NetworkPolicy
  | EvProvision VmId string
  | EvSuspend VmId
  | EvOther

text \<open>The environment: whether the store fails now (and how), and every backend's reply.\<close>

record Oracle =
  or_store :: "Event list \<Rightarrow> string option"
  or_call :: "Event list \<Rightarrow> BackendCall \<Rightarrow> (CommonError, unit) result"
  or_net_init :: "Event list \<Rightarrow> (CommonError, HostNetwork) result"
  or_apply :: "Event list \<Rightarrow> SlotId \<Rightarrow> NetworkPolicy \<Rightarrow> (CommonError, NetworkFixture) result"
  or_provision :: "Event list \<Rightarrow> VmId \<Rightarrow> string \<Rightarrow> (CommonError, StorageHandle) result"
  or_pool :: "Event list \<Rightarrow> (CommonError, PoolStats) result"
  or_suspend :: "Event list \<Rightarrow> VmId \<Rightarrow> (CommonError, SnapshotRef) result"
  or_status :: "Event list \<Rightarrow> VmId \<Rightarrow> (CommonError, VmStatus) result"
  or_fs :: "Event list \<Rightarrow> string \<Rightarrow> FsResult"
  or_random :: "Event list \<Rightarrow> VmId"
  or_deadline :: "Event list \<Rightarrow> bool"

definition sql_step ::
  "string option \<Rightarrow> SqlStmt \<Rightarrow> ControlPlane \<Rightarrow> (CpError, nat) result \<times> ControlPlane" where
  "sql_step failure s cp =
     (case failure of
        Some msg \<Rightarrow> (Err (StoreError msg), cp)
      | None \<Rightarrow>
          (case db_exec s (cp_store cp) of
             Inl e \<Rightarrow> (Err e, cp)
           | Inr (n, db) \<Rightarrow> (Ok n, cp\<lparr>cp_store := db\<rparr>)))"

text \<open>
  \<^verbatim>\<open>allocate_slot\<close> under the allocator's mutex: the slot, and the cursor saved if the store
  takes it.
\<close>

definition alloc_slot_step :: "string option \<Rightarrow> ControlPlane \<Rightarrow> SlotId option \<times> ControlPlane" where
  "alloc_slot_step failure cp =
     (case slot_allocate (cp_slots cp) of
        (None, a) \<Rightarrow> (None, cp\<lparr>cp_slots := a\<rparr>)
      | (Some s, a) \<Rightarrow>
          (Some s, snd (sql_step failure (SetSlotCursor (sa_cursor a)) (cp\<lparr>cp_slots := a\<rparr>))))"

definition alloc_port_step :: "ControlPlane \<Rightarrow> u16 option \<times> ControlPlane" where
  "alloc_port_step cp =
     (case port_allocate (cp_ports cp) of (r, a) \<Rightarrow> (r, cp\<lparr>cp_ports := a\<rparr>))"

text \<open>\<open>None\<close>: the program waits for a lock that nobody will release.\<close>

primrec run :: "'a prog \<Rightarrow> Oracle \<Rightarrow> ControlPlane \<Rightarrow> Event list \<Rightarrow> ('a \<times> ControlPlane \<times> Event list) option" where
  "run (Ret x) orc cp tr = Some (x, cp, tr)"
| "run (GetLock vid k) orc cp tr = (case vm_lock vid cp of (h, cp') \<Rightarrow> run (k h) orc cp' tr)"
| "run (Acquire h p) orc cp tr =
     (if h \<in> cp_held cp then None else run p orc (cp\<lparr>cp_held := insert h (cp_held cp)\<rparr>) tr)"
| "run (MemDo m p) orc cp tr = run p orc (mem_exec m cp) (tr @ [EvMem m])"
| "run (AllocSlot k) orc cp tr =
     (case alloc_slot_step (or_store orc tr) cp of (r, cp') \<Rightarrow> run (k r) orc cp' (tr @ [EvSlot r]))"
| "run (AllocPort k) orc cp tr =
     (case alloc_port_step cp of (r, cp') \<Rightarrow> run (k r) orc cp' (tr @ [EvPort r]))"
| "run (Sql s k) orc cp tr =
     (case sql_step (or_store orc tr) s cp of (r, cp') \<Rightarrow> run (k r) orc cp' (tr @ [EvSql s (\<not> isl r)]))"
| "run (Query k) orc cp tr =
     run (k (case or_store orc tr of None \<Rightarrow> Ok (cp_store cp) | Some msg \<Rightarrow> Err (StoreError msg))) orc cp
       (tr @ [EvOther])"
| "run (Call c k) orc cp tr = run (k (or_call orc tr c)) orc cp (tr @ [EvCall c])"
| "run (NetInit k) orc cp tr = run (k (or_net_init orc tr)) orc cp (tr @ [EvOther])"
| "run (NetApply s p k) orc cp tr = run (k (or_apply orc tr s p)) orc cp (tr @ [EvApply s p])"
| "run (Provision vid t k) orc cp tr = run (k (or_provision orc tr vid t)) orc cp (tr @ [EvProvision vid t])"
| "run (PoolStatsOf k) orc cp tr = run (k (or_pool orc tr)) orc cp (tr @ [EvOther])"
| "run (RtSuspend vid k) orc cp tr = run (k (or_suspend orc tr vid)) orc cp (tr @ [EvSuspend vid])"
| "run (RtStatus vid k) orc cp tr = run (k (or_status orc tr vid)) orc cp (tr @ [EvOther])"
| "run (FsStat path k) orc cp tr = run (k (or_fs orc tr path)) orc cp (tr @ [EvOther])"
| "run (RandomVmId k) orc cp tr = run (k (or_random orc tr)) orc cp (tr @ [EvOther])"
| "run (Deadline k) orc cp tr = run (k (or_deadline orc tr)) orc cp (tr @ [EvOther])"

section \<open>Lemmas\<close>

lemma bind_Ret [simp]: "bind p Ret = p"
  by (induction p) simp_all

lemma bind_assoc [simp]: "bind (bind p f) g = bind p (\<lambda>x. bind (f x) g)"
  by (induction p) simp_all

lemma qmark_simps [simp]: "qmark (Inl e) f = Ret (Err e)" "qmark (Inr x) f = f x"
  by (simp_all add: qmark_def)

lemma qmark_c_simps [simp]: "qmark_c (Inl e) f = Ret (Err (Component e))" "qmark_c (Inr x) f = f x"
  by (simp_all add: qmark_c_def)

lemma run_bind:
  "run (bind p f) orc cp tr =
     (case run p orc cp tr of None \<Rightarrow> None | Some (x, cp', tr') \<Rightarrow> run (f x) orc cp' tr')"
  by (induction p arbitrary: cp tr) (auto split: prod.splits)

section \<open>A sample host\<close>

definition sample_cfg :: Config where
  "sample_cfg = \<lparr>pool_watermark_percent = Some 90, graceful_stop_ms = 100, slot_capacity = 8,
     forward_ports = (20000, 30000), vsock_cid = Some 3, guest_agent_port = 5000\<rparr>"

definition sample_fixture :: "SlotId \<Rightarrow> NetworkFixture" where
  "sample_fixture s = \<lparr>fx_slot = s, fx_netns = ''ns'', fx_tap = ''tap0'', fx_veth_host = ''vh'',
     fx_veth_netns = ''vn'', fx_vh_ip = 0, fx_vp_ip = 1, fx_mac = MacAddr [2, 0, 0, 0, 0, 0]\<rparr>"

text \<open>A host on which everything works.\<close>

definition sample_oracle :: Oracle where
  "sample_oracle =
     \<lparr>or_store = (\<lambda>_. None), or_call = (\<lambda>_ _. Ok ()),
      or_net_init = (\<lambda>_. Ok \<lparr>hn_services_addr = 0, hn_proxy_port = 1\<rparr>),
      or_apply = (\<lambda>_ s _. Ok (sample_fixture s)),
      or_provision = (\<lambda>_ vid _. Ok \<lparr>sh_vm = vid, sh_device_path = ''/dev/vol'', sh_backing_device = None\<rparr>),
      or_pool = (\<lambda>_. Ok \<lparr>ps_backend = None, capacity_bytes = None, filesystem_capacity_bytes = None,
        filesystem_available_bytes = None, data_percent = Some 10, metadata_percent = Some 5\<rparr>),
      or_suspend = (\<lambda>_ _. Ok \<lparr>mem_file = ''m'', vmstate = ''s''\<rparr>),
      or_status = (\<lambda>_ _. Ok VS_Stopped), or_fs = (\<lambda>_ _. FsNotFound), or_random = (\<lambda>_. 42),
      or_deadline = (\<lambda>_. True)\<rparr>"

end
