(* ===== verification/Iso_Signed.thy ===== *)
theory Iso_Signed
  imports Iso_Common
begin

text \<open>
  Fleet-signed policies (\<^verbatim>\<open>crates/iso-policy/src/signed.rs\<close>): the claims, the signer and the
  verifier. Base64, JSON and ed25519 are crates outside the repository; they are the functions
  of a \<open>Codec\<close>, an argument of every definition. Keys and documents are byte strings.
\<close>

section \<open>Claims, errors and the codec\<close>

record PolicyClaims =
  pc_host :: string
  pc_vm :: string
  pc_egress :: string
  pc_principal :: "string option"
  pc_rules :: "string list"
  pc_policy_gen :: u64
  pc_expires :: u64

datatype VerifyError =
    VE_Encoding string
  | VE_Signature
  | VE_Expired u64
  | VE_Claims string
  | VE_Key

record Codec =
  b64_encode :: "string \<Rightarrow> string"
  b64_decode :: "string \<Rightarrow> (string, string) result"
  claims_to_json :: "PolicyClaims \<Rightarrow> string"
  claims_from_json :: "string \<Rightarrow> (string, PolicyClaims) result"
  ed_public :: "string \<Rightarrow> string"
  ed_sign :: "string \<Rightarrow> string \<Rightarrow> string"
  ed_verify :: "string \<Rightarrow> string \<Rightarrow> string \<Rightarrow> bool"

section \<open>Signing and verifying\<close>

definition public_key_b64 :: "Codec \<Rightarrow> string \<Rightarrow> string" where
  "public_key_b64 K key = b64_encode K (ed_public K key)"

definition sign :: "Codec \<Rightarrow> string \<Rightarrow> PolicyClaims \<Rightarrow> SignedPolicy" where
  "sign K key c =
     (let json = claims_to_json K c in
      \<lparr>sp_claims = b64_encode K json, sp_sig = b64_encode K (ed_sign K key json)\<rparr>)"

definition verifier_from_b64 :: "Codec \<Rightarrow> string \<Rightarrow> (VerifyError, string) result" where
  "verifier_from_b64 K s =
     and_then (map_err VE_Encoding (b64_decode K (trim s))) (\<lambda>public.
     if length public \<noteq> 32 then Err VE_Key else Ok public)"

definition verify_at :: "Codec \<Rightarrow> string \<Rightarrow> SignedPolicy \<Rightarrow> u64 \<Rightarrow> (VerifyError, PolicyClaims) result" where
  "verify_at K public sp now =
     and_then (map_err VE_Encoding (b64_decode K (sp_claims sp))) (\<lambda>json.
     and_then (map_err VE_Encoding (b64_decode K (sp_sig sp))) (\<lambda>sig.
     if \<not> ed_verify K public json sig then Err VE_Signature
     else and_then (map_err VE_Claims (claims_from_json K json)) (\<lambda>c.
       if pc_expires c \<le> now then Err (VE_Expired (now - pc_expires c)) else Ok c)))"

definition verify_ignoring_expiry :: "Codec \<Rightarrow> string \<Rightarrow> SignedPolicy \<Rightarrow> (VerifyError, PolicyClaims) result" where
  "verify_ignoring_expiry K public sp = verify_at K public sp 0"

definition claims_unverified :: "Codec \<Rightarrow> SignedPolicy \<Rightarrow> (VerifyError, PolicyClaims) result" where
  "claims_unverified K sp =
     and_then (map_err VE_Encoding (b64_decode K (sp_claims sp))) (\<lambda>json.
     map_err VE_Claims (claims_from_json K json))"

section \<open>Properties\<close>


text \<open>What the fleet signs, a verifier holding its public key reads back until the moment
  it expires, and from then on refuses, given that base64 decodes what it encodes, that the
  claims' JSON parses to them, that a key's own signature verifies, and that a public key is
  32 bytes long and its base64 has no white space around it.\<close>

theorem sign_verify:
  assumes b64: "\<forall>s. b64_decode K (b64_encode K s) = Ok s"
    and json: "claims_from_json K (claims_to_json K c) = Ok c"
    and own: "\<forall>m. ed_verify K (ed_public K key) m (ed_sign K key m)"
    and key: "length (ed_public K key) = 32" "trim (public_key_b64 K key) = public_key_b64 K key"
  shows "and_then (verifier_from_b64 K (public_key_b64 K key)) (\<lambda>public. verify_at K public (sign K key c) now) =
    (if now < pc_expires c then Ok c else Err (VE_Expired (now - pc_expires c)))"
proof -
  have "verifier_from_b64 K (public_key_b64 K key) = Ok (ed_public K key)"
    using b64 key by (simp add: verifier_from_b64_def) (simp add: public_key_b64_def)
  then show ?thesis
    using b64 json own by (auto simp: verify_at_def sign_def Let_def)
qed

text \<open>A codec with these laws on one document: encoding by a prefix, a signature that repeats
  the message under a key of 32 bytes.\<close>

definition sample_claims :: PolicyClaims where
  "sample_claims = \<lparr>pc_host = ''h'', pc_vm = ''v'', pc_egress = ''proxy'', pc_principal = None,
     pc_rules = [], pc_policy_gen = 3, pc_expires = 1000\<rparr>"

definition sample_codec :: Codec where
  "sample_codec =
     \<lparr>b64_encode = (\<lambda>s. CHR ''b'' # s @ ''e''),
      b64_decode = (\<lambda>s. case s of c # cs \<Rightarrow> if c = CHR ''b'' then Ok (butlast cs) else Err ''symbol'' | [] \<Rightarrow> Err ''empty''),
      claims_to_json = (\<lambda>c. pc_host c @ pc_vm c),
      claims_from_json = (\<lambda>s. if s = ''hv'' then Ok sample_claims else Err ''syntax''),
      ed_public = (\<lambda>key. replicate 32 CHR ''k''),
      ed_sign = (\<lambda>key m. m @ key),
      ed_verify = (\<lambda>public m sig. take (length m) sig = m)\<rparr>"

theorem sign_verify_witness:
  "and_then (verifier_from_b64 sample_codec (public_key_b64 sample_codec ''s''))
     (\<lambda>public. verify_at sample_codec public (sign sample_codec ''s'' sample_claims) 999) = Ok sample_claims"
proof -
  have "trim (public_key_b64 sample_codec ''s'') = public_key_b64 sample_codec ''s''"
    by code_simp
  then show ?thesis
    using sign_verify [of sample_codec sample_claims "''s''" 999]
    by (simp add: sample_codec_def sample_claims_def)
qed

end
