(* ===== verification/Iso_Control.thy ===== *)
theory Iso_Control
  imports Iso_Prog Iso_Signed
begin

text \<open>
  The control plane's operations (\<^verbatim>\<open>crates/iso-control-plane/src/control.rs\<close>), each the program
  of the method of that name. Log messages are left out. A mutable record is passed on
  updated; \<open>bring_up\<close> returns the record it was given by reference. The guest-side steps
  after a resume (\<^verbatim>\<open>sync_guest_clock\<close>, \<^verbatim>\<open>reseed_guest\<close>) are best-effort exchanges with the guest
  that touch no state of the control plane: one call each, whatever its outcome.
\<close>

section \<open>Checks\<close>

fun exited :: "VmStatus \<Rightarrow> bool" where
  "exited VS_Stopped = True"
| "exited VS_Absent = True"
| "exited _ = False"

definition validate_policy :: "string list \<Rightarrow> string list \<Rightarrow> (CpError, unit) result" where
  "validate_policy allow rls = map_err InvalidRule (map_ok (\<lambda>_. ()) (from_record allow rls))"

definition check_signed ::
  "Codec \<Rightarrow> SignedPolicy \<Rightarrow> VmId \<Rightarrow> u64 \<Rightarrow> EgressMode \<Rightarrow> string option \<Rightarrow> string list \<Rightarrow> string list \<Rightarrow>
   (CpError, unit) result" where
  "check_signed K sp vid gen egress prin allow rls =
     and_then (map_err (\<lambda>_. SignedMismatch [MM_Claims]) (claims_unverified K sp)) (\<lambda>c.
     and_then (map_err InvalidRule (from_record allow rls)) (\<lambda>rs.
     let effective = to_strings rs;
         why = (if pc_vm c \<noteq> vmid_display vid then [MM_Vm] else []) @
               (if pc_policy_gen c \<noteq> gen then [MM_Gen] else []) @
               (if pc_egress c \<noteq> egress_str egress then [MM_Egress] else []) @
               (if pc_principal c \<noteq> prin then [MM_Principal] else []) @
               (if pc_rules c \<noteq> effective then [MM_Rules] else []) in
     if why = [] then Ok () else Err (SignedMismatch why)))"

definition ok_or_err :: "'e \<Rightarrow> 'a option \<Rightarrow> ('e, 'a) result" where
  "ok_or_err e v = (case v of Some x \<Rightarrow> Ok x | None \<Rightarrow> Err e)"

text \<open>\<^verbatim>\<open>self.store.get_vm(id)?.ok_or(Error::UnknownVm(id))?\<close>\<close>

definition with_vm :: "VmId \<Rightarrow> (VmRecord \<Rightarrow> (CpError, 'a) result prog) \<Rightarrow> (CpError, 'a) result prog" where
  "with_vm vid f = q_get_vm vid (\<lambda>r. qmark (and_then r (ok_or_err (UnknownVm vid))) f)"

section \<open>Slots and ports\<close>

definition allocate_slot :: "(CpError, SlotId) result prog" where
  "allocate_slot = AllocSlot (\<lambda>r. Ret (ok_or_err SlotsExhausted r))"

definition free_slot :: "SlotId \<Rightarrow> unit prog" where
  "free_slot s = MemDo (TellReleased s) (MemDo (FreeSlot s) (Ret ()))"

definition free_slot_opt :: "SlotId option \<Rightarrow> unit prog" where
  "free_slot_opt s = (case s of Some x \<Rightarrow> free_slot x | None \<Rightarrow> Ret ())"

definition teardown_opt :: "SlotId option \<Rightarrow> unit prog" where
  "teardown_opt s = (case s of Some x \<Rightarrow> best_effort (NetTeardown x) (Ret ()) | None \<Rightarrow> Ret ())"

definition free_ports :: "PortForward list \<Rightarrow> unit prog" where
  "free_ports ingress = MemDo (FreePorts (map host_port ingress)) (Ret ())"

section \<open>Bringing a VM up and down\<close>

definition network_policy_of :: "VmRecord \<Rightarrow> NetworkPolicy" where
  "network_policy_of v = \<lparr>np_egress = v_egress v, np_ingress = v_ingress v, np_direct = False\<rparr>"

definition resume_source :: "VmRecord \<Rightarrow> TemplateDef \<Rightarrow> bool \<Rightarrow> SnapshotRef option" where
  "resume_source v tpl allow_resume =
     (if v_vcpus v \<noteq> None \<or> v_mem_mib v \<noteq> None then None
      else if v_snapshot v \<noteq> None then v_snapshot v
      else if allow_resume then t_snapshot tpl
      else None)"

definition instance_spec ::
  "Config \<Rightarrow> VmRecord \<Rightarrow> TemplateDef \<Rightarrow> bool \<Rightarrow> StorageHandle \<Rightarrow> NetworkFixture \<Rightarrow> InstanceSpec" where
  "instance_spec cfg v tpl allow_resume st fx =
     (let resume_from = resume_source v tpl allow_resume in
      \<lparr>is_vm = v_id v, is_netns = fx_netns fx, is_tap = fx_tap fx, is_mac = fx_mac fx,
       is_rootfs_device = sh_device_path st,
       is_vcpus = (case v_vcpus v of Some n \<Rightarrow> n | None \<Rightarrow> t_vcpus tpl),
       is_mem_mib = (case v_mem_mib v of Some n \<Rightarrow> n | None \<Rightarrow> t_mem_mib tpl),
       is_kernel = t_kernel tpl, is_boot_args = t_boot_args tpl, is_resume_from = resume_from,
       is_rootfs_backing = (if resume_from = None then None else sh_backing_device st),
       is_vsock_cid = vsock_cid cfg\<rparr>)"

text \<open>The record must have a slot: \<^verbatim>\<open>expect\<close> panics otherwise.\<close>

definition bring_up :: "Config \<Rightarrow> VmRecord \<Rightarrow> TemplateDef \<Rightarrow> bool \<Rightarrow> (CpError, VmRecord) result prog" where
  "bring_up cfg v tpl allow_resume =
     (case v_slot v of
        None \<Rightarrow> Ret (Err (Component (Backend ''bring_up requires a slot'')))
      | Some slot \<Rightarrow>
          Provision (v_id v) (t_rootfs_template tpl) (\<lambda>r. qmark_c r (\<lambda>st.
          NetApply slot (network_policy_of v) (\<lambda>r. qmark_c r (\<lambda>fx.
          let spec = instance_spec cfg v tpl allow_resume st fx;
              v' = v\<lparr>v_rootfs_device := Some (sh_device_path st), v_tap := Some (fx_tap fx)\<rparr> in
          Call (RtCreate spec) (\<lambda>r. qmark_c r (\<lambda>_.
          Call (RtStart (v_id v)) (\<lambda>r. qmark_c r (\<lambda>_.
          if is_resume_from spec \<noteq> None then
            best_effort (SyncGuestClock (v_id v))
              (best_effort (ReseedGuest (v_id v) (v_snapshot v = None)) (Ret (Ok v')))
          else Ret (Ok v'))))))))))"

definition rollback :: "VmId \<Rightarrow> SlotId \<Rightarrow> unit prog" where
  "rollback vid slot =
     best_effort (RtHalt vid) (best_effort (RtDestroy vid) (best_effort (NetTeardown slot)
     (best_effort (StTeardown vid)
     (Sql (DeleteVm vid) (\<lambda>r.
      bind (case r of Inr _ \<Rightarrow> free_slot slot | Inl _ \<Rightarrow> Ret ()) (\<lambda>_.
      MemDo (ForgetLock vid) (Ret ())))))))"

section \<open>Creating\<close>

text \<open>One host port for each forward asked for; on failure those already taken.\<close>

fun allocate_ports :: "PortForward list \<Rightarrow> PortForward list \<Rightarrow> (PortForward list, PortForward list) result prog" where
  "allocate_ports done [] = Ret (Ok done)"
| "allocate_ports done (f # fs) =
     AllocPort (\<lambda>r. case r of
        None \<Rightarrow> Ret (Err done)
      | Some p \<Rightarrow> allocate_ports (done @ [\<lparr>host_port = p, vm_port = vm_port f, proto = proto f\<rparr>]) fs)"

fun declare_forwards :: "VmId \<Rightarrow> PortForward list \<Rightarrow> (CpError, unit) result prog" where
  "declare_forwards vid [] = Ret (Ok ())"
| "declare_forwards vid (f # fs) =
     Sql (AddForward vid f) (\<lambda>r. qmark r (\<lambda>_. declare_forwards vid fs))"

definition new_record :: "CreateVm \<Rightarrow> VmId \<Rightarrow> SlotId \<Rightarrow> PortForward list \<Rightarrow> VmRecord" where
  "new_record req vid slot ingress =
     \<lparr>v_id = vid, v_slot = Some slot, v_template = c_template req, v_egress = c_egress req,
      v_ingress = ingress, v_labels = c_labels req, v_lifecycle = c_lifecycle req,
      v_restart = c_restart req, v_vcpus = c_vcpus req, v_mem_mib = c_mem_mib req,
      v_state = Creating, v_rootfs_device = None, v_tap = None, v_principal = c_principal req,
      v_allow = c_allow req, v_rules = c_rules req, v_policy_gen = 1, v_signed = c_signed req,
      v_snapshot = None\<rparr>"

definition pool_full :: "Config \<Rightarrow> PoolStats \<Rightarrow> bool" where
  "pool_full cfg ps \<longleftrightarrow> f64_ge (data_percent ps) (pool_watermark_percent cfg) \<or>
     f64_ge (metadata_percent ps) (pool_watermark_percent cfg)"

text \<open>The part of \<^verbatim>\<open>create_vm\<close> under the VM's lock: from the placement on, and all of it.\<close>

definition create_vm_placed ::
  "Config \<Rightarrow> CreateVm \<Rightarrow> TemplateDef \<Rightarrow> VmId \<Rightarrow> SlotId \<Rightarrow> PortForward list \<Rightarrow> (CpError, VmId) result prog" where
  "create_vm_placed cfg req tpl vid slot ingress =
     (let v = new_record req vid slot ingress in
      Sql (InsertVm v) (\<lambda>r. qmark r (\<lambda>_.
      bind (declare_forwards vid ingress) (\<lambda>r. case r of
        Inl e \<Rightarrow> bind (free_ports ingress) (\<lambda>_. bind (rollback vid slot) (\<lambda>_. Ret (Err e)))
      | Inr _ \<Rightarrow>
          bind (bring_up cfg v tpl True) (\<lambda>r. case r of
            Inr v' \<Rightarrow> Sql (UpdatePlacement (v'\<lparr>v_state := Running\<rparr>)) (\<lambda>r. qmark r (\<lambda>_. Ret (Ok vid)))
          | Inl e \<Rightarrow> bind (free_ports ingress) (\<lambda>_. bind (rollback vid slot) (\<lambda>_. Ret (Err e))))))))"

definition create_vm_locked :: "Config \<Rightarrow> CreateVm \<Rightarrow> TemplateDef \<Rightarrow> VmId \<Rightarrow> (CpError, VmId) result prog" where
  "create_vm_locked cfg req tpl vid =
     q_get_vm vid (\<lambda>r. qmark r (\<lambda>present.
     if present \<noteq> None then Ret (Err (VmExists vid)) else
     qmark_p allocate_slot (\<lambda>slot.
     bind (allocate_ports [] (c_ingress req)) (\<lambda>r. case r of
       Inl taken \<Rightarrow> bind (free_ports taken) (\<lambda>_. bind (free_slot slot) (\<lambda>_. Ret (Err PortsExhausted)))
     | Inr ingress \<Rightarrow> create_vm_placed cfg req tpl vid slot ingress))))"

definition create_vm :: "Config \<Rightarrow> Codec \<Rightarrow> CreateVm \<Rightarrow> (CpError, VmId) result prog" where
  "create_vm cfg K req =
     qmark (validate_policy (c_allow req) (c_rules req)) (\<lambda>_.
     q_get_template (c_template req) (\<lambda>r.
     qmark (and_then r (ok_or_err (UnknownTemplate (c_template req)))) (\<lambda>tpl.
     PoolStatsOf (\<lambda>r. qmark_c r (\<lambda>ps.
     if pool_full cfg ps then Ret (Err (PoolFull (data_percent ps) (metadata_percent ps))) else
     let proceed = (\<lambda>vid.
       qmark (case c_signed req of
                None \<Rightarrow> Ok ()
              | Some sp \<Rightarrow> check_signed K sp vid 1 (c_egress req) (c_principal req) (c_allow req) (c_rules req))
         (\<lambda>_. locked vid (create_vm_locked cfg req tpl vid))) in
     case c_id req of Some vid \<Rightarrow> proceed vid | None \<Rightarrow> RandomVmId proceed)))))"

section \<open>Stopping and destroying\<close>

definition destroy_vm :: "VmId \<Rightarrow> (CpError, unit) result prog" where
  "destroy_vm vid = locked vid (with_vm vid (\<lambda>v.
     best_effort (RtStop vid) (best_effort (RtHalt vid) (best_effort (RtDestroy vid)
     (bind (teardown_opt (v_slot v)) (\<lambda>_.
      bind (free_ports (v_ingress v)) (\<lambda>_.
      best_effort (StTeardown vid)
      (Sql (DeleteVm vid) (\<lambda>r. qmark r (\<lambda>_.
       bind (free_slot_opt (v_slot v)) (\<lambda>_.
       MemDo (ForgetLock vid) (Ret (Ok ())))))))))))))"

text \<open>
  Poll every 50 ms until the VMM is gone or the deadline passes: \<open>n\<close> bounds the polls, and
  \<open>graceful_stop_ms div 50 + 1\<close> of them cannot fit before the deadline.
\<close>

fun wait_exit :: "nat \<Rightarrow> VmId \<Rightarrow> bool prog" where
  "wait_exit 0 vid = Ret False"
| "wait_exit (Suc n) vid =
     RtStatus vid (\<lambda>r.
       if (case r of Inr s \<Rightarrow> exited s | Inl _ \<Rightarrow> False) then Ret True
       else Deadline (\<lambda>late. if late then Ret False else wait_exit n vid))"

definition polls :: "Config \<Rightarrow> nat" where
  "polls cfg = graceful_stop_ms cfg div 50 + 1"

definition finalize_stop :: "VmRecord \<Rightarrow> (CpError, unit) result prog" where
  "finalize_stop v =
     best_effort (case v_lifecycle v of Durable \<Rightarrow> RtRelease (v_id v) | Ephemeral \<Rightarrow> RtDestroy (v_id v))
     (bind (teardown_opt (v_slot v)) (\<lambda>_.
      qmark_p
        (case v_lifecycle v of
           Ephemeral \<Rightarrow>
             bind (free_ports (v_ingress v)) (\<lambda>_.
             best_effort (StTeardown (v_id v))
             (Sql (DeleteVm (v_id v)) (\<lambda>r. qmark r (\<lambda>_.
              MemDo (ForgetLock (v_id v)) (Ret (Ok ()))))))
         | Durable \<Rightarrow>
             Sql (UpdatePlacement (v\<lparr>v_slot := None, v_tap := None, v_state := Stopped\<rparr>))
               (\<lambda>r. qmark r (\<lambda>_. Ret (Ok ()))))
        (\<lambda>_. bind (free_slot_opt (v_slot v)) (\<lambda>_. Ret (Ok ())))))"

definition stop_vm :: "Config \<Rightarrow> VmId \<Rightarrow> (CpError, unit) result prog" where
  "stop_vm cfg vid = locked vid (with_vm vid (\<lambda>v.
     Call (RtStop vid) (\<lambda>r. qmark_c r (\<lambda>_.
     bind (wait_exit (polls cfg) vid) (\<lambda>gone.
     if gone then finalize_stop v else best_effort (RtHalt vid) (finalize_stop v))))))"

definition halt_vm :: "VmId \<Rightarrow> (CpError, unit) result prog" where
  "halt_vm vid = locked vid (with_vm vid (\<lambda>v.
     Call (RtHalt vid) (\<lambda>r. qmark_c r (\<lambda>_. finalize_stop v))))"

text \<open>Each suspension file must be gone.\<close>

fun check_gone :: "string list \<Rightarrow> (CpError, unit) result prog" where
  "check_gone [] = Ret (Ok ())"
| "check_gone (path # ps) =
     FsStat path (\<lambda>r. case r of
        FsNotFound \<Rightarrow> check_gone ps
      | FsError e \<Rightarrow> Ret (Err (Component (Backend e)))
      | FsFound \<Rightarrow> Ret (Err (Component (Backend ''Suspension snapshot cleanup not confirmed''))))"

definition terminate_vm_locked :: "VmId \<Rightarrow> (CpError, unit) result prog" where
  "terminate_vm_locked vid = with_vm vid (\<lambda>v.
     if v_lifecycle v \<noteq> Durable then Ret (Err (Component (Backend ''Terminate requires a durable workspace''))) else
     Call (RtDestroy vid) (\<lambda>r. qmark_c r (\<lambda>_.
     qmark_p (check_gone (case v_snapshot v of Some s \<Rightarrow> [mem_file s, vmstate s] | None \<Rightarrow> [])) (\<lambda>_.
     qmark_p
       (case v_slot v of
          Some slot \<Rightarrow> Call (NetTeardown slot) (\<lambda>r. Ret (map_err Component r))
        | None \<Rightarrow> Ret (Ok ()))
       (\<lambda>_.
     Sql (UpdatePlacement (v\<lparr>v_slot := None, v_tap := None, v_snapshot := None, v_state := Stopped\<rparr>))
       (\<lambda>r. qmark r (\<lambda>_.
     bind (free_slot_opt (v_slot v)) (\<lambda>_. Ret (Ok ())))))))))"

definition terminate_vm :: "VmId \<Rightarrow> (CpError, unit) result prog" where
  "terminate_vm vid = locked vid (terminate_vm_locked vid)"

section \<open>Suspending and starting\<close>

definition suspend_vm :: "VmId \<Rightarrow> (CpError, unit) result prog" where
  "suspend_vm vid = locked vid (with_vm vid (\<lambda>v.
     if v_state v \<noteq> Running then Ret (Err (InvalidState vid (vmstate_as_str (v_state v)) ''suspend'')) else
     RtSuspend vid (\<lambda>r. qmark_c r (\<lambda>snap.
     Sql (UpdatePlacement (v\<lparr>v_snapshot := Some snap, v_state := Suspended\<rparr>)) (\<lambda>r. qmark r (\<lambda>_.
     Ret (Ok ())))))))"

definition start_vm_locked :: "Config \<Rightarrow> VmId \<Rightarrow> (CpError, unit) result prog" where
  "start_vm_locked cfg vid = with_vm vid (\<lambda>v.
     case v_state v of
       Suspended \<Rightarrow>
         Call (RtStart vid) (\<lambda>r. qmark_c r (\<lambda>_.
         best_effort (SyncGuestClock vid)
         (Sql (UpdatePlacement (v\<lparr>v_state := Running\<rparr>)) (\<lambda>r. qmark r (\<lambda>_. Ret (Ok ()))))))
     | Stopped \<Rightarrow>
         q_get_template (v_template v) (\<lambda>r.
         qmark (and_then r (ok_or_err (UnknownTemplate (v_template v)))) (\<lambda>tpl.
         qmark_p allocate_slot (\<lambda>slot.
         let v1 = v\<lparr>v_slot := Some slot, v_state := Creating\<rparr> in
         Sql (UpdatePlacement v1) (\<lambda>r. qmark r (\<lambda>_.
         bind (bring_up cfg v1 tpl False) (\<lambda>r. case r of
           Inr v2 \<Rightarrow> Sql (UpdatePlacement (v2\<lparr>v_state := Running\<rparr>)) (\<lambda>r. qmark r (\<lambda>_. Ret (Ok ())))
         | Inl e \<Rightarrow>
             best_effort (RtHalt vid) (best_effort (RtRelease vid) (best_effort (NetTeardown slot)
             (Sql (UpdatePlacement (v1\<lparr>v_slot := None, v_state := Stopped\<rparr>)) (\<lambda>r.
              bind (case r of Inr _ \<Rightarrow> free_slot slot | Inl _ \<Rightarrow> Ret ()) (\<lambda>_. Ret (Err e))))))))))))
     | other \<Rightarrow> Ret (Err (InvalidState vid (vmstate_as_str other) ''start'')))"

definition start_vm :: "Config \<Rightarrow> VmId \<Rightarrow> (CpError, unit) result prog" where
  "start_vm cfg vid = locked vid (start_vm_locked cfg vid)"

definition retire_suspension :: "Config \<Rightarrow> VmId \<Rightarrow> (CpError, unit) result prog" where
  "retire_suspension cfg vid = locked vid (with_vm vid (\<lambda>v.
     if v_lifecycle v \<noteq> Durable \<or> v_state v \<noteq> Suspended
     then Ret (Err (Component (Backend ''Suspension retirement requires a suspended durable VM''))) else
     qmark_p (start_vm_locked cfg vid) (\<lambda>_.
     Call (RtStop vid) (\<lambda>r. qmark_c r (\<lambda>_.
     bind (wait_exit (polls cfg) vid) (\<lambda>gone.
     if gone then terminate_vm_locked vid
     else Ret (Err (Component (Backend ''Clean shutdown not confirmed'')))))))))"

section \<open>Supervision\<close>

definition handle_exit_locked :: "Config \<Rightarrow> VmRecord \<Rightarrow> bool \<Rightarrow> (CpError, unit) result prog" where
  "handle_exit_locked cfg v failed =
     (if v_restart v = Always \<or> (failed \<and> v_restart v = OnFailure) then
        bind (teardown_opt (v_slot v)) (\<lambda>_.
        Sql (UpdatePlacement (v\<lparr>v_slot := None, v_state := Stopped\<rparr>)) (\<lambda>r. qmark r (\<lambda>_.
        bind (free_slot_opt (v_slot v)) (\<lambda>_.
        start_vm_locked cfg (v_id v)))))
      else finalize_stop v)"

definition handle_exit :: "Config \<Rightarrow> VmId \<Rightarrow> bool \<Rightarrow> (CpError, unit) result prog" where
  "handle_exit cfg vid failed = locked vid (q_get_vm vid (\<lambda>r. qmark r (\<lambda>present.
     case present of None \<Rightarrow> Ret (Ok ()) | Some v \<Rightarrow> handle_exit_locked cfg v failed)))"

definition reap :: "Config \<Rightarrow> VmId \<Rightarrow> (CpError, unit) result prog" where
  "reap cfg vid = locked vid (q_get_vm vid (\<lambda>r. qmark r (\<lambda>present.
     case present of
       None \<Rightarrow> Ret (Ok ())
     | Some v \<Rightarrow>
         if v_state v \<noteq> Running then Ret (Ok ()) else
         RtStatus vid (\<lambda>r. qmark_c r (\<lambda>status.
         if \<not> exited status then Ret (Ok ()) else
         MemDo (ClearUnresponsive vid) (handle_exit_locked cfg v True))))))"

definition note_alive :: "VmId \<Rightarrow> VmStatus \<Rightarrow> unit prog" where
  "note_alive vid status =
     (case status of
        VS_Running \<Rightarrow> MemDo (ClearUnresponsive vid) (Ret ())
      | VS_Suspended \<Rightarrow> MemDo (ClearUnresponsive vid) (Ret ())
      | _ \<Rightarrow> MemDo (MarkUnresponsive vid) (Ret ()))"

fun supervise_each :: "Config \<Rightarrow> VmRecord list \<Rightarrow> unit prog" where
  "supervise_each cfg [] = Ret ()"
| "supervise_each cfg (v # vs) =
     (if v_state v \<noteq> Running then supervise_each cfg vs else
      RtStatus (v_id v) (\<lambda>r.
        bind (case r of
                Inr status \<Rightarrow> if exited status then bind (reap cfg (v_id v)) (\<lambda>_. Ret ()) else note_alive (v_id v) status
              | Inl _ \<Rightarrow> Ret ())
          (\<lambda>_. supervise_each cfg vs)))"

definition supervise_tick :: "Config \<Rightarrow> (CpError, unit) result prog" where
  "supervise_tick cfg = q_list_vms (\<lambda>r. qmark r (\<lambda>vms.
     bind (supervise_each cfg vms) (\<lambda>_.
     MemDo (RetainUnresponsive (map v_id (filter (\<lambda>v. v_state v = Running) vms))) (Ret (Ok ())))))"

section \<open>Starting the daemon\<close>

definition abandon :: "VmId \<Rightarrow> (CpError, unit) result prog" where
  "abandon vid = locked vid (q_get_vm vid (\<lambda>r. qmark r (\<lambda>present.
     case present of
       None \<Rightarrow> Ret (Ok ())
     | Some v \<Rightarrow>
         (let keep = (v_lifecycle v = Durable \<and> v_rootfs_device v \<noteq> None) in
          best_effort (RtHalt vid)
          (best_effort (if keep then RtRelease vid else RtDestroy vid)
          (bind (teardown_opt (v_slot v)) (\<lambda>_.
           qmark_p
             (if keep then
                Sql (UpdatePlacement (v\<lparr>v_slot := None, v_tap := None, v_state := Stopped\<rparr>))
                  (\<lambda>r. qmark r (\<lambda>_. Ret (Ok ())))
              else
                bind (free_ports (v_ingress v)) (\<lambda>_.
                best_effort (StTeardown vid)
                (Sql (DeleteVm vid) (\<lambda>r. qmark r (\<lambda>_. MemDo (ForgetLock vid) (Ret (Ok ())))))))
             (\<lambda>_. bind (free_slot_opt (v_slot v)) (\<lambda>_. Ret (Ok ()))))))))))"

fun recover_each :: "Config \<Rightarrow> VmRecord list \<Rightarrow> (CpError, unit) result prog" where
  "recover_each cfg [] = Ret (Ok ())"
| "recover_each cfg (v # vs) =
     qmark_p
       (case v_state v of
          Running \<Rightarrow> RtStatus (v_id v) (\<lambda>r. qmark_c r (\<lambda>status.
            if exited status then reap cfg (v_id v) else Ret (Ok ())))
        | Creating \<Rightarrow> abandon (v_id v)
        | _ \<Rightarrow> Ret (Ok ()))
       (\<lambda>_. recover_each cfg vs)"

definition record_slots :: "VmRecord list \<Rightarrow> SlotId list" where
  "record_slots vms = List.map_filter v_slot vms"

definition highest_next :: "VmRecord list \<Rightarrow> nat option" where
  "highest_next vms =
     (case record_slots vms of
        [] \<Rightarrow> None
      | s # ss \<Rightarrow> Some (fold (\<lambda>s n. max n (unat (slot_get s) + 1)) ss (unat (slot_get s) + 1)))"

definition recover :: "Config \<Rightarrow> (CpError, unit) result prog" where
  "recover cfg = q_list_vms (\<lambda>r. qmark r (\<lambda>vms.
     MemDo (ReserveSlots (record_slots vms))
     (q_slot_cursor (\<lambda>r. qmark r (\<lambda>saved.
      bind (case (case saved of Some n \<Rightarrow> Some n | None \<Rightarrow> highest_next vms) of
              Some cursor \<Rightarrow> MemDo (ResumeSlotsAt cursor) (Ret ())
            | None \<Rightarrow> Ret ()) (\<lambda>_.
      MemDo (ReservePorts (concat (map (\<lambda>v. map host_port (v_ingress v)) vms)))
      (recover_each cfg vms)))))))"

definition start :: "Config \<Rightarrow> (CpError, HostNetwork) result prog" where
  "start cfg = Call StInit (\<lambda>r. qmark_c r (\<lambda>_.
     NetInit (\<lambda>r. qmark_c r (\<lambda>hn.
     MemDo (SetServices hn)
     (qmark_p (recover cfg) (\<lambda>_. Ret (Ok hn)))))))"

section \<open>Queries, policy and forwards\<close>

text \<open>\<open>a2s\<close> is the network manager's \<^verbatim>\<open>address_to_slot\<close>.\<close>

definition identify :: "(Ipv4Addr \<Rightarrow> SlotId option) \<Rightarrow> Ipv4Addr \<Rightarrow> Db \<Rightarrow> (CpError, VmRecord option) result" where
  "identify a2s addr db =
     (case a2s addr of
        None \<Rightarrow> Ok None
      | Some slot \<Rightarrow> map_ok (find (\<lambda>v. v_slot v = Some slot)) (list_vms db))"

definition apply_network :: "VmId \<Rightarrow> (CpError, unit) result prog" where
  "apply_network vid = q_get_vm vid (\<lambda>r. qmark r (\<lambda>present.
     case present of
       None \<Rightarrow> Ret (Ok ())
     | Some v \<Rightarrow>
         (case v_slot v of
            None \<Rightarrow> Ret (Ok ())
          | Some slot \<Rightarrow> Call (NetReapply slot (network_policy_of v)) (\<lambda>r. Ret (map_err Component r)))))"

text \<open>
  \<^verbatim>\<open>set_policy\<close> in three parts: storing the merged policy, the body run on the record read
  under the lock, and the method.
\<close>

definition store_policy ::
  "VmId \<Rightarrow> string option \<Rightarrow> string list \<Rightarrow> string list \<Rightarrow> EgressMode \<Rightarrow> SignedPolicy option \<Rightarrow> bool \<Rightarrow>
   (CpError, u64) result prog" where
  "store_policy vid prin allow rls egress sp egress_changed =
     Sql (UpdatePolicy vid prin allow rls egress sp) (\<lambda>r. qmark r (\<lambda>_.
     q_policy_gen vid (\<lambda>r. qmark r (\<lambda>gen.
     qmark_p (if egress_changed then apply_network vid else Ret (Ok ())) (\<lambda>_. Ret (Ok gen))))))"

definition set_policy_body ::
  "Codec \<Rightarrow> VmId \<Rightarrow> string option \<Rightarrow> string list option \<Rightarrow> string list option \<Rightarrow> EgressMode option \<Rightarrow>
   SignedPolicy option \<Rightarrow> VmRecord \<Rightarrow> (CpError, u64) result prog" where
  "set_policy_body K vid prin allow rls egress sp v =
     (let new_prin = (case prin of Some p \<Rightarrow> Some p | None \<Rightarrow> v_principal v);
          new_allow = (case allow of Some a \<Rightarrow> a | None \<Rightarrow> v_allow v);
          new_rules = (case rls of Some a \<Rightarrow> a | None \<Rightarrow> v_rules v);
          new_egress = (case egress of Some e \<Rightarrow> e | None \<Rightarrow> v_egress v);
          egress_changed = (new_egress \<noteq> v_egress v);
          unchanged = (new_prin = v_principal v \<and> new_allow = v_allow v \<and> new_rules = v_rules v \<and> \<not> egress_changed);
          update = store_policy vid new_prin new_allow new_rules new_egress sp egress_changed in
      qmark (validate_policy new_allow new_rules) (\<lambda>_.
      case sp of
        None \<Rightarrow> update
      | Some s \<Rightarrow>
          qmark (map_err (\<lambda>_. SignedMismatch [MM_Claims]) (claims_unverified K s)) (\<lambda>c.
          if unchanged \<and> pc_policy_gen c = v_policy_gen v then
            qmark (check_signed K s vid (v_policy_gen v) new_egress new_prin new_allow new_rules) (\<lambda>_.
            Sql (RefreshSigned vid s) (\<lambda>r. qmark r (\<lambda>_. Ret (Ok (v_policy_gen v)))))
          else
            qmark (check_signed K s vid (v_policy_gen v + 1) new_egress new_prin new_allow new_rules)
              (\<lambda>_. update))))"

definition set_policy ::
  "Codec \<Rightarrow> VmId \<Rightarrow> string option \<Rightarrow> string list option \<Rightarrow> string list option \<Rightarrow> EgressMode option \<Rightarrow>
   SignedPolicy option \<Rightarrow> (CpError, u64) result prog" where
  "set_policy K vid prin allow rls egress sp =
     locked vid (with_vm vid (set_policy_body K vid prin allow rls egress sp))"

definition add_forward_op :: "VmId \<Rightarrow> u16 \<Rightarrow> Protocol \<Rightarrow> (CpError, PortForward) result prog" where
  "add_forward_op vid vmp pr = locked vid (q_get_vm vid (\<lambda>r. qmark r (\<lambda>present.
     if present = None then Ret (Err (UnknownVm vid)) else
     AllocPort (\<lambda>r. qmark (ok_or_err PortsExhausted r) (\<lambda>hp.
     let f = \<lparr>host_port = hp, vm_port = vmp, proto = pr\<rparr> in
     Sql (AddForward vid f) (\<lambda>r. case r of
       Inl e \<Rightarrow> MemDo (FreePorts [hp]) (Ret (Err e))
     | Inr _ \<Rightarrow>
         bind (apply_network vid) (\<lambda>r. case r of
           Inl e \<Rightarrow> Sql (RemoveForward vid hp pr) (\<lambda>_. MemDo (FreePorts [hp]) (Ret (Err e)))
         | Inr _ \<Rightarrow> Ret (Ok f))))))))"

definition remove_forward_op :: "VmId \<Rightarrow> u16 \<Rightarrow> Protocol \<Rightarrow> (CpError, unit) result prog" where
  "remove_forward_op vid hp pr = locked vid (
     Sql (RemoveForward vid hp pr) (\<lambda>r. qmark r (\<lambda>n.
     if n = 0 then Ret (Err (UnknownForward hp pr)) else
     qmark_p (apply_network vid) (\<lambda>_.
     MemDo (FreePorts [hp]) (Ret (Ok ()))))))"

definition register_template :: "TemplateDef \<Rightarrow> (CpError, unit) result prog" where
  "register_template t = Sql (UpsertTemplate t) (\<lambda>r. qmark r (\<lambda>_. Ret (Ok ())))"

end
