(* ===== verification/Iso_Sched.thy ===== *)
theory Iso_Sched
  imports Iso_Control
begin

text \<open>
  Handlers running beside each other. \<open>prog_step\<close> is one atomic action of one program, with
  any reply the backends and the store may give; \<open>reach\<close> are the states reachable from a
  daemon that has just reserved what its records hold, under any requests in any
  interleaving. The rest is the logic the safety theorems are proved in: a program is \<open>safe\<close>
  from a ghost state (the lock it holds, what it knows of that VM's record, the slots it owns)
  when every action it takes is one that ghost state entitles it to.
\<close>

section \<open>Steps\<close>

text \<open>\<open>fails\<close> are the statements the store may fail; \<open>U\<close> the ids ever given to a VM.\<close>

inductive prog_step ::
  "(SqlStmt \<Rightarrow> bool) \<Rightarrow> 'a prog \<Rightarrow> ControlPlane \<Rightarrow> VmId set \<Rightarrow> 'a prog \<Rightarrow> ControlPlane \<Rightarrow> VmId set \<Rightarrow> bool"
  for fails where
  st_lock: "vm_lock vid cp = (h, cp') \<Longrightarrow> prog_step fails (GetLock vid k) cp U (k h) cp' U"
| st_acquire: "h \<notin> cp_held cp \<Longrightarrow>
    prog_step fails (Acquire h p) cp U p (cp\<lparr>cp_held := insert h (cp_held cp)\<rparr>) U"
| st_mem: "prog_step fails (MemDo m p) cp U p (mem_exec m cp) U"
| st_slot: "alloc_slot_step failure cp = (r, cp') \<Longrightarrow> prog_step fails (AllocSlot k) cp U (k r) cp' U"
| st_port: "alloc_port_step cp = (r, cp') \<Longrightarrow> prog_step fails (AllocPort k) cp U (k r) cp' U"
| st_sql: "sql_step failure s cp = (r, cp') \<Longrightarrow> failure = None \<or> fails s \<Longrightarrow>
    prog_step fails (Sql s k) cp U (k r) cp' U"
| st_query: "prog_step fails (Query k) cp U (k (Ok (cp_store cp))) cp U"
| st_query_fails: "prog_step fails (Query k) cp U (k (Err (StoreError msg))) cp U"
| st_call: "prog_step fails (Call c k) cp U (k r) cp U"
| st_net_init: "prog_step fails (NetInit k) cp U (k r) cp U"
| st_apply: "prog_step fails (NetApply s p k) cp U (k r) cp U"
| st_provision: "prog_step fails (Provision vid t k) cp U (k r) cp U"
| st_pool: "prog_step fails (PoolStatsOf k) cp U (k r) cp U"
| st_suspend: "prog_step fails (RtSuspend vid k) cp U (k r) cp U"
| st_status: "prog_step fails (RtStatus vid k) cp U (k r) cp U"
| st_fs: "prog_step fails (FsStat path k) cp U (k r) cp U"
| st_random: "vid \<notin> U \<Longrightarrow> prog_step fails (RandomVmId k) cp U (k vid) cp (insert vid U)"
| st_deadline: "prog_step fails (Deadline k) cp U (k r) cp U"

inductive_cases prog_step_cases:
  "prog_step fails (Ret x) cp U p' cp' U'"
  "prog_step fails (GetLock vid k) cp U p' cp' U'"
  "prog_step fails (Acquire h p) cp U p' cp' U'"
  "prog_step fails (MemDo m p) cp U p' cp' U'"
  "prog_step fails (AllocSlot k) cp U p' cp' U'"
  "prog_step fails (AllocPort k) cp U p' cp' U'"
  "prog_step fails (Sql s k) cp U p' cp' U'"
  "prog_step fails (Query k) cp U p' cp' U'"
  "prog_step fails (Call c k) cp U p' cp' U'"
  "prog_step fails (NetInit k) cp U p' cp' U'"
  "prog_step fails (NetApply s p k) cp U p' cp' U'"
  "prog_step fails (Provision vid t k) cp U p' cp' U'"
  "prog_step fails (PoolStatsOf k) cp U p' cp' U'"
  "prog_step fails (RtSuspend vid k) cp U p' cp' U'"
  "prog_step fails (RtStatus vid k) cp U p' cp' U'"
  "prog_step fails (FsStat path k) cp U p' cp' U'"
  "prog_step fails (RandomVmId k) cp U p' cp' U'"
  "prog_step fails (Deadline k) cp U p' cp' U'"

text \<open>The requests, and the program of each with its answer dropped.\<close>

datatype Request =
    R_Create CreateVm
  | R_Destroy VmId
  | R_Stop VmId
  | R_Halt VmId
  | R_Terminate VmId
  | R_Retire VmId
  | R_Suspend VmId
  | R_Start VmId
  | R_HandleExit VmId bool
  | R_Supervise
  | R_SetPolicy VmId "string option" "string list option" "string list option" "EgressMode option" "SignedPolicy option"
  | R_AddForward VmId u16 Protocol
  | R_RemoveForward VmId u16 Protocol
  | R_Register TemplateDef

definition no_answer :: "'a prog \<Rightarrow> unit prog" where
  "no_answer p = bind p (\<lambda>_. Ret ())"

fun handler :: "Config \<Rightarrow> Codec \<Rightarrow> Request \<Rightarrow> unit prog" where
  "handler cfg K (R_Create req) = no_answer (create_vm cfg K req)"
| "handler cfg K (R_Destroy vid) = no_answer (destroy_vm vid)"
| "handler cfg K (R_Stop vid) = no_answer (stop_vm cfg vid)"
| "handler cfg K (R_Halt vid) = no_answer (halt_vm vid)"
| "handler cfg K (R_Terminate vid) = no_answer (terminate_vm vid)"
| "handler cfg K (R_Retire vid) = no_answer (retire_suspension cfg vid)"
| "handler cfg K (R_Suspend vid) = no_answer (suspend_vm vid)"
| "handler cfg K (R_Start vid) = no_answer (start_vm cfg vid)"
| "handler cfg K (R_HandleExit vid failed) = no_answer (handle_exit cfg vid failed)"
| "handler cfg K R_Supervise = no_answer (supervise_tick cfg)"
| "handler cfg K (R_SetPolicy vid p a r e s) = no_answer (set_policy K vid p a r e s)"
| "handler cfg K (R_AddForward vid vmp pr) = no_answer (add_forward_op vid vmp pr)"
| "handler cfg K (R_RemoveForward vid hp pr) = no_answer (remove_forward_op vid hp pr)"
| "handler cfg K (R_Register t) = no_answer (register_template t)"

fun named_id :: "Request \<Rightarrow> VmId option" where
  "named_id (R_Create req) = c_id req"
| "named_id _ = None"

text \<open>
  What a request in flight may meet. A create names a new id or none: ids are never reused.
\<close>

definition row_view :: "Db \<Rightarrow> VmId \<Rightarrow> SlotId option option" where
  "row_view db vid = map_option row_slot (find (\<lambda>r. w_id r = vmid_display vid) (db_vms db))"

definition ids_ok :: "Db \<Rightarrow> bool" where
  "ids_ok db \<longleftrightarrow> distinct (map w_id (db_vms db)) \<and> (\<forall>r \<in> set (db_vms db). \<exists>vid. w_id r = vmid_display vid)"

definition claims_distinct :: "Db \<Rightarrow> bool" where
  "claims_distinct db \<longleftrightarrow>
     (\<forall>i j s. row_view db i = Some (Some s) \<longrightarrow> row_view db j = Some (Some s) \<longrightarrow> i = j)"

definition recovered :: "Config \<Rightarrow> Db \<Rightarrow> VmRecord list \<Rightarrow> ControlPlane" where
  "recovered cfg db vms = mem_exec (ReserveSlots (record_slots vms)) (control_plane_new cfg db)"

inductive reach ::
  "Config \<Rightarrow> Codec \<Rightarrow> (SqlStmt \<Rightarrow> bool) \<Rightarrow> ControlPlane \<Rightarrow> (nat \<Rightarrow> unit prog) \<Rightarrow> VmId set \<Rightarrow> bool"
  for cfg K fails where
  reach_init:
    "ids_ok db \<Longrightarrow> claims_distinct db \<Longrightarrow> list_vms db = Ok vms \<Longrightarrow> slot_capacity cfg \<le> 32768 \<Longrightarrow>
     reach cfg K fails (recovered cfg db vms)
       ((\<lambda>_. Ret ())(0 := no_answer (recover_each cfg vms))) {vid. row_view db vid \<noteq> None}"
| reach_request:
    "reach cfg K fails cp ps U \<Longrightarrow> ps t = Ret () \<Longrightarrow> set_option (named_id req) \<inter> U = {} \<Longrightarrow>
     reach cfg K fails cp (ps(t := handler cfg K req)) (U \<union> set_option (named_id req))"
| reach_step:
    "reach cfg K fails cp ps U \<Longrightarrow> prog_step fails (ps t) cp U p' cp' U' \<Longrightarrow>
     reach cfg K fails cp' (ps(t := p')) U'"

section \<open>Ghost state\<close>

datatype LockState = NoLock | Wants VmId nat | Holds VmId nat

datatype Know = Unknown | Absent | Gone | Present "SlotId option"

record Ghost =
  g_lock :: LockState
  g_know :: Know
  g_own :: "SlotId set"
  g_new :: "VmId option"

fun agrees :: "Know \<Rightarrow> SlotId option option \<Rightarrow> bool" where
  "agrees Unknown v = True"
| "agrees Absent v = (v = None)"
| "agrees Gone v = (v = None)"
| "agrees (Present s) v = (v = Some s)"

definition consistent :: "Ghost \<Rightarrow> Db \<Rightarrow> bool" where
  "consistent g db \<longleftrightarrow>
     (\<forall>vid h. g_lock g = Holds vid h \<longrightarrow> agrees (g_know g) (row_view db vid)) \<and>
     (\<forall>vid. g_new g = Some vid \<longrightarrow> row_view db vid = None)"

fun know_of :: "SlotId option option \<Rightarrow> Know" where
  "know_of None = Absent"
| "know_of (Some s) = Present s"

definition learn :: "Ghost \<Rightarrow> Db \<Rightarrow> Ghost" where
  "learn g db =
     (case g_lock g of
        Holds vid h \<Rightarrow> if g_know g = Gone then g else g\<lparr>g_know := know_of (row_view db vid)\<rparr>
      | _ \<Rightarrow> g)"

definition has_vm :: "Ghost \<Rightarrow> VmId \<Rightarrow> bool" where
  "has_vm g vid \<longleftrightarrow> (\<exists>h s. g_lock g = Holds vid h \<and> g_know g = Present s)"

definition may_use :: "Ghost \<Rightarrow> SlotId \<Rightarrow> bool" where
  "may_use g s \<longleftrightarrow> s \<in> g_own g \<or> (\<exists>vid h. g_lock g = Holds vid h \<and> g_know g = Present (Some s))"

fun mem_ok :: "MemOp \<Rightarrow> Ghost \<Rightarrow> bool" where
  "mem_ok (ReleaseLock h) g = (\<exists>vid. g_lock g = Holds vid h)"
| "mem_ok (ForgetLock vid) g = ((\<exists>h. g_lock g = Holds vid h) \<and> g_know g = Gone)"
| "mem_ok (FreeSlot s) g = (s \<in> g_own g)"
| "mem_ok _ g = True"

fun mem_ghost :: "MemOp \<Rightarrow> Ghost \<Rightarrow> Ghost" where
  "mem_ghost (ReleaseLock h) g = g\<lparr>g_lock := NoLock, g_know := Unknown\<rparr>"
| "mem_ghost (FreeSlot s) g = g\<lparr>g_own := g_own g - {s}\<rparr>"
| "mem_ghost _ g = g"

fun sql_ok :: "SqlStmt \<Rightarrow> Ghost \<Rightarrow> bool" where
  "sql_ok (InsertVm v) g =
     ((\<exists>h. g_lock g = Holds (v_id v) h) \<and> g_new g = Some (v_id v) \<and> set_option (v_slot v) \<subseteq> g_own g)"
| "sql_ok (UpdatePlacement v) g =
     (has_vm g (v_id v) \<and> (\<forall>s \<in> set_option (v_slot v). may_use g s))"
| "sql_ok (DeleteVm vid) g = has_vm g vid"
| "sql_ok _ g = True"

definition known_slots :: "Ghost \<Rightarrow> SlotId set" where
  "known_slots g = (case g_know g of Present (Some s) \<Rightarrow> {s} | _ \<Rightarrow> {})"

fun sql_ghost :: "SqlStmt \<Rightarrow> Ghost \<Rightarrow> Ghost" where
  "sql_ghost (InsertVm v) g =
     g\<lparr>g_own := g_own g - set_option (v_slot v), g_know := Present (v_slot v), g_new := None\<rparr>"
| "sql_ghost (UpdatePlacement v) g =
     g\<lparr>g_own := (g_own g \<union> known_slots g) - set_option (v_slot v), g_know := Present (v_slot v)\<rparr>"
| "sql_ghost (DeleteVm vid) g = g\<lparr>g_own := g_own g \<union> known_slots g, g_know := Gone\<rparr>"
| "sql_ghost _ g = g"

fun is_delete :: "SqlStmt \<Rightarrow> bool" where
  "is_delete (DeleteVm vid) = True"
| "is_delete _ = False"

fun call_ok :: "BackendCall \<Rightarrow> Ghost \<Rightarrow> bool" where
  "call_ok (NetTeardown s) g = may_use g s"
| "call_ok (NetReapply s p) g = may_use g s"
| "call_ok StInit g = True"
| "call_ok (StTeardown vid) g = has_vm g vid"
| "call_ok (RtCreate spec) g = has_vm g (is_vm spec)"
| "call_ok (RtStart vid) g = has_vm g vid"
| "call_ok (RtRelease vid) g = has_vm g vid"
| "call_ok (RtStop vid) g = has_vm g vid"
| "call_ok (RtHalt vid) g = has_vm g vid"
| "call_ok (RtDestroy vid) g = has_vm g vid"
| "call_ok (SyncGuestClock vid) g = has_vm g vid"
| "call_ok (ReseedGuest vid keys) g = has_vm g vid"

primrec safe :: "'a prog \<Rightarrow> Ghost \<Rightarrow> ('a \<Rightarrow> Ghost \<Rightarrow> bool) \<Rightarrow> bool" where
  "safe (Ret x) g Q = Q x g"
| "safe (GetLock vid k) g Q = (g_lock g = NoLock \<and> (\<forall>h. safe (k h) (g\<lparr>g_lock := Wants vid h\<rparr>) Q))"
| "safe (Acquire h p) g Q =
     (\<exists>vid. g_lock g = Wants vid h \<and> safe p (g\<lparr>g_lock := Holds vid h, g_know := Unknown\<rparr>) Q)"
| "safe (MemDo m p) g Q = (mem_ok m g \<and> safe p (mem_ghost m g) Q)"
| "safe (AllocSlot k) g Q =
     (safe (k None) g Q \<and>
      (\<forall>s. s \<notin> g_own g \<longrightarrow> safe (k (Some s)) (g\<lparr>g_own := insert s (g_own g)\<rparr>) Q))"
| "safe (AllocPort k) g Q = (\<forall>r. safe (k r) g Q)"
| "safe (Sql s k) g Q =
     (sql_ok s g \<and> (\<forall>n. safe (k (Ok n)) (sql_ghost s g) Q) \<and>
      (is_delete s \<or> (\<forall>e. safe (k (Err e)) g Q)))"
| "safe (Query k) g Q =
     ((\<forall>e. safe (k (Err e)) g Q) \<and>
      (\<forall>db. consistent g db \<longrightarrow> safe (k (Ok db)) (learn g db) Q))"
| "safe (Call c k) g Q = (call_ok c g \<and> (\<forall>r. safe (k r) g Q))"
| "safe (NetInit k) g Q = (\<forall>r. safe (k r) g Q)"
| "safe (NetApply s p k) g Q = (may_use g s \<and> (\<forall>r. safe (k r) g Q))"
| "safe (Provision vid t k) g Q = (has_vm g vid \<and> (\<forall>r. safe (k r) g Q))"
| "safe (PoolStatsOf k) g Q = (\<forall>r. safe (k r) g Q)"
| "safe (RtSuspend vid k) g Q = (has_vm g vid \<and> (\<forall>r. safe (k r) g Q))"
| "safe (RtStatus vid k) g Q = (\<forall>r. safe (k r) g Q)"
| "safe (FsStat path k) g Q = (\<forall>r. safe (k r) g Q)"
| "safe (RandomVmId k) g Q = (g_new g = None \<and> (\<forall>vid. safe (k vid) (g\<lparr>g_new := Some vid\<rparr>) Q))"
| "safe (Deadline k) g Q = (\<forall>r. safe (k r) g Q)"

lemma safe_bind [simp]: "safe (bind p f) g Q = safe p g (\<lambda>x g'. safe (f x) g' Q)"
  by (induction p arbitrary: g) simp_all

lemma safe_mono:
  assumes "safe p g Q" and "\<And>x g'. Q x g' \<Longrightarrow> R x g'"
  shows "safe p g R"
  using assms(1) by (induction p arbitrary: g) (auto intro: assms(2))

section \<open>Statements and the records' slots\<close>

lemma row_slot_fits: "row_slot r = Some s \<Longrightarrow> slot_get s \<le> slot_max"
  by (auto simp: row_slot_def slot_new_def split: option.splits sum.splits if_splits)

lemma view_fits: "row_view db i = Some (Some s) \<Longrightarrow> slot_get s \<le> slot_max"
  by (auto simp: row_view_def row_slot_fits)

lemma view_insert:
  assumes "insert_vm v db = Ok db'" and "vm_fits v"
  shows "row_view db' = (row_view db)(v_id v \<mapsto> v_slot v)"
proof -
  have db': "db' = db\<lparr>db_vms := db_vms db @ [row_of_vm v]\<rparr>" and "vm_count (v_id v) db = 0"
    using assms(1) by (auto simp: insert_vm_def split: if_splits)
  then have "find (\<lambda>r. w_id r = vmid_display (v_id v)) (db_vms db) = None"
    by (simp only: find_id_None vm_count_0_iff not_False_eq_True)
  moreover have "w_id (row_of_vm v) = vmid_display (v_id v)" "row_slot (row_of_vm v) = v_slot v"
    using row_slot_written [OF assms(2), of "row_of_vm v"] by (simp_all add: row_of_vm_def)
  ultimately show ?thesis
    by (auto simp: db' row_view_def find_append fun_eq_iff split: option.splits)
qed

lemma view_placement:
  assumes "vm_fits v"
  shows "row_view (update_placement v db) =
    (row_view db)(v_id v := map_option (\<lambda>_. v_slot v) (row_view db (v_id v)))"
proof -
  have "row_slot (set_placement v r) = v_slot v" for r
    using row_slot_written [OF assms, of "set_placement v r"] by (simp add: set_placement_def)
  then show ?thesis
    by (auto simp: row_view_def update_placement_def find_on_vm fun_eq_iff option.map_comp o_def
        intro!: option.map_cong)
qed

lemma view_delete: "row_view (delete_vm vid db) = (row_view db)(vid := None)"
proof -
  have "find (\<lambda>r. w_id r = vmid_display k) (db_vms (delete_vm vid db)) =
      (if k = vid then None else find (\<lambda>r. w_id r = vmid_display k) (db_vms db))" for k
    by (auto simp: delete_vm_def find_filter find_None_iff intro!: arg_cong2 [where f = find])
  then show ?thesis by (simp add: row_view_def fun_eq_iff)
qed

lemma view_on_vm:
  assumes "\<And>r. w_id (f r) = w_id r" and "\<And>r. row_slot (f r) = row_slot r"
  shows "row_view (db\<lparr>db_vms := on_vm vid f (db_vms db)\<rparr>) = row_view db"
  using assms
  by (auto simp: row_view_def find_on_vm fun_eq_iff option.map_comp o_def intro!: option.map_cong)

lemma view_cong: "db_vms db' = db_vms db \<Longrightarrow> row_view db' = row_view db"
  by (simp add: row_view_def fun_eq_iff)

text \<open>The statements outside insert, placement and delete change no record's slot.\<close>

lemma view_exec_other:
  assumes "db_exec s db = Ok (n, db')"
    and "\<And>v. s \<noteq> InsertVm v" and "\<And>v. s \<noteq> UpdatePlacement v" and "\<And>vid. s \<noteq> DeleteVm vid"
  shows "row_view db' = row_view db"
proof (cases s)
  case (UpdatePolicy vid p a r e sp)
  with assms(1) show ?thesis
    by (auto simp: update_policy_def row_slot_def intro!: view_on_vm)
next
  case (RefreshSigned vid sp)
  with assms(1) show ?thesis
    by (auto simp: refresh_signed_def row_slot_def intro!: view_on_vm)
qed (use assms in \<open>auto simp: upsert_template_def set_slot_cursor_def add_forward_def
        remove_forward_def intro!: view_cong split: if_splits\<close>)

lemma ids_ok_exec:
  assumes "ids_ok db" and "db_exec s db = Ok (n, db')"
  shows "ids_ok db'"
proof (cases s)
  case (InsertVm v)
  with assms show ?thesis
    by (auto simp: ids_ok_def insert_vm_def vm_count_0_iff row_of_vm_def split: if_splits)
next
  case (DeleteVm vid)
  with assms show ?thesis by (auto simp: ids_ok_def delete_vm_def distinct_map_filter_key)
next
  case (UpdatePlacement v)
  with assms show ?thesis
    by (auto simp: ids_ok_def update_placement_def) (auto simp: on_vm_def)
next
  case (UpdatePolicy vid p a r e sp)
  with assms show ?thesis
    by (auto simp: ids_ok_def update_policy_def) (auto simp: on_vm_def)
next
  case (RefreshSigned vid sp)
  with assms show ?thesis
    by (auto simp: ids_ok_def refresh_signed_def) (auto simp: on_vm_def)
qed (use assms in \<open>auto simp: ids_ok_def upsert_template_def set_slot_cursor_def add_forward_def
        remove_forward_def split: if_splits\<close>)

section \<open>The invariant\<close>

text \<open>
  \<open>B\<close> are the ids that have had a record, \<open>D\<close> the dead ones: their lock was dropped from the
  map, and they have no record again. A lock a program has is the one in the map, or its id
  is dead.
\<close>

definition handle_ok :: "ControlPlane \<Rightarrow> VmId set \<Rightarrow> VmId \<Rightarrow> nat \<Rightarrow> bool" where
  "handle_ok cp D vid h \<longleftrightarrow> vid \<in> D \<or> cp_locks cp vid = Some h"

definition slot_owned :: "ControlPlane \<Rightarrow> SlotId \<Rightarrow> bool" where
  "slot_owned cp s \<longleftrightarrow> slot_get s \<le> slot_max \<and>
     (s \<in> slots_universe (cp_slots cp) \<longrightarrow> s \<in> slots_taken (cp_slots cp)) \<and>
     (\<forall>i. row_view (cp_store cp) i \<noteq> Some (Some s))"

definition thread_inv :: "ControlPlane \<Rightarrow> VmId set \<Rightarrow> VmId set \<Rightarrow> VmId set \<Rightarrow> Ghost \<Rightarrow> bool" where
  "thread_inv cp U B D g \<longleftrightarrow> consistent g (cp_store cp) \<and>
     (\<forall>vid h. g_lock g = Wants vid h \<longrightarrow> handle_ok cp D vid h) \<and>
     (\<forall>vid h. g_lock g = Holds vid h \<longrightarrow> handle_ok cp D vid h \<and> h \<in> cp_held cp) \<and>
     (\<forall>s \<in> g_own g. slot_owned cp s) \<and>
     (\<forall>vid h. g_lock g = Holds vid h \<longrightarrow> g_know g = Gone \<longrightarrow> vid \<in> B) \<and>
     (\<forall>vid. g_new g = Some vid \<longrightarrow> vid \<in> U \<and> vid \<notin> B)"

definition compat :: "Ghost \<Rightarrow> Ghost \<Rightarrow> bool" where
  "compat g g' \<longleftrightarrow> g_own g \<inter> g_own g' = {} \<and>
     (\<forall>i j h. g_lock g = Holds i h \<longrightarrow> g_lock g' \<noteq> Holds j h) \<and>
     (\<forall>vid. g_new g = Some vid \<longrightarrow> g_new g' \<noteq> Some vid)"

definition world_inv :: "ControlPlane \<Rightarrow> VmId set \<Rightarrow> VmId set \<Rightarrow> VmId set \<Rightarrow> bool" where
  "world_inv cp U B D \<longleftrightarrow> slots_invar (cp_slots cp) \<and> ids_ok (cp_store cp) \<and>
     claims_distinct (cp_store cp) \<and>
     (\<forall>i s. row_view (cp_store cp) i = Some (Some s) \<longrightarrow> s \<in> slots_universe (cp_slots cp) \<longrightarrow>
        s \<in> slots_taken (cp_slots cp)) \<and>
     (\<forall>i \<in> D. row_view (cp_store cp) i = None) \<and> D \<subseteq> B \<and> B \<subseteq> U \<and>
     (\<forall>i. row_view (cp_store cp) i \<noteq> None \<longrightarrow> i \<in> B)"

definition sys_inv :: "ControlPlane \<Rightarrow> VmId set \<Rightarrow> VmId set \<Rightarrow> VmId set \<Rightarrow> (nat \<Rightarrow> Ghost) \<Rightarrow> bool" where
  "sys_inv cp U B D gs \<longleftrightarrow> world_inv cp U B D \<and> (\<forall>t. thread_inv cp U B D (gs t)) \<and>
     (\<forall>t t'. t \<noteq> t' \<longrightarrow> compat (gs t) (gs t'))"

lemma compat_sym: "compat g g' \<Longrightarrow> compat g' g"
  by (auto simp: compat_def)

lemma sys_invI:
  assumes "sys_inv cp U B D gs" and "world_inv cp' U' B' D'" and "thread_inv cp' U' B' D' g'"
    and "\<And>t'. t' \<noteq> t \<Longrightarrow> thread_inv cp U B D (gs t') \<Longrightarrow> compat (gs t) (gs t') \<Longrightarrow>
      thread_inv cp' U' B' D' (gs t') \<and> compat g' (gs t')"
  shows "sys_inv cp' U' B' D' (gs(t := g'))"
proof -
  have other: "thread_inv cp' U' B' D' (gs t') \<and> compat g' (gs t')" if "t' \<noteq> t" for t'
    using that assms(1,4) by (auto simp: sys_inv_def)
  have pair: "compat (gs a) (gs b)" if "a \<noteq> b" for a b
    using that assms(1) by (simp add: sys_inv_def)
  show ?thesis
    unfolding sys_inv_def
  proof (intro conjI allI impI)
    show "world_inv cp' U' B' D'" by (rule assms(2))
    show "thread_inv cp' U' B' D' ((gs(t := g')) a)" for a
      using other assms(3) by auto
    show "compat ((gs(t := g')) a) ((gs(t := g')) b)" if "a \<noteq> b" for a b
      using other [of a] other [of b] pair [OF that] that by (auto dest: compat_sym)
  qed
qed

text \<open>Only one program holds the lock of an id that is not dead.\<close>

lemma holder_unique:
  assumes "thread_inv cp U B D g" and "thread_inv cp U B D g'" and "compat g g'"
    and "g_lock g = Holds vid h" and "vid \<notin> D"
  shows "g_lock g' \<noteq> Holds vid h'"
  using assms by (auto simp: thread_inv_def handle_ok_def compat_def)

section \<open>Every entitled action keeps the invariant\<close>

named_theorems inv_defs \<open>the parts of the invariant\<close>

declare world_inv_def [inv_defs] thread_inv_def [inv_defs] compat_def [inv_defs]
  consistent_def [inv_defs] handle_ok_def [inv_defs] slot_owned_def [inv_defs]

lemma sys_invD:
  assumes "sys_inv cp U B D gs"
  shows "world_inv cp U B D" "thread_inv cp U B D (gs t)" "t \<noteq> t' \<Longrightarrow> compat (gs t) (gs t')"
  using assms by (auto simp: sys_inv_def)

text \<open>Changes the invariant does not see: ports, services, hooks, cursor, other columns.\<close>

lemma sys_inv_same:
  assumes "sys_inv cp U B D gs"
    and "row_view (cp_store cp') = row_view (cp_store cp)" and "ids_ok (cp_store cp')"
    and "slots_invar (cp_slots cp')" and "slots_universe (cp_slots cp') = slots_universe (cp_slots cp)"
    and "slots_taken (cp_slots cp) \<subseteq> slots_taken (cp_slots cp')"
    and "cp_locks cp' = cp_locks cp" "cp_held cp' = cp_held cp"
  shows "sys_inv cp' U B D gs"
  using assms unfolding sys_inv_def
  by (auto simp: world_inv_def thread_inv_def consistent_def handle_ok_def slot_owned_def claims_distinct_def)

lemma sys_inv_lock:
  assumes "sys_inv cp U B D gs" and "vm_lock vid cp = (h, cp')"
  shows "sys_inv cp' U B D (gs(t := (gs t)\<lparr>g_lock := Wants vid h\<rparr>))"
proof (rule sys_invI [OF assms(1)])
  have cp': "cp_store cp' = cp_store cp" "cp_slots cp' = cp_slots cp" "cp_held cp' = cp_held cp"
    "cp_locks cp' vid = Some h" "\<forall>i. i \<noteq> vid \<or> cp_locks cp vid = Some h \<longrightarrow> cp_locks cp' i = cp_locks cp i"
    "cp_locks cp vid = None \<or> cp_locks cp vid = Some h"
    using assms(2) by (auto simp: vm_lock_def split: option.splits)
  then show "world_inv cp' U B D"
    using sys_invD(1) [OF assms(1)] by (auto simp: world_inv_def)
  show "thread_inv cp' U B D ((gs t)\<lparr>g_lock := Wants vid h\<rparr>)"
    using sys_invD(2) [OF assms(1), of t] cp'
    by (auto simp: thread_inv_def consistent_def handle_ok_def slot_owned_def)
  fix t' assume "t' \<noteq> t" and t': "thread_inv cp U B D (gs t')" "compat (gs t) (gs t')"
  have "handle_ok cp' D i j" if "handle_ok cp D i j" for i j
    using that cp'(4-6) by (cases "i = vid") (auto simp: handle_ok_def)
  with t'(1) cp' have "thread_inv cp' U B D (gs t')"
    by (auto simp: thread_inv_def consistent_def slot_owned_def)
  with t'(2) show "thread_inv cp' U B D (gs t') \<and> compat ((gs t)\<lparr>g_lock := Wants vid h\<rparr>) (gs t')"
    by (simp add: compat_def)
qed

lemma sys_inv_acquire:
  assumes "sys_inv cp U B D gs" and "g_lock (gs t) = Wants vid h" and "h \<notin> cp_held cp"
  shows "sys_inv (cp\<lparr>cp_held := insert h (cp_held cp)\<rparr>) U B D
    (gs(t := (gs t)\<lparr>g_lock := Holds vid h, g_know := Unknown\<rparr>))"
proof (rule sys_invI [OF assms(1)])
  show "world_inv (cp\<lparr>cp_held := insert h (cp_held cp)\<rparr>) U B D"
    using sys_invD(1) [OF assms(1)] by (auto simp: world_inv_def)
  show "thread_inv (cp\<lparr>cp_held := insert h (cp_held cp)\<rparr>) U B D
      ((gs t)\<lparr>g_lock := Holds vid h, g_know := Unknown\<rparr>)"
    using sys_invD(2) [OF assms(1), of t] assms(2) by (auto simp: inv_defs)
  fix t' assume "thread_inv cp U B D (gs t')" "compat (gs t) (gs t')"
  with assms(3) show "thread_inv (cp\<lparr>cp_held := insert h (cp_held cp)\<rparr>) U B D (gs t') \<and>
      compat ((gs t)\<lparr>g_lock := Holds vid h, g_know := Unknown\<rparr>) (gs t')"
    by (auto simp: inv_defs)
qed

lemma sys_inv_release:
  assumes "sys_inv cp U B D gs" and "g_lock (gs t) = Holds vid h"
  shows "sys_inv (cp\<lparr>cp_held := cp_held cp - {h}\<rparr>) U B D
    (gs(t := (gs t)\<lparr>g_lock := NoLock, g_know := Unknown\<rparr>))"
proof (rule sys_invI [OF assms(1)])
  show "world_inv (cp\<lparr>cp_held := cp_held cp - {h}\<rparr>) U B D"
    using sys_invD(1) [OF assms(1)] by (auto simp: world_inv_def)
  show "thread_inv (cp\<lparr>cp_held := cp_held cp - {h}\<rparr>) U B D ((gs t)\<lparr>g_lock := NoLock, g_know := Unknown\<rparr>)"
    using sys_invD(2) [OF assms(1), of t] by (auto simp: inv_defs)
  fix t' assume "thread_inv cp U B D (gs t')" "compat (gs t) (gs t')"
  with assms(2) show "thread_inv (cp\<lparr>cp_held := cp_held cp - {h}\<rparr>) U B D (gs t') \<and>
      compat ((gs t)\<lparr>g_lock := NoLock, g_know := Unknown\<rparr>) (gs t')"
    by (auto simp: inv_defs)
qed

text \<open>Dropping the lock of a VM whose record is gone makes its id dead.\<close>

lemma sys_inv_forget:
  assumes "sys_inv cp U B D gs" and "g_lock (gs t) = Holds vid h" and "g_know (gs t) = Gone"
  shows "sys_inv (cp\<lparr>cp_locks := (cp_locks cp)(vid := None)\<rparr>) U B (insert vid D) gs"
proof -
  have "row_view (cp_store cp) vid = None" "vid \<in> B"
    using sys_invD(2) [OF assms(1), of t] assms(2,3) by (auto simp: thread_inv_def consistent_def)
  then show ?thesis
    using assms unfolding sys_inv_def
    by (auto simp: world_inv_def thread_inv_def consistent_def handle_ok_def slot_owned_def)
qed

lemma universe_fits: "slots_invar a \<Longrightarrow> s \<in> slots_universe a \<Longrightarrow> slot_get s \<le> slot_max"
  by (auto simp: slots_invar_def slots_universe_def slot_max_def word_le_nat_alt)

lemma alloc_slot_step_cases:
  assumes "alloc_slot_step failure cp = (r, cp')" and "slots_invar (cp_slots cp)"
  shows "row_view (cp_store cp') = row_view (cp_store cp)" "ids_ok (cp_store cp) \<Longrightarrow> ids_ok (cp_store cp')"
    "slots_invar (cp_slots cp')" "slots_universe (cp_slots cp') = slots_universe (cp_slots cp)"
    "cp_locks cp' = cp_locks cp" "cp_held cp' = cp_held cp"
    "slots_taken (cp_slots cp') = slots_taken (cp_slots cp) \<union> set_option r"
    "set_option r \<subseteq> slots_universe (cp_slots cp) - slots_taken (cp_slots cp)"
proof -
  obtain q a where qa: "slot_allocate (cp_slots cp) = (q, a)" by (cases "slot_allocate (cp_slots cp)")
  then have r: "r = q" and slots: "cp_slots cp' = a"
    and frame: "cp_locks cp' = cp_locks cp" "cp_held cp' = cp_held cp"
    and db: "db_vms (cp_store cp') = db_vms (cp_store cp)"
    using assms(1)
    by (auto simp: alloc_slot_step_def sql_step_def set_slot_cursor_def split: option.splits)
  show "cp_locks cp' = cp_locks cp" "cp_held cp' = cp_held cp" by (rule frame)+
  show "row_view (cp_store cp') = row_view (cp_store cp)" by (rule view_cong [OF db])
  show "ids_ok (cp_store cp) \<Longrightarrow> ids_ok (cp_store cp')" by (simp add: ids_ok_def db)
  show "slots_invar (cp_slots cp')" "slots_universe (cp_slots cp') = slots_universe (cp_slots cp)"
    using slots.invar_allocate [OF assms(2)] slots.universe_allocate [of "cp_slots cp"] qa slots by simp_all
  have "slots_taken a = slots_taken (cp_slots cp) \<union> set_option q \<and>
      set_option q \<subseteq> slots_universe (cp_slots cp) - slots_taken (cp_slots cp)"
  proof (cases q)
    case None
    with slots.allocate_None [OF assms(2), of a] qa show ?thesis by simp
  next
    case (Some s)
    with slots.allocate_Some [OF assms(2), of s a] qa show ?thesis by auto
  qed
  then show "slots_taken (cp_slots cp') = slots_taken (cp_slots cp) \<union> set_option r"
    "set_option r \<subseteq> slots_universe (cp_slots cp) - slots_taken (cp_slots cp)"
    by (simp_all add: slots r)
qed

lemma sys_inv_alloc:
  assumes "sys_inv cp U B D gs" and "alloc_slot_step failure cp = (Some s, cp')"
  shows "s \<notin> g_own (gs t) \<and> sys_inv cp' U B D (gs(t := (gs t)\<lparr>g_own := insert s (g_own (gs t))\<rparr>))"
proof
  have W: "world_inv cp U B D" by (rule sys_invD(1) [OF assms(1)])
  then have "slots_invar (cp_slots cp)" by (simp add: world_inv_def)
  note step = alloc_slot_step_cases [OF assms(2) this]
  from step(8) have free: "s \<in> slots_universe (cp_slots cp)" "s \<notin> slots_taken (cp_slots cp)" by auto
  then have unclaimed: "row_view (cp_store cp) i \<noteq> Some (Some s)" for i
    using W by (auto simp: world_inv_def)
  have fits: "slot_get s \<le> slot_max"
    using W free(1) universe_fits by (auto simp: world_inv_def)
  have notin: "s \<notin> g_own (gs a)" for a
    using sys_invD(2) [OF assms(1), of a] free by (auto simp: thread_inv_def slot_owned_def)
  then show "s \<notin> g_own (gs t)" .
  have mid: "sys_inv cp' U B D gs"
    using assms(1) W step by (intro sys_inv_same [OF assms(1)]) (auto simp: world_inv_def)
  show "sys_inv cp' U B D (gs(t := (gs t)\<lparr>g_own := insert s (g_own (gs t))\<rparr>))"
  proof (rule sys_invI [OF mid])
    show "world_inv cp' U B D" by (rule sys_invD(1) [OF mid])
    show "thread_inv cp' U B D ((gs t)\<lparr>g_own := insert s (g_own (gs t))\<rparr>)"
      using sys_invD(2) [OF mid, of t] step(1,4,7) unclaimed fits
      by (auto simp: thread_inv_def consistent_def slot_owned_def)
    fix t' assume "thread_inv cp' U B D (gs t')" "compat (gs t) (gs t')"
    then show "thread_inv cp' U B D (gs t') \<and> compat ((gs t)\<lparr>g_own := insert s (g_own (gs t))\<rparr>) (gs t')"
      using notin by (auto simp: compat_def)
  qed
qed

lemma sys_inv_free:
  assumes "sys_inv cp U B D gs" and "s \<in> g_own (gs t)"
  shows "sys_inv (mem_exec (FreeSlot s) cp) U B D (gs(t := (gs t)\<lparr>g_own := g_own (gs t) - {s}\<rparr>))"
proof -
  have W: "world_inv cp U B D" by (rule sys_invD(1) [OF assms(1)])
  then have inv: "slots_invar (cp_slots cp)" by (simp add: world_inv_def)
  have unclaimed: "row_view (cp_store cp) i \<noteq> Some (Some s)" for i
    using sys_invD(2) [OF assms(1), of t] assms(2) by (auto simp: thread_inv_def slot_owned_def)
  show ?thesis
  proof (rule sys_invI [OF assms(1)])
    show "world_inv (mem_exec (FreeSlot s) cp) U B D"
      using W unclaimed inv by (auto simp: world_inv_def slots.pool_simps)
    show "thread_inv (mem_exec (FreeSlot s) cp) U B D ((gs t)\<lparr>g_own := g_own (gs t) - {s}\<rparr>)"
      using sys_invD(2) [OF assms(1), of t] inv by (auto simp: inv_defs slots.pool_simps)
    fix t' assume "thread_inv cp U B D (gs t')" "compat (gs t) (gs t')"
    with assms(2) inv show "thread_inv (mem_exec (FreeSlot s) cp) U B D (gs t') \<and>
        compat ((gs t)\<lparr>g_own := g_own (gs t) - {s}\<rparr>) (gs t')"
      by (auto simp: inv_defs slots.pool_simps)
  qed
qed

lemma sys_inv_learn:
  assumes "sys_inv cp U B D gs"
  shows "consistent (gs t) (cp_store cp) \<and> sys_inv cp U B D (gs(t := learn (gs t) (cp_store cp)))"
proof
  show "consistent (gs t) (cp_store cp)"
    using sys_invD(2) [OF assms, of t] by (simp add: thread_inv_def)
  have know: "agrees (know_of x) x" "know_of x \<noteq> Gone" for x by (cases x; simp)+
  show "sys_inv cp U B D (gs(t := learn (gs t) (cp_store cp)))"
  proof (rule sys_invI [OF assms])
    show "world_inv cp U B D" by (rule sys_invD(1) [OF assms])
    show "thread_inv cp U B D (learn (gs t) (cp_store cp))"
      using sys_invD(2) [OF assms, of t] know
      by (auto simp: learn_def thread_inv_def consistent_def split: LockState.splits)
    fix t' assume "thread_inv cp U B D (gs t')" "compat (gs t) (gs t')"
    then show "thread_inv cp U B D (gs t') \<and> compat (learn (gs t) (cp_store cp)) (gs t')"
      by (auto simp: learn_def compat_def split: LockState.splits)
  qed
qed

lemma sys_inv_new:
  assumes "sys_inv cp U B D gs" and "vid \<notin> U" and "g_new (gs t) = None"
  shows "sys_inv cp (insert vid U) B D (gs(t := (gs t)\<lparr>g_new := Some vid\<rparr>))"
proof (rule sys_invI [OF assms(1)])
  have W: "world_inv cp U B D" by (rule sys_invD(1) [OF assms(1)])
  then show "world_inv cp (insert vid U) B D" by (auto simp: world_inv_def)
  have "row_view (cp_store cp) vid = None" using W assms(2) by (auto simp: world_inv_def)
  with W assms(2) show "thread_inv cp (insert vid U) B D ((gs t)\<lparr>g_new := Some vid\<rparr>)"
    using sys_invD(2) [OF assms(1), of t]
    by (auto simp: thread_inv_def consistent_def world_inv_def)
  fix t' assume "thread_inv cp U B D (gs t')" "compat (gs t) (gs t')"
  then show "thread_inv cp (insert vid U) B D (gs t') \<and> compat ((gs t)\<lparr>g_new := Some vid\<rparr>) (gs t')"
    using assms(2) by (auto simp: thread_inv_def compat_def)
qed

text \<open>The holder of a VM's lock changes its record: insert, placement and delete.\<close>

fun slots_in :: "SlotId option option \<Rightarrow> SlotId set" where
  "slots_in (Some (Some s)) = {s}"
| "slots_in _ = {}"

lemma slots_in_iff: "s \<in> slots_in v \<longleftrightarrow> v = Some (Some s)"
  by (cases v rule: slots_in.cases) auto

lemma sys_inv_row:
  assumes inv: "sys_inv cp U B D gs" and lock: "g_lock (gs t) = Holds vid h"
    and born: "vid \<in> B \<or> g_new (gs t) = Some vid"
    and live: "vid \<notin> D"
    and view: "row_view db' = (row_view (cp_store cp))(vid := new)" and ids: "ids_ok db'"
    and slots: "slots_in new \<subseteq> g_own (gs t) \<union> slots_in (row_view (cp_store cp) vid)"
    and own: "own' \<subseteq> (g_own (gs t) \<union> slots_in (row_view (cp_store cp) vid)) - slots_in new"
    and know: "agrees k' new"
    and n': "n' = (if g_new (gs t) = Some vid then None else g_new (gs t))"
  shows "sys_inv (cp\<lparr>cp_store := db'\<rparr>) U (insert vid B) D
    (gs(t := (gs t)\<lparr>g_own := own', g_know := k', g_new := n'\<rparr>))"
proof -
  let ?old = "slots_in (row_view (cp_store cp) vid)"
  have W: "world_inv cp U B D" by (rule sys_invD(1) [OF inv])
  have T: "thread_inv cp U B D (gs t)" by (rule sys_invD(2) [OF inv])
  have vU: "vid \<in> U" using born W T by (auto simp: world_inv_def thread_inv_def)
  have taken: "s \<in> slots_universe (cp_slots cp) \<longrightarrow> s \<in> slots_taken (cp_slots cp)"
    and fits: "slot_get s \<le> slot_max" and away: "i \<noteq> vid \<Longrightarrow> row_view (cp_store cp) i \<noteq> Some (Some s)"
    if "s \<in> g_own (gs t) \<union> ?old" for s i
    using that W T view_fits [of "cp_store cp" vid s]
    by (auto simp: world_inv_def thread_inv_def slot_owned_def slots_in_iff claims_distinct_def)
  show ?thesis
  proof (rule sys_invI [OF inv])
    show "world_inv (cp\<lparr>cp_store := db'\<rparr>) U (insert vid B) D"
      using W ids vU live taken away slots
      by (auto simp: world_inv_def view claims_distinct_def subset_iff slots_in_iff split: if_splits)
    show "thread_inv (cp\<lparr>cp_store := db'\<rparr>) U (insert vid B) D
        ((gs t)\<lparr>g_own := own', g_know := k', g_new := n'\<rparr>)"
      using T lock know own taken fits away
      by (auto simp: thread_inv_def consistent_def view handle_ok_def slot_owned_def n' subset_iff
          slots_in_iff split: if_splits)
    fix t' assume t': "t' \<noteq> t" "thread_inv cp U B D (gs t')" "compat (gs t) (gs t')"
    have notnew: "g_new (gs t') \<noteq> Some vid"
      using born t' by (auto simp: thread_inv_def compat_def)
    have nolock: "g_lock (gs t') \<noteq> Holds vid h'" for h'
      using holder_unique [OF T t'(2,3) lock live] .
    have disj: "s \<notin> g_own (gs t')" if "s \<in> g_own (gs t) \<union> ?old" for s
      using that t'(2,3) by (auto simp: compat_def thread_inv_def slot_owned_def slots_in_iff)
    have "thread_inv (cp\<lparr>cp_store := db'\<rparr>) U (insert vid B) D (gs t')"
      using t'(2) notnew nolock disj slots
      by (auto simp: thread_inv_def consistent_def view handle_ok_def slot_owned_def subset_iff
          slots_in_iff split: if_splits)
    moreover have "compat ((gs t)\<lparr>g_own := own', g_know := k', g_new := n'\<rparr>) (gs t')"
      using t'(3) disj own by (auto simp: compat_def n' split: if_splits)
    ultimately show "thread_inv (cp\<lparr>cp_store := db'\<rparr>) U (insert vid B) D (gs t') \<and>
        compat ((gs t)\<lparr>g_own := own', g_know := k', g_new := n'\<rparr>) (gs t')" ..
  qed
qed

lemma owned_fits:
  assumes "thread_inv cp U B D g" and "\<forall>s \<in> set_option x. may_use g s"
  shows "case x of None \<Rightarrow> True | Some s \<Rightarrow> slot_get s \<le> slot_max"
  using assms view_fits
  by (cases x) (fastforce simp: may_use_def thread_inv_def consistent_def slot_owned_def)+

lemma has_vm_known:
  assumes "sys_inv cp U B D gs" and "has_vm (gs t) vid"
  obtains h s where "g_lock (gs t) = Holds vid h" "g_know (gs t) = Present s"
    "row_view (cp_store cp) vid = Some s" "vid \<in> B" "vid \<notin> D" "g_new (gs t) \<noteq> Some vid"
    "known_slots (gs t) = slots_in (row_view (cp_store cp) vid)"
proof -
  obtain h s where hs: "g_lock (gs t) = Holds vid h" "g_know (gs t) = Present s"
    using assms(2) by (auto simp: has_vm_def)
  then have "row_view (cp_store cp) vid = Some s"
    using sys_invD(2) [OF assms(1), of t] by (auto simp: thread_inv_def consistent_def)
  moreover from this have "vid \<in> B" "vid \<notin> D"
    using sys_invD(1) [OF assms(1)] by (auto simp: world_inv_def)
  moreover from this have "g_new (gs t) \<noteq> Some vid"
    using sys_invD(2) [OF assms(1), of t] by (auto simp: thread_inv_def)
  moreover have "known_slots (gs t) = slots_in (Some s)"
    by (cases s) (simp_all add: known_slots_def hs)
  ultimately show ?thesis using that hs by simp
qed

lemma sys_inv_insert:
  assumes inv: "sys_inv cp U B D gs" and ok: "sql_ok (InsertVm v) (gs t)"
    and ex: "insert_vm v (cp_store cp) = Ok db'"
  shows "\<exists>B'. sys_inv (cp\<lparr>cp_store := db'\<rparr>) U B' D (gs(t := sql_ghost (InsertVm v) (gs t)))"
proof -
  obtain h where h: "g_lock (gs t) = Holds (v_id v) h" and new: "g_new (gs t) = Some (v_id v)"
    and own: "set_option (v_slot v) \<subseteq> g_own (gs t)"
    using ok by auto
  have T: "thread_inv cp U B D (gs t)" by (rule sys_invD(2) [OF inv])
  then have nb: "v_id v \<notin> B" and none: "row_view (cp_store cp) (v_id v) = None"
    using new by (auto simp: thread_inv_def consistent_def)
  then have live: "v_id v \<notin> D" using sys_invD(1) [OF inv] by (auto simp: world_inv_def)
  have "vm_fits v"
    unfolding vm_fits_def by (rule owned_fits [OF T]) (use own in \<open>auto simp: may_use_def\<close>)
  with ex have view: "row_view db' = (row_view (cp_store cp))(v_id v := Some (v_slot v))"
    by (rule view_insert)
  have ids: "ids_ok db'"
    using ids_ok_exec [of "cp_store cp" "InsertVm v" 1 db'] ex sys_invD(1) [OF inv]
    by (simp add: world_inv_def)
  have "slots_in (Some (v_slot v)) = set_option (v_slot v)" by (cases "v_slot v") simp_all
  with sys_inv_row [OF inv h _ live view ids, of "g_own (gs t) - set_option (v_slot v)" "Present (v_slot v)" None]
  show ?thesis using new own none by auto
qed

lemma sys_inv_placement:
  assumes inv: "sys_inv cp U B D gs" and ok: "sql_ok (UpdatePlacement v) (gs t)"
  shows "\<exists>B'. sys_inv (cp\<lparr>cp_store := update_placement v (cp_store cp)\<rparr>) U B' D
    (gs(t := sql_ghost (UpdatePlacement v) (gs t)))"
proof -
  obtain h s where k: "g_lock (gs t) = Holds (v_id v) h" "g_know (gs t) = Present s"
    "row_view (cp_store cp) (v_id v) = Some s" "v_id v \<in> B" "v_id v \<notin> D" "g_new (gs t) \<noteq> Some (v_id v)"
    "known_slots (gs t) = slots_in (row_view (cp_store cp) (v_id v))"
    using has_vm_known [OF inv, of t "v_id v"] ok by auto
  have "vm_fits v"
    unfolding vm_fits_def by (rule owned_fits [OF sys_invD(2) [OF inv]]) (use ok in auto)
  then have view: "row_view (update_placement v (cp_store cp)) =
      (row_view (cp_store cp))(v_id v := Some (v_slot v))"
    using k(3) by (simp add: view_placement)
  have ids: "ids_ok (update_placement v (cp_store cp))"
    using ids_ok_exec [of "cp_store cp" "UpdatePlacement v"] sys_invD(1) [OF inv]
    by (simp add: world_inv_def)
  have "slots_in (Some (v_slot v)) = set_option (v_slot v)" by (cases "v_slot v") simp_all
  moreover have "set_option (v_slot v) \<subseteq> g_own (gs t) \<union> known_slots (gs t)"
    using ok k(2) by (auto simp: may_use_def known_slots_def)
  ultimately show ?thesis
    using sys_inv_row [OF inv k(1) _ k(5) view ids, of "(g_own (gs t) \<union> known_slots (gs t)) - set_option (v_slot v)"
      "Present (v_slot v)" "g_new (gs t)"] k(4,6,7)
    by auto
qed

lemma sys_inv_delete:
  assumes inv: "sys_inv cp U B D gs" and ok: "sql_ok (DeleteVm vid) (gs t)"
  shows "\<exists>B'. sys_inv (cp\<lparr>cp_store := delete_vm vid (cp_store cp)\<rparr>) U B' D
    (gs(t := sql_ghost (DeleteVm vid) (gs t)))"
proof -
  obtain h where k: "g_lock (gs t) = Holds vid h" "vid \<in> B" "vid \<notin> D" "g_new (gs t) \<noteq> Some vid"
    "known_slots (gs t) = slots_in (row_view (cp_store cp) vid)"
    using has_vm_known [OF inv, of t vid] ok by (metis sql_ok.simps(3))
  have ids: "ids_ok (delete_vm vid (cp_store cp))"
    using ids_ok_exec [of "cp_store cp" "DeleteVm vid"] sys_invD(1) [OF inv]
    by (simp add: world_inv_def)
  show ?thesis
    using sys_inv_row [OF inv k(1) _ k(3) view_delete ids, of "g_own (gs t) \<union> known_slots (gs t)" Gone "g_new (gs t)"]
      k(2,4,5)
    by auto
qed

lemma sys_inv_mem:
  assumes inv: "sys_inv cp U B D gs" and ok: "mem_ok m (gs t)"
  shows "\<exists>D'. sys_inv (mem_exec m cp) U B D' (gs(t := mem_ghost m (gs t)))"
proof -
  have W: "slots_invar (cp_slots cp)" "ids_ok (cp_store cp)"
    using sys_invD(1) [OF inv] by (auto simp: world_inv_def)
  show ?thesis
  proof (cases m)
    case (ReleaseLock h)
    with ok sys_inv_release [OF inv] show ?thesis by auto
  next
    case (ForgetLock vid)
    with ok sys_inv_forget [OF inv] show ?thesis by (auto simp: fun_upd_idem)
  next
    case (FreeSlot s)
    with ok sys_inv_free [OF inv] show ?thesis by auto
  next
    case (ReserveSlots ss)
    with W slots.fold_reserve [OF W(1), of ss] show ?thesis
      by (auto simp: fun_upd_idem intro!: exI [of _ D] sys_inv_same [OF inv])
  next
    case (ResumeSlotsAt n)
    have "slots_invar (slot_resume_at n (cp_slots cp))"
      "slots_universe (slot_resume_at n (cp_slots cp)) = slots_universe (cp_slots cp)"
      "slots_taken (slot_resume_at n (cp_slots cp)) = slots_taken (cp_slots cp)"
      using W(1) by (auto simp: slot_resume_at_def slots_invar_def slots_universe_def slots_taken_def)
    with ResumeSlotsAt W show ?thesis
      by (auto simp: fun_upd_idem intro!: exI [of _ D] sys_inv_same [OF inv])
  qed (use W in \<open>auto simp: fun_upd_idem intro!: exI [of _ D] sys_inv_same [OF inv]\<close>)
qed

lemma sys_inv_sql:
  assumes inv: "sys_inv cp U B D gs" and ok: "sql_ok s (gs t)"
    and ex: "db_exec s (cp_store cp) = Ok (n, db')"
  shows "\<exists>B'. sys_inv (cp\<lparr>cp_store := db'\<rparr>) U B' D (gs(t := sql_ghost s (gs t)))"
proof (cases "\<exists>v vid. s = InsertVm v \<or> s = UpdatePlacement v \<or> s = DeleteVm vid")
  case True
  then show ?thesis
    using ex ok sys_inv_insert [OF inv] sys_inv_placement [OF inv] sys_inv_delete [OF inv]
    by (auto simp: map_ok_Inr_iff simp del: sql_ghost.simps sql_ok.simps)
next
  case False
  then have "row_view db' = row_view (cp_store cp)" by (auto intro!: view_exec_other [OF ex])
  moreover have "ids_ok db'" "slots_invar (cp_slots cp)"
    using sys_invD(1) [OF inv] ids_ok_exec [OF _ ex] by (auto simp: world_inv_def)
  moreover have "sql_ghost s (gs t) = gs t" using False by (cases s) auto
  ultimately show ?thesis
    by (auto simp: fun_upd_idem intro!: exI [of _ B] sys_inv_same [OF inv])
qed

text \<open>A step of a safe program keeps the invariant, and leaves the program safe.\<close>

lemma step_sound:
  assumes inv: "sys_inv cp U B D gs" and safe: "safe p (gs t) Q"
    and step: "prog_step fails p cp U p' cp' U'" and del: "\<And>vid. \<not> fails (DeleteVm vid)"
  shows "\<exists>B' D' g'. sys_inv cp' U' B' D' (gs(t := g')) \<and> safe p' g' Q"
  using step safe
proof (cases rule: prog_step.cases)
  case (st_lock vid h k)
  with safe have "safe p' ((gs t)\<lparr>g_lock := Wants vid h\<rparr>) Q" by simp
  with sys_inv_lock [OF inv st_lock(4), of t] st_lock(3) show ?thesis by blast
next
  case (st_acquire h)
  with safe obtain vid where "g_lock (gs t) = Wants vid h"
    "safe p' ((gs t)\<lparr>g_lock := Holds vid h, g_know := Unknown\<rparr>) Q" by auto
  with sys_inv_acquire [OF inv this(1) st_acquire(4)] st_acquire(2,3) show ?thesis by blast
next
  case (st_mem m)
  with safe have "mem_ok m (gs t)" "safe p' (mem_ghost m (gs t)) Q" by simp_all
  with sys_inv_mem [OF inv] st_mem(2,3) show ?thesis by blast
next
  case (st_slot failure r k)
  show ?thesis
  proof (cases r)
    case None
    have W: "slots_invar (cp_slots cp)" "ids_ok (cp_store cp)"
      using sys_invD(1) [OF inv] by (auto simp: world_inv_def)
    have "sys_inv cp' U B D gs"
      using alloc_slot_step_cases [OF st_slot(4) W(1)] W by (intro sys_inv_same [OF inv]) auto
    then have "sys_inv cp' U B D (gs(t := gs t))" by simp
    moreover have "safe p' (gs t) Q" using None st_slot safe by simp
    ultimately show ?thesis using st_slot(3) by blast
  next
    case (Some s)
    from sys_inv_alloc [OF inv st_slot(4) [unfolded Some], of t]
    have "s \<notin> g_own (gs t)" "sys_inv cp' U B D (gs(t := (gs t)\<lparr>g_own := insert s (g_own (gs t))\<rparr>))" by auto
    moreover from this(1) have "safe p' ((gs t)\<lparr>g_own := insert s (g_own (gs t))\<rparr>) Q"
      using safe st_slot(1,2) Some by simp
    ultimately show ?thesis using st_slot(3) by blast
  qed
next
  case (st_port r k)
  have "sys_inv cp' U B D gs"
    using st_port(4) sys_invD(1) [OF inv]
    by (intro sys_inv_same [OF inv]) (auto simp: alloc_port_step_def world_inv_def split: prod.splits)
  then have "sys_inv cp' U B D (gs(t := gs t))" by simp
  moreover have "safe p' (gs t) Q" using safe st_port(1,2) by simp
  ultimately show ?thesis using st_port(3) by blast
next
  case (st_sql failure s r k)
  show ?thesis
  proof (cases r)
    case (Inl e)
    then have "cp' = cp" "\<not> is_delete s"
      using st_sql(4,5) del by (auto simp: sql_step_def split: option.splits sum.splits elim: is_delete.elims)
    with inv have "sys_inv cp' U B D (gs(t := gs t))" by simp
    moreover have "safe p' (gs t) Q" using safe st_sql(1,2) Inl \<open>\<not> is_delete s\<close> by simp
    ultimately show ?thesis using st_sql(3) by blast
  next
    case (Inr n)
    then obtain db' where ex: "db_exec s (cp_store cp) = Ok (n, db')" and cp': "cp' = cp\<lparr>cp_store := db'\<rparr>"
      using st_sql(4) by (auto simp: sql_step_def split: option.splits sum.splits)
    have "sql_ok s (gs t)" "safe p' (sql_ghost s (gs t)) Q"
      using safe st_sql(1,2) Inr by simp_all
    with sys_inv_sql [OF inv _ ex] cp' st_sql(3) show ?thesis by blast
  qed
next
  case (st_query k)
  from sys_inv_learn [OF inv, of t]
  have "consistent (gs t) (cp_store cp)" "sys_inv cp U B D (gs(t := learn (gs t) (cp_store cp)))" by auto
  moreover from this(1) have "safe p' (learn (gs t) (cp_store cp)) Q" using safe st_query(1,2) by simp
  ultimately show ?thesis using st_query(3,4) by blast
next
  case (st_random vid k)
  with safe have "g_new (gs t) = None" "safe p' ((gs t)\<lparr>g_new := Some vid\<rparr>) Q" by simp_all
  with sys_inv_new [OF inv st_random(5)] st_random(3,4) show ?thesis by blast
qed (rule exI [of _ B], rule exI [of _ D], rule exI [of _ "gs t"], use inv safe in simp)+

end
