(* ===== verification/Iso_Safety.thy ===== *)
theory Iso_Safety
  imports Iso_Sched
begin

text \<open>
  The control plane's handlers are safe in the logic of Iso-Sched, hence the safety theorems:
  in every reachable state, whatever runs beside whatever, no two records claim one slot, no
  record claims a slot that is free or about to be freed, and a VM and a slot's network are
  worked on by one handler at a time.
\<close>

section \<open>Rules for the building blocks\<close>

named_theorems op_defs \<open>the small operations\<close>

declare free_slot_def [op_defs] free_slot_opt_def [op_defs] teardown_opt_def [op_defs]
  free_ports_def [op_defs] best_effort_def [op_defs] allocate_slot_def [op_defs] qmark_p_def [op_defs]
  ok_or_err_def [op_defs]

lemma safe_qmark:
  "(\<And>e. r = Err e \<Longrightarrow> Q (Err e) g) \<Longrightarrow> (\<And>x. r = Ok x \<Longrightarrow> safe (f x) g Q) \<Longrightarrow> safe (qmark r f) g Q"
  by (cases r) simp_all

lemma safe_qmark_iff [simp]:
  "safe (qmark r f) g Q \<longleftrightarrow> (\<forall>e. r = Err e \<longrightarrow> Q (Err e) g) \<and> (\<forall>x. r = Ok x \<longrightarrow> safe (f x) g Q)"
  by (cases r) simp_all

lemma safe_qmark_c_iff [simp]:
  "safe (qmark_c r f) g Q \<longleftrightarrow>
     (\<forall>e. r = Err e \<longrightarrow> Q (Err (Component e)) g) \<and> (\<forall>x. r = Ok x \<longrightarrow> safe (f x) g Q)"
  by (cases r) simp_all

lemma safe_locked:
  assumes "g_lock g = NoLock"
    and "\<And>h. safe p (g\<lparr>g_lock := Holds vid h, g_know := Unknown\<rparr>)
      (\<lambda>x g'. g_lock g' = Holds vid h \<and> Q x (g'\<lparr>g_lock := NoLock, g_know := Unknown\<rparr>))"
  shows "safe (locked vid p) g Q"
  using assms(1) by (auto simp: locked_def intro!: safe_mono [OF assms(2)])

lemma get_vm_view:
  assumes "get_vm vid db = Ok r"
  shows "row_view db vid = map_option v_slot r \<and> (\<forall>v. r = Some v \<longrightarrow> v_id v = vid)"
proof (cases "find (\<lambda>r. w_id r = vmid_display vid) (db_vms db)")
  case None
  with assms show ?thesis by (auto simp: get_vm_def row_view_def)
next
  case (Some row)
  with assms obtain u where u: "vm_from_row row = Ok u" "r = Some (u\<lparr>v_ingress := forwards_in vid db\<rparr>)"
    by (auto simp: get_vm_def and_then_Inr_iff)
  from find_id_Some [OF Some] u(1) have "v_id u = vid" "v_slot u = row_slot row"
    by (auto simp: vm_from_row_def and_then_Inr_iff ok_or_Ok_iff)
  with Some u(2) show ?thesis by (simp add: row_view_def)
qed

text \<open>Reading the record of the VM whose lock is held.\<close>

lemma safe_get_vm:
  assumes "g_lock g = Holds vid h" and "g_know g \<noteq> Gone"
    and "\<And>e k. k \<noteq> Gone \<Longrightarrow> safe (f (Err e)) (g\<lparr>g_know := k\<rparr>) Q"
    and "safe (f (Ok None)) (g\<lparr>g_know := Absent\<rparr>) Q"
    and "\<And>v. v_id v = vid \<Longrightarrow> safe (f (Ok (Some v))) (g\<lparr>g_know := Present (v_slot v)\<rparr>) Q"
  shows "safe (q_get_vm vid f) g Q"
proof -
  have "safe (f (Err e)) g Q" for e using assms(3) [of "g_know g" e] assms(2) by simp
  moreover have "safe (f (get_vm vid db)) (learn g db) Q" for db
  proof (cases "get_vm vid db")
    case (Inl e)
    moreover have "know_of x \<noteq> Gone" for x by (cases x) simp_all
    ultimately show ?thesis using assms(1-3) by (simp add: learn_def)
  next
    case (Inr r)
    with get_vm_view [OF Inr] show ?thesis
      using assms(1,2,4,5) by (cases r) (simp_all add: learn_def)
  qed
  ultimately show ?thesis by (simp add: q_get_vm_def)
qed

lemma safe_with_vm:
  assumes "g_lock g = Holds vid h" and "g_know g \<noteq> Gone"
    and "\<And>e k. Q (Err e) (g\<lparr>g_know := k\<rparr>)"
    and "\<And>v. v_id v = vid \<Longrightarrow> safe (f v) (g\<lparr>g_know := Present (v_slot v)\<rparr>) Q"
  shows "safe (with_vm vid f) g Q"
  unfolding with_vm_def
  by (rule safe_get_vm [OF assms(1,2)]) (use assms(3,4) in \<open>auto simp: ok_or_err_def\<close>)

text \<open>Reads of other tables teach the holder at most what it knows of its VM.\<close>

lemma learn_known: "consistent g db \<Longrightarrow> g_lock g = Holds vid h \<Longrightarrow> g_know g = Present s \<Longrightarrow> learn g db = g"
  by (cases g) (auto simp: learn_def consistent_def)

section \<open>The lifecycle\<close>

text \<open>What a handler leaves when it returns: the lock it was called under, and no id reserved.\<close>

definition under :: "VmId \<Rightarrow> nat \<Rightarrow> 'a \<Rightarrow> Ghost \<Rightarrow> bool" where
  "under vid h = (\<lambda>_ g. g_lock g = Holds vid h \<and> g_new g = None)"

lemma safe_finalize_stop:
  assumes "g_lock g = Holds (v_id v) h" and "g_know g = Present (v_slot v)" and "g_new g = None"
  shows "safe (finalize_stop v) g (under (v_id v) h)"
  using assms
  by (cases "v_lifecycle v"; cases "v_slot v")
    (auto simp: finalize_stop_def op_defs has_vm_def may_use_def known_slots_def under_def)

lemma safe_bring_up:
  assumes "g_lock g = Holds (v_id v) h" and "g_know g = Present (v_slot v)"
    and "\<And>e. Q (Err e) g"
    and "\<And>v'. v_id v' = v_id v \<Longrightarrow> v_slot v' = v_slot v \<Longrightarrow> Q (Ok v') g"
  shows "safe (bring_up cfg v tpl allow_resume) g Q"
  using assms
  by (auto simp: bring_up_def instance_spec_def Let_def has_vm_def may_use_def best_effort_def
      split: option.splits)

lemma safe_rollback:
  assumes "g_lock g = Holds vid h" and "g_know g = Present (Some slot)"
    and "\<And>g'. g_lock g' = Holds vid h \<Longrightarrow> g_new g' = g_new g \<Longrightarrow> Q () g'"
  shows "safe (rollback vid slot) g Q"
  using assms by (auto simp: rollback_def op_defs has_vm_def may_use_def known_slots_def)

lemma safe_wait_exit: "(\<And>b. Q b g) \<Longrightarrow> safe (wait_exit n vid) g Q"
  by (induction n) auto

lemma safe_check_gone: "(\<And>r. Q r g) \<Longrightarrow> safe (check_gone ps) g Q"
  by (induction ps) (auto split: FsResult.splits)

lemma safe_get_template:
  assumes "g_lock g = Holds vid h" and "g_know g = Present s" and "\<And>r. safe (k r) g Q"
  shows "safe (q_get_template name k) g Q"
  using assms by (auto simp: q_get_template_def learn_known)

lemma safe_start_vm_locked:
  assumes "g_lock g = Holds vid h" and "g_know g \<noteq> Gone" and "g_new g = None"
  shows "safe (start_vm_locked cfg vid) g
    (\<lambda>r g'. under vid h r g' \<and> (r = Ok () \<longrightarrow> (\<exists>s. g_know g' = Present s)))"
  unfolding start_vm_locked_def
  by (rule safe_with_vm [OF assms(1,2)])
    (use assms in \<open>auto simp: op_defs Let_def has_vm_def may_use_def known_slots_def under_def
      intro!: safe_get_template safe_bring_up split: option.splits VmState.splits\<close>)

lemma safe_terminate_vm_locked:
  assumes "g_lock g = Holds vid h" and "g_know g \<noteq> Gone" and "g_new g = None"
  shows "safe (terminate_vm_locked vid) g (under vid h)"
  unfolding terminate_vm_locked_def
  by (rule safe_with_vm [OF assms(1,2)])
    (use assms in \<open>auto simp: op_defs has_vm_def may_use_def known_slots_def under_def
      simp del: check_gone.simps intro!: safe_check_gone split: option.splits\<close>)

lemma safe_handle_exit_locked:
  assumes "g_lock g = Holds (v_id v) h" and "g_know g = Present (v_slot v)" and "g_new g = None"
  shows "safe (handle_exit_locked cfg v failed) g (under (v_id v) h)"
proof -
  have start: "safe (start_vm_locked cfg (v_id v)) g' (under (v_id v) h)"
    if "g_lock g' = Holds (v_id v) h" "g_know g' \<noteq> Gone" "g_new g' = None" for g'
    by (rule safe_mono [OF safe_start_vm_locked [OF that]]) simp
  have err: "under (v_id v) h (Err e) g" for e using assms by (simp add: under_def)
  show ?thesis
    using assms err
    by (auto simp: handle_exit_locked_def op_defs has_vm_def may_use_def known_slots_def
        intro!: safe_finalize_stop start split: option.splits)
qed

section \<open>The requests\<close>

text \<open>What a handler may be left with: no lock. Slots it failed to hand back stay its own.\<close>

definition idle :: "'a \<Rightarrow> Ghost \<Rightarrow> bool" where
  "idle = (\<lambda>_ g. g_lock g = NoLock \<and> g_new g = None)"

lemma safe_locked_idle:
  assumes "idle x0 g" and "\<And>h. safe p (g\<lparr>g_lock := Holds vid h, g_know := Unknown\<rparr>) (under vid h)"
  shows "safe (locked vid p) g idle"
proof (rule safe_locked)
  show "g_lock g = NoLock" using assms(1) by (simp add: idle_def)
  show "safe p (g\<lparr>g_lock := Holds vid h, g_know := Unknown\<rparr>)
      (\<lambda>x g'. g_lock g' = Holds vid h \<and> idle x (g'\<lparr>g_lock := NoLock, g_know := Unknown\<rparr>))" for h
    by (rule safe_mono [OF assms(2) [of h]]) (simp add: under_def idle_def)
qed

lemma safe_destroy_vm: "idle () g \<Longrightarrow> safe (destroy_vm vid) g idle"
  unfolding destroy_vm_def
  by (rule safe_locked_idle, assumption, rule safe_with_vm)
    (auto simp: op_defs has_vm_def may_use_def known_slots_def under_def idle_def split: option.splits)

lemma safe_stop_vm: "idle () g \<Longrightarrow> safe (stop_vm cfg vid) g idle"
  unfolding stop_vm_def
  by (rule safe_locked_idle, assumption, rule safe_with_vm)
    (auto simp: has_vm_def under_def idle_def best_effort_def
      intro!: safe_wait_exit safe_finalize_stop [unfolded under_def])

lemma safe_halt_vm: "idle () g \<Longrightarrow> safe (halt_vm vid) g idle"
  unfolding halt_vm_def
  by (rule safe_locked_idle, assumption, rule safe_with_vm)
    (auto simp: has_vm_def under_def idle_def intro!: safe_finalize_stop [unfolded under_def])

lemma safe_terminate_vm: "idle () g \<Longrightarrow> safe (terminate_vm vid) g idle"
  unfolding terminate_vm_def
  by (rule safe_locked_idle, assumption, rule safe_terminate_vm_locked) (auto simp: idle_def)

lemma safe_suspend_vm: "idle () g \<Longrightarrow> safe (suspend_vm vid) g idle"
  unfolding suspend_vm_def
  by (rule safe_locked_idle, assumption, rule safe_with_vm)
    (auto simp: has_vm_def under_def idle_def may_use_def)

lemma safe_start_vm: "idle () g \<Longrightarrow> safe (start_vm cfg vid) g idle"
  unfolding start_vm_def
  by (rule safe_locked_idle, assumption, rule safe_mono, rule safe_start_vm_locked) (auto simp: idle_def)

lemma safe_retire_suspension: "idle () g \<Longrightarrow> safe (retire_suspension cfg vid) g idle"
  unfolding retire_suspension_def
  by (rule safe_locked_idle, assumption, rule safe_with_vm)
    (auto simp: qmark_p_def has_vm_def under_def idle_def
      intro!: safe_mono [OF safe_start_vm_locked [unfolded under_def]]
        safe_wait_exit safe_terminate_vm_locked [unfolded under_def])

lemma safe_handle_exit: "idle () g \<Longrightarrow> safe (handle_exit cfg vid failed) g idle"
  unfolding handle_exit_def
  by (rule safe_locked_idle, assumption, rule safe_get_vm)
    (auto simp: under_def idle_def intro!: safe_handle_exit_locked [unfolded under_def])

lemma safe_reap: "idle () g \<Longrightarrow> safe (reap cfg vid) g idle"
  unfolding reap_def
  by (rule safe_locked_idle, assumption, rule safe_get_vm)
    (auto simp: under_def idle_def intro!: safe_handle_exit_locked [unfolded under_def])

lemma safe_abandon: "idle () g \<Longrightarrow> safe (abandon vid) g idle"
  unfolding abandon_def
  by (rule safe_locked_idle, assumption, rule safe_get_vm)
    (auto simp: op_defs Let_def has_vm_def may_use_def known_slots_def under_def idle_def
      split: option.splits)

lemma safe_supervise_each: "idle () g \<Longrightarrow> safe (supervise_each cfg vs) g idle"
proof (induction vs arbitrary: g)
  case Nil
  then show ?case by (simp add: idle_def)
next
  case (Cons v vs)
  have "safe (supervise_each cfg vs) g' idle" if "idle x g'" for x :: "(CpError, unit) result" and g'
    using Cons.IH that by (simp add: idle_def)
  then have "safe (reap cfg (v_id v)) g (\<lambda>_ g'. safe (supervise_each cfg vs) g' idle)"
    by (rule safe_mono [OF safe_reap [OF Cons.prems]])
  with Cons show ?case
    by (auto simp: note_alive_def split: sum.splits VmStatus.splits)
qed

lemma safe_recover_each: "idle () g \<Longrightarrow> safe (recover_each cfg vs) g idle"
proof (induction vs arbitrary: g)
  case Nil
  then show ?case by (simp add: idle_def)
next
  case (Cons v vs)
  let ?Q = "\<lambda>x g'. safe (qmark x (\<lambda>_. recover_each cfg vs)) g' idle"
  have cont: "?Q x g'" if "idle x g'" for x g'
    using Cons.IH that by (auto simp: idle_def)
  have "safe (reap cfg (v_id v)) g ?Q" "safe (abandon (v_id v)) g ?Q"
    using safe_reap [OF Cons.prems] safe_abandon [OF Cons.prems] cont by (blast intro: safe_mono)+
  moreover have "safe (recover_each cfg vs) g idle" "idle (Err e :: (CpError, unit) result) g" for e
    using Cons by (auto simp: idle_def)
  ultimately show ?case
    by (auto simp: qmark_p_def split: VmState.splits)
qed

lemma safe_supervise_tick: "idle () g \<Longrightarrow> safe (supervise_tick cfg) g idle"
  by (auto simp: supervise_tick_def q_list_vms_def learn_def idle_def
      intro!: safe_mono [OF safe_supervise_each [unfolded idle_def]])

lemma safe_apply_network:
  assumes "g_lock g = Holds vid h" and "g_know g \<noteq> Gone"
    and "\<And>r k. k \<noteq> Gone \<Longrightarrow> Q r (g\<lparr>g_know := k\<rparr>)"
  shows "safe (apply_network vid) g Q"
  unfolding apply_network_def
  by (rule safe_get_vm [OF assms(1,2)])
    (use assms in \<open>auto simp: may_use_def split: option.splits\<close>)

lemma safe_policy_gen:
  assumes "g_lock g = Holds vid h" and "g_know g = Present s" and "\<And>r. safe (k r) g Q"
  shows "safe (q_policy_gen vid k) g Q"
  using assms by (auto simp: q_policy_gen_def learn_known)

lemma safe_set_policy: "idle () g \<Longrightarrow> safe (set_policy K vid p a rs e sp) g idle"
  unfolding set_policy_def
  by (rule safe_locked_idle, assumption, rule safe_with_vm)
    (auto simp: set_policy_body_def store_policy_def Let_def qmark_p_def under_def idle_def
      intro!: safe_policy_gen safe_apply_network
      split: option.splits)

lemma safe_add_forward_op: "idle () g \<Longrightarrow> safe (add_forward_op vid vmp pr) g idle"
  unfolding add_forward_op_def
  by (rule safe_locked_idle, assumption, rule safe_get_vm)
    (auto simp: under_def idle_def Let_def intro!: safe_apply_network split: sum.splits)

lemma safe_remove_forward_op: "idle () g \<Longrightarrow> safe (remove_forward_op vid hp pr) g idle"
  unfolding remove_forward_op_def
  by (rule safe_locked_idle, assumption)
    (auto simp: under_def idle_def qmark_p_def intro!: safe_apply_network)

lemma safe_register_template: "idle () g \<Longrightarrow> safe (register_template tpl) g idle"
  by (auto simp: register_template_def idle_def)

lemma safe_allocate_ports: "(\<And>r. Q r g) \<Longrightarrow> safe (allocate_ports ps fs) g Q"
  by (induction fs arbitrary: ps) (auto split: option.splits)

lemma safe_declare_forwards: "(\<And>r. Q r g) \<Longrightarrow> safe (declare_forwards vid fs) g Q"
  by (induction fs) auto

lemma safe_create_vm_locked:
  assumes "g_lock g = Holds vid h" and "g_know g = Unknown" and "g_new g = Some vid"
  shows "safe (create_vm_locked cfg req tpl vid) g (\<lambda>_ g'. g_lock g' = Holds vid h)"
  unfolding create_vm_locked_def
  by (rule safe_get_vm [OF assms(1)])
    (use assms in \<open>auto simp: op_defs Let_def create_vm_placed_def new_record_def has_vm_def may_use_def known_slots_def
      intro!: safe_allocate_ports safe_declare_forwards safe_rollback [where h = h]
      safe_bring_up [where h = h] split: option.splits sum.splits\<close>)

lemma safe_create_vm:
  assumes "g_lock g = NoLock" and "g_new g = c_id req"
  shows "safe (create_vm cfg K req) g (\<lambda>_ _. True)"
proof -
  have "safe (locked vid (create_vm_locked cfg req tpl vid)) g' (\<lambda>_ _. True)"
    if "g_lock g' = NoLock" "g_new g' = Some vid" for g' vid tpl
    by (rule safe_locked) (use that in \<open>auto intro!: safe_mono [OF safe_create_vm_locked]\<close>)
  then show ?thesis
    using assms by (auto simp: create_vm_def Let_def q_get_template_def learn_def split: option.splits)
qed

section \<open>Every reachable state\<close>

definition ghost0 :: Ghost where
  "ghost0 = \<lparr>g_lock = NoLock, g_know = Unknown, g_own = {}, g_new = None\<rparr>"

lemma safe_no_answer: "safe p g Q \<Longrightarrow> safe (no_answer p) g (\<lambda>_ _. True)"
  by (auto simp: no_answer_def elim: safe_mono)

lemma safe_handler:
  assumes "g_lock g = NoLock" and "g_new g = named_id req"
  shows "safe (handler cfg K req) g (\<lambda>_ _. True)"
proof (cases req)
  case (R_Create r)
  with assms show ?thesis by (auto intro!: safe_no_answer [OF safe_create_vm])
qed (use assms in \<open>auto simp: idle_def intro!: safe_no_answer
      safe_destroy_vm [unfolded idle_def] safe_stop_vm [unfolded idle_def] safe_halt_vm [unfolded idle_def]
      safe_terminate_vm [unfolded idle_def] safe_retire_suspension [unfolded idle_def]
      safe_suspend_vm [unfolded idle_def] safe_start_vm [unfolded idle_def]
      safe_handle_exit [unfolded idle_def] safe_supervise_tick [unfolded idle_def]
      safe_set_policy [unfolded idle_def] safe_add_forward_op [unfolded idle_def]
      safe_remove_forward_op [unfolded idle_def] safe_register_template [unfolded idle_def]\<close>)

lemma sys_inv_reset:
  assumes "sys_inv cp U B D gs"
  shows "sys_inv cp U B D (gs(t := ghost0))"
  by (rule sys_invI [OF assms sys_invD(1) [OF assms]])
    (auto simp: ghost0_def thread_inv_def consistent_def compat_def)

lemma reserve_new:
  assumes "n \<le> 32768"
  shows "slots_invar (fold slot_reserve ss (slots_new n)) \<and>
    (\<forall>s \<in> set ss. s \<in> slots_universe (fold slot_reserve ss (slots_new n)) \<longrightarrow>
       s \<in> slots_taken (fold slot_reserve ss (slots_new n)))"
proof -
  have "slots_invar (slots_new n)" using assms by (auto simp: slots_invar_def slots_new_def)
  from slots.fold_reserve [OF this, of ss] show ?thesis by auto
qed

lemma collect_mem:
  "collect f xs = Ok ys \<Longrightarrow> x \<in> set xs \<Longrightarrow> \<exists>y \<in> set ys. f x = Ok y"
  by (induction xs arbitrary: ys) (auto simp: and_then_Inr_iff)

lemma list_vms_slots:
  assumes "list_vms db = Ok vms" and "row_view db i = Some (Some s)"
  shows "s \<in> set (record_slots vms)"
proof -
  obtain r where r: "find (\<lambda>r. w_id r = vmid_display i) (db_vms db) = Some r" "row_slot r = Some s"
    using assms(2) by (auto simp: row_view_def)
  from assms(1) obtain us where us: "collect vm_from_row (db_vms db) = Ok us"
    and vms: "vms = map (\<lambda>v. v\<lparr>v_ingress := forwards_in (v_id v) db\<rparr>) us"
    by (auto simp: list_vms_def map_ok_Inr_iff)
  have "r \<in> set (db_vms db)" using find_id_Some [OF r(1)] by simp
  then obtain u where u: "u \<in> set us" "vm_from_row r = Ok u"
    using collect_mem [OF us] by blast
  then have "v_slot u = Some s" using r(2) by (auto simp: vm_from_row_def and_then_Inr_iff)
  with u(1) show ?thesis by (force simp: record_slots_def vms List.map_filter_def)
qed

lemma sys_inv_recovered:
  assumes "ids_ok db" and "claims_distinct db" and "list_vms db = Ok vms" and "slot_capacity cfg \<le> 32768"
  shows "sys_inv (recovered cfg db vms) {vid. row_view db vid \<noteq> None} {vid. row_view db vid \<noteq> None} {} (\<lambda>_. ghost0)"
  using assms(1,2) reserve_new [OF assms(4), of "record_slots vms"] list_vms_slots [OF assms(3)]
  by (auto simp: sys_inv_def world_inv_def thread_inv_def consistent_def compat_def ghost0_def
      recovered_def control_plane_new_def)

lemma reach_inv:
  assumes "reach cfg K fails cp ps U" and del: "\<And>vid. \<not> fails (DeleteVm vid)"
  shows "\<exists>B D gs. sys_inv cp U B D gs \<and> (\<forall>t. safe (ps t) (gs t) (\<lambda>_ _. True))"
  using assms(1)
proof (induction rule: reach.induct)
  case (reach_init db vms)
  have "safe (no_answer (recover_each cfg vms)) ghost0 (\<lambda>_ _. True)"
    by (rule safe_no_answer [OF safe_recover_each]) (simp add: idle_def ghost0_def)
  then have "\<forall>t. safe (((\<lambda>_. Ret ())(0 := no_answer (recover_each cfg vms))) t) ghost0 (\<lambda>_ _. True)"
    by simp
  with sys_inv_recovered [OF reach_init] show ?case by blast
next
  case (reach_request cp ps U t req)
  then obtain B D gs where inv: "sys_inv cp U B D gs" and safe: "\<forall>t. safe (ps t) (gs t) (\<lambda>_ _. True)"
    by blast
  let ?g = "ghost0\<lparr>g_new := named_id req\<rparr>"
  have g: "sys_inv cp (U \<union> set_option (named_id req)) B D (gs(t := ?g))"
  proof (cases "named_id req")
    case None
    then have "?g = ghost0" by (simp add: ghost0_def)
    with sys_inv_reset [OF inv, of t] None show ?thesis by simp
  next
    case (Some vid)
    with reach_request(3) have "vid \<notin> U" by simp
    from sys_inv_new [OF sys_inv_reset [OF inv, of t] this, of t] Some
    show ?thesis by (simp add: ghost0_def)
  qed
  have "safe (handler cfg K req) ?g (\<lambda>_ _. True)"
    by (rule safe_handler) (simp_all add: ghost0_def)
  with safe have "\<forall>t'. safe ((ps(t := handler cfg K req)) t') ((gs(t := ?g)) t') (\<lambda>_ _. True)" by simp
  with g show ?case by blast
next
  case (reach_step cp ps U t p' cp' U')
  then obtain B D gs where inv: "sys_inv cp U B D gs" and safe: "\<forall>t. safe (ps t) (gs t) (\<lambda>_ _. True)"
    by blast
  from step_sound [OF inv safe [rule_format, of t] reach_step(2) del]
  obtain B' D' g' where g': "sys_inv cp' U' B' D' (gs(t := g'))" "safe p' g' (\<lambda>_ _. True)"
    by blast
  have "\<forall>a. safe ((ps(t := p')) a) ((gs(t := g')) a) (\<lambda>_ _. True)" using safe g'(2) by simp
  with g'(1) show ?case by blast
qed

section \<open>Consequences\<close>

text \<open>The VM or the slot's network the next action of a program works on.\<close>

fun call_vm :: "BackendCall \<Rightarrow> VmId option" where
  "call_vm (StTeardown vid) = Some vid"
| "call_vm (RtCreate spec) = Some (is_vm spec)"
| "call_vm (RtStart vid) = Some vid"
| "call_vm (RtRelease vid) = Some vid"
| "call_vm (RtStop vid) = Some vid"
| "call_vm (RtHalt vid) = Some vid"
| "call_vm (RtDestroy vid) = Some vid"
| "call_vm (SyncGuestClock vid) = Some vid"
| "call_vm (ReseedGuest vid keys) = Some vid"
| "call_vm _ = None"

fun touches_vm :: "'a prog \<Rightarrow> VmId option" where
  "touches_vm (Call c k) = call_vm c"
| "touches_vm (Provision vid tpl k) = Some vid"
| "touches_vm (RtSuspend vid k) = Some vid"
| "touches_vm (Sql (UpdatePlacement v) k) = Some (v_id v)"
| "touches_vm (Sql (DeleteVm vid) k) = Some vid"
| "touches_vm _ = None"

fun touches_slot :: "'a prog \<Rightarrow> SlotId option" where
  "touches_slot (Call (NetTeardown s) k) = Some s"
| "touches_slot (Call (NetReapply s pol) k) = Some s"
| "touches_slot (NetApply s pol k) = Some s"
| "touches_slot (MemDo (FreeSlot s) p) = Some s"
| "touches_slot _ = None"

lemma touches_vm_has:
  assumes "safe p g Q" and "touches_vm p = Some vid"
  shows "has_vm g vid"
  using assms
proof (cases p rule: touches_vm.cases)
  case (1 c k)
  with assms show ?thesis by (cases c) auto
qed (use assms in auto)

lemma touches_slot_may:
  assumes "safe p g Q" and "touches_slot p = Some s"
  shows "may_use g s"
  using assms by (cases p rule: touches_slot.cases) (auto simp: may_use_def)

lemma may_use_exclusive:
  assumes inv: "sys_inv cp U B D gs" and "t \<noteq> t'" and "may_use (gs t) s"
  shows "\<not> may_use (gs t') s"
proof
  assume other: "may_use (gs t') s"
  have C: "compat (gs t) (gs t')" by (rule sys_invD(3) [OF inv assms(2)])
  have T: "thread_inv cp U B D (gs t)" "thread_inv cp U B D (gs t')" by (rule sys_invD(2) [OF inv])+
  have W: "world_inv cp U B D" by (rule sys_invD(1) [OF inv])
  have claim: "row_view (cp_store cp) vid = Some (Some s)" if "g_lock (gs a) = Holds vid h"
    "g_know (gs a) = Present (Some s)" for a vid h
    using that sys_invD(2) [OF inv, of a] by (auto simp: thread_inv_def consistent_def)
  have not_owned: "s \<notin> g_own (gs a)" if "row_view (cp_store cp) vid = Some (Some s)" for a vid
    using that sys_invD(2) [OF inv, of a] by (auto simp: thread_inv_def slot_owned_def)
  from assms(3) other consider
      "s \<in> g_own (gs t)" "s \<in> g_own (gs t')"
    | i h j h' where "g_lock (gs t) = Holds i h" "g_know (gs t) = Present (Some s)"
        "g_lock (gs t') = Holds j h'" "g_know (gs t') = Present (Some s)"
    unfolding may_use_def using claim not_owned by blast
  then show False
  proof cases
    case 1
    with C show False by (auto simp: compat_def)
  next
    case 2
    then have "row_view (cp_store cp) i = Some (Some s)" "row_view (cp_store cp) j = Some (Some s)"
      using claim by blast+
    with W have "i = j" "i \<notin> D" by (auto simp: world_inv_def claims_distinct_def)
    with 2 holder_unique [OF T C, of i h] show False by auto
  qed
qed

lemma has_vm_exclusive:
  assumes inv: "sys_inv cp U B D gs" and "t \<noteq> t'" and "has_vm (gs t) vid"
  shows "\<not> has_vm (gs t') vid"
proof -
  obtain h where "g_lock (gs t) = Holds vid h" "vid \<notin> D"
    using has_vm_known [OF inv assms(3)] by metis
  with holder_unique [OF sys_invD(2) [OF inv] sys_invD(2) [OF inv] sys_invD(3) [OF inv assms(2)]]
  show ?thesis by (auto simp: has_vm_def)
qed

lemma view_of_record:
  assumes "ids_ok db" and "list_vms db = Ok vms" and "v \<in> set vms"
  shows "row_view db (v_id v) = Some (v_slot v)"
proof -
  obtain us where us: "collect vm_from_row (db_vms db) = Ok us"
    and vms: "vms = map (\<lambda>v. v\<lparr>v_ingress := forwards_in (v_id v) db\<rparr>) us"
    using assms(2) by (auto simp: list_vms_def map_ok_Inr_iff)
  then obtain u where u: "u \<in> set us" "v = u\<lparr>v_ingress := forwards_in (v_id u) db\<rparr>"
    using assms(3) by auto
  with us obtain r where r: "r \<in> set (db_vms db)" "vm_from_row r = Ok u"
    using collect_set [OF us] by blast
  from r assms(1) obtain k where k: "w_id r = vmid_display k" by (auto simp: ids_ok_def)
  with r(2) have "v_id u = k" "v_slot u = row_slot r"
    by (auto simp: vm_from_row_def and_then_Inr_iff ok_or_Ok_iff)
  with r(1) k u assms(1) find_key_unique [of "db_vms db" r] show ?thesis
    by (simp add: row_view_def ids_ok_def)
qed

lemma records_distinct:
  assumes "ids_ok db" and "list_vms db = Ok vms"
  shows "distinct (map v_id vms)"
proof -
  obtain us where us: "collect vm_from_row (db_vms db) = Ok us"
    and vms: "vms = map (\<lambda>v. v\<lparr>v_ingress := forwards_in (v_id v) db\<rparr>) us"
    using assms(2) by (auto simp: list_vms_def map_ok_Inr_iff)
  have "list_all2 (\<lambda>r u. vm_from_row r = Ok u) (db_vms db) us" using us by (simp add: collect_Inr_iff)
  moreover have "w_id r = vmid_display (v_id u)" if "r \<in> set (db_vms db)" "vm_from_row r = Ok u" for r u
    using that assms(1) by (auto simp: ids_ok_def vm_from_row_def and_then_Inr_iff ok_or_Ok_iff)
  ultimately have "list_all2 (\<lambda>r u. w_id r = vmid_display (v_id u)) (db_vms db) us"
    by (auto simp: list_all2_conv_all_nth)
  then have "map w_id (db_vms db) = map vmid_display (map v_id us)"
    by (simp add: list_all2_conv_all_nth list_eq_iff_nth_eq)
  with assms(1) have "distinct (map vmid_display (map v_id us))" by (simp add: ids_ok_def)
  then have "distinct (map v_id us)" by (rule distinct_map [THEN iffD1, THEN conjunct1])
  then show ?thesis by (simp add: vms o_def)
qed

lemma list_vms_wf: "db_wf db \<Longrightarrow> \<exists>vms. list_vms db = Ok vms"
proof -
  have "\<exists>us. collect vm_from_row rows = Ok us" if "\<forall>r \<in> set rows. row_wf r" for rows
    using that by (induction rows) (auto simp: row_wf_def ok_and_iff and_then_Inr_iff)
  moreover assume "db_wf db"
  ultimately show ?thesis by (fastforce simp: db_wf_def list_vms_def)
qed

lemma reach_slots:
  assumes "reach cfg K fails cp ps U" and "\<And>vid. \<not> fails (DeleteVm vid)"
    and "list_vms (cp_store cp) = Ok vms" and "v \<in> set vms" and "v_slot v = Some s"
  shows "(\<forall>u \<in> set vms. v_slot u = Some s \<longrightarrow> u = v) \<and>
    (s \<in> slots_universe (cp_slots cp) \<longrightarrow> s \<in> slots_taken (cp_slots cp))"
proof -
  obtain B D where W: "world_inv cp U B D"
    using reach_inv [OF assms(1,2)] sys_invD(1) by blast
  then have ids: "ids_ok (cp_store cp)" and claims: "claims_distinct (cp_store cp)"
    by (auto simp: world_inv_def)
  note view = view_of_record [OF ids assms(3)]
  have "u = v" if u: "u \<in> set vms" "v_slot u = Some s" for u
  proof -
    have "v_id u = v_id v"
      using view [OF u(1)] view [OF assms(4)] u(2) assms(5) claims by (simp add: claims_distinct_def)
    with u(1) assms(4) records_distinct [OF ids assms(3)] show ?thesis
      by (auto simp: distinct_map dest: inj_onD)
  qed
  moreover have "s \<in> slots_universe (cp_slots cp) \<longrightarrow> s \<in> slots_taken (cp_slots cp)"
    using W view [OF assms(4)] assms(5) by (auto simp: world_inv_def)
  ultimately show ?thesis by blast
qed

section \<open>Properties\<close>

text \<open>C1: whatever handlers run beside each other, and whatever the backends answer, two VM
  records never claim the same slot, and a claimed slot within the allocator's range is
  marked taken there, so it cannot be handed to another VM. Ids are not reused, and a
  record's deletion does not fail.\<close>

theorem slots_exclusive:
  assumes "reach cfg K fails cp ps U" and "\<forall>vid. \<not> fails (DeleteVm vid)"
    and "list_vms (cp_store cp) = Ok vms" and "v \<in> set vms" and "v_slot v = Some s"
  shows "(\<forall>u \<in> set vms. v_slot u = Some s \<longrightarrow> u = v) \<and>
    (s \<in> slots_universe (cp_slots cp) \<longrightarrow> s \<in> slots_taken (cp_slots cp))"
  using reach_slots assms by blast

text \<open>C33: when a handler is about to return a slot to the pool, no VM record claims that slot
  any more, and no other handler is about to touch the slot's network or to free it.\<close>

theorem freed_slot_unclaimed:
  assumes "reach cfg K fails cp ps U" and "\<forall>vid. \<not> fails (DeleteVm vid)"
    and "ps t = MemDo (FreeSlot s) p" and "list_vms (cp_store cp) = Ok vms"
  shows "(\<forall>v \<in> set vms. v_slot v \<noteq> Some s) \<and> (\<forall>t'. t' \<noteq> t \<longrightarrow> touches_slot (ps t') \<noteq> Some s)"
proof -
  obtain B D gs where inv: "sys_inv cp U B D gs" and safe: "\<forall>t. safe (ps t) (gs t) (\<lambda>_ _. True)"
    using reach_inv [OF assms(1)] assms(2) by blast
  from safe [rule_format, of t] assms(3) have own: "s \<in> g_own (gs t)" by simp
  then have "row_view (cp_store cp) i \<noteq> Some (Some s)" for i
    using sys_invD(2) [OF inv, of t] by (auto simp: thread_inv_def slot_owned_def)
  moreover have "ids_ok (cp_store cp)" using sys_invD(1) [OF inv] by (simp add: world_inv_def)
  ultimately have "\<forall>v \<in> set vms. v_slot v \<noteq> Some s"
    using view_of_record [OF _ assms(4)] by metis
  moreover have "touches_slot (ps t') \<noteq> Some s" if "t' \<noteq> t" for t'
    using may_use_exclusive [OF inv, of t t' s] touches_slot_may [OF safe [rule_format, of t']] own that
    by (auto simp: may_use_def)
  ultimately show ?thesis by blast
qed

text \<open>C34: a VM's volume, VMM and placement are worked on by one handler at a time, and so is a
  slot's network, whatever the interleaving.\<close>

theorem handlers_exclusive:
  assumes "reach cfg K fails cp ps U" and "\<forall>vid. \<not> fails (DeleteVm vid)" and "t \<noteq> t'"
  shows "(touches_vm (ps t) = Some vid \<longrightarrow> touches_vm (ps t') \<noteq> Some vid) \<and>
    (touches_slot (ps t) = Some s \<longrightarrow> touches_slot (ps t') \<noteq> Some s)"
proof -
  obtain B D gs where inv: "sys_inv cp U B D gs" and safe: "\<forall>t. safe (ps t) (gs t) (\<lambda>_ _. True)"
    using reach_inv [OF assms(1)] assms(2) by blast
  note vm = touches_vm_has [OF safe [rule_format]] and slot = touches_slot_may [OF safe [rule_format]]
  show ?thesis
    using vm [of t vid] vm [of t' vid] slot [of t s] slot [of t' s]
      has_vm_exclusive [OF inv assms(3), of vid] may_use_exclusive [OF inv assms(3), of s] by blast
qed

section \<open>A reachable state with two handlers on one VM\<close>

lemma sample_view: "row_view sample_db vid = (if vid = 7 then Some (Some (SlotId 3)) else None)"
proof -
  have "vm_fits sample_vm" by (rule sample_vm_fits)
  from view_insert [OF sample_insert this]
  have "row_view sample_db = (row_view db_empty)(7 \<mapsto> Some (SlotId 3))" by (simp add: sample_vm_def)
  then show ?thesis by (simp add: row_view_def db_empty_def)
qed

lemma sample_get: "get_vm 7 sample_db = Ok (Some sample_vm)"
proof -
  have "db_abs sample_db 7 = Some (sample_vm\<lparr>v_ingress := [], v_snapshot := None\<rparr>)"
    using db_abs_insert [OF db_wf_empty sample_vm_fits(1) sample_insert, of 7] by (simp add: sample_vm_def)
  then show ?thesis using get_vm_wf [OF sample_db_wf, of 7] by (simp add: sample_vm_def)
qed

lemma sample_reach_init:
  "reach sample_cfg sample_codec (\<lambda>_. False) (recovered sample_cfg sample_db [sample_vm])
     ((\<lambda>_. Ret ())(0 := no_answer (recover_each sample_cfg [sample_vm]))) {7}"
proof -
  have "ids_ok sample_db"
    by (simp add: ids_ok_def sample_db_def db_empty_def row_of_vm_def)
  moreover have "claims_distinct sample_db" by (simp add: claims_distinct_def sample_view)
  moreover have "{vid. row_view sample_db vid \<noteq> None} = {7}" by (auto simp: sample_view)
  ultimately show ?thesis
    using reach_init [of sample_db "[sample_vm]" sample_cfg sample_codec "\<lambda>_. False"] sample_list
    by (simp add: sample_cfg_def)
qed

theorem slots_exclusive_witness:
  "\<exists>vms. list_vms (cp_store (recovered sample_cfg sample_db [sample_vm])) = Ok vms \<and>
     sample_vm \<in> set vms \<and> v_slot sample_vm = Some (SlotId 3) \<and>
     SlotId 3 \<in> slots_taken (cp_slots (recovered sample_cfg sample_db [sample_vm]))"
proof -
  have "cp_store (recovered sample_cfg sample_db [sample_vm]) = sample_db"
    by (simp add: recovered_def control_plane_new_def)
  moreover have "v_slot sample_vm = Some (SlotId 3)" by (simp add: sample_vm_def)
  moreover have "SlotId 3 \<in> slots_universe (cp_slots (recovered sample_cfg sample_db [sample_vm]))"
    by (simp add: recovered_def control_plane_new_def record_slots_def sample_vm_def sample_cfg_def
        slots_universe_def slot_reserve_def slots_new_def List.map_filter_def)
  ultimately show ?thesis
    using slots_exclusive [OF sample_reach_init, of "[sample_vm]" sample_vm "SlotId 3"] sample_list by simp
qed

text \<open>One program moves on, its calls answered with success.\<close>

fun advance :: "unit prog \<times> ControlPlane \<Rightarrow> unit prog \<times> ControlPlane" where
  "advance (GetLock vid k, cp) = (case vm_lock vid cp of (h, cp') \<Rightarrow> (k h, cp'))"
| "advance (Acquire h p, cp) =
     (if h \<in> cp_held cp then (Acquire h p, cp) else (p, cp\<lparr>cp_held := insert h (cp_held cp)\<rparr>))"
| "advance (MemDo m p, cp) = (p, mem_exec m cp)"
| "advance (Sql s k, cp) = (case sql_step None s cp of (r, cp') \<Rightarrow> (k r, cp'))"
| "advance (Query k, cp) = (k (Ok (cp_store cp)), cp)"
| "advance (Call c k, cp) = (k (Ok ()), cp)"
| "advance (p, cp) = (p, cp)"

lemma reach_advance:
  assumes "reach cfg K fails cp ps U" and "advance (ps t, cp) = (p', cp')"
  shows "reach cfg K fails cp' (ps(t := p')) U"
proof -
  have "(p', cp') = (ps t, cp) \<or> prog_step fails (ps t) cp U p' cp' U"
    using assms(2)
    by (cases "(ps t, cp)" rule: advance.cases)
      (auto intro: prog_step.intros split: prod.splits if_splits)
  then show ?thesis using assms(1) reach_step by (metis Pair_inject fun_upd_triv)
qed

lemma reach_advances:
  assumes "reach cfg K fails cp ps U" and "(advance ^^ n) (ps t, cp) = (p', cp')"
  shows "reach cfg K fails cp' (ps(t := p')) U"
  using assms(2)
proof (induction n arbitrary: p' cp')
  case 0
  then have "p' = ps t" "cp' = cp" by simp_all
  with assms(1) show ?case by (simp only: fun_upd_triv)
next
  case (Suc n)
  obtain p1 cp1 where 1: "(advance ^^ n) (ps t, cp) = (p1, cp1)" by force
  with Suc.prems have "advance ((ps(t := p1)) t, cp1) = (p', cp')" by simp
  from reach_advance [OF Suc.IH [OF 1] this] show ?case by (simp only: fun_upd_upd)
qed

text \<open>Two requests to halt VM 7: the first has taken its lock.\<close>

abbreviation halting :: "unit prog" where
  "halting \<equiv> handler sample_cfg sample_codec (R_Halt 7)"

lemma halting_advances:
  assumes "cp_store cp = sample_db" and "cp_locks cp 7 = None" and "cp_next_lock cp \<notin> cp_held cp"
  shows "\<exists>k cp'. (advance ^^ 3) (halting, cp) = (Call (RtHalt 7) k, cp')"
    and "\<exists>p cp'. (advance ^^ 8) (halting, cp) = (MemDo (FreeSlot (SlotId 3)) p, cp') \<and>
      cp_store cp' = update_placement (sample_vm\<lparr>v_slot := None, v_tap := None, v_state := Stopped\<rparr>) sample_db"
  using assms sample_get
  by (simp_all add: no_answer_def halt_vm_def locked_def with_vm_def q_get_vm_def vm_lock_def ok_or_err_def
      finalize_stop_def op_defs sql_step_def numeral_eq_Suc)
    (simp_all add: sample_vm_def op_defs sql_step_def)

lemma recovered_state:
  "cp_store (recovered cfg db vms) = db" "cp_locks (recovered cfg db vms) = (\<lambda>_. None)"
  "cp_held (recovered cfg db vms) = {}"
  by (simp_all add: recovered_def control_plane_new_def)

lemma halting_reach:
  assumes "(advance ^^ n) (halting, recovered sample_cfg sample_db [sample_vm]) = (p, cp)"
  shows "\<exists>ps. reach sample_cfg sample_codec (\<lambda>_. False) cp ps {7} \<and> ps 1 = p \<and> ps 2 = halting"
proof -
  let ?ps = "((\<lambda>_. Ret ())(0 := no_answer (recover_each sample_cfg [sample_vm])))(1 := halting, 2 := halting)"
  have "reach sample_cfg sample_codec (\<lambda>_. False) (recovered sample_cfg sample_db [sample_vm]) ?ps {7}"
    using reach_request [OF reach_request [OF sample_reach_init, of 1 "R_Halt 7"], of 2 "R_Halt 7"]
    by simp
  from reach_advances [OF this, of n 1 p cp] assms show ?thesis
    by (intro exI [of _ "?ps(1 := p)"]) simp
qed

theorem handlers_exclusive_witness:
  "\<exists>cp ps U. reach sample_cfg sample_codec (\<lambda>_. False) cp ps U \<and>
     touches_vm (ps 1) = Some 7 \<and> touches_vm (ps 2) \<noteq> Some 7"
proof -
  obtain k cp where "(advance ^^ 3) (halting, recovered sample_cfg sample_db [sample_vm]) = (Call (RtHalt 7) k, cp)"
    using halting_advances(1) [of "recovered sample_cfg sample_db [sample_vm]"] recovered_state by auto
  then obtain ps where ps: "reach sample_cfg sample_codec (\<lambda>_. False) cp ps {7}" "ps 1 = Call (RtHalt 7) k"
    using halting_reach by blast
  then have "touches_vm (ps 1) = Some 7" by simp
  moreover from this have "touches_vm (ps 2) \<noteq> Some 7"
    using handlers_exclusive [OF ps(1), of 1 2 7] by simp
  ultimately show ?thesis using ps(1) by blast
qed

theorem freed_slot_unclaimed_witness:
  "\<exists>cp ps U p vms. reach sample_cfg sample_codec (\<lambda>_. False) cp ps U \<and>
     ps 1 = MemDo (FreeSlot (SlotId 3)) p \<and> list_vms (cp_store cp) = Ok vms \<and>
     (\<forall>v \<in> set vms. v_slot v \<noteq> Some (SlotId 3))"
proof -
  let ?v = "sample_vm\<lparr>v_slot := None, v_tap := None, v_state := Stopped\<rparr>"
  obtain p cp where adv: "(advance ^^ 8) (halting, recovered sample_cfg sample_db [sample_vm]) =
      (MemDo (FreeSlot (SlotId 3)) p, cp)" and db: "cp_store cp = update_placement ?v sample_db"
    using halting_advances(2) [of "recovered sample_cfg sample_db [sample_vm]"] recovered_state by auto
  obtain ps where ps: "reach sample_cfg sample_codec (\<lambda>_. False) cp ps {7}" "ps 1 = MemDo (FreeSlot (SlotId 3)) p"
    using halting_reach [OF adv] by blast
  have "db_wf (cp_store cp)"
    using db_exec_keeps_wf [OF sample_db_wf, of "UpdatePlacement ?v"] by (simp add: db vm_fits_def)
  then obtain vms where "list_vms (cp_store cp) = Ok vms" using list_vms_wf by blast
  moreover from this have "\<forall>v \<in> set vms. v_slot v \<noteq> Some (SlotId 3)"
    using freed_slot_unclaimed [OF ps(1) _ ps(2)] by simp
  ultimately show ?thesis using ps by blast
qed

end
