(* ===== verification/Iso_Ops.thy ===== *)
theory Iso_Ops
  imports Iso_Sched
begin

text \<open>
  What single operations of the control plane do, run alone against any oracle: the order in
  which a slot is torn down, announced and freed, and the effect of creating a VM and of
  editing a policy on every branch.
\<close>

section \<open>Tearing down, telling, freeing\<close>

text \<open>
  A trace is tidy when every slot freed was first announced to the release hooks, and every
  slot announced has no network that the trace brought up and did not tear down: it was torn
  down, or was just allocated. The state is the slots known to be clean and those announced.
\<close>

type_synonym tidiness = "SlotId set \<times> SlotId set"

fun tidy_ok :: "Event \<Rightarrow> tidiness \<Rightarrow> bool" where
  "tidy_ok (EvMem (TellReleased s)) st = (s \<in> fst st)"
| "tidy_ok (EvMem (FreeSlot s)) st = (s \<in> snd st)"
| "tidy_ok _ st = True"

fun tidy_next :: "Event \<Rightarrow> tidiness \<Rightarrow> tidiness" where
  "tidy_next (EvApply s p) st = (fst st - {s}, snd st - {s})"
| "tidy_next (EvCall (NetTeardown s)) st = (insert s (fst st), snd st)"
| "tidy_next (EvSlot (Some s)) st = (insert s (fst st), snd st - {s})"
| "tidy_next (EvMem (TellReleased s)) st = (fst st, insert s (snd st))"
| "tidy_next (EvMem (FreeSlot s)) st = (fst st - {s}, snd st - {s})"
| "tidy_next _ st = st"

fun tidy_from :: "tidiness \<Rightarrow> Event list \<Rightarrow> tidiness option" where
  "tidy_from st [] = Some st"
| "tidy_from st (e # es) = (if tidy_ok e st then tidy_from (tidy_next e st) es else None)"

definition tidy :: "Event list \<Rightarrow> bool" where
  "tidy tr \<longleftrightarrow> tidy_from ({}, {}) tr \<noteq> None"

text \<open>
  The same of a program, for every reply. \<open>L\<close> is the lock the program holds: it must hold none
  when it asks for one, so that alone it never waits.
\<close>

primrec tidy_prog ::
  "'a prog \<Rightarrow> tidiness \<Rightarrow> nat option \<Rightarrow> ('a \<Rightarrow> tidiness \<Rightarrow> nat option \<Rightarrow> bool) \<Rightarrow> bool" where
  "tidy_prog (Ret x) st L Q = Q x st L"
| "tidy_prog (GetLock vid k) st L Q = (\<forall>r. tidy_prog (k r) st L Q)"
| "tidy_prog (Acquire h p) st L Q = (L = None \<and> tidy_prog p st (Some h) Q)"
| "tidy_prog (MemDo m p) st L Q =
     (tidy_ok (EvMem m) st \<and>
      tidy_prog p (tidy_next (EvMem m) st) (if L \<noteq> None \<and> m = ReleaseLock (the L) then None else L) Q)"
| "tidy_prog (AllocSlot k) st L Q = (\<forall>r. tidy_prog (k r) (tidy_next (EvSlot r) st) L Q)"
| "tidy_prog (AllocPort k) st L Q = (\<forall>r. tidy_prog (k r) st L Q)"
| "tidy_prog (Sql s k) st L Q = (\<forall>r. tidy_prog (k r) st L Q)"
| "tidy_prog (Query k) st L Q = (\<forall>r. tidy_prog (k r) st L Q)"
| "tidy_prog (Call c k) st L Q = (\<forall>r. tidy_prog (k r) (tidy_next (EvCall c) st) L Q)"
| "tidy_prog (NetInit k) st L Q = (\<forall>r. tidy_prog (k r) st L Q)"
| "tidy_prog (NetApply s p k) st L Q = (\<forall>r. tidy_prog (k r) (tidy_next (EvApply s p) st) L Q)"
| "tidy_prog (Provision vid t k) st L Q = (\<forall>r. tidy_prog (k r) st L Q)"
| "tidy_prog (PoolStatsOf k) st L Q = (\<forall>r. tidy_prog (k r) st L Q)"
| "tidy_prog (RtSuspend vid k) st L Q = (\<forall>r. tidy_prog (k r) st L Q)"
| "tidy_prog (RtStatus vid k) st L Q = (\<forall>r. tidy_prog (k r) st L Q)"
| "tidy_prog (FsStat path k) st L Q = (\<forall>r. tidy_prog (k r) st L Q)"
| "tidy_prog (RandomVmId k) st L Q = (\<forall>r. tidy_prog (k r) st L Q)"
| "tidy_prog (Deadline k) st L Q = (\<forall>r. tidy_prog (k r) st L Q)"

lemma tidy_bind [simp]:
  "tidy_prog (bind p f) st L Q = tidy_prog p st L (\<lambda>x st' L'. tidy_prog (f x) st' L' Q)"
  by (induction p arbitrary: st L) simp_all

lemma tidy_mono:
  assumes "tidy_prog p st L Q" and "\<And>x st' L'. Q x st' L' \<Longrightarrow> R x st' L'"
  shows "tidy_prog p st L R"
  using assms(1) by (induction p arbitrary: st L) (auto intro: assms(2))

lemma tidy_from_append:
  "tidy_from st (xs @ ys) = (case tidy_from st xs of None \<Rightarrow> None | Some st' \<Rightarrow> tidy_from st' ys)"
  by (induction xs arbitrary: st) auto

definition tidy_result ::
  "tidiness \<Rightarrow> ('a \<Rightarrow> tidiness \<Rightarrow> nat option \<Rightarrow> bool) \<Rightarrow> ('a \<times> ControlPlane \<times> Event list) option \<Rightarrow> bool" where
  "tidy_result st0 Q r =
     (case r of
        None \<Rightarrow> False
      | Some (x, cp, tr) \<Rightarrow> \<exists>st L. tidy_from st0 tr = Some st \<and> cp_held cp \<subseteq> set_option L \<and> Q x st L)"

lemma held_mem: "cp_held cp \<subseteq> set_option L \<Longrightarrow>
    cp_held (mem_exec m cp) \<subseteq> set_option (if L \<noteq> None \<and> m = ReleaseLock (the L) then None else L)"
  by (cases L; cases m) auto

lemma held_steps:
  "cp_held (snd (sql_step f s cp)) = cp_held cp"
  "cp_held (snd (alloc_slot_step f cp)) = cp_held cp"
  "cp_held (snd (alloc_port_step cp)) = cp_held cp"
  "cp_held (snd (vm_lock vid cp)) = cp_held cp"
proof -
  show sql: "cp_held (snd (sql_step f s cp)) = cp_held cp" for s cp
    by (simp add: sql_step_def split: option.split sum.split prod.split)
  show "cp_held (snd (alloc_slot_step f cp)) = cp_held cp"
    by (simp add: alloc_slot_step_def sql split: option.split prod.split)
  show "cp_held (snd (alloc_port_step cp)) = cp_held cp"
    by (simp add: alloc_port_step_def split: prod.split)
  show "cp_held (snd (vm_lock vid cp)) = cp_held cp"
    by (simp add: vm_lock_def split: option.split)
qed

lemma tidy_run:
  assumes "tidy_from st0 tr = Some st" and "cp_held cp \<subseteq> set_option L" and "tidy_prog p st L Q"
  shows "tidy_result st0 Q (run p orc cp tr)"
  using assms
proof (induction p arbitrary: st L cp tr)
  case (Ret x)
  then show ?case by (cases st) (auto simp: tidy_result_def)
next
  case (MemDo m p)
  from MemDo.prems(3) have "tidy_ok (EvMem m) st"
    "tidy_prog p (tidy_next (EvMem m) st) (if L \<noteq> None \<and> m = ReleaseLock (the L) then None else L) Q"
    by (simp_all only: tidy_prog.simps)
  with MemDo.IH [OF _ held_mem [OF MemDo.prems(2)], of "tr @ [EvMem m]"] MemDo.prems(1) show ?case
    by (simp add: tidy_from_append)
next
  case (Acquire h p)
  then show ?case by auto
qed (simp_all add: tidy_from_append held_steps case_prod_beta)

lemma tidy_qmark [simp]:
  "tidy_prog (qmark r f) st L Q \<longleftrightarrow>
     (\<forall>e. r = Err e \<longrightarrow> Q (Err e) st L) \<and> (\<forall>x. r = Ok x \<longrightarrow> tidy_prog (f x) st L Q)"
  by (cases r) simp_all

lemma tidy_qmark_c [simp]:
  "tidy_prog (qmark_c r f) st L Q \<longleftrightarrow>
     (\<forall>e. r = Err e \<longrightarrow> Q (Err (Component e)) st L) \<and> (\<forall>x. r = Ok x \<longrightarrow> tidy_prog (f x) st L Q)"
  by (cases r) simp_all

lemma ok_or_err_Ok [simp]: "ok_or_err e v = Ok x \<longleftrightarrow> v = Some x"
  by (cases v) (simp_all add: ok_or_err_def)

lemmas flow_defs =
  free_slot_def free_slot_opt_def teardown_opt_def free_ports_def best_effort_def allocate_slot_def
  qmark_p_def q_get_vm_def q_list_vms_def q_get_template_def q_policy_gen_def q_slot_cursor_def
  with_vm_def

text \<open>A body that keeps the lock it is run under, whatever the outcome.\<close>

abbreviation keeps :: "nat option \<Rightarrow> 'a \<Rightarrow> tidiness \<Rightarrow> nat option \<Rightarrow> bool" where
  "keeps L \<equiv> (\<lambda>_ _ L'. L' = L)"

lemma tidy_locked:
  assumes "\<And>h. tidy_prog p st (Some h) (keeps (Some h))"
  shows "tidy_prog (locked vid p) st None (keeps None)"
  by (simp add: locked_def) (rule allI, rule tidy_mono [OF assms], simp)

lemma tidy_then:
  "tidy_prog p st L (keeps L) \<Longrightarrow> (\<And>x st'. Q x st' L) \<Longrightarrow> tidy_prog p st L Q"
  by (erule tidy_mono) simp

lemma tidy_wait_exit: "(\<And>b. Q b st L) \<Longrightarrow> tidy_prog (wait_exit n vid) st L Q"
  by (induction n) auto

lemma tidy_check_gone: "(\<And>r. Q r st L) \<Longrightarrow> tidy_prog (check_gone ps) st L Q"
  by (induction ps) (auto split: FsResult.splits)

lemma tidy_allocate_ports: "(\<And>r. Q r st L) \<Longrightarrow> tidy_prog (allocate_ports ps fs) st L Q"
  by (induction fs arbitrary: ps) (auto split: option.splits)

lemma tidy_declare_forwards: "(\<And>r. Q r st L) \<Longrightarrow> tidy_prog (declare_forwards vid fs) st L Q"
  by (induction fs) auto

lemma tidy_bring_up: "(\<And>r st'. Q r st' L) \<Longrightarrow> tidy_prog (bring_up cfg v tpl ar) st L Q"
  by (auto simp: bring_up_def Let_def best_effort_def split: option.splits)

lemma tidy_apply_network: "(\<And>r. Q r st L) \<Longrightarrow> tidy_prog (apply_network vid) st L Q"
  by (auto simp: apply_network_def q_get_vm_def split: option.splits)

lemma tidy_finalize_stop: "tidy_prog (finalize_stop v) st L (keeps L)"
  by (auto simp: finalize_stop_def flow_defs split: Lifecycle.splits option.splits)

lemma tidy_rollback: "(\<And>st'. Q () st' L) \<Longrightarrow> tidy_prog (rollback vid slot) st L Q"
  by (auto simp: rollback_def flow_defs split: sum.splits)

lemma tidy_terminate: "tidy_prog (terminate_vm_locked vid) st L (keeps L)"
  by (auto simp: terminate_vm_locked_def flow_defs simp del: check_gone.simps
      intro!: tidy_check_gone split: option.splits)

lemma tidy_start: "tidy_prog (start_vm_locked cfg vid) st L (keeps L)"
  by (auto simp: start_vm_locked_def flow_defs Let_def intro!: tidy_bring_up
      split: option.splits sum.splits VmState.splits)

lemma tidy_handle_exit_locked: "tidy_prog (handle_exit_locked cfg v failed) st L (keeps L)"
  using tidy_finalize_stop tidy_start
  by (auto simp: handle_exit_locked_def flow_defs split: option.splits)

lemma tidy_reap: "tidy_prog (reap cfg vid) st None (keeps None)"
  unfolding reap_def
  by (rule tidy_locked) (auto simp: flow_defs intro!: tidy_handle_exit_locked split: option.splits)

lemma tidy_abandon: "tidy_prog (abandon vid) st None (keeps None)"
  unfolding abandon_def by (rule tidy_locked) (auto simp: flow_defs Let_def split: option.splits)

lemma tidy_supervise_each: "tidy_prog (supervise_each cfg vs) st None (keeps None)"
proof (induction vs arbitrary: st)
  case (Cons v vs)
  then show ?case
    by (auto simp: note_alive_def intro!: tidy_then [OF tidy_reap] split: sum.splits VmStatus.splits)
qed simp

lemma tidy_recover_each: "tidy_prog (recover_each cfg vs) st None (keeps None)"
proof (induction vs arbitrary: st)
  case (Cons v vs)
  then show ?case
    by (auto simp: qmark_p_def intro!: tidy_then [OF tidy_reap] tidy_then [OF tidy_abandon] split: VmState.splits)
qed simp

lemma tidy_create: "tidy_prog (create_vm cfg K req) st None (keeps None)"
proof -
  have "tidy_prog (locked vid (create_vm_locked cfg req tpl vid)) st None (keeps None)" for vid tpl st
    by (rule tidy_locked)
      (auto simp: create_vm_locked_def create_vm_placed_def flow_defs Let_def
        intro!: tidy_allocate_ports tidy_declare_forwards tidy_rollback tidy_bring_up
        split: option.splits sum.splits)
  then show ?thesis
    by (auto simp: create_vm_def flow_defs Let_def split: option.splits)
qed

lemma tidy_handler: "tidy_prog (handler cfg K req) st None (keeps None)"
proof -
  have body: "tidy_prog (no_answer p) st None (keeps None)"
    if "tidy_prog p st None (keeps None)" for p :: "'a prog"
    using that by (simp add: no_answer_def)
  show ?thesis
  proof (cases req)
    case (R_Create r)
    then show ?thesis using body [OF tidy_create] by simp
  next
    case R_Supervise
    then show ?thesis
      by (auto simp: supervise_tick_def flow_defs intro!: body tidy_then [OF tidy_supervise_each])
  qed (auto simp: destroy_vm_def stop_vm_def halt_vm_def terminate_vm_def suspend_vm_def
      start_vm_def retire_suspension_def handle_exit_def set_policy_def set_policy_body_def store_policy_def add_forward_op_def remove_forward_op_def
      register_template_def flow_defs Let_def
      intro!: body tidy_locked tidy_wait_exit tidy_then [OF tidy_finalize_stop] tidy_terminate tidy_then [OF tidy_start]
        tidy_handle_exit_locked tidy_apply_network
      split: option.splits sum.splits)
qed

section \<open>Properties\<close>



section \<open>Editing a policy\<close>

definition reliable :: "Oracle \<Rightarrow> bool" where
  "reliable orc \<longleftrightarrow> (\<forall>tr. or_store orc tr = None)"

text \<open>What the lock and its release leave alone.\<close>

definition same_but_locks :: "ControlPlane \<Rightarrow> ControlPlane \<Rightarrow> bool" where
  "same_but_locks a b \<longleftrightarrow> cp_store a = cp_store b \<and> cp_slots a = cp_slots b \<and> cp_ports a = cp_ports b"

lemma run_locked:
  assumes "cp_held cp = {}" and "run (locked vid p) orc cp tr = Some (x, cp', tr')"
  obtains cp1 cp2 tr2 where "same_but_locks cp cp1" "run p orc cp1 tr = Some (x, cp2, tr2)"
    "same_but_locks cp2 cp'"
proof -
  obtain h cp0 where l: "vm_lock vid cp = (h, cp0)" by (cases "vm_lock vid cp")
  let ?cp1 = "cp0\<lparr>cp_held := insert h (cp_held cp0)\<rparr>"
  have "same_but_locks cp cp0" "cp_held cp0 = {}"
    using l assms(1) by (auto simp: vm_lock_def same_but_locks_def split: option.splits)
  moreover from this(2) obtain cp2 tr2 where "run p orc ?cp1 tr = Some (x, cp2, tr2)"
    "cp' = mem_exec (ReleaseLock h) cp2"
    using assms(2) l by (auto simp: locked_def run_bind split: option.splits)
  ultimately show ?thesis
    using that [of ?cp1 cp2 tr2] by (simp add: same_but_locks_def)
qed

text \<open>The signature on record, if any, describes the policy on record.\<close>

definition signed_ok :: "Codec \<Rightarrow> VmRecord \<Rightarrow> bool" where
  "signed_ok K v \<longleftrightarrow>
     (\<forall>s. v_signed v = Some s \<longrightarrow>
        check_signed K s (v_id v) (v_policy_gen v) (v_egress v) (v_principal v) (v_allow v) (v_rules v) = Ok ())"

definition merged :: "string option \<Rightarrow> string list option \<Rightarrow> string list option \<Rightarrow> EgressMode option \<Rightarrow>
    VmRecord \<Rightarrow> string option \<times> string list \<times> string list \<times> EgressMode" where
  "merged p a rs e v =
     (case p of Some x \<Rightarrow> Some x | None \<Rightarrow> v_principal v, case a of Some x \<Rightarrow> x | None \<Rightarrow> v_allow v,
      case rs of Some x \<Rightarrow> x | None \<Rightarrow> v_rules v, case e of Some x \<Rightarrow> x | None \<Rightarrow> v_egress v)"

text \<open>The record after an edit that stored something: a renewed signature, or a new policy.\<close>

definition edited ::
  "Codec \<Rightarrow> string option \<times> string list \<times> string list \<times> EgressMode \<Rightarrow> SignedPolicy option \<Rightarrow> VmRecord \<Rightarrow>
   VmRecord \<Rightarrow> bool" where
  "edited K m sp v v' \<longleftrightarrow>
     (case m of (p, a, rs, e) \<Rightarrow>
        (\<exists>s. sp = Some s \<and> m = (v_principal v, v_allow v, v_rules v, v_egress v) \<and>
           v' = v\<lparr>v_signed := Some s\<rparr> \<and> check_signed K s (v_id v) (v_policy_gen v) e p a rs = Ok ()) \<or>
        (v' = with_policy p a rs e sp v \<and> validate_policy a rs = Ok () \<and>
           (\<forall>s. sp = Some s \<longrightarrow> check_signed K s (v_id v) (v_policy_gen v + 1) e p a rs = Ok ())))"

lemma edited_signed_ok: "edited K m sp v v' \<Longrightarrow> signed_ok K v'"
  by (auto simp: edited_def signed_ok_def with_policy_def split: prod.splits)

lemma run_apply_network:
  assumes "reliable orc"
  shows "\<exists>r tr'. run (apply_network vid) orc cp tr = Some (r, cp, tr')"
  using assms
  by (auto simp: apply_network_def q_get_vm_def reliable_def qmark_def split: sum.splits option.splits)

lemma run_with_vm:
  assumes "reliable orc" and "db_wf (cp_store cp)" and "db_abs (cp_store cp) vid = Some v"
  shows "run (with_vm vid f) orc cp tr = run (f v) orc cp (tr @ [EvOther])"
  using assms get_vm_wf [OF assms(2), of vid]
  by (simp add: with_vm_def q_get_vm_def reliable_def ok_or_err_def)

lemma get_policy_gen_abs:
  assumes "db_wf db" and "db_abs db vid = Some v"
  shows "get_policy_gen vid db = Ok (v_policy_gen v)"
proof -
  from get_vm_wf [OF assms(1), of vid] assms(2) obtain r u where
    "find (\<lambda>r. w_id r = vmid_display vid) (db_vms db) = Some r" "vm_from_row r = Ok u"
    "v = u\<lparr>v_ingress := forwards_in vid db\<rparr>"
    by (auto simp: get_vm_def and_then_Inr_iff split: option.splits)
  then show ?thesis by (simp add: get_policy_gen_def vm_from_row_gen)
qed

text \<open>The two ways an edit ends: the policy stored, or the signature renewed.\<close>

lemma run_store_policy:
  assumes rel: "reliable orc" and wf: "db_wf (cp_store cp)"
    and gens: "\<forall>r \<in> set (db_vms (cp_store cp)). w_policy_gen r < 2 ^ 63 - 1"
    and v: "db_abs (cp_store cp) vid = Some v"
    and run: "run (store_policy vid p a rs e sp b) orc cp tr = Some (res, cp', tr')"
  shows "db_abs (cp_store cp') = (db_abs (cp_store cp))(vid \<mapsto> with_policy p a rs e sp v) \<and>
    (\<forall>g. res = Ok g \<longrightarrow> g = v_policy_gen v + 1)"
proof -
  let ?db = "update_policy vid p a rs e sp (cp_store cp)"
  have fits: "stmt_fits (UpdatePolicy vid p a rs e sp) (cp_store cp)" using gens by simp
  have wf': "db_wf ?db"
    by (rule db_exec_keeps_wf [OF wf fits]) simp
  have abs: "db_abs ?db = (db_abs (cp_store cp))(vid \<mapsto> with_policy p a rs e sp v)"
    using db_abs_update_policy [OF wf fits] v by (auto simp: fun_eq_iff)
  then have gen: "get_policy_gen vid ?db = Ok (v_policy_gen v + 1)"
    using get_policy_gen_abs [OF wf', of vid] by (simp add: with_policy_def)
  have "\<exists>r tr1. run (if b then apply_network vid else Ret (Ok ())) orc (cp\<lparr>cp_store := ?db\<rparr>)
      (tr @ [EvSql (UpdatePolicy vid p a rs e sp) True, EvOther]) = Some (r, cp\<lparr>cp_store := ?db\<rparr>, tr1)"
    using run_apply_network [OF rel] by simp
  then obtain r tr1 where "run (if b then apply_network vid else Ret (Ok ())) orc (cp\<lparr>cp_store := ?db\<rparr>)
      (tr @ [EvSql (UpdatePolicy vid p a rs e sp) True, EvOther]) = Some (r, cp\<lparr>cp_store := ?db\<rparr>, tr1)"
    by blast
  with run rel gen have "cp' = cp\<lparr>cp_store := ?db\<rparr> \<and> (\<forall>g. res = Ok g \<longrightarrow> g = v_policy_gen v + 1)"
    by (cases r) (auto simp: store_policy_def reliable_def sql_step_def q_policy_gen_def qmark_p_def run_bind)
  with abs show ?thesis by simp
qed

lemma run_refresh_signed:
  assumes "reliable orc" and "db_wf (cp_store cp)" and "db_abs (cp_store cp) vid = Some v"
    and "run (Sql (RefreshSigned vid s) (\<lambda>r. qmark r (\<lambda>_. Ret (Ok (v_policy_gen v))))) orc cp tr =
      Some (res, cp', tr')"
  shows "db_abs (cp_store cp') = (db_abs (cp_store cp))(vid \<mapsto> v\<lparr>v_signed := Some s\<rparr>) \<and>
    res = Ok (v_policy_gen v)"
proof -
  have "cp' = cp\<lparr>cp_store := refresh_signed vid s (cp_store cp)\<rparr>" "res = Ok (v_policy_gen v)"
    using assms(1,4) by (auto simp: reliable_def sql_step_def)
  then show ?thesis using db_abs_refresh_signed [OF assms(2)] assms(3) by (auto simp: fun_eq_iff)
qed

definition policy_outcome ::
  "Codec \<Rightarrow> string option \<times> string list \<times> string list \<times> EgressMode \<Rightarrow> SignedPolicy option \<Rightarrow> VmRecord \<Rightarrow>
   Db \<Rightarrow> (CpError, u64) result \<Rightarrow> Db \<Rightarrow> bool" where
  "policy_outcome K m sp v db res db' \<longleftrightarrow>
     (db_abs db' = db_abs db \<and> isl res) \<or>
     (\<exists>v'. db_abs db' = (db_abs db)(v_id v \<mapsto> v') \<and> edited K m sp v v' \<and> signed_ok K v' \<and>
        (\<forall>g. res = Ok g \<longrightarrow> g = v_policy_gen v'))"

lemma run_set_policy_body:
  assumes rel: "reliable orc" and wf: "db_wf (cp_store cp)"
    and gens: "\<forall>r \<in> set (db_vms (cp_store cp)). w_policy_gen r < 2 ^ 63 - 1"
    and v: "db_abs (cp_store cp) vid = Some v"
    and run: "run (set_policy_body K vid p a rs e sp v) orc cp tr = Some (res, cp', tr')"
  shows "policy_outcome K (merged p a rs e v) sp v (cp_store cp) res (cp_store cp')"
proof -
  have vid: "v_id v = vid" by (rule db_abs_id [OF wf v])
  obtain p1 a1 rs1 e1 where m: "merged p a rs e v = (p1, a1, rs1, e1)" by (metis prod_cases4)
  have stored: "policy_outcome K (p1, a1, rs1, e1) sp v (cp_store cp) res (cp_store cp')"
    if "run (store_policy vid p1 a1 rs1 e1 sp (e1 \<noteq> v_egress v)) orc cp tr = Some (res, cp', tr')"
      "validate_policy a1 rs1 = Ok ()"
      "\<forall>s. sp = Some s \<longrightarrow> check_signed K s vid (v_policy_gen v + 1) e1 p1 a1 rs1 = Ok ()"
  proof -
    have ed: "edited K (p1, a1, rs1, e1) sp v (with_policy p1 a1 rs1 e1 sp v)"
      using that(2,3) vid by (simp add: edited_def)
    from run_store_policy [OF rel wf gens v that(1)] edited_signed_ok [OF ed] ed vid show ?thesis
      by (auto simp: policy_outcome_def with_policy_def)
  qed
  have renewed: "policy_outcome K (p1, a1, rs1, e1) sp v (cp_store cp) res (cp_store cp')"
    if "run (Sql (RefreshSigned vid s) (\<lambda>r. qmark r (\<lambda>_. Ret (Ok (v_policy_gen v))))) orc cp tr = Some (res, cp', tr')"
      "sp = Some s" "p1 = v_principal v" "a1 = v_allow v" "rs1 = v_rules v" "e1 = v_egress v"
      "check_signed K s vid (v_policy_gen v) e1 p1 a1 rs1 = Ok ()" for s
  proof -
    have ed: "edited K (p1, a1, rs1, e1) sp v (v\<lparr>v_signed := Some s\<rparr>)"
      using that(2-) vid by (simp add: edited_def)
    from run_refresh_signed [OF rel wf v that(1)] edited_signed_ok [OF ed] ed vid show ?thesis
      by (auto simp: policy_outcome_def)
  qed
  have same: "policy_outcome K (p1, a1, rs1, e1) sp v (cp_store cp) (Err e') (cp_store cp)" for e'
    by (simp add: policy_outcome_def)
  show ?thesis
    using run m same stored renewed
    by (auto simp: set_policy_body_def merged_def Let_def qmark_def split: option.splits sum.splits if_splits)
qed

text \<open>C35: editing a VM's policy, alone and with a working store, either changes nothing and
  fails, or renews the signature of an unchanged policy at its generation, or stores the
  merged policy, which compiles, one generation on together with the signature given (none
  clears the old one). On success it returns the generation then on record. A signature is
  stored only with the policy and generation it describes, and no other record changes.\<close>

theorem set_policy_spec:
  assumes "reliable orc" and "cp_held cp = {}" and "db_wf (cp_store cp)"
    and "\<forall>r \<in> set (db_vms (cp_store cp)). w_policy_gen r < 2 ^ 63 - 1"
    and "db_abs (cp_store cp) vid = Some v"
    and "run (set_policy K vid p a rs e sp) orc cp [] = Some (res, cp', tr)"
  shows "policy_outcome K (merged p a rs e v) sp v (cp_store cp) res (cp_store cp')"
proof -
  from assms(6) [unfolded set_policy_def] obtain cp1 cp2 tr2 where
    s: "same_but_locks cp cp1" "same_but_locks cp2 cp'"
    and body: "run (with_vm vid (set_policy_body K vid p a rs e sp)) orc cp1 [] = Some (res, cp2, tr2)"
    by (rule run_locked [OF assms(2)])
  from s have st: "cp_store cp1 = cp_store cp" "cp_store cp' = cp_store cp2"
    by (simp_all add: same_but_locks_def)
  have "run (set_policy_body K vid p a rs e sp v) orc cp1 [EvOther] = Some (res, cp2, tr2)"
    using body assms(3,5) st by (simp add: run_with_vm [OF assms(1)])
  from run_set_policy_body [OF assms(1) _ _ _ this] assms(3,4,5) st show ?thesis by simp
qed

lemma run_returns:
  assumes "tidy_prog p ({}, {}) None Q" and "cp_held cp = {}"
  shows "\<exists>x cp' tr. run p orc cp [] = Some (x, cp', tr)"
  using tidy_run [OF _ _ assms(1), of "({}, {})" "[]" cp orc] assms(2)
  by (auto simp: tidy_result_def split: option.splits)

lemma tidy_set_policy: "tidy_prog (set_policy K vid p a rs e sp) st None (keeps None)"
  unfolding set_policy_def
  by (rule tidy_locked)
    (auto simp: set_policy_body_def store_policy_def flow_defs Let_def intro!: tidy_apply_network split: option.splits)

abbreviation sample_cp :: ControlPlane where
  "sample_cp \<equiv> control_plane_new sample_cfg sample_db"

lemma sample_cp_state: "cp_held sample_cp = {}" "cp_store sample_cp = sample_db" "reliable sample_oracle"
  by (simp_all add: control_plane_new_def reliable_def sample_oracle_def)

lemma sample_abs: "db_abs sample_db 7 = Some sample_vm"
  using db_abs_insert [OF db_wf_empty sample_vm_fits(1) sample_insert, of 7] by (simp add: sample_vm_def)

theorem set_policy_spec_witness:
  "\<exists>res cp' tr. run (set_policy sample_codec 7 (Some ''alice'') None None None None) sample_oracle sample_cp [] =
      Some (res, cp', tr) \<and>
    policy_outcome sample_codec (merged (Some ''alice'') None None None sample_vm) None sample_vm sample_db res (cp_store cp')"
proof -
  obtain res cp' tr where r: "run (set_policy sample_codec 7 (Some ''alice'') None None None None)
      sample_oracle sample_cp [] = Some (res, cp', tr)"
    using run_returns [OF tidy_set_policy sample_cp_state(1)] by blast
  with set_policy_spec [OF sample_cp_state(3,1) _ _ _ r, of sample_vm] show ?thesis
    using sample_db_wf sample_db_gen sample_abs sample_cp_state(2) by auto
qed

end
