(* ===== verification/Iso_Create.thy ===== *)
theory Iso_Create
  imports Iso_Ops "HOL-Library.Multiset"
begin

text \<open>
  Creating a VM, alone and with a working store: either the VM runs, on a slot and with host
  ports that were free, or nothing of the attempt is left behind.
\<close>

section \<open>The steps of a create\<close>

lemma run_bring_up:
  "\<exists>r tr'. run (bring_up cfg v tpl ar) orc cp tr = Some (r, cp, tr') \<and>
     (\<forall>v'. r = Ok v' \<longrightarrow> (\<exists>d t. v' = v\<lparr>v_rootfs_device := Some d, v_tap := Some t\<rparr>))"
  by (auto simp: bring_up_def Let_def best_effort_def qmark_c_def qmark_def
      split: option.splits sum.splits)

lemma alloc_port_frame:
  assumes "ports_invar (cp_ports cp)"
  shows "ports_invar (snd (port_allocate (cp_ports cp)))"
    "pa_used (snd (port_allocate (cp_ports cp))) =
       pa_used (cp_ports cp) \<union> set_option (fst (port_allocate (cp_ports cp)))"
    "set_option (fst (port_allocate (cp_ports cp))) \<inter> pa_used (cp_ports cp) = {}"
proof -
  obtain q a where qa: "port_allocate (cp_ports cp) = (q, a)" by (cases "port_allocate (cp_ports cp)")
  show "ports_invar (snd (port_allocate (cp_ports cp)))" by (rule ports.invar_allocate [OF assms])
  show "pa_used (snd (port_allocate (cp_ports cp))) =
       pa_used (cp_ports cp) \<union> set_option (fst (port_allocate (cp_ports cp)))"
    "set_option (fst (port_allocate (cp_ports cp))) \<inter> pa_used (cp_ports cp) = {}"
    using ports.allocate_Some [OF assms, of _ a] ports.allocate_None [OF assms, of a] qa
    by (cases q; simp)+
qed

text \<open>The ports taken for a list of forwards are new ones, and nothing else changes.\<close>

lemma run_allocate_ports:
  assumes "ports_invar (cp_ports cp)"
  shows "\<exists>r a tr' new. run (allocate_ports acc fs) orc cp tr = Some (r, cp\<lparr>cp_ports := a\<rparr>, tr') \<and>
    ports_invar a \<and> pa_used a = pa_used (cp_ports cp) \<union> host_port ` set new \<and>
    host_port ` set new \<inter> pa_used (cp_ports cp) = {} \<and>
    (r = Err (acc @ new) \<or>
     r = Ok (acc @ new) \<and> map (\<lambda>f. (vm_port f, proto f)) new = map (\<lambda>f. (vm_port f, proto f)) fs)"
  using assms
proof (induction fs arbitrary: acc cp tr)
  case Nil
  then show ?case by (auto intro!: exI [of _ "cp_ports cp"])
next
  case (Cons f fs)
  obtain q a where qa: "port_allocate (cp_ports cp) = (q, a)" by (cases "port_allocate (cp_ports cp)")
  note frame = alloc_port_frame [OF Cons.prems, unfolded qa fst_conv snd_conv]
  show ?case
  proof (cases q)
    case None
    with qa frame show ?thesis
      by (auto simp: alloc_port_step_def intro!: exI [of _ a] exI [of _ "[]"])
  next
    case (Some p)
    let ?f = "\<lparr>host_port = p, vm_port = vm_port f, proto = proto f\<rparr>"
    from Cons.IH [of "cp\<lparr>cp_ports := a\<rparr>" "acc @ [?f]" "tr @ [EvPort (Some p)]"] frame(1)
    obtain r a' tr' new where
      "run (allocate_ports (acc @ [?f]) fs) orc (cp\<lparr>cp_ports := a\<rparr>) (tr @ [EvPort (Some p)]) =
        Some (r, cp\<lparr>cp_ports := a'\<rparr>, tr')" "ports_invar a'"
      "pa_used a' = pa_used a \<union> host_port ` set new" "host_port ` set new \<inter> pa_used a = {}"
      "r = Err (acc @ ?f # new) \<or> r = Ok (acc @ ?f # new) \<and>
        map (\<lambda>f. (vm_port f, proto f)) new = map (\<lambda>f. (vm_port f, proto f)) fs"
      by auto
    with qa Some frame show ?thesis
      by (intro exI [of _ r] exI [of _ a'] exI [of _ tr'] exI [of _ "?f # new"])
        (auto simp: alloc_port_step_def)
  qed
qed

definition fwd_row :: "VmId \<Rightarrow> PortForward \<Rightarrow> ForwardRow" where
  "fwd_row vid f = \<lparr>fr_vm_id = vmid_display vid, fr_host_port = host_port f, fr_vm_port = vm_port f,
     fr_proto = proto_str (proto f)\<rparr>"

lemma run_declare_forwards:
  assumes "reliable orc" and "db_wf (cp_store cp)"
  shows "\<exists>r tr' fw. run (declare_forwards vid fs) orc cp tr =
      Some (r, cp\<lparr>cp_store := (cp_store cp)\<lparr>db_forwards := db_forwards (cp_store cp) @ fw\<rparr>\<rparr>, tr') \<and>
    db_wf ((cp_store cp)\<lparr>db_forwards := db_forwards (cp_store cp) @ fw\<rparr>) \<and>
    (\<forall>f \<in> set fw. fr_vm_id f = vmid_display vid) \<and> (r = Ok () \<longrightarrow> fw = map (fwd_row vid) fs)"
  using assms(2)
proof (induction fs arbitrary: cp tr)
  case Nil
  then show ?case by (auto intro!: exI [of _ "[]"])
next
  case (Cons f fs)
  show ?case
  proof (cases "add_forward vid f (cp_store cp)")
    case (Inl e)
    with assms(1) Cons.prems show ?thesis
      by (auto simp: sql_step_def reliable_def intro!: exI [of _ "[]"])
  next
    case (Inr db')
    then have db': "db' = (cp_store cp)\<lparr>db_forwards := db_forwards (cp_store cp) @ [fwd_row vid f]\<rparr>"
      by (auto simp: add_forward_def fwd_row_def split: if_splits)
    have wf: "db_wf db'"
      using db_exec_keeps_wf [OF Cons.prems, of "AddForward vid f" 1 db'] Inr by simp
    from Cons.IH [of "cp\<lparr>cp_store := db'\<rparr>" "tr @ [EvSql (AddForward vid f) True]"] wf
    obtain r tr' fw where
      "run (declare_forwards vid fs) orc (cp\<lparr>cp_store := db'\<rparr>) (tr @ [EvSql (AddForward vid f) True]) =
        Some (r, cp\<lparr>cp_store := (cp_store cp)\<lparr>db_forwards := db_forwards (cp_store cp) @ fwd_row vid f # fw\<rparr>\<rparr>, tr')"
      "db_wf ((cp_store cp)\<lparr>db_forwards := db_forwards (cp_store cp) @ fwd_row vid f # fw\<rparr>)"
      "\<forall>f \<in> set fw. fr_vm_id f = vmid_display vid" "r = Ok () \<longrightarrow> fw = map (fwd_row vid) fs"
      by (auto simp: db')
    with Inr assms(1) show ?thesis
      by (intro exI [of _ r] exI [of _ tr'] exI [of _ "fwd_row vid f # fw"])
        (auto simp: sql_step_def reliable_def fwd_row_def)
  qed
qed

lemma run_rollback:
  assumes "reliable orc"
  shows "\<exists>cp' tr'. run (rollback vid slot) orc cp tr = Some ((), cp', tr') \<and>
    cp_store cp' = delete_vm vid (cp_store cp) \<and> cp_slots cp' = slot_free slot (cp_slots cp) \<and>
    cp_ports cp' = cp_ports cp"
  using assms by (auto simp: rollback_def best_effort_def free_slot_def sql_step_def reliable_def)

section \<open>The two outcomes\<close>

text \<open>Only a lock, or where the rotation stands, may differ.\<close>

definition nothing_left :: "ControlPlane \<Rightarrow> ControlPlane \<Rightarrow> bool" where
  "nothing_left cp cp' \<longleftrightarrow>
     db_vms (cp_store cp') = db_vms (cp_store cp) \<and> db_forwards (cp_store cp') = db_forwards (cp_store cp) \<and>
     slots_taken (cp_slots cp') = slots_taken (cp_slots cp) \<and> pa_used (cp_ports cp') = pa_used (cp_ports cp)"

definition ports_asked :: "PortForward list \<Rightarrow> (u16 \<times> Protocol) multiset" where
  "ports_asked fs = mset (map (\<lambda>f. (vm_port f, proto f)) fs)"

definition vm_created :: "CreateVm \<Rightarrow> VmId \<Rightarrow> ControlPlane \<Rightarrow> ControlPlane \<Rightarrow> bool" where
  "vm_created req vid cp cp' \<longleftrightarrow>
     (\<exists>slot v. slot \<in> slots_universe (cp_slots cp) - slots_taken (cp_slots cp) \<and>
        slots_taken (cp_slots cp') = insert slot (slots_taken (cp_slots cp)) \<and>
        db_abs (cp_store cp) vid = None \<and> db_abs (cp_store cp') = (db_abs (cp_store cp))(vid \<mapsto> v) \<and>
        v_slot v = Some slot \<and> v_state v = Running \<and> v_lifecycle v = c_lifecycle req \<and>
        v_restart v = c_restart req \<and> v_policy_gen v = 1 \<and>
        (v_principal v, v_allow v, v_rules v, v_egress v, v_signed v) =
          (c_principal req, c_allow req, c_rules req, c_egress req, c_signed req) \<and>
        ports_asked (v_ingress v) = ports_asked (c_ingress req) \<and>
        host_port ` set (v_ingress v) \<inter> pa_used (cp_ports cp) = {} \<and>
        pa_used (cp_ports cp') = pa_used (cp_ports cp) \<union> host_port ` set (v_ingress v))"

lemma db_abs_forwards:
  assumes "db_vms db' = db_vms db"
  shows "db_abs db' k = map_option (v_ingress_update (\<lambda>_. forwards_in k db')) (db_abs db k)"
proof (cases "find (\<lambda>r. w_id r = vmid_display k) (db_vms db)")
  case (Some r)
  with assms show ?thesis
    by (cases "vm_from_row r") (simp_all add: db_abs_def get_vm_def)
qed (simp add: assms db_abs_def get_vm_def)

lemma forwards_in_append:
  assumes "\<forall>f \<in> set fw. fr_vm_id f = vmid_display vid"
  shows "forwards_in k (db\<lparr>db_forwards := db_forwards db @ fw\<rparr>) =
    (if k = vid
     then map (\<lambda>r. \<lparr>host_port = fr_host_port r, vm_port = fr_vm_port r, proto = proto_parse (fr_proto r)\<rparr>)
       (sort_key fr_host_port (filter (\<lambda>r. fr_vm_id r = vmid_display vid) (db_forwards db) @ fw))
     else forwards_in k db)"
proof -
  have "filter (\<lambda>r. fr_vm_id r = vmid_display k) fw = (if k = vid then fw else [])"
    using assms by (auto simp: filter_id_conv filter_empty_conv)
  then show ?thesis by (simp add: forwards_in_def)
qed

lemma fwd_row_reads:
  "(\<lambda>r. \<lparr>host_port = fr_host_port r, vm_port = fr_vm_port r, proto = proto_parse (fr_proto r)\<rparr>) \<circ> fwd_row vid = (\<lambda>f. f)"
  by (simp add: fwd_row_def fun_eq_iff)

text \<open>A new VM's forwards read back as those declared, in the order of their host ports.\<close>

lemma forwards_in_new:
  assumes "db_wf db" and "vm_count vid db = 0" and "db_forwards db1 = db_forwards db"
  shows "mset (forwards_in vid (db1\<lparr>db_forwards := db_forwards db1 @ map (fwd_row vid) fs\<rparr>)) = mset fs"
proof -
  have none: "filter (\<lambda>r. fr_vm_id r = vmid_display vid) (db_forwards db) = []"
    using assms(1,2) by (metis (mono_tags, lifting) db_wf_def vm_count_0_iff filter_empty_conv)
  have "\<forall>f \<in> set (map (fwd_row vid) fs). fr_vm_id f = vmid_display vid" by (simp add: fwd_row_def)
  from forwards_in_append [OF this, of vid db1] show ?thesis
    by (simp add: assms(3) none image_mset.compositionality fwd_row_reads)
qed

text \<open>Undoing an insert and the forwards declared with it.\<close>

lemma delete_undoes:
  assumes "db_wf db" and "vm_count vid db = 0" and "v_id v = vid"
    and "db1 = db\<lparr>db_vms := db_vms db @ [row_of_vm v]\<rparr>"
    and "\<forall>f \<in> set fw. fr_vm_id f = vmid_display vid"
  shows "db_vms (delete_vm vid (db1\<lparr>db_forwards := db_forwards db1 @ fw\<rparr>)) = db_vms db"
    "db_forwards (delete_vm vid (db1\<lparr>db_forwards := db_forwards db1 @ fw\<rparr>)) = db_forwards db"
proof -
  have "filter (\<lambda>r. w_id r \<noteq> vmid_display vid) (db_vms db) = db_vms db"
    using assms(2) by (simp add: vm_count_0_iff filter_id_conv image_iff) metis
  then show "db_vms (delete_vm vid (db1\<lparr>db_forwards := db_forwards db1 @ fw\<rparr>)) = db_vms db"
    using assms(3,4) by (simp add: delete_vm_def row_of_vm_def)
  have "filter (\<lambda>r. fr_vm_id r \<noteq> vmid_display vid) (db_forwards db) = db_forwards db"
    using assms(1,2) by (auto simp: db_wf_def vm_count_0_iff filter_id_conv) metis
  moreover have "filter (\<lambda>r. fr_vm_id r \<noteq> vmid_display vid) fw = []"
    using assms(5) by (simp add: filter_empty_conv)
  ultimately show "db_forwards (delete_vm vid (db1\<lparr>db_forwards := db_forwards db1 @ fw\<rparr>)) = db_forwards db"
    using assms(4) by (simp add: delete_vm_def)
qed

text \<open>The record filed when the VM has come up.\<close>

lemma created_record:
  assumes wf: "db_wf db" and new: "vm_count vid db = 0" and fits: "slot_get slot \<le> slot_max"
    and v: "v = new_record req vid slot ingress"
    and ins: "insert_vm v db = Ok db1"
    and db2: "db2 = db1\<lparr>db_forwards := db_forwards db1 @ map (fwd_row vid) ingress\<rparr>" and wf2: "db_wf db2"
    and v': "v' = v\<lparr>v_rootfs_device := d, v_tap := tp, v_state := Running\<rparr>"
  shows "db_abs (update_placement v' db2) =
    (db_abs db)(vid \<mapsto> v'\<lparr>v_ingress := forwards_in vid db2\<rparr>)"
    and "mset (forwards_in vid db2) = mset ingress"
proof -
  have vf: "vm_fits v" "vm_fits v'" and id: "v_id v = vid" "v_id v' = vid" and sn: "v_snapshot v = None"
    using fits by (simp_all add: v v' new_record_def vm_fits_def)
  have db1: "db1 = db\<lparr>db_vms := db_vms db @ [row_of_vm v]\<rparr>"
    using ins by (auto simp: insert_vm_def split: if_splits)
  show m: "mset (forwards_in vid db2) = mset ingress"
    unfolding db2 by (rule forwards_in_new [OF wf new]) (simp add: db1)
  have other: "db_abs db2 k = db_abs db k" if "k \<noteq> vid" for k
  proof -
    have fw: "forwards_in k db2 = forwards_in k db1"
      using that unfolding db2 by (subst forwards_in_append [where vid = vid]) (auto simp: fwd_row_def)
    have "db_abs db2 k = map_option (v_ingress_update (\<lambda>_. forwards_in k db1)) (db_abs db1 k)"
      using db_abs_forwards [of db2 db1 k] by (simp add: db2 fw [unfolded db2])
    also have "\<dots> = db_abs db1 k" using db_abs_forwards [of db1 db1 k] by simp
    finally show ?thesis using db_abs_insert [OF wf vf(1) ins, of k] that id by simp
  qed
  have mine: "db_abs db2 vid = Some (v\<lparr>v_ingress := forwards_in vid db2\<rparr>)"
    using db_abs_forwards [of db2 db1 vid] db_abs_insert [OF wf vf(1) ins, of vid] id sn
    by (simp add: db2)
  show "db_abs (update_placement v' db2) = (db_abs db)(vid \<mapsto> v'\<lparr>v_ingress := forwards_in vid db2\<rparr>)"
    using db_abs_update_placement [OF wf2 vf(2)] other mine id
    by (auto simp: fun_eq_iff with_placement_def v' v new_record_def)
qed

lemma free_new_ports:
  assumes "ports_invar a" and "pa_used a = X \<union> host_port ` set new" and "host_port ` set new \<inter> X = {}"
  shows "pa_used (fold port_free (map host_port new) a) = X"
  using ports.fold_free [OF assms(1), of "map host_port new"] assms(2,3) by auto

lemma free_new_slot:
  assumes "slots_invar a" and "slots_taken a = X \<union> {s}" and "s \<notin> X"
  shows "slots_taken (slot_free s a) = X"
  using slots.taken_free [OF assms(1), of s] assms(2,3) by auto

definition placed_result ::
  "CreateVm \<Rightarrow> VmId \<Rightarrow> SlotId \<Rightarrow> PortForward list \<Rightarrow> ControlPlane \<Rightarrow> (CpError, VmId) result \<Rightarrow> ControlPlane \<Rightarrow> bool" where
  "placed_result req vid slot ingress cp r cp' \<longleftrightarrow>
    (case r of
       Inl _ \<Rightarrow> db_vms (cp_store cp') = db_vms (cp_store cp) \<and>
         db_forwards (cp_store cp') = db_forwards (cp_store cp) \<and>
         cp_slots cp' = slot_free slot (cp_slots cp) \<and>
         cp_ports cp' = fold port_free (map host_port ingress) (cp_ports cp)
     | Inr i \<Rightarrow> i = vid \<and> cp_slots cp' = cp_slots cp \<and> cp_ports cp' = cp_ports cp \<and>
         (\<exists>d tp fws. mset fws = mset ingress \<and> db_abs (cp_store cp') = (db_abs (cp_store cp))(vid \<mapsto>
            (new_record req vid slot fws)\<lparr>v_rootfs_device := d, v_tap := tp, v_state := Running\<rparr>)))"

lemma run_create_placed:
  assumes rel: "reliable orc" and wf: "db_wf (cp_store cp)" and new: "vm_count vid (cp_store cp) = 0"
    and fits: "slot_get slot \<le> slot_max"
  shows "\<exists>r cp' tr'. run (create_vm_placed cfg req tpl vid slot ingress) orc cp tr = Some (r, cp', tr') \<and>
    placed_result req vid slot ingress cp r cp'"
proof -
  let ?v = "new_record req vid slot ingress"
  have vid: "v_id ?v = vid" and vf: "vm_fits ?v" and gen: "uint (v_policy_gen ?v) < 2 ^ 63"
    using fits by (simp_all add: new_record_def vm_fits_def)
  define db1 where "db1 = (cp_store cp)\<lparr>db_vms := db_vms (cp_store cp) @ [row_of_vm ?v]\<rparr>"
  have ins: "insert_vm ?v (cp_store cp) = Ok db1" using new gen vid by (simp add: insert_vm_def db1_def)
  have wf1: "db_wf db1"
    using db_exec_keeps_wf [OF wf, of "InsertVm ?v" 1 db1] ins vf by simp
  let ?t1 = "tr @ [EvSql (InsertVm ?v) True]"
  from run_declare_forwards [OF rel, of "cp\<lparr>cp_store := db1\<rparr>" vid ingress ?t1] wf1
  obtain r t2 fw where fwd: "run (declare_forwards vid ingress) orc (cp\<lparr>cp_store := db1\<rparr>) ?t1 =
      Some (r, cp\<lparr>cp_store := db1\<lparr>db_forwards := db_forwards db1 @ fw\<rparr>\<rparr>, t2)"
    and wf2: "db_wf (db1\<lparr>db_forwards := db_forwards db1 @ fw\<rparr>)"
    and mine: "\<forall>f \<in> set fw. fr_vm_id f = vmid_display vid" and ok: "r = Ok () \<longrightarrow> fw = map (fwd_row vid) ingress"
    by auto
  define db2 where "db2 = db1\<lparr>db_forwards := db_forwards db1 @ fw\<rparr>"
  note undo = delete_undoes [OF wf new vid db1_def mine]
  define G where "G = (\<lambda>e :: CpError. bind (free_ports ingress) (\<lambda>_. bind (rollback vid slot) (\<lambda>_. Ret (Err e :: (CpError, VmId) result))))"
  have prog: "create_vm_placed cfg req tpl vid slot ingress = Sql (InsertVm ?v) (\<lambda>r. qmark r (\<lambda>_.
      bind (declare_forwards vid ingress) (\<lambda>r. case r of
        Inl e \<Rightarrow> G e
      | Inr _ \<Rightarrow>
          bind (bring_up cfg ?v tpl True) (\<lambda>r. case r of
            Inr v' \<Rightarrow> Sql (UpdatePlacement (v'\<lparr>v_state := Running\<rparr>)) (\<lambda>r. qmark r (\<lambda>_. Ret (Ok vid)))
          | Inl e \<Rightarrow> G e))))"
    unfolding create_vm_placed_def Let_def G_def ..
  have fail: "\<exists>cp' tr'. run (G e) orc
      (cp\<lparr>cp_store := db2\<rparr>) t = Some (Err e, cp', tr') \<and>
      db_vms (cp_store cp') = db_vms (cp_store cp) \<and> db_forwards (cp_store cp') = db_forwards (cp_store cp) \<and>
      cp_slots cp' = slot_free slot (cp_slots cp) \<and>
      cp_ports cp' = fold port_free (map host_port ingress) (cp_ports cp)" for e :: CpError and t
    using run_rollback [OF rel, of vid slot "cp\<lparr>cp_store := db2, cp_ports := fold port_free (map host_port ingress) (cp_ports cp)\<rparr>"
        "t @ [EvMem (FreePorts (map host_port ingress))]"] undo
    by (auto simp: G_def free_ports_def run_bind db2_def)
  note exec = sql_step_def reliable_def run_bind
  obtain b t3 where up: "run (bring_up cfg ?v tpl True) orc (cp\<lparr>cp_store := db2\<rparr>) t2 = Some (b, cp\<lparr>cp_store := db2\<rparr>, t3)"
    and b: "\<forall>v'. b = Ok v' \<longrightarrow> (\<exists>d t. v' = ?v\<lparr>v_rootfs_device := Some d, v_tap := Some t\<rparr>)"
    using run_bring_up by blast
  show ?thesis
  proof (cases r)
    case (Inl e)
    have "run (create_vm_placed cfg req tpl vid slot ingress) orc cp tr = run (G e) orc (cp\<lparr>cp_store := db2\<rparr>) t2"
      using rel ins fwd Inl by (simp add: prog exec db2_def)
    with fail [of e t2] show ?thesis by (auto simp: placed_result_def)
  next
    case (Inr u)
    show ?thesis
    proof (cases b)
      case (Inl e)
      have "run (create_vm_placed cfg req tpl vid slot ingress) orc cp tr = run (G e) orc (cp\<lparr>cp_store := db2\<rparr>) t3"
        using rel ins fwd up Inl \<open>r = Ok u\<close> by (simp add: prog exec db2_def)
      with fail [of e t3] show ?thesis by (auto simp: placed_result_def)
    next
      case (Inr v')
      with b obtain d tp where v': "v' = ?v\<lparr>v_rootfs_device := Some d, v_tap := Some tp\<rparr>" by blast
      have db2': "db2 = db1\<lparr>db_forwards := db_forwards db1 @ map (fwd_row vid) ingress\<rparr>"
        using ok \<open>r = Ok u\<close> by (simp add: db2_def)
      let ?r = "?v\<lparr>v_rootfs_device := Some d, v_tap := Some tp, v_state := Running\<rparr>"
      have run: "\<exists>tr'. run (create_vm_placed cfg req tpl vid slot ingress) orc cp tr =
          Some (Ok vid, cp\<lparr>cp_store := update_placement ?r db2\<rparr>, tr')"
        using rel ins fwd up Inr \<open>r = Ok u\<close> v' by (simp add: prog exec db2_def)
      have "?r\<lparr>v_ingress := forwards_in vid db2\<rparr> =
          (new_record req vid slot (forwards_in vid db2))\<lparr>v_rootfs_device := Some d, v_tap := Some tp, v_state := Running\<rparr>"
        by (simp add: new_record_def)
      with created_record [OF wf new fits refl ins db2' wf2 [folded db2_def], where v' = ?r and d = "Some d" and tp = "Some tp"]
      have "mset (forwards_in vid db2) = mset ingress" "db_abs (update_placement ?r db2) = (db_abs (cp_store cp))(vid \<mapsto>
          (new_record req vid slot (forwards_in vid db2))\<lparr>v_rootfs_device := Some d, v_tap := Some tp, v_state := Running\<rparr>)"
        by simp_all
      with run show ?thesis by (fastforce simp: placed_result_def)
    qed
  qed
qed

text \<open>A create's outcome, given the slot it was placed on and the ports it was given.\<close>

lemma placed_outcome:
  assumes si: "slots_invar (cp_slots cp1)" and pi: "ports_invar a"
    and st: "slots_taken (cp_slots cp1) = slots_taken (cp_slots cp) \<union> {s}" "s \<notin> slots_taken (cp_slots cp)"
      "s \<in> slots_universe (cp_slots cp)"
    and used: "pa_used a = pa_used (cp_ports cp) \<union> host_port ` set new"
      "host_port ` set new \<inter> pa_used (cp_ports cp) = {}"
    and db: "db_vms (cp_store cp1) = db_vms (cp_store cp)" "db_forwards (cp_store cp1) = db_forwards (cp_store cp)"
  shows "db_vms (cp_store cp') = db_vms (cp_store cp1) \<Longrightarrow> db_forwards (cp_store cp') = db_forwards (cp_store cp1) \<Longrightarrow>
      cp_slots cp' = slot_free s (cp_slots cp1) \<Longrightarrow> cp_ports cp' = fold port_free (map host_port new) a \<Longrightarrow>
      nothing_left cp cp'"
    and "cp_slots cp' = cp_slots cp1 \<Longrightarrow> cp_ports cp' = a \<Longrightarrow> mset fws = mset new \<Longrightarrow>
      db_abs (cp_store cp) vid = None \<Longrightarrow> ports_asked new = ports_asked (c_ingress req) \<Longrightarrow>
      db_abs (cp_store cp') = (db_abs (cp_store cp1))(vid \<mapsto>
        (new_record req vid s fws)\<lparr>v_rootfs_device := d, v_tap := tp, v_state := Running\<rparr>) \<Longrightarrow>
      vm_created req vid cp cp'"
proof -
  assume "db_vms (cp_store cp') = db_vms (cp_store cp1)" "db_forwards (cp_store cp') = db_forwards (cp_store cp1)"
    "cp_slots cp' = slot_free s (cp_slots cp1)" "cp_ports cp' = fold port_free (map host_port new) a"
  with free_new_slot [OF si st(1,2)] free_new_ports [OF pi used] db show "nothing_left cp cp'"
    by (simp add: nothing_left_def)
next
  let ?v = "(new_record req vid s fws)\<lparr>v_rootfs_device := d, v_tap := tp, v_state := Running\<rparr>"
  assume *: "cp_slots cp' = cp_slots cp1" "cp_ports cp' = a" "mset fws = mset new"
    "db_abs (cp_store cp) vid = None" "ports_asked new = ports_asked (c_ingress req)"
    "db_abs (cp_store cp') = (db_abs (cp_store cp1))(vid \<mapsto> ?v)"
  have "db_abs (cp_store cp1) = db_abs (cp_store cp)" by (rule db_abs_cong [OF db])
  moreover have "ports_asked fws = ports_asked (c_ingress req)" "set fws = set new"
    using *(3,5) mset_eq_setD by (auto simp: ports_asked_def)
  ultimately show "vm_created req vid cp cp'"
    using * st used unfolding vm_created_def
    by (intro exI [of _ s] exI [of _ ?v]) (simp add: new_record_def)
qed

lemma run_create_locked:
  assumes rel: "reliable orc" and wf: "db_wf (cp_store cp)"
    and si: "slots_invar (cp_slots cp)" and pi: "ports_invar (cp_ports cp)"
  shows "\<exists>r cp' tr'. run (create_vm_locked cfg req tpl vid) orc cp tr = Some (r, cp', tr') \<and>
    (case r of Inl _ \<Rightarrow> nothing_left cp cp' | Inr i \<Rightarrow> i = vid \<and> vm_created req vid cp cp')"
proof (cases "db_abs (cp_store cp) vid")
  case (Some v)
  with rel get_vm_wf [OF wf, of vid] show ?thesis
    by (simp add: create_vm_locked_def q_get_vm_def reliable_def nothing_left_def)
next
  case None
  let ?P = "\<lambda>r cp'. case r of Inl _ \<Rightarrow> nothing_left cp cp' | Inr i \<Rightarrow> i = vid \<and> vm_created req vid cp cp'"
  let ?t1 = "tr @ [EvOther]"
  obtain q cp1 where alloc: "alloc_slot_step None cp = (q, cp1)" by (cases "alloc_slot_step None cp")
  note slot = alloc_slot_step_cases [OF alloc si]
  have frame1: "cp_ports cp1 = cp_ports cp" "db_vms (cp_store cp1) = db_vms (cp_store cp)"
    "db_forwards (cp_store cp1) = db_forwards (cp_store cp)" "db_wf (cp_store cp1) = db_wf (cp_store cp)"
    using alloc
    by (auto simp: alloc_slot_step_def sql_step_def set_slot_cursor_def db_wf_def split: option.splits prod.splits)
  have start: "run (create_vm_locked cfg req tpl vid) orc cp tr = (case q of
      None \<Rightarrow> Some (Err SlotsExhausted, cp1, ?t1 @ [EvSlot None])
    | Some s \<Rightarrow> run (bind (allocate_ports [] (c_ingress req)) (\<lambda>r. case r of
        Inl taken \<Rightarrow> bind (free_ports taken) (\<lambda>_. bind (free_slot s) (\<lambda>_. Ret (Err PortsExhausted)))
      | Inr ingress \<Rightarrow> create_vm_placed cfg req tpl vid s ingress)) orc cp1 (?t1 @ [EvSlot (Some s)]))"
    using rel get_vm_wf [OF wf, of vid] None alloc
    by (simp add: create_vm_locked_def q_get_vm_def qmark_p_def allocate_slot_def reliable_def ok_or_err_def
        split: option.split)
  show ?thesis
  proof (cases q)
    case None
    with start slot(7) frame1 show ?thesis by (simp add: nothing_left_def)
  next
    case (Some s)
    note taken = slot(7,8) [unfolded Some, simplified]
    obtain r a t2 new where ports: "run (allocate_ports [] (c_ingress req)) orc cp1 (?t1 @ [EvSlot (Some s)]) =
        Some (r, cp1\<lparr>cp_ports := a\<rparr>, t2)" and pi': "ports_invar a"
      and used: "pa_used a = pa_used (cp_ports cp) \<union> host_port ` set new" "host_port ` set new \<inter> pa_used (cp_ports cp) = {}"
      and r: "r = Err new \<or> r = Ok new \<and> map (\<lambda>f. (vm_port f, proto f)) new = map (\<lambda>f. (vm_port f, proto f)) (c_ingress req)"
      using run_allocate_ports [of cp1 "[]" "c_ingress req" orc "?t1 @ [EvSlot (Some s)]"] pi frame1(1) by auto
    note out = placed_outcome [OF slot(3) pi' _ _ _ used frame1(2,3), of s]
    from r show ?thesis
    proof
      assume "r = Err new"
      with start Some ports have "\<exists>cp' tr'. run (create_vm_locked cfg req tpl vid) orc cp tr = Some (Err PortsExhausted, cp', tr') \<and>
          cp_store cp' = cp_store cp1 \<and> cp_slots cp' = slot_free s (cp_slots cp1) \<and>
          cp_ports cp' = fold port_free (map host_port new) a"
        by (simp add: run_bind free_ports_def free_slot_def)
      with out(1) taken show ?thesis by fastforce
    next
      assume r: "r = Ok new \<and> map (\<lambda>f. (vm_port f, proto f)) new = map (\<lambda>f. (vm_port f, proto f)) (c_ingress req)"
      then have asked: "ports_asked new = ports_asked (c_ingress req)" by (simp add: ports_asked_def)
      have fits: "slot_get s \<le> slot_max" using universe_fits [OF si] taken by simp
      have count: "vm_count vid (cp_store cp1) = 0"
        using None db_abs_None_iff [OF wf] frame1(2) by (simp add: vm_count_def)
      from run_create_placed [OF rel _ _ fits, of "cp1\<lparr>cp_ports := a\<rparr>" vid cfg req tpl new t2] count wf frame1(4)
      obtain r' cp' t3 where p: "run (create_vm_placed cfg req tpl vid s new) orc (cp1\<lparr>cp_ports := a\<rparr>) t2 = Some (r', cp', t3)"
        and o: "placed_result req vid s new (cp1\<lparr>cp_ports := a\<rparr>) r' cp'"
        by auto
      have "run (create_vm_locked cfg req tpl vid) orc cp tr = Some (r', cp', t3)"
        using start Some ports p r by (simp add: run_bind)
      moreover have "?P r' cp'"
        using o taken asked None by (cases r') (auto simp: placed_result_def intro: out)
      ultimately show ?thesis by blast
    qed
  qed
qed

lemma run_locked_intro:
  assumes "cp_held cp = {}"
    and "\<And>cp1. same_but_locks cp cp1 \<Longrightarrow> \<exists>x cp2 tr2. run p orc cp1 tr = Some (x, cp2, tr2) \<and> P x cp1 cp2"
    and "\<And>x cp1 cp2 cp'. P x cp1 cp2 \<Longrightarrow> same_but_locks cp cp1 \<Longrightarrow> same_but_locks cp2 cp' \<Longrightarrow> R x cp'"
  shows "\<exists>x cp' tr'. run (locked vid p) orc cp tr = Some (x, cp', tr') \<and> R x cp'"
proof -
  obtain h cp0 where l: "vm_lock vid cp = (h, cp0)" by (cases "vm_lock vid cp")
  let ?cp1 = "cp0\<lparr>cp_held := insert h (cp_held cp0)\<rparr>"
  have s: "same_but_locks cp ?cp1" and free: "cp_held cp0 = {}"
    using l assms(1) by (auto simp: vm_lock_def same_but_locks_def split: option.splits)
  obtain x cp2 tr2 where r: "run p orc ?cp1 tr = Some (x, cp2, tr2)" "P x ?cp1 cp2"
    using assms(2) [OF s] by blast
  have "R x (mem_exec (ReleaseLock h) cp2)"
    by (rule assms(3) [OF r(2) s]) (simp add: same_but_locks_def)
  with r l free show ?thesis by (simp add: locked_def run_bind)
qed

lemma nothing_left_refl: "nothing_left cp cp"
  by (simp add: nothing_left_def)


lemma nothing_left_locks: "nothing_left cp1 cp2 \<Longrightarrow> same_but_locks cp cp1 \<Longrightarrow> same_but_locks cp2 cp' \<Longrightarrow> nothing_left cp cp'"
  by (simp add: nothing_left_def same_but_locks_def)

lemma vm_created_locks:
  "vm_created req vid cp1 cp2 \<Longrightarrow> same_but_locks cp cp1 \<Longrightarrow> same_but_locks cp2 cp' \<Longrightarrow> vm_created req vid cp cp'"
  by (simp add: vm_created_def same_but_locks_def)

text \<open>The outcome of a create: nothing, or the VM with a signature that describes it.\<close>

definition create_outcome ::
  "Codec \<Rightarrow> CreateVm \<Rightarrow> ControlPlane \<Rightarrow> (CpError, VmId) result \<Rightarrow> ControlPlane \<Rightarrow> bool" where
  "create_outcome K req cp r cp' \<longleftrightarrow>
     (case r of
        Inl _ \<Rightarrow> nothing_left cp cp'
      | Inr vid \<Rightarrow> vm_created req vid cp cp' \<and> (\<forall>s. c_signed req = Some s \<longrightarrow>
          check_signed K s vid 1 (c_egress req) (c_principal req) (c_allow req) (c_rules req) = Ok ()))"

lemma create_outcome_Err: "create_outcome K req cp (Err e) cp"
  by (simp add: create_outcome_def nothing_left_refl)

lemma run_create_checked:
  assumes "reliable orc" and "cp_held cp = {}" and "db_wf (cp_store cp)"
    and "slots_invar (cp_slots cp)" and "ports_invar (cp_ports cp)"
  shows "\<exists>r cp' tr'. run (qmark (case c_signed req of
        None \<Rightarrow> Ok ()
      | Some s \<Rightarrow> check_signed K s vid 1 (c_egress req) (c_principal req) (c_allow req) (c_rules req))
      (\<lambda>_. locked vid (create_vm_locked cfg req tpl vid))) orc cp tr = Some (r, cp', tr') \<and> create_outcome K req cp r cp'"
proof (cases "case c_signed req of
        None \<Rightarrow> Ok ()
      | Some s \<Rightarrow> check_signed K s vid 1 (c_egress req) (c_principal req) (c_allow req) (c_rules req)")
  case (Inl e)
  then show ?thesis by (simp add: create_outcome_Err)
next
  case (Inr u)
  let ?P = "\<lambda>r a b. case r of Inl _ \<Rightarrow> nothing_left a b | Inr i \<Rightarrow> i = vid \<and> vm_created req vid a b"
  have "\<exists>r cp' tr'. run (locked vid (create_vm_locked cfg req tpl vid)) orc cp tr = Some (r, cp', tr') \<and>
      create_outcome K req cp r cp'"
  proof (rule run_locked_intro [OF assms(2), where P = ?P])
    fix cp1 assume "same_but_locks cp cp1"
    then show "\<exists>r cp2 tr2. run (create_vm_locked cfg req tpl vid) orc cp1 tr = Some (r, cp2, tr2) \<and> ?P r cp1 cp2"
      using run_create_locked [OF assms(1), of cp1 cfg req tpl vid tr] assms(3-5) by (simp add: same_but_locks_def)
  next
    fix r :: "(CpError, VmId) result" and cp1 cp2 cp'
    assume "?P r cp1 cp2" and s: "same_but_locks cp cp1" "same_but_locks cp2 cp'"
    then show "create_outcome K req cp r cp'"
      using Inr
      by (cases r) (auto simp: create_outcome_def nothing_left_locks [OF _ s] vm_created_locks [OF _ s])
  qed
  with Inr show ?thesis by simp
qed

section \<open>Properties\<close>

text \<open>C3: creating a VM, alone and with a working store, always returns. If it fails, at
  whatever step and for whatever reason, the VM and forward tables, the slots taken and the
  host ports in use are as before. If it succeeds, exactly the new VM is added: running,
  with the policy asked for at generation 1, on a slot that was free, with one host port
  that was free for each forward asked for; and a signature filed with it describes it.\<close>

theorem create_vm_atomic:
  assumes "reliable orc" and "cp_held cp = {}" and "db_wf (cp_store cp)"
    and "slots_invar (cp_slots cp)" and "ports_invar (cp_ports cp)"
  shows "\<exists>r cp' tr. run (create_vm cfg K req) orc cp [] = Some (r, cp', tr) \<and> create_outcome K req cp r cp'"
proof (cases "validate_policy (c_allow req) (c_rules req)")
  case (Inl e)
  then show ?thesis by (simp add: create_vm_def create_outcome_Err)
next
  case valid: (Inr u)
  show ?thesis
  proof (cases "get_template (c_template req) (cp_store cp)")
    case None
    with valid assms(1) show ?thesis
      by (simp add: create_vm_def q_get_template_def reliable_def ok_or_err_def create_outcome_Err)
  next
    case (Some tpl)
    note start = create_vm_def q_get_template_def ok_or_err_def assms(1) [unfolded reliable_def] Some valid
    show ?thesis
    proof (cases "or_pool orc [EvOther]")
      case (Inl e)
      then show ?thesis by (simp add: start create_outcome_Err)
    next
      case (Inr ps)
      then show ?thesis
        using run_create_checked [OF assms, where tpl = tpl]
        by (cases "c_id req") (auto simp: start Let_def create_outcome_Err)
    qed
  qed
qed

lemma sample_cp_invars: "slots_invar (cp_slots sample_cp)" "ports_invar (cp_ports sample_cp)"
  by (simp_all add: control_plane_new_def sample_cfg_def slots_invar_def slots_new_def)

theorem create_vm_atomic_witness:
  "\<exists>r cp' tr. run (create_vm sample_cfg sample_codec (create_vm_new ''base'')) sample_oracle sample_cp [] =
     Some (r, cp', tr) \<and> create_outcome sample_codec (create_vm_new ''base'') sample_cp r cp'"
  by (rule create_vm_atomic [OF sample_cp_state(3,1) _ sample_cp_invars]) (simp add: sample_cp_state sample_db_wf)

end
