(* ===== verification/Iso_Identify.thy ===== *)
theory Iso_Identify
  imports Iso_Control "HOL-Library.AList"
begin

text \<open>
  What a host knows of an address: the identify service
  (\<^verbatim>\<open>crates/iso-controld/src/identify.rs\<close>, with the wire types of
  \<^verbatim>\<open>crates/iso-common/src/identify.rs\<close>) and the memory of what each VM resolved
  (\<^verbatim>\<open>crates/iso-controld/src/dns_memory.rs\<close>). Instants and durations are milliseconds; a hash
  map is an association list with distinct keys.
\<close>

type_synonym Instant = nat

datatype IpAddr = V4 Ipv4Addr | V6 u128

section \<open>IPv4 addresses as text\<close>

text \<open>\<^verbatim>\<open>Ipv4Addr\<close>'s \<^verbatim>\<open>Display\<close> and \<^verbatim>\<open>FromStr\<close>: four octets of at most three digits, no leading zero.\<close>

definition octet :: "nat \<Rightarrow> Ipv4Addr \<Rightarrow> nat" where
  "octet i a = unat a div 256 ^ (3 - i) mod 256"

definition ipv4_display :: "Ipv4Addr \<Rightarrow> string" where
  "ipv4_display a = join_with CHR ''.'' (map (\<lambda>i. show_nat (octet i a)) [0, 1, 2, 3])"

definition parse_octet :: "string \<Rightarrow> nat option" where
  "parse_octet s =
     (if s = [] \<or> 3 < length s \<or> (1 < length s \<and> hd s = CHR ''0'') then None
      else (case parse_digits 0 s of None \<Rightarrow> None | Some n \<Rightarrow> if n < 256 then Some n else None))"

definition ipv4_parse :: "string \<Rightarrow> Ipv4Addr option" where
  "ipv4_parse s =
     (case map parse_octet (split_on CHR ''.'' s) of
        [Some a, Some b, Some c, Some d] \<Rightarrow> Some (of_nat (((a * 256 + b) * 256 + c) * 256 + d))
      | _ \<Rightarrow> None)"

section \<open>What each VM resolved\<close>

type_synonym Answers = "(Ipv4Addr \<times> string \<times> Instant) list"
type_synonym DnsMemory = "(Ipv4Addr \<times> Answers) list"

definition min_life :: Instant where
  "min_life = 600 * 1000"

definition per_vm :: nat where
  "per_vm = 4096"

definition life :: "u32 \<Rightarrow> Instant" where
  "life ttl_secs = max min_life (unat ttl_secs * 1000)"

text \<open>\<open>now\<close> is read on entry, \<open>now'\<close> under the lock.\<close>

definition mem_record ::
  "Instant \<Rightarrow> Instant \<Rightarrow> IpAddr \<Rightarrow> string \<Rightarrow> Ipv4Addr list \<Rightarrow> u32 \<Rightarrow> DnsMemory \<Rightarrow> DnsMemory" where
  "mem_record now now' src name addrs ttl_secs mem =
     (case src of
        V6 _ \<Rightarrow> mem
      | V4 vm \<Rightarrow>
          (let until = now + life ttl_secs;
               mine = (case map_of mem vm of None \<Rightarrow> [] | Some m \<Rightarrow> m);
               kept = (if per_vm \<le> length mine then filter (\<lambda>(_, _, e). now' < e) mine else mine) in
           if per_vm \<le> length kept then AList.update vm kept mem
           else AList.update vm (fold (\<lambda>a. AList.update a (name, until)) addrs kept) mem))"

definition name_for :: "Instant \<Rightarrow> Ipv4Addr \<Rightarrow> Ipv4Addr \<Rightarrow> DnsMemory \<Rightarrow> string option" where
  "name_for now vm dst mem =
     (case map_of mem vm of
        None \<Rightarrow> None
      | Some mine \<Rightarrow>
          (case map_of mine dst of
             None \<Rightarrow> None
           | Some (name, until) \<Rightarrow> if now < until then Some name else None))"

definition forget :: "Ipv4Addr \<Rightarrow> DnsMemory \<Rightarrow> DnsMemory" where
  "forget vm mem = AList.delete vm mem"

section \<open>The identify service\<close>

record IdentifyRequest =
  iq_ip :: string
  iq_dst :: "string option"

record IdentifyResponse =
  ir_found :: bool
  ir_egress :: string
  ir_principal :: "string option"
  ir_allow :: "string list"
  ir_vm :: "string option"
  ir_rules :: "string list"
  ir_policy_gen :: u64
  ir_signed :: "SignedPolicy option"
  ir_dst_name :: "string option"

definition identify_response_default :: IdentifyResponse where
  "identify_response_default = \<lparr>ir_found = False, ir_egress = [], ir_principal = None, ir_allow = [],
     ir_vm = None, ir_rules = [], ir_policy_gen = 0, ir_signed = None, ir_dst_name = None\<rparr>"

text \<open>\<open>identify_handle\<close> on a request read from its JSON, \<^verbatim>\<open>None\<close> when it does not parse.\<close>

definition identify_handle ::
  "(Ipv4Addr \<Rightarrow> SlotId option) \<Rightarrow> Db \<Rightarrow> DnsMemory \<Rightarrow> Instant \<Rightarrow> IdentifyRequest option \<Rightarrow> IdentifyResponse" where
  "identify_handle a2s db mem now request =
     (case request of None \<Rightarrow> identify_response_default | Some q \<Rightarrow>
      case ipv4_parse (iq_ip q) of None \<Rightarrow> identify_response_default | Some ip \<Rightarrow>
      case identify a2s ip db of
        Inr (Some v) \<Rightarrow>
          \<lparr>ir_found = True, ir_egress = egress_str (v_egress v), ir_principal = v_principal v,
           ir_allow = v_allow v, ir_vm = Some (vmid_display (v_id v)),
           ir_rules = (case from_record (v_allow v) (v_rules v) of Inr rs \<Rightarrow> to_strings rs | Inl _ \<Rightarrow> []),
           ir_policy_gen = v_policy_gen v, ir_signed = v_signed v,
           ir_dst_name = Option.bind (Option.bind (iq_dst q) ipv4_parse) (\<lambda>d. name_for now ip d mem)\<rparr>
      | _ \<Rightarrow> identify_response_default)"

section \<open>Addresses survive their text\<close>

lemma show_nat_one: "n < 10 \<Longrightarrow> show_nat n = [digit n]"
  by (subst show_nat.simps) simp

lemma show_nat_more: "10 \<le> n \<Longrightarrow> show_nat n = show_nat (n div 10) @ [digit (n mod 10)]"
  by (subst show_nat.simps) simp

lemma digit_nonzero: "0 < n \<Longrightarrow> n < 10 \<Longrightarrow> digit n \<noteq> CHR ''0''"
  using digit_value_digit [of n] by (auto simp: digit_value_def byte_def split: if_splits)

lemma show_nat_octet:
  assumes "n < 256"
  shows "parse_octet (show_nat n) = Some n"
proof -
  consider "n < 10" | "10 \<le> n" "n < 100" | "100 \<le> n" by linarith
  then have "length (show_nat n) \<le> 3 \<and> (1 < length (show_nat n) \<longrightarrow> hd (show_nat n) \<noteq> CHR ''0'')"
  proof cases
    case 1
    then show ?thesis by (simp add: show_nat_one)
  next
    case 2
    then have "0 < n div 10" "n div 10 < 10" by linarith+
    with 2 show ?thesis by (simp add: show_nat_more show_nat_one digit_nonzero)
  next
    case 3
    then have m: "10 \<le> n div 10" "0 < n div 10 div 10" "n div 10 div 10 < 10" using assms by linarith+
    have "show_nat n = [digit (n div 10 div 10), digit (n div 10 mod 10), digit (n mod 10)]"
      using 3 show_nat_more [of n] show_nat_more [OF m(1)] show_nat_one [OF m(3)] by simp
    then show ?thesis using digit_nonzero [OF m(2,3)] by simp
  qed
  then show ?thesis
    using assms parse_digits_show_nat [of n] by (auto simp: parse_octet_def)
qed

lemma no_dot_show_nat: "CHR ''.'' \<notin> set (show_nat n)"
  using show_nat_digits [of n] by (auto simp: list_all_iff ascii_digit_def byte_def)

lemma octets_value:
  "((octet 0 a * 256 + octet 1 a) * 256 + octet 2 a) * 256 + octet 3 a = unat a"
proof -
  have "unat a < 256 * (256 * (256 * 256))" using unsigned_less [of a, where 'a = nat] by simp
  then have "unat a div 16777216 < 256" by linarith
  then have "octet 0 a = unat a div 256 div 256 div 256"
    by (simp add: octet_def div_mult2_eq [symmetric])
  moreover have "octet 1 a = unat a div 256 div 256 mod 256" "octet 2 a = unat a div 256 mod 256"
    "octet 3 a = unat a mod 256"
    by (simp_all add: octet_def div_mult2_eq [symmetric])
  ultimately show ?thesis by (simp only: div_mult_mod_eq)
qed

lemma ipv4_roundtrip [simp]: "ipv4_parse (ipv4_display a) = Some a"
proof -
  have less: "octet i a < 256" for i by (simp add: octet_def)
  have "split_on CHR ''.'' (ipv4_display a) = map (\<lambda>i. show_nat (octet i a)) [0, 1, 2, 3]"
    unfolding ipv4_display_def by (simp add: split_on_append split_on_no_sep no_dot_show_nat)
  then have "ipv4_parse (ipv4_display a) =
      Some (of_nat (((octet 0 a * 256 + octet 1 a) * 256 + octet 2 a) * 256 + octet 3 a))"
    by (simp only: ipv4_parse_def list.map show_nat_octet [OF less] list.case option.case)
  then show ?thesis by (simp only: octets_value) simp
qed

section \<open>The memory of answers\<close>

text \<open>What happens to the memory: an answer to an address, or an address forgotten.\<close>

datatype DnsEvent =
    Answered Instant Instant IpAddr string "Ipv4Addr list" u32
  | Forgot Ipv4Addr

fun mem_step :: "DnsEvent \<Rightarrow> DnsMemory \<Rightarrow> DnsMemory" where
  "mem_step (Answered now now' src name addrs ttl_secs) mem = mem_record now now' src name addrs ttl_secs mem"
| "mem_step (Forgot vm) mem = forget vm mem"

definition mem_after :: "DnsEvent list \<Rightarrow> DnsMemory" where
  "mem_after evs = fold mem_step evs []"

definition answers_of :: "DnsMemory \<Rightarrow> Ipv4Addr \<Rightarrow> Answers" where
  "answers_of mem vm = (case map_of mem vm of None \<Rightarrow> [] | Some m \<Rightarrow> m)"

lemma name_for_answers:
  "name_for now vm dst mem =
     (case map_of (answers_of mem vm) dst of
        None \<Rightarrow> None
      | Some (name, until) \<Rightarrow> if now < until then Some name else None)"
  by (simp add: name_for_def answers_of_def split: option.splits)

definition pruned :: "Instant \<Rightarrow> Answers \<Rightarrow> Answers" where
  "pruned now' mine = (if per_vm \<le> length mine then filter (\<lambda>(_, _, e). now' < e) mine else mine)"

lemma answers_record:
  "answers_of (mem_record now now' src name addrs ttl mem) vm =
     (if src \<noteq> V4 vm then answers_of mem vm
      else if per_vm \<le> length (pruned now' (answers_of mem vm)) then pruned now' (answers_of mem vm)
      else fold (\<lambda>a. AList.update a (name, now + life ttl)) addrs (pruned now' (answers_of mem vm)))"
  by (cases src) (simp_all add: mem_record_def answers_of_def pruned_def Let_def update_conv' split: option.splits)

lemma answers_forget: "answers_of (forget u mem) vm = (if u = vm then [] else answers_of mem vm)"
  by (simp add: forget_def answers_of_def delete_conv')

lemma answers_after_append:
  "answers_of (mem_after (evs @ [e])) vm = answers_of (mem_step e (mem_after evs)) vm"
  by (simp add: mem_after_def)

lemma map_of_fold_update:
  "map_of (fold (\<lambda>a. AList.update a v) as m) k = (if k \<in> set as then Some v else map_of m k)"
  by (induction as arbitrary: m) (auto simp: update_conv')

lemma distinct_fold_update:
  "distinct (map fst m) \<Longrightarrow> distinct (map fst (fold (\<lambda>a. AList.update a v) as m))"
  by (induction as arbitrary: m) (simp_all add: distinct_update)

lemma length_fold_update:
  "length (fold (\<lambda>a. AList.update a v) as m) \<le> length m + length as"
proof (induction as arbitrary: m)
  case (Cons a as)
  have "length (AList.update a v m) \<le> Suc (length m)" by (induction m) auto
  with Cons [of "AList.update a v m"] show ?case by simp
qed simp

lemma distinct_pruned: "distinct (map fst m) \<Longrightarrow> distinct (map fst (pruned now' m))"
  by (auto simp: pruned_def distinct_map intro: inj_on_subset)

lemma map_of_pruned:
  assumes "distinct (map fst m)" and "map_of (pruned now' m) k = Some v"
  shows "map_of m k = Some v"
proof -
  have "(k, v) \<in> set (pruned now' m)" using assms(2) by (rule map_of_SomeD)
  then have "(k, v) \<in> set m" by (auto simp: pruned_def split: if_splits)
  with assms(1) show ?thesis by simp
qed

lemma answers_distinct: "distinct (map fst (answers_of (mem_after evs) vm))"
proof (induction evs rule: rev_induct)
  case Nil
  show ?case by (simp add: mem_after_def answers_of_def)
next
  case (snoc e evs)
  then show ?case
    by (cases e) (simp_all add: answers_after_append answers_record answers_forget distinct_pruned distinct_fold_update)
qed

text \<open>An entry has an answer behind it that nothing later took back.\<close>

lemma answers_origin:
  assumes "map_of (answers_of (mem_after evs) vm) dst = Some (name, until)"
  shows "\<exists>pre post now now' addrs ttl. evs = pre @ Answered now now' (V4 vm) name addrs ttl # post \<and>
    dst \<in> set addrs \<and> until = now + life ttl \<and> Forgot vm \<notin> set post"
  using assms
proof (induction evs rule: rev_induct)
  case Nil
  then show ?case by (simp add: mem_after_def answers_of_def)
next
  case (snoc e evs)
  have old: ?case if "map_of (answers_of (mem_after evs) vm) dst = Some (name, until)" "e \<noteq> Forgot vm"
  proof -
    from snoc.IH [OF that(1)] obtain pre post now now' addrs ttl where
      "evs = pre @ Answered now now' (V4 vm) name addrs ttl # post" "dst \<in> set addrs"
      "until = now + life ttl" "Forgot vm \<notin> set post" by blast
    with that(2) show ?thesis by (intro exI [of _ pre] exI [of _ "post @ [e]"]) auto
  qed
  show ?case
  proof (cases e)
    case (Forgot u)
    then show ?thesis using old snoc.prems by (auto simp: answers_after_append answers_forget split: if_splits)
  next
    case (Answered now now' src n addrs ttl)
    note prem = snoc.prems [unfolded answers_after_append Answered mem_step.simps answers_record]
    show ?thesis
    proof (cases "src = V4 vm \<and> dst \<in> set addrs \<and> \<not> per_vm \<le> length (pruned now' (answers_of (mem_after evs) vm))")
      case True
      then have "name = n" "until = now + life ttl" using prem by (simp_all add: map_of_fold_update)
      with True Answered show ?thesis by fastforce
    next
      case False
      then have "map_of (answers_of (mem_after evs) vm) dst = Some (name, until)"
        using prem map_of_pruned [OF answers_distinct] by (auto simp: map_of_fold_update split: if_splits)
      then show ?thesis using old Answered by simp
    qed
  qed
qed

lemma answers_bound:
  assumes "\<forall>e \<in> set evs. \<forall>now now' src n addrs ttl. e = Answered now now' src n addrs ttl \<longrightarrow> length addrs \<le> m"
  shows "length (answers_of (mem_after evs) vm) \<le> per_vm - 1 + m"
  using assms
proof (induction evs rule: rev_induct)
  case Nil
  then show ?case by (simp add: mem_after_def answers_of_def)
next
  case (snoc e evs)
  have ih: "length (answers_of (mem_after evs) vm) \<le> per_vm - 1 + m" using snoc by simp
  have pr: "length (pruned t (answers_of (mem_after evs) vm)) \<le> length (answers_of (mem_after evs) vm)" for t
    by (simp add: pruned_def)
  show ?case
  proof (cases e)
    case (Forgot u)
    then show ?thesis using ih by (simp add: answers_after_append answers_forget)
  next
    case (Answered now now' src n addrs ttl)
    have "length addrs \<le> m" using snoc.prems Answered by simp
    then show ?thesis
      using ih pr [of now'] length_fold_update [of "(n, now + life ttl)" addrs "pruned now' (answers_of (mem_after evs) vm)"]
      by (simp add: answers_after_append answers_record Answered per_vm_def)
  qed
qed

section \<open>Properties\<close>

definition answer_sizes :: "nat \<Rightarrow> DnsEvent list \<Rightarrow> bool" where
  "answer_sizes m evs \<longleftrightarrow>
     list_all (\<lambda>e. case e of Answered _ _ _ _ addrs _ \<Rightarrow> length addrs \<le> m | Forgot _ \<Rightarrow> True) evs"

text \<open>The name a host puts to an address a VM dials is one that VM resolved to that
  address itself, within the answer's life, and nothing was forgotten for the VM since; an
  answer given while the VM has room is remembered at once, over any earlier name; and the
  memory kept for one VM is bounded whatever it resolves.\<close>

theorem dns_memory_exact:
  "(name_for t vm dst (mem_after evs) = Some name \<longrightarrow>
      (\<exists>pre post now now' addrs ttl. evs = pre @ Answered now now' (V4 vm) name addrs ttl # post \<and>
        dst \<in> set addrs \<and> t < now + life ttl \<and> Forgot vm \<notin> set post)) \<and>
   (dst \<in> set answer \<and> length (answers_of (mem_after evs) vm) < per_vm \<longrightarrow>
      name_for t vm dst (mem_after (evs @ [Answered now now' (V4 vm) name answer ttl])) =
        (if t < now + life ttl then Some name else None)) \<and>
   (answer_sizes m evs \<longrightarrow> length (answers_of (mem_after evs) vm) \<le> per_vm - 1 + m)"
proof (intro conjI impI)
  assume "name_for t vm dst (mem_after evs) = Some name"
  then obtain until where "map_of (answers_of (mem_after evs) vm) dst = Some (name, until)" "t < until"
    by (auto simp: name_for_answers split: option.splits if_splits)
  with answers_origin [OF this(1)] show
    "\<exists>pre post now now' addrs ttl. evs = pre @ Answered now now' (V4 vm) name addrs ttl # post \<and>
      dst \<in> set addrs \<and> t < now + life ttl \<and> Forgot vm \<notin> set post"
    by blast
next
  assume "dst \<in> set answer \<and> length (answers_of (mem_after evs) vm) < per_vm"
  then show "name_for t vm dst (mem_after (evs @ [Answered now now' (V4 vm) name answer ttl])) =
      (if t < now + life ttl then Some name else None)"
    by (simp add: name_for_answers answers_after_append answers_record pruned_def map_of_fold_update)
next
  assume "answer_sizes m evs"
  then show "length (answers_of (mem_after evs) vm) \<le> per_vm - 1 + m"
    by (intro answers_bound) (auto simp: answer_sizes_def list_all_iff)
qed

theorem dns_memory_exact_witness:
  "name_for 599999 5 9 (mem_after [Answered 0 0 (V4 5) ''db.internal'' [9] 30]) = Some ''db.internal''"
  using dns_memory_exact [of 599999 5 9 "[]" "''db.internal''" "[9]" 0 0 30 1]
  by (simp add: mem_after_def answers_of_def per_vm_def life_def min_life_def)

end
