(* ===== verification/Iso_Dns.thy ===== *)
theory Iso_Dns
  imports Iso_Identify
begin

text \<open>
  Name resolution for VMs: the gate that decides which names a slot may have resolved upstream
  (\<^verbatim>\<open>crates/iso-controld/src/dns_gate.rs\<close>) and the server in front of it
  (\<^verbatim>\<open>crates/iso-dns-server/src/lib.rs\<close>). The gate's cache is read and written under its lock,
  the store in between without it, so a lookup is three steps that other lookups, changes of
  the records and releases of slots may come between. The resolver, the catalog and the reading
  of names are hickory's: the resolver's answer and the two readings of a name are parameters.
\<close>

section \<open>What a slot may have resolved\<close>

datatype Reach = Nothing | Hosts "HostPattern list" | Anything

definition reach_of :: "VmRecord \<Rightarrow> Reach" where
  "reach_of v =
     (case v_egress v of
        E_Deny \<Rightarrow> Nothing
      | E_Proxy \<Rightarrow>
          (case from_record (v_allow v) (v_rules v) of
             Inr rs \<Rightarrow> Hosts (map r_host (filter (\<lambda>r. r_action r \<noteq> Deny) (rs_rules rs)))
           | Inl _ \<Rightarrow> Nothing))"

fun reach_allows :: "Reach \<Rightarrow> string \<Rightarrow> bool" where
  "reach_allows Nothing name = False"
| "reach_allows (Hosts hosts) name = list_ex (\<lambda>h. host_matches h name) hosts"
| "reach_allows Anything name = True"

section \<open>The gate\<close>

text \<open>\<^verbatim>\<open>releases\<close> is a \<^verbatim>\<open>u64\<close> counter of events, kept unbounded here.\<close>

record GateCache =
  gc_slots :: "(SlotId \<times> Instant \<times> Reach) list"
  gc_releases :: nat

definition gate_ttl :: Instant where
  "gate_ttl = 1000"

definition gate_cache_default :: GateCache where
  "gate_cache_default = \<lparr>gc_slots = [], gc_releases = 0\<rparr>"

definition gate_released :: "SlotId \<Rightarrow> GateCache \<Rightarrow> GateCache" where
  "gate_released slot c = \<lparr>gc_slots = AList.delete slot (gc_slots c), gc_releases = gc_releases c + 1\<rparr>"

text \<open>The three steps of a lookup: the cache, the records, the cache again.\<close>

definition gate_cached :: "Instant \<Rightarrow> SlotId \<Rightarrow> GateCache \<Rightarrow> Reach option" where
  "gate_cached now slot c =
     (case map_of (gc_slots c) slot of
        Some (since, reach) \<Rightarrow> if now - since < gate_ttl then Some reach else None
      | None \<Rightarrow> None)"

definition gate_lookup :: "SlotId list \<Rightarrow> SlotId \<Rightarrow> VmRecord list \<Rightarrow> Reach" where
  "gate_lookup builders slot vms =
     (case find (\<lambda>v. v_slot v = Some slot) vms of
        Some v \<Rightarrow> reach_of v
      | None \<Rightarrow> if slot \<in> set builders then Anything else Nothing)"

definition gate_keep :: "Instant \<Rightarrow> SlotId \<Rightarrow> Reach \<Rightarrow> nat \<Rightarrow> GateCache \<Rightarrow> GateCache" where
  "gate_keep now slot reach releases c =
     (if gc_releases c = releases then c\<lparr>gc_slots := AList.update slot (now, reach) (gc_slots c)\<rparr> else c)"

text \<open>A lookup nothing comes between; the second instant is that of the insertion.\<close>

definition slot_may_resolve ::
  "SlotId list \<Rightarrow> Instant \<Rightarrow> Instant \<Rightarrow> SlotId \<Rightarrow> string \<Rightarrow> Db \<Rightarrow> GateCache \<Rightarrow> bool \<times> GateCache" where
  "slot_may_resolve builders now now' slot name db c =
     (case gate_cached now slot c of
        Some reach \<Rightarrow> (reach_allows reach name, c)
      | None \<Rightarrow>
          (case list_vms db of
             Inl _ \<Rightarrow> (False, c)
           | Inr vms \<Rightarrow>
               let reach = gate_lookup builders slot vms in
               (reach_allows reach name, gate_keep now' slot reach (gc_releases c) c)))"

definition may_resolve ::
  "(Ipv4Addr \<Rightarrow> SlotId option) \<Rightarrow> SlotId list \<Rightarrow> Instant \<Rightarrow> Instant \<Rightarrow> Db \<Rightarrow> GateCache \<Rightarrow> IpAddr \<Rightarrow> string \<Rightarrow>
     bool \<times> GateCache" where
  "may_resolve slot_of builders now now' db c src name =
     (case src of
        V6 _ \<Rightarrow> (False, c)
      | V4 ip \<Rightarrow>
          (case slot_of ip of
             Some slot \<Rightarrow> slot_may_resolve builders now now' slot name db c
           | None \<Rightarrow> (False, c)))"

section \<open>The server\<close>

datatype QType = Q_A | Q_AAAA | Q_Other

record 'n DnsQuery =
  dq_src :: IpAddr
  dq_name :: 'n
  dq_type :: QType

datatype DnsReply =
    Refused
  | Records "(Ipv4Addr \<times> u32) list"
  | FromCatalog

record DnsOutcome =
  do_reply :: DnsReply
  do_lookup :: "string option"
  do_observed :: "(IpAddr \<times> string \<times> Ipv4Addr list \<times> u32) option"

text \<open>
  \<open>handle_request\<close> on a request that reads (else the catalog answers it). \<open>zone_of\<close> is whether a
  name is in the internal zone, \<open>name_text\<close> its printed form, \<open>lookup\<close> the records the resolver
  finds upstream (\<^verbatim>\<open>None\<close> an error), with the address of those that are A records.
\<close>

definition domain_of :: "('n \<Rightarrow> string) \<Rightarrow> 'n \<Rightarrow> string" where
  "domain_of name_text n = to_ascii_lowercase (trim_end_matches (CHR ''.'') (name_text n))"

definition handle_request ::
  "('n \<Rightarrow> bool) \<Rightarrow> ('n \<Rightarrow> string) \<Rightarrow> (IpAddr \<Rightarrow> string \<Rightarrow> bool) option \<Rightarrow>
   (string \<Rightarrow> (Ipv4Addr option \<times> u32) list option) \<Rightarrow> 'n DnsQuery option \<Rightarrow> DnsOutcome" where
  "handle_request zone_of name_text gate lookup request =
     (case request of
        None \<Rightarrow> \<lparr>do_reply = FromCatalog, do_lookup = None, do_observed = None\<rparr>
      | Some q \<Rightarrow>
          let internal = zone_of (dq_name q); domain = domain_of name_text (dq_name q) in
          if \<not> internal \<and> \<not> (case gate of Some g \<Rightarrow> g (dq_src q) domain | None \<Rightarrow> False)
          then \<lparr>do_reply = Refused, do_lookup = None, do_observed = None\<rparr>
          else if dq_type q \<noteq> Q_Other \<and> \<not> internal then
            (if dq_type q = Q_A then
               (case lookup domain of
                  Some records \<Rightarrow>
                    let a_records = List.map_filter (\<lambda>(ip, t). map_option (\<lambda>i. (i, t)) ip) records;
                        ttl = (if a_records = [] then 60 else Min (set (map snd a_records)));
                        addrs = map fst a_records in
                    \<lparr>do_reply = Records (map (\<lambda>ip. (ip, ttl)) addrs), do_lookup = Some domain,
                     do_observed = Some (dq_src q, domain, addrs, ttl)\<rparr>
                | None \<Rightarrow> \<lparr>do_reply = FromCatalog, do_lookup = Some domain, do_observed = None\<rparr>)
             else \<lparr>do_reply = Records [], do_lookup = None, do_observed = None\<rparr>)
          else \<lparr>do_reply = FromCatalog, do_lookup = None, do_observed = None\<rparr>)"

section \<open>Lookups, records and releases, interleaved\<close>

datatype GateThread =
    Idle
  | Asked SlotId string
  | Looking SlotId string nat
  | Found SlotId string nat Reach
  | Decided SlotId string bool

text \<open>
  \<open>g_since s\<close> records, for the statement of what the cache holds, every reach the slot had in
  the store since its last release.
\<close>

record Gate =
  g_cache :: GateCache
  g_threads :: "nat \<Rightarrow> GateThread"
  g_db :: Db
  g_since :: "SlotId \<Rightarrow> Reach set"

definition store_reach :: "SlotId list \<Rightarrow> Db \<Rightarrow> SlotId \<Rightarrow> Reach set" where
  "store_reach builders db s = (case list_vms db of Inr vms \<Rightarrow> {gate_lookup builders s vms} | Inl _ \<Rightarrow> {})"

inductive gate_step :: "SlotId list \<Rightarrow> Gate \<Rightarrow> Gate \<Rightarrow> bool" for builders where
  ask: "g_threads g t = Idle \<or> g_threads g t = Decided s' n' b \<Longrightarrow>
    gate_step builders g (g\<lparr>g_threads := (g_threads g)(t := Asked s n)\<rparr>)"
| hit: "g_threads g t = Asked s n \<Longrightarrow> gate_cached now s (g_cache g) = Some r \<Longrightarrow>
    gate_step builders g (g\<lparr>g_threads := (g_threads g)(t := Decided s n (reach_allows r n))\<rparr>)"
| miss: "g_threads g t = Asked s n \<Longrightarrow> gate_cached now s (g_cache g) = None \<Longrightarrow>
    gate_step builders g (g\<lparr>g_threads := (g_threads g)(t := Looking s n (gc_releases (g_cache g)))\<rparr>)"
| look: "g_threads g t = Looking s n k \<Longrightarrow> list_vms (g_db g) = Ok vms \<Longrightarrow>
    gate_step builders g (g\<lparr>g_threads := (g_threads g)(t := Found s n k (gate_lookup builders s vms))\<rparr>)"
| fail: "g_threads g t = Looking s n k \<Longrightarrow>
    gate_step builders g (g\<lparr>g_threads := (g_threads g)(t := Decided s n False)\<rparr>)"
| keep: "g_threads g t = Found s n k r \<Longrightarrow>
    gate_step builders g (g\<lparr>g_threads := (g_threads g)(t := Decided s n (reach_allows r n)),
      g_cache := gate_keep now s r k (g_cache g)\<rparr>)"
| store: "gate_step builders g (g\<lparr>g_db := db,
      g_since := (\<lambda>s. g_since g s \<union> store_reach builders db s)\<rparr>)"
| release: "gate_step builders g (g\<lparr>g_cache := gate_released s (g_cache g),
      g_since := (g_since g)(s := store_reach builders (g_db g) s)\<rparr>)"

inductive gate_reach :: "SlotId list \<Rightarrow> Gate \<Rightarrow> bool" for builders where
  start: "gate_reach builders \<lparr>g_cache = gate_cache_default, g_threads = (\<lambda>_. Idle), g_db = db,
      g_since = store_reach builders db\<rparr>"
| step: "gate_reach builders g \<Longrightarrow> gate_step builders g g' \<Longrightarrow> gate_reach builders g'"

inductive_cases gate_stepE: "gate_step builders g g'"

text \<open>What the cache holds, and what a lookup still to be kept found, is of this tenancy.\<close>

fun thread_fresh :: "Gate \<Rightarrow> GateThread \<Rightarrow> bool" where
  "thread_fresh g (Looking s n k) \<longleftrightarrow> k \<le> gc_releases (g_cache g)"
| "thread_fresh g (Found s n k r) \<longleftrightarrow>
     k \<le> gc_releases (g_cache g) \<and> (k = gc_releases (g_cache g) \<longrightarrow> r \<in> g_since g s)"
| "thread_fresh g _ \<longleftrightarrow> True"

definition gate_inv :: "SlotId list \<Rightarrow> Gate \<Rightarrow> bool" where
  "gate_inv builders g \<longleftrightarrow>
     (\<forall>s w r. map_of (gc_slots (g_cache g)) s = Some (w, r) \<longrightarrow> r \<in> g_since g s) \<and>
     (\<forall>t. thread_fresh g (g_threads g t)) \<and>
     (\<forall>s. store_reach builders (g_db g) s \<subseteq> g_since g s)"

lemma thread_fresh_mono:
  assumes "thread_fresh g th" and "gc_releases (g_cache g') = gc_releases (g_cache g)"
    and "\<And>s. g_since g s \<subseteq> g_since g' s"
  shows "thread_fresh g' th"
  using assms by (cases th) auto

lemma thread_fresh_released:
  "thread_fresh g th \<Longrightarrow> gc_releases (g_cache g) < gc_releases (g_cache g') \<Longrightarrow> thread_fresh g' th"
  by (cases th) auto

lemma gate_invI:
  assumes "\<And>s w r. map_of (gc_slots (g_cache g)) s = Some (w, r) \<Longrightarrow> r \<in> g_since g s"
    and "\<And>t. thread_fresh g (g_threads g t)"
    and "\<And>s. store_reach builders (g_db g) s \<subseteq> g_since g s"
  shows "gate_inv builders g"
  using assms by (simp add: gate_inv_def)

lemma gate_inv_thread:
  assumes "gate_inv builders g" and "thread_fresh g th"
  shows "gate_inv builders (g\<lparr>g_threads := (g_threads g)(t := th)\<rparr>)"
  using assms by (auto simp: gate_inv_def intro: thread_fresh_mono)

lemma gate_step_inv:
  assumes "gate_step builders g g'" and "gate_inv builders g"
  shows "gate_inv builders g'"
  using assms
proof (cases rule: gate_step.cases)
  case (look t s n k vms)
  then have "gate_lookup builders s vms \<in> g_since g s"
    using assms(2) by (fastforce simp: gate_inv_def store_reach_def)
  moreover have "k \<le> gc_releases (g_cache g)"
    using assms(2) look(2) by (metis gate_inv_def thread_fresh.simps(1))
  ultimately show ?thesis
    using look gate_inv_thread [OF assms(2)] by simp
next
  case (keep t s n k r now)
  have "thread_fresh g (Found s n k r)" using assms(2) keep(2) by (metis gate_inv_def)
  then show ?thesis
    using keep assms(2)
    by (auto simp: gate_inv_def gate_keep_def update_conv' intro: thread_fresh_mono split: if_splits)
next
  case (store db)
  then show ?thesis using assms(2) by (fastforce simp: gate_inv_def intro: thread_fresh_mono)
next
  case (release s)
  have "thread_fresh g' (g_threads g' t)" for t
  proof -
    have "thread_fresh g (g_threads g t)" using assms(2) by (simp add: gate_inv_def)
    then have "thread_fresh g' (g_threads g t)"
      by (rule thread_fresh_released) (simp add: release gate_released_def)
    then show ?thesis by (simp add: release)
  qed
  moreover have "r \<in> g_since g' u" if "map_of (gc_slots (g_cache g')) u = Some (w, r)" for u w r
    using that assms(2) by (auto simp: release gate_inv_def gate_released_def delete_conv' split: if_splits)
  moreover have "store_reach builders (g_db g') u \<subseteq> g_since g' u" for u
    using assms(2) by (simp add: release gate_inv_def)
  ultimately show ?thesis by (intro gate_invI)
qed (auto intro: gate_inv_thread)

lemma gate_reach_inv: "gate_reach builders g \<Longrightarrow> gate_inv builders g"
proof (induction rule: gate_reach.induct)
  case (start db)
  show ?case by (simp add: gate_inv_def gate_cache_default_def)
qed (rule gate_step_inv)

lemma may_resolve_since:
  assumes "gate_reach builders g" and "fst (may_resolve slot_of builders now now' (g_db g) (g_cache g) src name)"
  shows "\<exists>ip s. src = V4 ip \<and> slot_of ip = Some s \<and> (\<exists>r \<in> g_since g s. reach_allows r name)"
proof -
  from assms(2) obtain ip s where src: "src = V4 ip" "slot_of ip = Some s"
    and yes: "fst (slot_may_resolve builders now now' s name (g_db g) (g_cache g))"
    by (auto simp: may_resolve_def split: IpAddr.splits option.splits)
  have inv: "gate_inv builders g" using assms(1) by (rule gate_reach_inv)
  have "\<exists>r \<in> g_since g s. reach_allows r name"
  proof (cases "gate_cached now s (g_cache g)")
    case (Some r)
    then have "r \<in> g_since g s"
      using inv by (auto simp: gate_cached_def gate_inv_def split: option.splits if_splits)
    then show ?thesis using yes Some by (auto simp: slot_may_resolve_def)
  next
    case None
    then show ?thesis
      using yes inv by (auto simp: slot_may_resolve_def gate_inv_def store_reach_def Let_def split: sum.splits)
  qed
  with src show ?thesis by blast
qed

section \<open>Properties\<close>

text \<open>C30: a slot's next VM is not judged by the last one's policy. However lookups, changes of
  the records and releases of slots interleave, what the cache answers for a slot is the reach
  the slot had in the store at some moment since it was last released.\<close>

theorem gate_fresh:
  assumes "gate_reach builders g" and "gate_cached now s (g_cache g) = Some r"
  shows "r \<in> g_since g s"
  using gate_reach_inv [OF assms(1)] assms(2)
  by (auto simp: gate_cached_def gate_inv_def split: option.splits if_splits)

definition sample_gate :: Gate where
  "sample_gate = \<lparr>g_cache = gate_keep 5 (SlotId 3) Nothing 0 gate_cache_default,
     g_threads = (\<lambda>_. Idle)(0 := Decided (SlotId 3) ''x.y'' False), g_db = db_empty,
     g_since = store_reach [] db_empty\<rparr>"

lemma empty_lookup: "list_vms db_empty = Ok []"
  by (simp add: list_vms_def db_empty_def)

lemma sample_gate_reach: "gate_reach [] sample_gate"
proof -
  let ?g0 = "\<lparr>g_cache = gate_cache_default, g_threads = (\<lambda>_. Idle), g_db = db_empty,
      g_since = store_reach [] db_empty\<rparr>"
  let ?g1 = "?g0\<lparr>g_threads := (g_threads ?g0)(0 := Asked (SlotId 3) ''x.y'')\<rparr>"
  let ?g2 = "?g1\<lparr>g_threads := (g_threads ?g1)(0 := Looking (SlotId 3) ''x.y'' (gc_releases (g_cache ?g1)))\<rparr>"
  let ?g3 = "?g2\<lparr>g_threads := (g_threads ?g2)(0 := Found (SlotId 3) ''x.y'' 0 (gate_lookup [] (SlotId 3) []))\<rparr>"
  have "gate_reach [] ?g0" by (rule gate_reach.start)
  then have "gate_reach [] ?g1" by (rule gate_reach.step) (rule gate_step.ask, simp)
  then have "gate_reach [] ?g2"
    by (rule gate_reach.step) (rule gate_step.miss [where now = 0], simp, simp add: gate_cached_def gate_cache_default_def)
  then have "gate_reach [] ?g3"
    by (rule gate_reach.step) (rule gate_step.look, simp_all add: gate_cache_default_def empty_lookup)
  then have "gate_reach [] (?g3\<lparr>g_threads := (g_threads ?g3)(0 := Decided (SlotId 3) ''x.y'' (reach_allows Nothing ''x.y'')),
      g_cache := gate_keep 5 (SlotId 3) Nothing 0 (g_cache ?g3)\<rparr>)"
    by (rule gate_reach.step) (rule gate_step.keep, simp add: gate_lookup_def)
  then show ?thesis by (simp add: sample_gate_def)
qed

theorem gate_fresh_witness:
  "gate_cached 100 (SlotId 3) (g_cache sample_gate) = Some Nothing \<and> Nothing \<in> g_since sample_gate (SlotId 3)"
proof -
  have "gate_cached 100 (SlotId 3) (g_cache sample_gate) = Some Nothing"
    by (simp add: sample_gate_def gate_cached_def gate_keep_def gate_cache_default_def gate_ttl_def)
  with gate_fresh [OF sample_gate_reach this] show ?thesis by simp
qed



text \<open>The resolver and the proxy read one policy alike. A name is resolved for a VM exactly
  when the VM is in proxy mode and one of its allow or tunnel rules matches the name; so every
  host the proxy would let it reach, by request, tunnel or TLS name, resolves for it.\<close>

theorem dns_covers_proxy:
  assumes "from_record (v_allow v) (v_rules v) = Ok rs"
  shows "(reach_allows (reach_of v) name \<longleftrightarrow> v_egress v = E_Proxy \<and>
      (\<exists>r \<in> set (rs_rules rs). r_action r \<noteq> Deny \<and> host_matches (r_host r) name)) \<and>
    (v_egress v = E_Proxy \<and>
       (host_allowed rs name \<or> tunnel_allowed rs name port \<or> is_allow (evaluate rs sch name prt path)) \<longrightarrow>
     reach_allows (reach_of v) name)"
proof -
  have iff: "reach_allows (reach_of v) name \<longleftrightarrow> v_egress v = E_Proxy \<and>
      (\<exists>r \<in> set (rs_rules rs). r_action r \<noteq> Deny \<and> host_matches (r_host r) name)"
    using assms by (cases "v_egress v") (auto simp: reach_of_def list_ex_iff)
  have allow: "\<exists>r \<in> set (rs_rules rs). r_action r \<noteq> Deny \<and> host_matches (r_host r) name"
    if "is_allow (evaluate rs sc name pr pa)" for sc pr pa
  proof -
    have "evaluate rs sc name pr pa = DecAllow"
      using that by (cases "evaluate rs sc name pr pa") auto
    then show ?thesis by (auto simp: evaluate_DecAllow_iff rule_matches_def)
  qed
  have "\<exists>r \<in> set (rs_rules rs). r_action r \<noteq> Deny \<and> host_matches (r_host r) name" if "host_allowed rs name"
    using that by (auto simp: host_allowed_def list_ex_iff) (metis Action.distinct(1))
  then show ?thesis
    using iff allow [of sch prt path] allow [of Tcp "Some port" "''/''"] unfolding tunnel_allowed_def by blast
qed

theorem dns_covers_proxy_witness:
  "reach_allows (reach_of (sample_vm\<lparr>v_egress := E_Proxy, v_allow := [''api.x.io''], v_rules := []\<rparr>)) ''API.x.io.''"
proof -
  let ?v = "sample_vm\<lparr>v_egress := E_Proxy, v_allow := [''api.x.io''], v_rules := []\<rparr>"
  have "ok_and (from_record [''api.x.io''] []) (\<lambda>rs. host_allowed rs ''API.x.io.'')" by code_simp
  then obtain rs where "from_record [''api.x.io''] [] = Ok rs" "host_allowed rs ''API.x.io.''"
    unfolding ok_and_iff by blast
  moreover from this(1) have "from_record (v_allow ?v) (v_rules ?v) = Ok rs" by simp
  note dns_covers_proxy [OF this, THEN conjunct2, of "''API.x.io.''"]
  ultimately show ?thesis by simp
qed

end
