(* ===== verification/Iso_Sni.thy ===== *)
theory Iso_Sni
  imports Iso_Strings "HOL-Library.Monad_Syntax"
begin

text \<open>
  The proxy's look at a TLS ClientHello (\<^verbatim>\<open>crates/iso-proxy/src/sni.rs\<close>): \<open>peek\<close> reads one
  record off the connection and finds the \<^verbatim>\<open>server_name\<close> in it, and \<open>Prefixed\<close> replays what was
  read to whoever reads next. Byte vectors are lists of \<^typ>\<open>char\<close>, as strings are. The
  reference for the parser is an encoder of the ClientHello of RFC 8446 and RFC 6066 with every
  variable part arbitrary.
\<close>

section \<open>Bytes\<close>

definition be16 :: "string \<Rightarrow> nat" where
  "be16 s = byte (s ! 0) * 256 + byte (s ! 1)"

text \<open>\<^verbatim>\<open>std::str::from_utf8\<close>: the well-formed byte sequences of the Unicode standard.\<close>

definition utf8_cont :: "char \<Rightarrow> bool" where
  "utf8_cont c \<longleftrightarrow> 128 \<le> byte c \<and> byte c \<le> 191"

fun utf8_valid :: "string \<Rightarrow> bool" where
  "utf8_valid [] = True"
| "utf8_valid (a # s) =
     (if byte a < 128 then utf8_valid s
      else if 194 \<le> byte a \<and> byte a \<le> 223 then
        (case s of b # s' \<Rightarrow> utf8_cont b \<and> utf8_valid s' | _ \<Rightarrow> False)
      else if 224 \<le> byte a \<and> byte a \<le> 239 then
        (case s of
           b # c # s' \<Rightarrow>
             utf8_cont b \<and> utf8_cont c \<and> (byte a = 224 \<longrightarrow> 160 \<le> byte b) \<and>
             (byte a = 237 \<longrightarrow> byte b \<le> 159) \<and> utf8_valid s'
         | _ \<Rightarrow> False)
      else if 240 \<le> byte a \<and> byte a \<le> 244 then
        (case s of
           b # c # d # s' \<Rightarrow>
             utf8_cont b \<and> utf8_cont c \<and> utf8_cont d \<and> (byte a = 240 \<longrightarrow> 144 \<le> byte b) \<and>
             (byte a = 244 \<longrightarrow> byte b \<le> 143) \<and> utf8_valid s'
         | _ \<Rightarrow> False)
      else False)"

section \<open>The \<^verbatim>\<open>server_name\<close> of a ClientHello\<close>

text \<open>\<^verbatim>\<open>take\<close>: the next \<open>n\<close> bytes at \<open>p\<close> and the position after them.\<close>

definition take_at :: "string \<Rightarrow> nat \<Rightarrow> nat \<Rightarrow> (string \<times> nat) option" where
  "take_at hs p n = (if p + n \<le> length hs then Some (take n (drop p hs), p + n) else None)"

function name_loop :: "string \<Rightarrow> nat \<Rightarrow> string option" where
  "name_loop data q =
     (if q + 3 \<le> length data then
        let name_type = byte (data ! q); n = be16 [data ! (q + 1), data ! (q + 2)] in
        (case take_at data (q + 3) n of
           None \<Rightarrow> None
         | Some (name, q') \<Rightarrow>
             if name_type = 0 then
               (if utf8_valid name then Some (to_ascii_lowercase name) else None)
             else name_loop data q')
      else None)"
  by pat_completeness auto
termination
  by (relation "measure (\<lambda>(data, q). length data - q)") (auto simp: take_at_def split: if_splits)

function ext_loop :: "string \<Rightarrow> nat \<Rightarrow> nat \<Rightarrow> string option" where
  "ext_loop hs stop p =
     (if p + 4 \<le> min stop (length hs) then
        (case take_at hs p 2 of None \<Rightarrow> None | Some (ty, p1) \<Rightarrow>
         case take_at hs p1 2 of None \<Rightarrow> None | Some (len, p2) \<Rightarrow>
         case take_at hs p2 (be16 len) of None \<Rightarrow> None | Some (data, p3) \<Rightarrow>
           if be16 ty = 0 then name_loop data 2 else ext_loop hs stop p3)
      else None)"
  by pat_completeness auto
termination
  by (relation "measure (\<lambda>(hs, stop, p). length hs - p)") (auto simp: take_at_def split: if_splits)

declare name_loop.simps [simp del] ext_loop.simps [simp del]

definition server_name :: "string \<Rightarrow> string option" where
  "server_name hs =
     (if length hs < 4 \<or> byte (hs ! 0) \<noteq> 1 then None
      else do {
        (version, p) \<leftarrow> take_at hs 4 2;
        (random, p) \<leftarrow> take_at hs p 32;
        (sid, p) \<leftarrow> take_at hs p 1;
        (session, p) \<leftarrow> take_at hs p (byte (sid ! 0));
        (cs, p) \<leftarrow> take_at hs p 2;
        (suites, p) \<leftarrow> take_at hs p (be16 cs);
        (comp, p) \<leftarrow> take_at hs p 1;
        (methods, p) \<leftarrow> take_at hs p (byte (comp ! 0));
        (ext_len, p) \<leftarrow> take_at hs p 2;
        ext_loop hs (p + be16 ext_len) p
      })"

section \<open>Peeking and replaying\<close>

record Peeked =
  pe_bytes :: string
  pe_is_tls :: bool
  pe_sni :: "string option"

definition max_record :: nat where
  "max_record = 16 * 1024 + 5"

text \<open>
  \<open>peek\<close> on the bytes that arrive before the timeout: \<^verbatim>\<open>None\<close> when they are too few (the stream
  ended or the time is up), else what was peeked and the bytes not yet read.
\<close>

definition peek :: "string \<Rightarrow> (Peeked \<times> string) option" where
  "peek s =
     (if length s < 5 then None
      else
        let head = take 5 s; plain = \<lparr>pe_bytes = head, pe_is_tls = False, pe_sni = None\<rparr> in
        if byte (head ! 0) \<noteq> 22 \<or> byte (head ! 1) \<noteq> 3 then Some (plain, drop 5 s)
        else
          let len = be16 [head ! 3, head ! 4] in
          if len = 0 \<or> len + 5 > max_record then Some (plain, drop 5 s)
          else if length s < 5 + len then None
          else
            let body = take len (drop 5 s) in
            Some (\<lparr>pe_bytes = head @ body, pe_is_tls = True, pe_sni = server_name body\<rparr>,
                  drop (5 + len) s))"

text \<open>
  \<open>Prefixed\<close> over an inner stream of which the bytes to come are known; the inner stream gives
  at most \<open>k\<close> bytes to a read.
\<close>

record Prefixed =
  pr_prefix :: string
  pr_pos :: nat
  pr_inner :: string

definition prefixed_new :: "string \<Rightarrow> string \<Rightarrow> Prefixed" where
  "prefixed_new pre inner = \<lparr>pr_prefix = pre, pr_pos = 0, pr_inner = inner\<rparr>"

definition poll_read :: "nat \<Rightarrow> nat \<Rightarrow> Prefixed \<Rightarrow> string \<times> Prefixed" where
  "poll_read remaining k s =
     (if pr_pos s < length (pr_prefix s) then
        let n = min (length (pr_prefix s) - pr_pos s) remaining in
        (take n (drop (pr_pos s) (pr_prefix s)), s\<lparr>pr_pos := pr_pos s + n\<rparr>)
      else
        let n = min k remaining in
        (take n (pr_inner s), s\<lparr>pr_inner := drop n (pr_inner s)\<rparr>))"

fun read_all :: "(nat \<times> nat) list \<Rightarrow> Prefixed \<Rightarrow> string \<times> Prefixed" where
  "read_all [] s = ([], s)"
| "read_all ((remaining, k) # rs) s =
     (case poll_read remaining k s of (out, s') \<Rightarrow>
      case read_all rs s' of (outs, s'') \<Rightarrow> (out @ outs, s''))"

section \<open>The ClientHello as it is sent\<close>

definition enc16 :: "nat \<Rightarrow> string" where
  "enc16 n = [char_of (n div 256), char_of (n mod 256)]"

datatype Extension =
    ServerNames "(char \<times> string) list"
  | OtherExt nat string

record ClientHello =
  ch_version :: string
  ch_random :: string
  ch_session :: string
  ch_suites :: string
  ch_methods :: string
  ch_exts :: "Extension list"

definition enc_name :: "char \<times> string \<Rightarrow> string" where
  "enc_name e = fst e # enc16 (length (snd e)) @ snd e"

definition enc_names :: "(char \<times> string) list \<Rightarrow> string" where
  "enc_names ns = concat (map enc_name ns)"

fun ext_data :: "Extension \<Rightarrow> string" where
  "ext_data (ServerNames ns) = enc16 (length (enc_names ns)) @ enc_names ns"
| "ext_data (OtherExt t d) = d"

fun ext_type :: "Extension \<Rightarrow> nat" where
  "ext_type (ServerNames ns) = 0"
| "ext_type (OtherExt t d) = t"

definition enc_ext :: "Extension \<Rightarrow> string" where
  "enc_ext e = enc16 (ext_type e) @ enc16 (length (ext_data e)) @ ext_data e"

definition enc_exts :: "Extension list \<Rightarrow> string" where
  "enc_exts es = concat (map enc_ext es)"

definition enc_hello :: "ClientHello \<Rightarrow> string" where
  "enc_hello h =
     ch_version h @ ch_random h @ [char_of (length (ch_session h))] @ ch_session h @
     enc16 (length (ch_suites h)) @ ch_suites h @
     [char_of (length (ch_methods h))] @ ch_methods h @
     enc16 (length (enc_exts (ch_exts h))) @ enc_exts (ch_exts h)"

definition enc_handshake :: "ClientHello \<Rightarrow> string" where
  "enc_handshake h = CHR 0x01 # char_of (length (enc_hello h) div 65536) #
     enc16 (length (enc_hello h) mod 65536) @ enc_hello h"

definition enc_record :: "ClientHello \<Rightarrow> string" where
  "enc_record h = CHR 0x16 # CHR 0x03 # CHR 0x01 # enc16 (length (enc_handshake h)) @ enc_handshake h"

fun wf_ext :: "Extension \<Rightarrow> bool" where
  "wf_ext (ServerNames ns) \<longleftrightarrow> length (ext_data (ServerNames ns)) < 65536"
| "wf_ext (OtherExt t d) \<longleftrightarrow> 0 < t \<and> t < 65536 \<and> length d < 65536"

definition wf_hello :: "ClientHello \<Rightarrow> bool" where
  "wf_hello h \<longleftrightarrow> length (ch_version h) = 2 \<and> length (ch_random h) = 32 \<and>
     length (ch_session h) < 256 \<and> length (ch_suites h) < 65536 \<and> length (ch_methods h) < 256 \<and>
     list_all wf_ext (ch_exts h) \<and> length (enc_exts (ch_exts h)) < 65536 \<and>
     length (enc_handshake h) \<le> 16384"

text \<open>The name such a hello carries: the first host name of its first name list.\<close>

fun first_host :: "(char \<times> string) list \<Rightarrow> string option" where
  "first_host [] = None"
| "first_host ((t, n) # ns) =
     (if byte t = 0 then (if utf8_valid n then Some (to_ascii_lowercase n) else None)
      else first_host ns)"

fun hello_name :: "Extension list \<Rightarrow> string option" where
  "hello_name [] = None"
| "hello_name (ServerNames ns # es) = first_host ns"
| "hello_name (OtherExt t d # es) = hello_name es"

section \<open>The parser reads what the encoder writes\<close>

lemma length_enc16 [simp]: "length (enc16 n) = 2"
  by (simp add: enc16_def)

lemma byte_char_of_mod: "byte (char_of n) = n mod 256"
  by (simp add: byte_def)

lemma be16_enc16 [simp]: "n < 65536 \<Longrightarrow> be16 (enc16 n) = n"
  by (simp add: be16_def enc16_def byte_char_of_mod)

text \<open>What is left to read at a position.\<close>

definition left_at :: "string \<Rightarrow> nat \<Rightarrow> string \<Rightarrow> bool" where
  "left_at s p r \<longleftrightarrow> p \<le> length s \<and> drop p s = r"

lemma left_at_append:
  assumes "left_at s p (x @ r)" and "n = length x" and "p' = p + n"
  shows "take_at s p n = Some (x, p')" and "left_at s p' r"
proof -
  have d: "drop p s = x @ r" and "length s = p + length x + length r"
    using assms(1) by (auto simp: left_at_def) (metis length_append length_drop le_add_diff_inverse add.assoc)
  moreover have "drop (p + n) s = r"
    using arg_cong [OF d, of "drop n"] assms(2) by (simp add: add.commute)
  ultimately show "take_at s p n = Some (x, p')" and "left_at s p' r"
    using assms(2,3) by (simp_all add: take_at_def left_at_def)
qed

lemma left_at_Cons:
  assumes "left_at s p (c # r)"
  shows "take_at s p 1 = Some ([c], p + 1)" and "left_at s (p + 1) r"
  using left_at_append [of s p "[c]" r 1 "p + 1"] assms by simp_all

lemma left_at_length: "left_at s p r \<Longrightarrow> length s = p + length r"
  by (auto simp: left_at_def)

lemma left_at_nth: "left_at s p r \<Longrightarrow> i < length r \<Longrightarrow> s ! (p + i) = r ! i"
  by (auto simp: left_at_def)

lemma name_loop_enc:
  assumes "list_all (\<lambda>e. length (snd e) < 65536) ns" and "left_at data q (enc_names ns)"
  shows "name_loop data q = first_host ns"
  using assms
proof (induction ns arbitrary: q)
  case Nil
  then have "\<not> q + 3 \<le> length data" by (simp add: enc_names_def left_at_def)
  then show ?case by (subst name_loop.simps) simp
next
  case (Cons e ns)
  obtain t n where e: "e = (t, n)" by (cases e)
  have l: "left_at data q ([t] @ enc16 (length n) @ n @ enc_names ns)"
    using Cons.prems(2) by (simp add: enc_names_def enc_name_def e)
  have len: "q + 3 \<le> length data" using left_at_length [OF l] by simp
  have bytes: "data ! q = t" "[data ! (q + 1), data ! (q + 2)] = enc16 (length n)"
    using left_at_nth [OF l, of 0] left_at_nth [OF l, of 1] left_at_nth [OF l, of 2]
    by (simp_all add: enc16_def)
  note l1 = left_at_append(2) [OF l, of 1 "q + 1"]
  have l2: "left_at data (q + 3) (n @ enc_names ns)"
    by (rule left_at_append(2) [OF l1, of 2]) simp_all
  have "name_loop data (q + 3 + length n) = first_host ns"
    using Cons.IH [OF _ left_at_append(2) [OF l2 refl refl]] Cons.prems(1) by simp
  moreover have "length n < 65536" using Cons.prems(1) by (simp add: e)
  ultimately show ?case
    using len left_at_append(1) [OF l2 refl refl]
    by (subst name_loop.simps) (simp only: bytes be16_enc16 Let_def e first_host.simps
        option.case prod.case if_True)
qed

lemma names_fit: "length (enc_names ns) < 65536 \<Longrightarrow> list_all (\<lambda>e. length (snd e) < 65536) ns"
  by (induction ns) (auto simp: enc_names_def enc_name_def)

lemma ext_loop_enc:
  assumes "list_all wf_ext es" and "left_at hs p (enc_exts es)"
  shows "ext_loop hs (length hs) p = hello_name es"
  using assms
proof (induction es arbitrary: p)
  case Nil
  then have "\<not> p + 4 \<le> length hs" by (simp add: enc_exts_def left_at_def)
  then show ?case by (subst ext_loop.simps) simp
next
  case (Cons e es)
  let ?n = "length (ext_data e)"
  have l: "left_at hs p (enc16 (ext_type e) @ enc16 ?n @ ext_data e @ enc_exts es)"
    using Cons.prems(2) by (simp add: enc_exts_def enc_ext_def)
  have len: "p + 4 \<le> min (length hs) (length hs)" using left_at_length [OF l] by simp
  have wf: "wf_ext e" using Cons.prems by simp
  then have fits: "ext_type e < 65536" "?n < 65536" by (cases e; simp)+
  note t1 = left_at_append [OF l length_enc16 [symmetric] refl]
  note t2 = left_at_append [OF t1(2) length_enc16 [symmetric] refl]
  note t3 = left_at_append [OF t2(2) refl refl]
  have "ext_loop hs (length hs) (p + 2 + 2 + ?n) = hello_name es"
    using Cons.IH [OF _ t3(2)] Cons.prems(1) by simp
  then have step: "ext_loop hs (length hs) p =
      (if ext_type e = 0 then name_loop (ext_data e) 2 else hello_name es)"
    using len
    by (subst ext_loop.simps) (simp only: t1(1) t2(1) t3(1) fits be16_enc16 option.case prod.case if_True)
  show ?case
  proof (cases e)
    case (ServerNames ns)
    then have fit: "list_all (\<lambda>e. length (snd e) < 65536) ns" using wf by (intro names_fit) simp
    have "left_at (ext_data e) 2 (enc_names ns)" by (simp add: ServerNames left_at_def)
    with name_loop_enc [OF fit this] step show ?thesis by (simp add: ServerNames)
  next
    case (OtherExt t d)
    then show ?thesis using step wf by simp
  qed
qed

lemma server_name_enc:
  assumes "wf_hello h"
  shows "server_name (enc_handshake h) = hello_name (ch_exts h)"
proof -
  let ?hs = "enc_handshake h" and ?x = "enc_exts (ch_exts h)"
  have wf: "length (ch_version h) = 2" "length (ch_random h) = 32" "length (ch_session h) < 256"
      "length (ch_suites h) < 65536" "length (ch_methods h) < 256" "length ?x < 65536"
      "list_all wf_ext (ch_exts h)"
    using assms by (simp_all add: wf_hello_def)
  have "left_at ?hs 4 (enc_hello h)"
    by (simp add: left_at_def enc_handshake_def enc16_def)
  note l0 = this [unfolded enc_hello_def append.simps]
  note t1 = left_at_append [OF l0 wf(1) [symmetric] refl]
  note t2 = left_at_append [OF t1(2) wf(2) [symmetric] refl]
  note t3 = left_at_Cons [OF t2(2)]
  note t4 = left_at_append [OF t3(2) refl refl]
  note t5 = left_at_append [OF t4(2) length_enc16 [symmetric] refl]
  note t6 = left_at_append [OF t5(2) refl refl]
  note t7 = left_at_Cons [OF t6(2)]
  note t8 = left_at_append [OF t7(2) refl refl]
  note t9 = left_at_append [OF t8(2) length_enc16 [symmetric] refl]
  have head: "\<not> (length ?hs < 4 \<or> byte (?hs ! 0) \<noteq> 1)"
    by (simp add: enc_handshake_def byte_def)
  have bytes: "byte ([char_of (length (ch_session h))] ! 0) = length (ch_session h)"
      "byte ([char_of (length (ch_methods h))] ! 0) = length (ch_methods h)"
    using wf by (simp_all add: byte_char_of_mod)
  note exts = ext_loop_enc [OF wf(7) t9(2), unfolded left_at_length [OF t9(2)]]
  show ?thesis
    unfolding server_name_def if_not_P [OF head]
    by (simp only: t1(1) t2(1) t3(1) t4(1) t5(1) t6(1) t7(1) t8(1) t9(1) exts bytes wf be16_enc16
        Option.bind.simps prod.case)
qed

section \<open>Properties\<close>

text \<open>On a connection that opens with a ClientHello in one record, whatever its session,
  cipher suites, compression methods and extensions, the proxy reads exactly that record, and
  the name it acts on is the first host name of the first \<^verbatim>\<open>server_name\<close> extension, in lower
  case (none when there is no such extension or the name is not UTF-8).\<close>

theorem peek_client_hello:
  assumes "wf_hello h"
  shows "peek (enc_record h @ rest) =
    Some (\<lparr>pe_bytes = enc_record h, pe_is_tls = True, pe_sni = hello_name (ch_exts h)\<rparr>, rest)"
proof -
  let ?hs = "enc_handshake h"
  have len: "0 < length ?hs" "length ?hs \<le> 16384"
    using assms by (simp_all add: wf_hello_def enc_handshake_def)
  have rec: "enc_record h @ rest = [CHR 0x16, CHR 0x03, CHR 0x01] @ enc16 (length ?hs) @ ?hs @ rest"
    by (simp add: enc_record_def)
  have "take 5 (enc_record h @ rest) = [CHR 0x16, CHR 0x03, CHR 0x01] @ enc16 (length ?hs)"
    and "drop 5 (enc_record h @ rest) = ?hs @ rest"
    by (simp_all add: rec enc16_def)
  moreover have "be16 [(enc16 (length ?hs)) ! 0, (enc16 (length ?hs)) ! 1] = length ?hs"
    using be16_enc16 [of "length ?hs"] len by (simp add: enc16_def)
  moreover have "length (enc_record h @ rest) = 5 + length ?hs + length rest"
    by (simp add: rec)
  moreover from calculation(2) have "drop (5 + length ?hs) (enc_record h @ rest) = rest"
    by (metis add.commute append_eq_conv_conj drop_drop)
  ultimately show ?thesis
    using len server_name_enc [OF assms]
    by (simp add: peek_def Let_def max_record_def byte_def) (simp add: enc_record_def)
qed

definition sample_hello :: ClientHello where
  "sample_hello = \<lparr>ch_version = [CHR 0x03, CHR 0x03], ch_random = replicate 32 CHR 0x07, ch_session = [],
     ch_suites = [CHR 0x13, CHR 0x01], ch_methods = [CHR 0x00],
     ch_exts = [OtherExt 23 [], ServerNames [(CHR 0x00, ''Api.Example.Test'')]]\<rparr>"

theorem peek_client_hello_witness:
  "\<exists>pk. peek (enc_record sample_hello @ ''after'') = Some (pk, ''after'') \<and>
     pe_sni pk = Some ''api.example.test''"
proof -
  have "wf_hello sample_hello"
    by (simp add: wf_hello_def sample_hello_def enc_handshake_def enc_hello_def enc_exts_def enc_ext_def
        enc_names_def enc_name_def)
  note peek_client_hello [OF this, of "''after''"]
  moreover have "hello_name (ch_exts sample_hello) = Some ''api.example.test''" by code_simp
  ultimately show ?thesis by (metis Peeked.select_convs(3))
qed

lemma peek_split: "peek s = Some (pk, rest) \<Longrightarrow> s = pe_bytes pk @ rest"
  by (auto simp: peek_def Let_def split: if_splits) (metis append_take_drop_id drop_drop add.commute)+

definition unread :: "Prefixed \<Rightarrow> string" where
  "unread s = drop (pr_pos s) (pr_prefix s) @ pr_inner s"

lemma poll_read_unread:
  "poll_read n k s = (out, s') \<Longrightarrow> out @ unread s' = unread s"
  by (auto simp: poll_read_def unread_def Let_def split: if_splits)
    (metis add.commute append_assoc append_take_drop_id drop_drop)

lemma poll_read_progress:
  assumes "poll_read n k s = (out, s')" and "0 < n" and "0 < k" and "unread s \<noteq> []"
  shows "out \<noteq> []"
  using assms by (auto simp: poll_read_def unread_def Let_def split: if_splits)

lemma read_all_unread: "read_all rs s = (out, s') \<Longrightarrow> out @ unread s' = unread s"
proof (induction rs arbitrary: s out)
  case (Cons r rs)
  obtain n k where r: "r = (n, k)" by (cases r)
  obtain o1 s1 where p: "poll_read n k s = (o1, s1)" by (cases "poll_read n k s")
  obtain o2 where q: "read_all rs s1 = (o2, s')" and out: "out = o1 @ o2"
    using Cons.prems p r by (auto split: prod.splits)
  from Cons.IH [OF q] poll_read_unread [OF p] show ?case by (simp add: out)
qed simp

lemma read_all_complete:
  assumes "list_all (\<lambda>(n, k). 0 < n \<and> 0 < k) rs" and "length (unread s) \<le> length rs"
  shows "fst (read_all rs s) = unread s"
  using assms
proof (induction rs arbitrary: s)
  case (Cons r rs)
  obtain n k where r: "r = (n, k)" by (cases r)
  obtain o1 s1 where p: "poll_read n k s = (o1, s1)" by (cases "poll_read n k s")
  note split = poll_read_unread [OF p]
  have "length (unread s1) \<le> length rs"
  proof (cases "unread s = []")
    case True
    then show ?thesis using split by simp
  next
    case False
    then have "o1 \<noteq> []" using poll_read_progress [OF p] Cons.prems(1) by (simp add: r)
    then have "length (unread s1) < length (unread s)"
      using arg_cong [OF split, of length] by (cases o1) auto
    then show ?thesis using Cons.prems(2) by simp
  qed
  then have "fst (read_all rs s1) = unread s1" using Cons.IH Cons.prems(1) by simp
  then show ?case using split by (cases "read_all rs s1") (simp add: r p)
qed simp

text \<open>looking at a connection loses nothing. Whatever was peeked, and however the reads
  after it are cut up, what they return is the connection's bytes from the first one on, in
  order, and as many reads as there are bytes return all of them.\<close>

theorem peek_replays:
  assumes "peek s = Some (pk, rest)" and "list_all (\<lambda>(n, k). 0 < n \<and> 0 < k) rs"
  shows "(\<exists>more. fst (read_all rs (prefixed_new (pe_bytes pk) rest)) @ more = s) \<and>
    (length s \<le> length rs \<longrightarrow> fst (read_all rs (prefixed_new (pe_bytes pk) rest)) = s)"
proof -
  let ?s = "prefixed_new (pe_bytes pk) rest"
  have u: "unread ?s = s" using peek_split [OF assms(1)] by (simp add: unread_def prefixed_new_def)
  obtain out s' where r: "read_all rs ?s = (out, s')" by (cases "read_all rs ?s")
  show ?thesis
    using read_all_unread [OF r] read_all_complete [OF assms(2), of ?s] u r by auto
qed

theorem peek_replays_witness:
  "fst (read_all (replicate 16 (3, 2)) (prefixed_new ''GET /'' '' HTTP/1.1'')) = ''GET / HTTP/1.1''"
proof -
  have "peek ''GET / HTTP/1.1'' =
      Some (\<lparr>pe_bytes = ''GET /'', pe_is_tls = False, pe_sni = None\<rparr>, '' HTTP/1.1'')"
    by code_simp
  moreover have "list_all (\<lambda>(n, k). 0 < n \<and> 0 < k) (replicate 16 (3 :: nat, 2 :: nat))"
    by (simp add: list_all_iff)
  ultimately show ?thesis using peek_replays by fastforce
qed

end
