(* ===== verification/Iso_Proxy.thy ===== *)
theory Iso_Proxy
  imports Iso_Dns Iso_Sni
begin

text \<open>
  The egress proxy (\<^verbatim>\<open>crates/iso-proxy/src\<close>): a connection's policy and how it is learned
  (\<^verbatim>\<open>policy.rs\<close>), its original destination (\<^verbatim>\<open>dst.rs\<close>), the edge's registry of live connections and
  the watch that closes them (\<^verbatim>\<open>edge.rs\<close>), what a replica accepts from an edge, and the serving of
  a connection and of a request (\<^verbatim>\<open>lib.rs\<close>, \<^verbatim>\<open>ws.rs\<close>). Sockets, TLS and the HTTP library are
  parameters: what a dial, a handshake, a header or a URI parse answers.
\<close>

section \<open>A connection's policy\<close>

record Policy =
  po_egress :: string
  po_principal :: "string option"
  po_rules :: RuleSet
  po_policy_gen :: u64
  po_vm :: "string option"
  po_signed :: "SignedPolicy option"

definition policy_from_identify :: "IdentifyResponse \<Rightarrow> Policy option" where
  "policy_from_identify r =
     (if \<not> ir_found r then None
      else
        let rules = (if ir_rules r = [] then from_allow_list (ir_allow r) else ruleset_parse (ir_rules r)) in
        Some \<lparr>po_egress = ir_egress r, po_principal = ir_principal r,
          po_rules = (case rules of Inr rs \<Rightarrow> rs | Inl _ \<Rightarrow> \<lparr>rs_rules = []\<rparr>),
          po_policy_gen = ir_policy_gen r, po_vm = ir_vm r, po_signed = ir_signed r\<rparr>)"

definition policy_from_claims :: "PolicyClaims \<Rightarrow> SignedPolicy \<Rightarrow> (ParseError, Policy) result" where
  "policy_from_claims c sp =
     and_then (ruleset_parse (pc_rules c)) (\<lambda>rs.
     Ok \<lparr>po_egress = pc_egress c, po_principal = pc_principal c, po_rules = rs,
       po_policy_gen = pc_policy_gen c, po_vm = Some (pc_vm c), po_signed = Some sp\<rparr>)"

definition is_deny_mode :: "Policy \<Rightarrow> bool" where
  "is_deny_mode p \<longleftrightarrow> po_egress p = ''deny''"

record WirePolicy =
  wp_host :: string
  wp_vm :: "string option"
  wp_egress :: string
  wp_principal :: "string option"
  wp_rules :: "string list"
  wp_policy_gen :: u64
  wp_signed :: "SignedPolicy option"

definition wire_from_policy :: "string \<Rightarrow> Policy \<Rightarrow> WirePolicy" where
  "wire_from_policy host p = \<lparr>wp_host = host, wp_vm = po_vm p, wp_egress = po_egress p,
     wp_principal = po_principal p, wp_rules = to_strings (po_rules p),
     wp_policy_gen = po_policy_gen p, wp_signed = po_signed p\<rparr>"

definition wire_into_policy :: "WirePolicy \<Rightarrow> (ParseError, Policy) result" where
  "wire_into_policy w =
     and_then (ruleset_parse (wp_rules w)) (\<lambda>rs.
     Ok \<lparr>po_egress = wp_egress w, po_principal = wp_principal w, po_rules = rs,
       po_policy_gen = wp_policy_gen w, po_vm = wp_vm w, po_signed = wp_signed w\<rparr>)"

text \<open>
  The resolver over the identify service: \<open>rpc\<close> is what the call for an address answers
  (\<^verbatim>\<open>None\<close> a failed call), \<open>now\<close> when the cache is read and \<open>now'\<close> when it is written.
\<close>

type_synonym ResolverCache = "(IpAddr \<times> Instant \<times> Policy option) list"

definition resolve ::
  "Instant \<Rightarrow> (IpAddr \<Rightarrow> IdentifyResponse option) \<Rightarrow> Instant \<Rightarrow> Instant \<Rightarrow> IpAddr \<Rightarrow> ResolverCache \<Rightarrow>
     Policy option \<times> ResolverCache" where
  "resolve ttl rpc now now' ip cache =
     (let ask = (let pol = Option.bind (rpc ip) policy_from_identify in (pol, AList.update ip (now', pol) cache)) in
      case map_of cache ip of
        Some (since, pol) \<Rightarrow> if now - since < ttl then (pol, cache) else ask
      | None \<Rightarrow> ask)"

definition resolve_dst :: "IdentifyResponse option \<Rightarrow> string option" where
  "resolve_dst answer =
     (case answer of Some r \<Rightarrow> if ir_found r then ir_dst_name r else None | None \<Rightarrow> None)"

datatype Refusal = Unknown_Source | Deny_Mode

definition admit :: "Policy option \<Rightarrow> (Refusal, Policy) result" where
  "admit resolved =
     (case resolved of
        None \<Rightarrow> Err Unknown_Source
      | Some p \<Rightarrow> if is_deny_mode p then Err Deny_Mode else Ok p)"

section \<open>Destinations\<close>

record Dst =
  ds_addr :: "(Ipv4Addr \<times> u16) option"
  ds_name :: "string option"

definition dst_port :: "Dst \<Rightarrow> u16" where
  "dst_port d = (case ds_addr d of Some (_, p) \<Rightarrow> p | None \<Rightarrow> 443)"

definition dst_ip :: "Dst \<Rightarrow> Ipv4Addr option" where
  "dst_ip d = map_option fst (ds_addr d)"

definition dst_label :: "Dst \<Rightarrow> string" where
  "dst_label d =
     (case ds_name d of
        Some n \<Rightarrow> n
      | None \<Rightarrow> (case ds_addr d of Some (ip, _) \<Rightarrow> ipv4_display ip | None \<Rightarrow> []))"

text \<open>\<open>original\<close> is the kernel's record of the destination, \<open>named\<close> the resolver's answer for it.\<close>

definition lookup_dst :: "(Ipv4Addr \<times> u16) option \<Rightarrow> (Ipv4Addr \<Rightarrow> string option) option \<Rightarrow> Dst" where
  "lookup_dst original named =
     \<lparr>ds_addr = original,
      ds_name =
        (case original of
           Some (ip, p) \<Rightarrow> if p \<noteq> 443 then (case named of Some f \<Rightarrow> f ip | None \<Rightarrow> None) else None
         | None \<Rightarrow> None)\<rparr>"

section \<open>The registry of live connections\<close>

record Live =
  lv_id :: nat
  lv_vm :: "string option"
  lv_policy_gen :: u64

text \<open>\<open>rg_aborted\<close>: the connections whose task was told to end.\<close>

record Registry =
  rg_live :: "(IpAddr \<times> Live list) list"
  rg_next_id :: nat
  rg_aborted :: "nat list"

definition registry_new :: Registry where
  "registry_new = \<lparr>rg_live = [], rg_next_id = 0, rg_aborted = []\<rparr>"

definition live_of :: "Registry \<Rightarrow> IpAddr \<Rightarrow> Live list" where
  "live_of g ip = (case map_of (rg_live g) ip of Some ls \<Rightarrow> ls | None \<Rightarrow> [])"

definition put_live :: "IpAddr \<Rightarrow> Live list \<Rightarrow> Registry \<Rightarrow> Registry" where
  "put_live ip ls g =
     g\<lparr>rg_live := (if ls = [] then AList.delete ip (rg_live g) else AList.update ip ls (rg_live g))\<rparr>"

definition register :: "IpAddr \<Rightarrow> Policy \<Rightarrow> Registry \<Rightarrow> nat \<times> Registry" where
  "register ip p g =
     (let i = rg_next_id g; l = \<lparr>lv_id = i, lv_vm = po_vm p, lv_policy_gen = po_policy_gen p\<rparr> in
      (i, g\<lparr>rg_next_id := i + 1, rg_live := AList.update ip (live_of g ip @ [l]) (rg_live g)\<rparr>))"

text \<open>Dropping a \<^verbatim>\<open>Registration\<close>.\<close>

definition unregister :: "IpAddr \<Rightarrow> nat \<Rightarrow> Registry \<Rightarrow> Registry" where
  "unregister ip i g =
     (case map_of (rg_live g) ip of
        None \<Rightarrow> g
      | Some ls \<Rightarrow> put_live ip (filter (\<lambda>l. lv_id l \<noteq> i) ls) g)"

definition addresses :: "Registry \<Rightarrow> IpAddr list" where
  "addresses g = map fst (rg_live g)"

definition count_live :: "IpAddr \<Rightarrow> Registry \<Rightarrow> nat" where
  "count_live ip g = length (live_of g ip)"

definition close_stale :: "IpAddr \<Rightarrow> u64 option \<Rightarrow> Registry \<Rightarrow> nat \<times> Registry" where
  "close_stale ip keep_gen g =
     (case map_of (rg_live g) ip of
        None \<Rightarrow> (0, g)
      | Some ls \<Rightarrow>
          let kept = filter (\<lambda>l. keep_gen = Some (lv_policy_gen l)) ls;
              stale = filter (\<lambda>l. keep_gen \<noteq> Some (lv_policy_gen l)) ls in
          (length ls - length kept,
           (put_live ip kept g)\<lparr>rg_aborted := rg_aborted g @ map lv_id stale\<rparr>))"

text \<open>One pass of \<open>watch\<close>: \<open>admitted ip\<close> is what \<open>admit\<close> says of an address in it.\<close>

definition keep_of :: "(Refusal, Policy) result \<Rightarrow> u64 option" where
  "keep_of r = (case r of Inr p \<Rightarrow> Some (po_policy_gen p) | Inl _ \<Rightarrow> None)"

definition watch_pass :: "(IpAddr \<Rightarrow> (Refusal, Policy) result) \<Rightarrow> Registry \<Rightarrow> Registry" where
  "watch_pass admitted g =
     fold (\<lambda>ip g. snd (close_stale ip (keep_of (admitted ip)) g)) (addresses g) g"

section \<open>What a replica accepts\<close>

record Decoded =
  de_src :: "IpAddr option"
  de_policy :: WirePolicy
  de_dst :: Dst

datatype StreamReply =
    Reply nat string
  | Serve IpAddr Policy Dst

text \<open>
  \<open>accept_stream\<close> on the outcome of \<^verbatim>\<open>tunnel::decode\<close> (\<^verbatim>\<open>None\<close> unusable headers); the verifier is
  the fleet's public key, if one is configured.
\<close>

definition accept_stream ::
  "Codec \<Rightarrow> u64 \<Rightarrow> bool \<Rightarrow> Decoded option \<Rightarrow> IpAddr \<Rightarrow> string \<Rightarrow> string option \<Rightarrow> StreamReply" where
  "accept_stream K now is_connect decoded edge edge_name verifier =
     (if \<not> is_connect then Reply 405 ''the tier speaks CONNECT only''
      else case decoded of
        None \<Rightarrow> Reply 400 ''bad tunnel headers''
      | Some d \<Rightarrow>
          let src = (case de_src d of Some s \<Rightarrow> s | None \<Rightarrow> edge);
              policy =
                (case verifier of
                   Some public \<Rightarrow>
                     (case wp_signed (de_policy d) of
                        None \<Rightarrow> Err (Reply 403 ''unsigned policy'')
                      | Some sp \<Rightarrow>
                          (case verify_at K public sp now of
                             Inl _ \<Rightarrow> Err (Reply 403 ''policy does not verify'')
                           | Inr claims \<Rightarrow>
                               if pc_host claims \<noteq> edge_name
                               then Err (Reply 403 ''policy is for another host'')
                               else (case policy_from_claims claims sp of
                                       Inl _ \<Rightarrow> Err (Reply 400 ''bad policy'')
                                     | Inr p \<Rightarrow> Ok p)))
                 | None \<Rightarrow>
                     (case wire_into_policy (de_policy d) of
                        Inl _ \<Rightarrow> Err (Reply 400 ''bad policy'')
                      | Inr p \<Rightarrow> Ok p)) in
          (case policy of
             Inl reply \<Rightarrow> reply
           | Inr p \<Rightarrow>
               if is_deny_mode p then Reply 403 ''deny-mode vm'' else Serve src p (de_dst d)))"

section \<open>Serving a connection\<close>

text \<open>What the world answers: pins, name lookup, dialling, the TLS acceptor, minting, the handshake.\<close>

type_synonym Addr = "IpAddr \<times> u16"

record ServeEnv =
  se_pins :: "string \<Rightarrow> Addr option"
  se_lookup_host :: "string \<Rightarrow> u16 \<Rightarrow> Addr option"
  se_connect :: "Addr \<Rightarrow> bool"
  se_accept :: bool
  se_server_config :: "string \<Rightarrow> bool"
  se_handshake :: bool

datatype ConnOutcome =
    Closed
  | TcpDenied string u16 string
  | SniDenied string
  | Tunnelled Addr string u16 Prefixed
  | Terminated string Prefixed

definition passthrough :: "ServeEnv \<Rightarrow> Prefixed \<Rightarrow> string \<Rightarrow> u16 \<Rightarrow> ConnOutcome" where
  "passthrough env guest host port =
     (case (case se_pins env host of Some a \<Rightarrow> Some a | None \<Rightarrow> se_lookup_host env host port) of
        None \<Rightarrow> TcpDenied host port ''does not resolve''
      | Some a \<Rightarrow>
          if se_connect env a then Tunnelled a host port guest
          else TcpDenied host port ''unreachable'')"

text \<open>\<open>stream\<close>: the guest's bytes as they arrive in time.\<close>

definition serve_conn :: "ServeEnv \<Rightarrow> string \<Rightarrow> Policy \<Rightarrow> Dst \<Rightarrow> ConnOutcome" where
  "serve_conn env stream p dst =
     (if dst_port dst \<noteq> 443 then
        (case ds_name dst of
           None \<Rightarrow>
             TcpDenied (dst_label dst) (dst_port dst)
               ''no name: the address was not resolved through the host''
         | Some host \<Rightarrow>
             if \<not> tunnel_allowed (po_rules p) host (dst_port dst)
             then TcpDenied host (dst_port dst) ''no tunnel rule''
             else passthrough env (prefixed_new [] stream) host (dst_port dst))
      else
        (case peek stream of
           None \<Rightarrow> Closed
         | Some (peeked, rest) \<Rightarrow>
             if \<not> pe_is_tls peeked then Closed
             else (case pe_sni peeked of
                     None \<Rightarrow> Closed
                   | Some sni \<Rightarrow>
                       let guest = prefixed_new (pe_bytes peeked) rest in
                       if tunnel_allowed (po_rules p) sni 443 then passthrough env guest sni 443
                       else if \<not> host_allowed (po_rules p) sni then SniDenied sni
                       else if \<not> se_accept env then Closed
                       else if \<not> se_server_config env sni then Closed
                       else if \<not> se_handshake env then Closed
                       else Terminated sni guest)))"

section \<open>Serving a request\<close>

text \<open>
  The HTTP library: header values as text (\<^verbatim>\<open>to_str\<close>), the names and values it takes, and the
  path of a URI it parses. \<open>he_secrets\<close> is what the secrets service answers.
\<close>

record HttpEnv =
  he_to_str :: "string \<Rightarrow> string option"
  he_uri_path :: "string \<Rightarrow> string option"
  he_header_name :: "string \<Rightarrow> string option"
  he_header_value :: "string \<Rightarrow> string option"
  he_secrets :: "string \<Rightarrow> string option \<Rightarrow> string option \<Rightarrow> (string \<times> string) list"

record HttpRequest =
  rq_uri_host :: "string option"
  rq_path_and_query :: "string option"
  rq_headers :: "(string \<times> string) list"

definition header_get :: "string \<Rightarrow> (string \<times> string) list \<Rightarrow> string option" where
  "header_get k hs = map_of hs k"

definition header_get_all :: "string \<Rightarrow> (string \<times> string) list \<Rightarrow> string list" where
  "header_get_all k hs = map snd (filter (\<lambda>(k', _). k' = k) hs)"

definition header_remove :: "string \<Rightarrow> (string \<times> string) list \<Rightarrow> (string \<times> string) list" where
  "header_remove k hs = filter (\<lambda>(k', _). k' \<noteq> k) hs"

definition header_insert :: "string \<Rightarrow> string \<Rightarrow> (string \<times> string) list \<Rightarrow> (string \<times> string) list" where
  "header_insert k v hs = header_remove k hs @ [(k, v)]"

definition is_websocket_upgrade :: "HttpEnv \<Rightarrow> (string \<times> string) list \<Rightarrow> bool" where
  "is_websocket_upgrade H hs \<longleftrightarrow>
     list_ex (\<lambda>t. eq_ignore_ascii_case (trim t) ''upgrade'')
       (concat (map (split_on CHR '','') (List.map_filter (he_to_str H) (header_get_all ''connection'' hs)))) \<and>
     (case Option.bind (header_get ''upgrade'' hs) (he_to_str H) of
        Some v \<Rightarrow> eq_ignore_ascii_case (trim v) ''websocket''
      | None \<Rightarrow> False)"

datatype HttpOutcome =
    Simple nat string
  | Denied string Scheme string "string option"
  | Upstream Scheme string "(string \<times> string) list" "string list"

definition authority_of :: "HttpEnv \<Rightarrow> HttpRequest \<Rightarrow> string option" where
  "authority_of H q =
     (case rq_uri_host q of
        Some h \<Rightarrow> Some h
      | None \<Rightarrow>
          map_option (\<lambda>h. hd (split_on CHR '':'' h)) (Option.bind (header_get ''host'' (rq_headers q)) (he_to_str H)))"

fun inject :: "HttpEnv \<Rightarrow> (string \<times> string) list \<Rightarrow> (string \<times> string) list \<times> string list \<Rightarrow>
    (string \<times> string) list \<times> string list" where
  "inject H [] acc = acc"
| "inject H ((k, v) # kvs) (hs, injected) =
     (case (he_header_name H k, he_header_value H v) of
        (Some name, Some val) \<Rightarrow> inject H kvs (header_insert name val hs, injected @ [name])
      | _ \<Rightarrow> inject H kvs (hs, injected))"

definition handle :: "HttpEnv \<Rightarrow> string \<Rightarrow> Policy \<Rightarrow> HttpRequest \<Rightarrow> HttpOutcome" where
  "handle H sni p q =
     (if authority_of H q \<noteq> Some sni then Simple 421 ''authority does not match TLS SNI''
      else
        let pq = (case rq_path_and_query q of Some s \<Rightarrow> s | None \<Rightarrow> ''/''); uri = ''https://'' @ sni @ pq in
        (case he_uri_path H uri of
           None \<Rightarrow> Simple 400 ''bad request target''
         | Some path \<Rightarrow>
             let scheme = (if is_websocket_upgrade H (rq_headers q) then Wss else Https) in
             (case evaluate (po_rules p) scheme sni None path of
                DecDeny rule \<Rightarrow> Denied sni scheme path rule
              | DecAllow \<Rightarrow>
                  (case inject H (he_secrets H sni (po_principal p) (Some path))
                     (header_remove ''host'' (rq_headers q), []) of
                     (hs, injected) \<Rightarrow> Upstream scheme uri hs (sort injected)))))"

section \<open>The registry, address by address\<close>

lemma live_of_put:
  "live_of (put_live ip ls g) ip' = (if ip = ip' then ls else live_of g ip')"
  by (simp add: live_of_def put_live_def update_conv' delete_conv')

lemma live_of_close:
  "live_of (snd (close_stale ip k g)) ip' =
     (if ip = ip' then filter (\<lambda>l. k = Some (lv_policy_gen l)) (live_of g ip) else live_of g ip')"
proof (cases "map_of (rg_live g) ip")
  case None
  then have "live_of g ip = []" by (simp add: live_of_def)
  with None show ?thesis by (auto simp: close_stale_def)
next
  case (Some ls)
  then have "live_of g ip = ls" by (simp add: live_of_def)
  moreover have "live_of (h\<lparr>rg_aborted := as\<rparr>) i = live_of h i" for h as i by (simp add: live_of_def)
  ultimately show ?thesis using Some by (auto simp: close_stale_def live_of_put Let_def)
qed

lemma aborted_close:
  "set (rg_aborted (snd (close_stale ip k g))) =
     set (rg_aborted g) \<union> {lv_id l |l. l \<in> set (live_of g ip) \<and> k \<noteq> Some (lv_policy_gen l)}"
  by (cases "map_of (rg_live g) ip") (auto simp: close_stale_def live_of_def Let_def)

lemma live_of_fold_close:
  "live_of (fold (\<lambda>ip g. snd (close_stale ip (k ip) g)) ips g) ip =
     (if ip \<in> set ips then filter (\<lambda>l. k ip = Some (lv_policy_gen l)) (live_of g ip) else live_of g ip)"
  by (induction ips arbitrary: g) (auto simp: live_of_close)

lemma aborted_fold_close:
  "set (rg_aborted (fold (\<lambda>ip g. snd (close_stale ip (k ip) g)) ips g)) =
     set (rg_aborted g) \<union>
     {lv_id l |ip l. ip \<in> set ips \<and> l \<in> set (live_of g ip) \<and> k ip \<noteq> Some (lv_policy_gen l)}"
proof (induction ips arbitrary: g)
  case (Cons a ips)
  let ?g = "snd (close_stale a (k a) g)" and ?stale = "\<lambda>ip l. k ip \<noteq> Some (lv_policy_gen l)"
  have "(ip \<in> set ips \<and> l \<in> set (live_of ?g ip) \<and> ?stale ip l) \<or> (ip = a \<and> l \<in> set (live_of g a) \<and> ?stale a l)
      \<longleftrightarrow> ip \<in> set (a # ips) \<and> l \<in> set (live_of g ip) \<and> ?stale ip l" for ip l
    by (auto simp: live_of_close)
  then have "{lv_id l |ip l. ip \<in> set (a # ips) \<and> l \<in> set (live_of g ip) \<and> ?stale ip l} =
      {lv_id l |ip l. ip \<in> set ips \<and> l \<in> set (live_of ?g ip) \<and> ?stale ip l} \<union>
      {lv_id l |l. l \<in> set (live_of g a) \<and> ?stale a l}"
    by blast
  then show ?case using Cons [of ?g] by (simp add: aborted_close Un_ac)
qed simp

lemma live_of_addresses: "ip \<notin> set (addresses g) \<Longrightarrow> live_of g ip = []"
  by (simp add: addresses_def live_of_def map_of_eq_None_iff [symmetric] split: option.splits)

lemma keep_of_Some: "keep_of r = Some n \<longleftrightarrow> (\<exists>p. r = Ok p \<and> n = po_policy_gen p)"
  by (cases r) (auto simp: keep_of_def)

section \<open>Headers\<close>

lemma get_all_insert:
  "header_get_all k (header_insert k' v hs) = (if k = k' then [v] else header_get_all k hs)"
proof -
  have "filter (\<lambda>(i, _). i = k) (filter (\<lambda>(i, _). i \<noteq> k') hs) = (if k = k' then [] else filter (\<lambda>(i, _). i = k) hs)"
    by (induction hs) auto
  then show ?thesis by (simp add: header_get_all_def header_insert_def header_remove_def)
qed

text \<open>The only value of a header is one of \<open>kvs\<close>.\<close>

definition supplied :: "HttpEnv \<Rightarrow> (string \<times> string) list \<Rightarrow> string \<Rightarrow> (string \<times> string) list \<Rightarrow> bool" where
  "supplied H kvs k hs \<longleftrightarrow> (\<exists>key v val. (key, v) \<in> set kvs \<and> he_header_name H key = Some k \<and>
     he_header_value H v = Some val \<and> header_get_all k hs = [val])"

lemma supplied_insert:
  "(key, v) \<in> set kvs \<Longrightarrow> he_header_name H key = Some n \<Longrightarrow> he_header_value H v = Some val \<Longrightarrow>
   supplied H kvs k (header_insert n val hs) \<longleftrightarrow> k = n \<or> supplied H kvs k hs"
  by (auto simp: supplied_def get_all_insert)

lemma inject_headers:
  assumes "inject H kvs (hs, names) = (hs', names')" and "set kvs \<subseteq> set all"
    and "\<And>k. if k \<in> set names then supplied H all k hs else header_get_all k hs = header_get_all k hs0"
  shows "if k \<in> set names' then supplied H all k hs' else header_get_all k hs' = header_get_all k hs0"
  using assms
proof (induction kvs arbitrary: hs names)
  case (Cons kv kvs)
  obtain key v where kv: "kv = (key, v)" by (cases kv)
  show ?case
  proof (cases "he_header_name H key = None \<or> he_header_value H v = None")
    case True
    then have "inject H kvs (hs, names) = (hs', names')"
      using Cons.prems(1) by (auto simp: kv split: option.splits)
    from Cons.IH [OF this _ Cons.prems(3)] show ?thesis using Cons.prems(2) by simp
  next
    case False
    then obtain n val where nv: "he_header_name H key = Some n" "he_header_value H v = Some val" by auto
    then have step: "inject H kvs (header_insert n val hs, names @ [n]) = (hs', names')"
      using Cons.prems(1) by (simp add: kv)
    have "(key, v) \<in> set all" using Cons.prems(2) kv by simp
    note ins = supplied_insert [OF this nv]
    have "if i \<in> set (names @ [n]) then supplied H all i (header_insert n val hs)
        else header_get_all i (header_insert n val hs) = header_get_all i hs0" for i
      using Cons.prems(3) [of i] by (simp add: ins get_all_insert)
    from Cons.IH [OF step _ this] show ?thesis using Cons.prems(2) by simp
  qed
qed simp

section \<open>A record's policy as the proxy sees it\<close>

lemma from_record_empty:
  assumes "from_record allow rls = Ok \<lparr>rs_rules = []\<rparr>"
  shows "allow = []"
proof -
  have rules: "set (rs_rules (ruleset_new xs)) = set xs" for xs by (simp add: ruleset_new_def)
  from assms obtain a b :: RuleSet where a: "from_allow_list allow = Ok a"
    and "ruleset_new (rs_rules a @ rs_rules b) = \<lparr>rs_rules = []\<rparr>"
    by (auto simp: from_record_def and_then_Inr_iff)
  then have "set (rs_rules a) = {}" using rules [of "rs_rules a @ rs_rules b"] by simp
  moreover from a obtain hs where hs: "collect host_parse allow = Ok hs" "a = ruleset_new (concat (map allow_rules hs))"
    by (auto simp: from_allow_list_def map_ok_Inr_iff)
  ultimately have "hs = []" using rules [of "concat (map allow_rules hs)"] by (cases hs) (simp_all add: allow_rules_def)
  with hs(1) show ?thesis by (cases allow) (auto simp: and_then_Inr_iff)
qed

lemma identify_policy:
  assumes "identify a2s ip db = Ok (Some v)" and "from_record (v_allow v) (v_rules v) = Ok rs"
  shows "policy_from_identify (identify_handle a2s db mem now (Some \<lparr>iq_ip = ipv4_display ip, iq_dst = d\<rparr>)) =
    Some \<lparr>po_egress = egress_str (v_egress v), po_principal = v_principal v, po_rules = rs,
      po_policy_gen = v_policy_gen v, po_vm = Some (vmid_display (v_id v)), po_signed = v_signed v\<rparr>"
proof (cases "to_strings rs = []")
  case True
  then have rs: "rs = \<lparr>rs_rules = []\<rparr>" by (cases rs) (simp add: to_strings_def)
  then have "v_allow v = []" using from_record_empty assms(2) by simp
  then have "from_allow_list (v_allow v) = Ok rs" by (simp add: from_allow_list_def ruleset_new_def rs)
  with assms True show ?thesis by (simp add: policy_from_identify_def identify_handle_def)
next
  case False
  with assms to_strings_parse [OF assms(2)] show ?thesis
    by (simp add: policy_from_identify_def identify_handle_def)
qed

text \<open>
  A record whose rules no longer parse: the resolver refuses it every name, but the proxy is
  sent no rules and falls back on the allow-list, so the record's deny rules are lost with it.
\<close>

lemma unreadable_rules_fall_back:
  assumes "identify a2s ip db = Ok (Some v)" and "v_egress v = E_Proxy"
    and "ruleset_parse (v_rules v) = Err e" and "from_allow_list (v_allow v) = Ok rs"
  shows "\<exists>p. policy_from_identify (identify_handle a2s db mem now
      (Some \<lparr>iq_ip = ipv4_display ip, iq_dst = d\<rparr>)) = Some p \<and> po_rules p = rs" and "reach_of v = Nothing"
proof -
  have "from_record (v_allow v) (v_rules v) = Err e" using assms(3,4) by (simp add: from_record_def)
  then show "\<exists>p. policy_from_identify (identify_handle a2s db mem now
      (Some \<lparr>iq_ip = ipv4_display ip, iq_dst = d\<rparr>)) = Some p \<and> po_rules p = rs" and "reach_of v = Nothing"
    using assms by (simp_all add: policy_from_identify_def identify_handle_def reach_of_def)
qed

section \<open>Tunnels\<close>

lemma passthrough_cases:
  "(\<exists>a. passthrough env guest host port = Tunnelled a host port guest) \<or>
   (\<exists>why. passthrough env guest host port = TcpDenied host port why)"
  by (auto simp: passthrough_def split: option.splits)

section \<open>Properties\<close>

text \<open>C6: no byte of a guest goes anywhere its policy does not name. A connection is carried
  through as bytes only under a tunnel rule for the host and port it goes to, where the host is
  the TLS name on port 443 and, on any other port, the name the VM itself resolved the address
  it dialled from; it is terminated only for a TLS name some allow rule matches and no tunnel
  rule takes. Either way every byte the guest sent is still there to be read, from the first.\<close>

theorem connection_enforced:
  assumes "dst = lookup_dst original (Some (\<lambda>ip. resolve_dst (Some (identify_handle a2s db mem now
      (Some \<lparr>iq_ip = ipv4_display vm, iq_dst = Some (ipv4_display ip)\<rparr>)))))"
  shows "case serve_conn env stream p dst of
      Tunnelled a host port guest \<Rightarrow>
        tunnel_allowed (po_rules p) host port \<and> unread guest = stream \<and>
        (if port = 443 then \<exists>pk rest. peek stream = Some (pk, rest) \<and> pe_is_tls pk \<and> pe_sni pk = Some host
         else \<exists>ip. original = Some (ip, port) \<and> name_for now vm ip mem = Some host)
    | Terminated sni guest \<Rightarrow>
        host_allowed (po_rules p) sni \<and> \<not> tunnel_allowed (po_rules p) sni 443 \<and> unread guest = stream \<and>
        (\<exists>pk rest. peek stream = Some (pk, rest) \<and> pe_is_tls pk \<and> pe_sni pk = Some sni)
    | _ \<Rightarrow> True"
proof (cases "dst_port dst = 443")
  case True
  show ?thesis
  proof (cases "\<exists>pk rest sni. peek stream = Some (pk, rest) \<and> pe_is_tls pk \<and> pe_sni pk = Some sni")
    case seen: True
    then obtain pk rest sni where pk: "peek stream = Some (pk, rest)" "pe_is_tls pk" "pe_sni pk = Some sni"
      by blast
    define guest where "guest = prefixed_new (pe_bytes pk) rest"
    have all: "unread guest = stream" using peek_split [OF pk(1)] by (simp add: guest_def unread_def prefixed_new_def)
    have serve: "serve_conn env stream p dst =
        (if tunnel_allowed (po_rules p) sni 443 then passthrough env guest sni 443
         else if \<not> host_allowed (po_rules p) sni then SniDenied sni
         else if se_accept env \<and> se_server_config env sni \<and> se_handshake env then Terminated sni guest
         else Closed)"
      using pk True by (simp add: serve_conn_def guest_def Let_def)
    show ?thesis
      using passthrough_cases [of env guest sni 443] pk all by (auto simp: serve)
  next
    case False
    then have "serve_conn env stream p dst = Closed"
      using True by (auto simp: serve_conn_def split: option.splits)
    then show ?thesis by simp
  qed
next
  case False
  then obtain ip port where dst: "original = Some (ip, port)" "dst_port dst = port" "port \<noteq> 443"
    by (auto simp: assms lookup_dst_def dst_port_def split: option.splits)
  have named: "name_for now vm ip mem = Some host" if "ds_name dst = Some host" for host
    using that dst
    by (auto simp: assms lookup_dst_def resolve_dst_def identify_handle_def identify_response_default_def
        split: if_splits sum.splits option.splits)
  show ?thesis
  proof (cases "ds_name dst")
    case None
    then show ?thesis using dst by (simp add: serve_conn_def)
  next
    case (Some host)
    have "serve_conn env stream p dst =
        (if tunnel_allowed (po_rules p) host port then passthrough env (prefixed_new [] stream) host port
         else TcpDenied host port ''no tunnel rule'')"
      using dst Some by (simp add: serve_conn_def)
    then show ?thesis
      using passthrough_cases [of env "prefixed_new [] stream" host port] dst named [OF Some]
      by (auto simp: unread_def prefixed_new_def)
  qed
qed

definition sample_env :: ServeEnv where
  "sample_env = \<lparr>se_pins = (\<lambda>_. None), se_lookup_host = (\<lambda>_ port. Some (V4 9, port)), se_connect = (\<lambda>_. True),
     se_accept = True, se_server_config = (\<lambda>_. True), se_handshake = True\<rparr>"

definition sample_policy :: "RuleSet \<Rightarrow> Policy" where
  "sample_policy rs = \<lparr>po_egress = ''proxy'', po_principal = Some ''alice'', po_rules = rs, po_policy_gen = 1,
     po_vm = None, po_signed = None\<rparr>"

definition sample_tunnel :: Policy where
  "sample_tunnel = sample_policy \<lparr>rs_rules = [\<lparr>r_action = Tunnel, r_scheme = Tcp, r_host = Exact ''db.internal'',
     r_port = Some 5432, r_path = \<lparr>pp_segs = [Rest]\<rparr>\<rparr>]\<rparr>"

definition sample_dst :: Dst where
  "sample_dst = lookup_dst (Some (9, 5432)) (Some (\<lambda>ip. resolve_dst (Some (identify_handle (\<lambda>_. Some (SlotId 3))
     sample_db (mem_after [Answered 0 0 (V4 5) ''db.internal'' [9] 30]) 1
     (Some \<lparr>iq_ip = ipv4_display 5, iq_dst = Some (ipv4_display ip)\<rparr>)))))"

lemma sample_dst_name: "ds_name sample_dst = Some ''db.internal''" "dst_port sample_dst = 5432"
proof -
  have "identify (\<lambda>_. Some (SlotId 3)) 5 sample_db = Ok (Some sample_vm)"
    by (simp add: identify_def sample_list) (simp add: sample_vm_def)
  moreover have "name_for 1 5 9 (mem_after [Answered 0 0 (V4 5) ''db.internal'' [9] 30]) = Some ''db.internal''"
    by (simp add: mem_after_def mem_record_def name_for_def life_def min_life_def per_vm_def)
  ultimately show "ds_name sample_dst = Some ''db.internal''" "dst_port sample_dst = 5432"
    by (simp_all add: sample_dst_def lookup_dst_def resolve_dst_def identify_handle_def dst_port_def)
qed

theorem connection_enforced_witness:
  "\<exists>a guest. serve_conn sample_env ''hello'' sample_tunnel sample_dst = Tunnelled a ''db.internal'' 5432 guest \<and>
     unread guest = ''hello'' \<and> name_for 1 5 9 (mem_after [Answered 0 0 (V4 5) ''db.internal'' [9] 30]) = Some ''db.internal''"
proof -
  have "tunnel_allowed (po_rules sample_tunnel) ''db.internal'' 5432" by code_simp
  then obtain a guest where served: "serve_conn sample_env ''hello'' sample_tunnel sample_dst = Tunnelled a ''db.internal'' 5432 guest"
    by (simp add: serve_conn_def sample_dst_name passthrough_def sample_env_def)
  from connection_enforced [OF sample_dst_def, where env = sample_env and stream = "''hello''" and p = sample_tunnel] served show ?thesis
    by (simp add: served)
qed

lemma handle_upstream:
  assumes "handle H sni p q = Upstream sch uri hs injected"
  shows "authority_of H q = Some sni \<and>
    (\<exists>pq. uri = ''https://'' @ sni @ pq) \<and>
    sch = (if is_websocket_upgrade H (rq_headers q) then Wss else Https) \<and>
    (\<exists>path. he_uri_path H uri = Some path \<and>
      (\<exists>r \<in> set (rs_rules (po_rules p)). rule_matches r sch sni None path) \<and>
      \<not> (\<exists>r \<in> set (rs_rules (po_rules p)). r_action r = Deny \<and> rule_matches r sch sni None path) \<and>
      (\<forall>k. if k \<in> set injected then supplied H (he_secrets H sni (po_principal p) (Some path)) k hs
           else header_get_all k hs = (if k = ''host'' then [] else header_get_all k (rq_headers q))))"
proof -
  from assms have auth: "authority_of H q = Some sni"
    by (auto simp: handle_def split: if_splits)
  define pq where "pq = (case rq_path_and_query q of Some s \<Rightarrow> s | None \<Rightarrow> ''/'')"
  define scheme where "scheme = (if is_websocket_upgrade H (rq_headers q) then Wss else Https)"
  from assms auth obtain path where path: "he_uri_path H (''https://'' @ sni @ pq) = Some path"
    by (auto simp: handle_def Let_def pq_def [symmetric] split: option.splits)
  from assms auth path have allow: "evaluate (po_rules p) scheme sni None path = DecAllow"
    by (auto simp: handle_def Let_def pq_def [symmetric] scheme_def [symmetric] split: Decision.splits)
  obtain hs' names where inj: "inject H (he_secrets H sni (po_principal p) (Some path))
      (header_remove ''host'' (rq_headers q), []) = (hs', names)" by fastforce
  have out: "sch = scheme" "uri = ''https://'' @ sni @ pq" "hs = hs'" "injected = sort names"
    using assms auth path allow inj
    by (auto simp: handle_def Let_def pq_def [symmetric] scheme_def [symmetric])
  have removed: "header_get_all k (header_remove ''host'' hs0) = (if k = ''host'' then [] else header_get_all k hs0)"
    for k hs0
    by (induction hs0) (auto simp: header_get_all_def header_remove_def)
  have "if k \<in> set names then supplied H (he_secrets H sni (po_principal p) (Some path)) k hs'
      else header_get_all k hs' = header_get_all k (header_remove ''host'' (rq_headers q))" for k
    by (rule inject_headers [OF inj]) simp_all
  then show ?thesis
    using auth path allow out by (auto simp: evaluate_DecAllow_iff scheme_def removed)
qed

text \<open>C4: a request leaves the host only as the policy allows and only to the host it was
  terminated for. Its authority is the TLS name, no deny rule and some rule matches its scheme,
  host and path; the headers the secrets service supplies for that host, principal and path
  carry the service's value alone, and every other header is the guest's, the host header
  apart.\<close>

theorem request_enforced:
  assumes "handle H sni p q = Upstream sch uri hs injected"
  shows "authority_of H q = Some sni \<and>
    (\<exists>pq. uri = ''https://'' @ sni @ pq) \<and>
    sch = (if is_websocket_upgrade H (rq_headers q) then Wss else Https) \<and>
    (\<exists>path. he_uri_path H uri = Some path \<and>
      (\<exists>r \<in> set (rs_rules (po_rules p)). rule_matches r sch sni None path) \<and>
      \<not> (\<exists>r \<in> set (rs_rules (po_rules p)). r_action r = Deny \<and> rule_matches r sch sni None path) \<and>
      (\<forall>k. if k \<in> set injected then supplied H (he_secrets H sni (po_principal p) (Some path)) k hs
           else header_get_all k hs = (if k = ''host'' then [] else header_get_all k (rq_headers q))))"
  by (rule handle_upstream [OF assms])

definition sample_http :: HttpEnv where
  "sample_http = \<lparr>he_to_str = Some, he_uri_path = (\<lambda>_. Some ''/v1/x''), he_header_name = Some, he_header_value = Some,
     he_secrets = (\<lambda>_ _ _. [(''authorization'', ''Bearer s3cret'')])\<rparr>"

definition sample_request :: HttpRequest where
  "sample_request = \<lparr>rq_uri_host = None, rq_path_and_query = Some ''/v1/x?q=1'',
     rq_headers = [(''host'', ''api.x.io:443''), (''authorization'', ''guess''), (''accept'', ''*/*'')]\<rparr>"

theorem request_enforced_witness:
  "\<exists>rs hs. from_record [''api.x.io''] [] = Ok rs \<and>
     handle sample_http ''api.x.io'' (sample_policy rs) sample_request =
       Upstream Https ''https://api.x.io/v1/x?q=1'' hs [''authorization''] \<and>
     header_get_all ''host'' hs = []"
proof -
  have "ok_and (from_record [''api.x.io''] []) (\<lambda>rs. handle sample_http ''api.x.io'' (sample_policy rs) sample_request =
      Upstream Https ''https://api.x.io/v1/x?q=1'' [(''accept'', ''*/*''), (''authorization'', ''Bearer s3cret'')] [''authorization''])"
    by code_simp
  then obtain rs where rs: "from_record [''api.x.io''] [] = Ok rs"
    "handle sample_http ''api.x.io'' (sample_policy rs) sample_request =
      Upstream Https ''https://api.x.io/v1/x?q=1'' [(''accept'', ''*/*''), (''authorization'', ''Bearer s3cret'')] [''authorization'']"
    unfolding ok_and_iff by blast
  from request_enforced [OF rs(2)] have
    "header_get_all ''host'' [(''accept'', ''*/*''), (''authorization'', ''Bearer s3cret'')] = []" by fastforce
  with rs show ?thesis by blast
qed

text \<open>C13: where the fleet's key is configured, an edge's word about policy counts for nothing.
  A stream is served only under claims the fleet signed, unexpired, for the host this edge is,
  with exactly the policy they state and not in deny mode; and whatever else the edge says
  of the policy beside the signature, the answer is the same.\<close>

theorem signed_streams_only:
  "(accept_stream K now connect decoded edge edge_name (Some public) = Serve src p dst \<longrightarrow>
     (\<exists>d sp claims json. decoded = Some d \<and> wp_signed (de_policy d) = Some sp \<and> dst = de_dst d \<and>
       b64_decode K (sp_claims sp) = Ok json \<and> claims_from_json K json = Ok claims \<and>
       (\<exists>sig. b64_decode K (sp_sig sp) = Ok sig \<and> ed_verify K public json sig) \<and>
       now < pc_expires claims \<and> pc_host claims = edge_name \<and>
       policy_from_claims claims sp = Ok p \<and> po_egress p \<noteq> ''deny'')) \<and>
   (wp_signed w = wp_signed (de_policy d) \<longrightarrow>
     accept_stream K now connect (Some (d\<lparr>de_policy := w\<rparr>)) edge edge_name (Some public) =
     accept_stream K now connect (Some d) edge edge_name (Some public))"
proof (intro conjI impI)
  assume served: "accept_stream K now connect decoded edge edge_name (Some public) = Serve src p dst"
  then obtain d where d: "decoded = Some d" by (auto simp: accept_stream_def split: if_splits option.splits)
  with served obtain sp where sp: "wp_signed (de_policy d) = Some sp"
    by (cases "wp_signed (de_policy d)") (auto simp: accept_stream_def Let_def split: if_splits)
  with served d obtain claims where v: "verify_at K public sp now = Ok claims"
    by (cases "verify_at K public sp now") (auto simp: accept_stream_def Let_def split: if_splits)
  with served d sp have host: "pc_host claims = edge_name"
    by (auto simp: accept_stream_def Let_def split: if_splits)
  with served d sp v have "policy_from_claims claims sp = Ok p" "\<not> is_deny_mode p" "dst = de_dst d"
    by (auto simp: accept_stream_def Let_def split: if_splits sum.splits)
  moreover from v obtain json sig where "b64_decode K (sp_claims sp) = Ok json" "b64_decode K (sp_sig sp) = Ok sig"
    "ed_verify K public json sig" "claims_from_json K json = Ok claims" "now < pc_expires claims"
    by (auto simp: verify_at_def and_then_Inr_iff map_err_Inr_iff not_le split: if_splits)
  ultimately show "\<exists>d sp claims json. decoded = Some d \<and> wp_signed (de_policy d) = Some sp \<and> dst = de_dst d \<and>
       b64_decode K (sp_claims sp) = Ok json \<and> claims_from_json K json = Ok claims \<and>
       (\<exists>sig. b64_decode K (sp_sig sp) = Ok sig \<and> ed_verify K public json sig) \<and>
       now < pc_expires claims \<and> pc_host claims = edge_name \<and>
       policy_from_claims claims sp = Ok p \<and> po_egress p \<noteq> ''deny''"
    using d sp host by (auto simp: is_deny_mode_def)
next
  assume same: "wp_signed w = wp_signed (de_policy d)"
  have fields: "de_src (d\<lparr>de_policy := w\<rparr>) = de_src d" "de_dst (d\<lparr>de_policy := w\<rparr>) = de_dst d"
    "de_policy (d\<lparr>de_policy := w\<rparr>) = w" by simp_all
  show "accept_stream K now connect (Some (d\<lparr>de_policy := w\<rparr>)) edge edge_name (Some public) =
      accept_stream K now connect (Some d) edge edge_name (Some public)"
    by (simp only: accept_stream_def option.case fields same)
qed

definition sample_stream :: "SignedPolicy option \<Rightarrow> string \<Rightarrow> Decoded" where
  "sample_stream sp egress = \<lparr>de_src = None, de_policy = \<lparr>wp_host = ''h'', wp_vm = None, wp_egress = egress,
     wp_principal = None, wp_rules = [], wp_policy_gen = 1, wp_signed = sp\<rparr>, de_dst = \<lparr>ds_addr = None, ds_name = None\<rparr>\<rparr>"

theorem signed_streams_only_witness:
  "\<exists>sp p. accept_stream sample_codec 999 True (Some (sample_stream (Some sp) ''deny'')) (V4 1) (pc_host sample_claims)
       (Some (ed_public sample_codec ''s'')) = Serve (V4 1) p (de_dst (sample_stream (Some sp) ''deny'')) \<and>
     po_egress p \<noteq> ''deny''"
proof -
  let ?sp = "sign sample_codec ''s'' sample_claims"
  have v: "verify_at sample_codec (ed_public sample_codec ''s'') ?sp 999 = Ok sample_claims"
    by (simp add: verify_at_def sign_def sample_codec_def) (simp add: sample_claims_def)
  obtain p where p: "policy_from_claims sample_claims ?sp = Ok p" "\<not> is_deny_mode p"
    by (simp add: policy_from_claims_def ruleset_parse_def sample_claims_def is_deny_mode_def)
  have "wp_signed (de_policy (sample_stream (Some ?sp) ''deny'')) = Some ?sp" "de_src (sample_stream (Some ?sp) ''deny'') = None"
    by (simp_all add: sample_stream_def)
  with v p have "accept_stream sample_codec 999 True (Some (sample_stream (Some ?sp) ''deny'')) (V4 1) (pc_host sample_claims)
       (Some (ed_public sample_codec ''s'')) = Serve (V4 1) p (de_dst (sample_stream (Some ?sp) ''deny''))"
    by (simp add: accept_stream_def)
  moreover from this have "po_egress p \<noteq> ''deny''"
    using signed_streams_only [of sample_codec 999 True "Some (sample_stream (Some ?sp) ''deny'')" "V4 1"
        "pc_host sample_claims" "ed_public sample_codec ''s''" "V4 1" p] by blast
  ultimately show ?thesis by blast
qed

text \<open>C31: a policy change ends what was allowed under the old policy. A pass of the watch leaves,
  of the live connections of every address, exactly those at the generation the address is
  admitted under now (none when it is unknown or in deny mode), and ends the tasks of exactly
  the others.\<close>

theorem watch_closes_stale:
  "live_of (watch_pass admitted g) ip =
     filter (\<lambda>l. \<exists>p. admitted ip = Ok p \<and> lv_policy_gen l = po_policy_gen p) (live_of g ip) \<and>
   set (rg_aborted (watch_pass admitted g)) = set (rg_aborted g) \<union>
     {lv_id l |ip' l. l \<in> set (live_of g ip') \<and>
        \<not> (\<exists>p. admitted ip' = Ok p \<and> lv_policy_gen l = po_policy_gen p)}"
proof -
  have "set (rg_aborted (watch_pass admitted g)) = set (rg_aborted g) \<union>
     {lv_id l |ip' l. ip' \<in> set (addresses g) \<and> l \<in> set (live_of g ip') \<and>
        keep_of (admitted ip') \<noteq> Some (lv_policy_gen l)}"
    by (simp add: watch_pass_def aborted_fold_close)
  also have "\<dots> = set (rg_aborted g) \<union>
     {lv_id l |ip' l. l \<in> set (live_of g ip') \<and>
        \<not> (\<exists>p. admitted ip' = Ok p \<and> lv_policy_gen l = po_policy_gen p)}"
    by (simp only: keep_of_Some) (metis (no_types, lifting) empty_iff list.set(1) live_of_addresses)
  finally show ?thesis
    using live_of_addresses [of ip g] by (auto simp: watch_pass_def live_of_fold_close keep_of_Some)
qed

end
