(* ===== verification/Iso_Json.thy ===== *)
theory Iso_Json
  imports Complex_Main Iso_Prelude "HOL-Library.AList"
begin

text \<open>
  JSON values (\<^verbatim>\<open>serde_json::Value\<close>) with the accessors the fleet, the secrets service and the
  metadata service use. An object is an association list; a number is a rational.
\<close>

section \<open>Values and accessors\<close>

datatype Json =
    JNull
  | JBool bool
  | JNum rat
  | JStr string
  | JArr "Json list"
  | JObj "(string \<times> Json) list"

text \<open>\<^verbatim>\<open>serde_json::Value\<close>: indexing gives null for what is absent.\<close>

fun json_fields :: "Json \<Rightarrow> (string \<times> Json) list" where
  "json_fields (JObj fs) = fs"
| "json_fields _ = []"

definition json_lookup :: "string \<Rightarrow> Json \<Rightarrow> Json option" where
  "json_lookup k v = map_of (json_fields v) k"

definition json_index :: "Json \<Rightarrow> string \<Rightarrow> Json" where
  "json_index v k = (case json_lookup k v of Some x \<Rightarrow> x | None \<Rightarrow> JNull)"

fun as_str :: "Json \<Rightarrow> string option" where
  "as_str (JStr s) = Some s"
| "as_str _ = None"

fun as_u64 :: "Json \<Rightarrow> nat option" where
  "as_u64 (JNum r) = (if r \<in> \<nat> \<and> r < 2 ^ 64 then Some (nat \<lfloor>r\<rfloor>) else None)"
| "as_u64 _ = None"

fun as_f64 :: "Json \<Rightarrow> rat option" where
  "as_f64 (JNum r) = Some r"
| "as_f64 _ = None"

fun as_array :: "Json \<Rightarrow> Json list option" where
  "as_array (JArr xs) = Some xs"
| "as_array _ = None"

fun json_insert :: "string \<Rightarrow> Json \<Rightarrow> Json \<Rightarrow> Json" where
  "json_insert k x (JObj fs) = JObj (AList.update k x fs)"
| "json_insert k x v = v"

fun json_remove :: "string \<Rightarrow> Json \<Rightarrow> Json" where
  "json_remove k (JObj fs) = JObj (AList.delete k fs)"
| "json_remove k v = v"

section \<open>Laws\<close>

lemma json_lookup_insert: "json_lookup k (json_insert k x (JObj fs)) = Some x"
  by (simp add: json_lookup_def update_conv')

lemma json_lookup_remove: "json_lookup k (json_remove k' v) = (if k = k' then None else json_lookup k v)"
  by (cases v) (simp_all add: json_lookup_def delete_conv')

end
