(* ===== verification/Iso_Fleet.thy ===== *)
theory Iso_Fleet
  imports Iso_Proxy Iso_Json "HOL-Library.Product_Lexorder"
begin

text \<open>
  The fleet over many hosts (\<^verbatim>\<open>crates/iso-fleet/src\<close>): its record of hosts and VMs (\<^verbatim>\<open>store.rs\<close>),
  placement (\<^verbatim>\<open>placement.rs\<close>), policy signing (\<^verbatim>\<open>lib.rs\<close>), the API that creates, deletes and
  changes VMs (\<^verbatim>\<open>api.rs\<close>, over the calls of \<^verbatim>\<open>hosts.rs\<close>) and the sync loop (\<^verbatim>\<open>sync.rs\<close>). A handler is a
  program over store statements, queries and host calls, whose answers are the environment's;
  between two of its steps other handlers run. JSON columns hold the JSON value.
\<close>

definition strings :: "Json \<Rightarrow> string list" where
  "strings v = (case as_array v of Some xs \<Rightarrow> List.map_filter as_str xs | None \<Rightarrow> [])"

section \<open>The record of hosts and VMs\<close>

definition st_creating :: string where "st_creating = ''creating''"
definition st_placed :: string where "st_placed = ''placed''"
definition st_unreachable :: string where "st_unreachable = ''unreachable''"
definition st_lost :: string where "st_lost = ''lost''"
definition st_deleting :: string where "st_deleting = ''deleting''"
definition st_failed :: string where "st_failed = ''failed''"

lemmas fleet_states = st_creating_def st_placed_def st_unreachable_def st_lost_def st_deleting_def st_failed_def

record HostRow =
  fh_name :: string
  fh_url :: string
  fh_healthy :: bool
  fh_last_seen :: "int option"
  fh_slots_free :: nat
  fh_slots_total :: nat
  fh_pool_data :: rat
  fh_pool_meta :: rat
  fh_templates :: "string list"
  fh_orphans :: nat
  fh_last_error :: "string option"

record FleetVm =
  fv_id :: string
  fv_host :: string
  fv_template :: string
  fv_state :: string
  fv_host_state :: "string option"
  fv_created_at :: int
  fv_updated_at :: int
  fv_last_error :: "string option"
  fv_labels :: Json
  fv_spec :: Json
  fv_view :: "Json option"

record FleetDb =
  fd_hosts :: "HostRow list"
  fd_vms :: "FleetVm list"

definition on_host :: "string \<Rightarrow> (HostRow \<Rightarrow> HostRow) \<Rightarrow> FleetDb \<Rightarrow> FleetDb" where
  "on_host name f db = db\<lparr>fd_hosts := map (\<lambda>h. if fh_name h = name then f h else h) (fd_hosts db)\<rparr>"

definition on_fvm :: "string \<Rightarrow> (FleetVm \<Rightarrow> FleetVm) \<Rightarrow> FleetDb \<Rightarrow> FleetDb" where
  "on_fvm i f db = db\<lparr>fd_vms := map (\<lambda>v. if fv_id v = i then f v else v) (fd_vms db)\<rparr>"

definition upsert_host :: "string \<Rightarrow> string \<Rightarrow> FleetDb \<Rightarrow> FleetDb" where
  "upsert_host name url db =
     (if \<exists>h \<in> set (fd_hosts db). fh_name h = name then on_host name (\<lambda>h. h\<lparr>fh_url := url\<rparr>) db
      else db\<lparr>fd_hosts := fd_hosts db @ [\<lparr>fh_name = name, fh_url = url, fh_healthy = False,
        fh_last_seen = None, fh_slots_free = 0, fh_slots_total = 0, fh_pool_data = 0, fh_pool_meta = 0,
        fh_templates = [], fh_orphans = 0, fh_last_error = None\<rparr>]\<rparr>)"

definition retain_hosts :: "int \<Rightarrow> string list \<Rightarrow> FleetDb \<Rightarrow> FleetDb" where
  "retain_hosts now names db =
     (let gone = map fh_name (filter (\<lambda>h. fh_name h \<notin> set names) (fd_hosts db)) in
      \<lparr>fd_hosts = filter (\<lambda>h. fh_name h \<in> set names) (fd_hosts db),
       fd_vms = map (\<lambda>v. if fv_host v \<in> set gone \<and> fv_state v \<noteq> ''lost'' \<and> fv_state v \<noteq> ''failed''
                         then v\<lparr>fv_state := st_unreachable, fv_updated_at := now\<rparr> else v) (fd_vms db)\<rparr>)"

definition list_hosts :: "FleetDb \<Rightarrow> HostRow list" where
  "list_hosts db = sort_key fh_name (fd_hosts db)"

definition get_host :: "string \<Rightarrow> FleetDb \<Rightarrow> HostRow option" where
  "get_host name db = find (\<lambda>h. fh_name h = name) (fd_hosts db)"

definition host_seen ::
  "int \<Rightarrow> string \<Rightarrow> nat \<Rightarrow> nat \<Rightarrow> rat \<Rightarrow> rat \<Rightarrow> string list \<Rightarrow> FleetDb \<Rightarrow> FleetDb" where
  "host_seen now name free all pool meta templates =
     on_host name (\<lambda>h. h\<lparr>fh_healthy := True, fh_last_seen := Some now, fh_slots_free := free,
       fh_slots_total := all, fh_pool_data := pool, fh_pool_meta := meta, fh_templates := templates,
       fh_last_error := None\<rparr>)"

definition host_unreachable :: "string \<Rightarrow> string \<Rightarrow> FleetDb \<Rightarrow> FleetDb" where
  "host_unreachable name err = on_host name (\<lambda>h. h\<lparr>fh_healthy := False, fh_last_error := Some err\<rparr>)"

definition host_orphans :: "string \<Rightarrow> nat \<Rightarrow> FleetDb \<Rightarrow> FleetDb" where
  "host_orphans name n = on_host name (\<lambda>h. h\<lparr>fh_orphans := n\<rparr>)"

definition host_took_slot :: "string \<Rightarrow> FleetDb \<Rightarrow> FleetDb" where
  "host_took_slot name = on_host name (\<lambda>h. h\<lparr>fh_slots_free := fh_slots_free h - 1\<rparr>)"

definition host_freed_slot :: "string \<Rightarrow> FleetDb \<Rightarrow> FleetDb" where
  "host_freed_slot name = on_host name (\<lambda>h. h\<lparr>fh_slots_free := min (fh_slots_free h + 1) (fh_slots_total h)\<rparr>)"

definition insert_fvm ::
  "int \<Rightarrow> string \<Rightarrow> string \<Rightarrow> string \<Rightarrow> Json \<Rightarrow> Json \<Rightarrow> FleetDb \<Rightarrow> FleetDb option" where
  "insert_fvm now i host template labels spec db =
     (if \<exists>v \<in> set (fd_vms db). fv_id v = i then None
      else Some (db\<lparr>fd_vms := fd_vms db @ [\<lparr>fv_id = i, fv_host = host, fv_template = template,
        fv_state = st_creating, fv_host_state = None, fv_created_at = now, fv_updated_at = now,
        fv_last_error = None, fv_labels = labels, fv_spec = spec, fv_view = None\<rparr>]\<rparr>))"

definition set_vm_host :: "int \<Rightarrow> string \<Rightarrow> string \<Rightarrow> FleetDb \<Rightarrow> FleetDb" where
  "set_vm_host now i host = on_fvm i (\<lambda>v. v\<lparr>fv_host := host, fv_updated_at := now\<rparr>)"

definition coalesce :: "'a option \<Rightarrow> 'a option \<Rightarrow> 'a option" where
  "coalesce a b = (case a of Some x \<Rightarrow> Some x | None \<Rightarrow> b)"

lemma coalesce_None [simp]: "coalesce None b = b"
  by (simp add: coalesce_def)

definition set_vm_view :: "int \<Rightarrow> string \<Rightarrow> Json \<Rightarrow> FleetDb \<Rightarrow> FleetDb" where
  "set_vm_view now i view =
     on_fvm i (\<lambda>v. v\<lparr>fv_view := Some view,
       fv_host_state := coalesce (as_str (json_index view ''state'')) (fv_host_state v), fv_updated_at := now\<rparr>)"

definition set_vm_state ::
  "int \<Rightarrow> string \<Rightarrow> string \<Rightarrow> string option \<Rightarrow> string option \<Rightarrow> FleetDb \<Rightarrow> FleetDb" where
  "set_vm_state now i st host_st err =
     on_fvm i (\<lambda>v. v\<lparr>fv_state := st, fv_host_state := coalesce host_st (fv_host_state v),
       fv_last_error := err, fv_updated_at := now\<rparr>)"

definition get_fvm :: "string \<Rightarrow> FleetDb \<Rightarrow> FleetVm option" where
  "get_fvm i db = find (\<lambda>v. fv_id v = i) (fd_vms db)"

definition list_fvms :: "FleetDb \<Rightarrow> FleetVm list" where
  "list_fvms db = sort_key fv_created_at (fd_vms db)"

definition list_vms_on :: "string \<Rightarrow> FleetDb \<Rightarrow> FleetVm list" where
  "list_vms_on host db = filter (\<lambda>v. fv_host v = host) (fd_vms db)"

definition delete_fvm :: "string \<Rightarrow> FleetDb \<Rightarrow> FleetDb" where
  "delete_fvm i db = db\<lparr>fd_vms := filter (\<lambda>v. fv_id v \<noteq> i) (fd_vms db)\<rparr>"

text \<open>\<^verbatim>\<open>Fleet::new\<close> on the tables: the configured hosts are there, the others are not.\<close>

definition fleet_new :: "int \<Rightarrow> (string \<times> string) list \<Rightarrow> FleetDb \<Rightarrow> FleetDb" where
  "fleet_new now cfg db = retain_hosts now (map fst cfg) (fold (\<lambda>(name, url). upsert_host name url) cfg db)"

datatype FleetStmt =
    HostSeen string nat nat rat rat "string list"
  | HostUnreachable string string
  | HostOrphans string nat
  | HostTookSlot string
  | HostFreedSlot string
  | InsertFVm string string string Json Json
  | SetVmHost string string
  | SetVmView string Json
  | SetVmState string string "string option" "string option"
  | DeleteFVm string

text \<open>A statement at a time; only an insert can violate a constraint.\<close>

fun fleet_exec :: "int \<Rightarrow> FleetStmt \<Rightarrow> FleetDb \<Rightarrow> FleetDb option" where
  "fleet_exec now (HostSeen n f t p m ts) db = Some (host_seen now n f t p m ts db)"
| "fleet_exec now (HostUnreachable n e) db = Some (host_unreachable n e db)"
| "fleet_exec now (HostOrphans n k) db = Some (host_orphans n k db)"
| "fleet_exec now (HostTookSlot n) db = Some (host_took_slot n db)"
| "fleet_exec now (HostFreedSlot n) db = Some (host_freed_slot n db)"
| "fleet_exec now (InsertFVm i h t l s) db = insert_fvm now i h t l s db"
| "fleet_exec now (SetVmHost i h) db = Some (set_vm_host now i h db)"
| "fleet_exec now (SetVmView i v) db = Some (set_vm_view now i v db)"
| "fleet_exec now (SetVmState i s hs e) db = Some (set_vm_state now i s hs e db)"
| "fleet_exec now (DeleteFVm i) db = Some (delete_fvm i db)"

section \<open>Placement\<close>

text \<open>
  Loads are \<^verbatim>\<open>f64\<close>: the exact quotient and difference, each rounded by \<open>rnd\<close>.
\<close>

definition load :: "(rat \<Rightarrow> rat) \<Rightarrow> HostRow \<Rightarrow> rat" where
  "load rnd h =
     (if fh_slots_total h = 0 then 1
      else rnd (1 - rnd (of_nat (fh_slots_free h) / of_nat (fh_slots_total h))))"

definition eligible :: "string \<Rightarrow> string option \<Rightarrow> HostRow \<Rightarrow> bool" where
  "eligible template pin h \<longleftrightarrow>
     fh_healthy h \<and> (case pin of None \<Rightarrow> True | Some p \<Rightarrow> p = fh_name h) \<and>
     template \<in> set (fh_templates h) \<and> 0 < fh_slots_free h"

definition candidates :: "(rat \<Rightarrow> rat) \<Rightarrow> HostRow list \<Rightarrow> string \<Rightarrow> string option \<Rightarrow> HostRow list" where
  "candidates rnd hosts template pin =
     sort_key (\<lambda>h. (load rnd h, fh_name h)) (filter (eligible template pin) hosts)"

definition template_known :: "HostRow list \<Rightarrow> string \<Rightarrow> bool" where
  "template_known hosts template \<longleftrightarrow> list_ex (\<lambda>h. template \<in> set (fh_templates h)) hosts"

section \<open>Signing\<close>

record Fleet =
  fl_hosts :: "string list"
  fl_key :: string
  fl_policy_ttl :: u64
  fl_create_grace :: int

definition sign_policy ::
  "Codec \<Rightarrow> Fleet \<Rightarrow> u64 \<Rightarrow> string \<Rightarrow> string \<Rightarrow> string \<Rightarrow> string option \<Rightarrow> string list \<Rightarrow> string list \<Rightarrow> u64 \<Rightarrow>
     (ParseError, SignedPolicy) result" where
  "sign_policy K F now host vm egress princ allow rls gen =
     and_then (from_record allow rls) (\<lambda>rs.
     Ok (sign K (fl_key F) \<lparr>pc_host = host, pc_vm = vm, pc_egress = egress, pc_principal = princ,
       pc_rules = to_strings rs, pc_policy_gen = gen, pc_expires = now + fl_policy_ttl F\<rparr>))"

definition resign :: "Codec \<Rightarrow> Fleet \<Rightarrow> u64 \<Rightarrow> PolicyClaims \<Rightarrow> SignedPolicy" where
  "resign K F now claims = sign K (fl_key F) (claims\<lparr>pc_expires := now + fl_policy_ttl F\<rparr>)"

definition signed_of_json :: "Json \<Rightarrow> SignedPolicy option" where
  "signed_of_json v =
     (case (as_str (json_index v ''claims''), as_str (json_index v ''sig'')) of
        (Some c, Some s) \<Rightarrow> Some \<lparr>sp_claims = c, sp_sig = s\<rparr>
      | _ \<Rightarrow> None)"

definition json_of_signed :: "SignedPolicy \<Rightarrow> Json" where
  "json_of_signed sp = JObj [(''claims'', JStr (sp_claims sp)), (''sig'', JStr (sp_sig sp))]"

definition own_claims :: "Codec \<Rightarrow> Fleet \<Rightarrow> Json \<Rightarrow> PolicyClaims option" where
  "own_claims K F view =
     (case Option.bind (json_lookup ''signed'' view) signed_of_json of
        None \<Rightarrow> None
      | Some sp \<Rightarrow>
          (case verify_ignoring_expiry K (ed_public K (fl_key F)) sp of Inr c \<Rightarrow> Some c | Inl _ \<Rightarrow> None))"

record PolicyFields =
  pf_egress :: string
  pf_principal :: "string option"
  pf_allow :: "string list"
  pf_rules :: "string list"

definition known_egress :: "string \<Rightarrow> bool" where
  "known_egress e \<longleftrightarrow> e = ''proxy'' \<or> e = ''deny''"

definition fields_from_create :: "Json \<Rightarrow> PolicyFields" where
  "fields_from_create body =
     \<lparr>pf_egress = (case as_str (json_index body ''egress'') of
         Some e \<Rightarrow> if known_egress e then e else ''deny'' | None \<Rightarrow> ''deny''),
      pf_principal = as_str (json_index body ''principal''),
      pf_allow = strings (json_index body ''allow''), pf_rules = strings (json_index body ''rules'')\<rparr>"

definition fields_from_view :: "Json \<Rightarrow> PolicyFields" where
  "fields_from_view view =
     \<lparr>pf_egress = (case as_str (json_index view ''egress'') of Some e \<Rightarrow> e | None \<Rightarrow> ''deny''),
      pf_principal = as_str (json_index view ''principal''),
      pf_allow = strings (json_index view ''allow''), pf_rules = strings (json_index view ''rules'')\<rparr>"

definition patched :: "Json \<Rightarrow> PolicyFields \<Rightarrow> PolicyFields" where
  "patched change f =
     \<lparr>pf_egress = (case as_str (json_index change ''egress'') of
         Some e \<Rightarrow> if known_egress e then e else pf_egress f | None \<Rightarrow> pf_egress f),
      pf_principal = (case as_str (json_index change ''principal'') of Some p \<Rightarrow> Some p | None \<Rightarrow> pf_principal f),
      pf_allow = (case as_array (json_index change ''allow'') of
         Some _ \<Rightarrow> strings (json_index change ''allow'') | None \<Rightarrow> pf_allow f),
      pf_rules = (case as_array (json_index change ''rules'') of
         Some _ \<Rightarrow> strings (json_index change ''rules'') | None \<Rightarrow> pf_rules f)\<rparr>"

definition fields_check :: "PolicyFields \<Rightarrow> (ParseError, unit) result" where
  "fields_check f = map_ok (\<lambda>_. ()) (from_record (pf_allow f) (pf_rules f))"

definition fields_sign ::
  "Codec \<Rightarrow> Fleet \<Rightarrow> u64 \<Rightarrow> string \<Rightarrow> string \<Rightarrow> u64 \<Rightarrow> PolicyFields \<Rightarrow> (ParseError, SignedPolicy) result" where
  "fields_sign K F now host vm gen f =
     sign_policy K F now host vm (pf_egress f) (pf_principal f) (pf_allow f) (pf_rules f) gen"

section \<open>Handlers as programs\<close>

datatype CallError = Unreachable string | Ambiguous string

fun call_error_display :: "CallError \<Rightarrow> string" where
  "call_error_display (Unreachable m) = ''unreachable: '' @ m"
| "call_error_display (Ambiguous m) = ''no reply: '' @ m"

definition is_success :: "nat \<Rightarrow> bool" where
  "is_success s \<longleftrightarrow> 200 \<le> s \<and> s < 300"

text \<open>
  What the calls of \<^verbatim>\<open>HostClient\<close> make of the HTTP client's outcome: an error (whether it was one of
  connecting, and its text), or a status with the body, which may fail to arrive or to parse.
  \<open>shown\<close> is how the HTTP library prints a status.
\<close>

type_synonym 'b http_outcome = "(bool \<times> string, nat \<times> (string, 'b) result) result"

definition classify :: "bool \<times> string \<Rightarrow> CallError" where
  "classify e = (if fst e then Unreachable (snd e) else Ambiguous (snd e))"

definition client_json :: "(nat \<Rightarrow> string) \<Rightarrow> string \<Rightarrow> Json http_outcome \<Rightarrow> (CallError, Json) result" where
  "client_json shown path resp =
     and_then (map_err classify resp) (\<lambda>(status, body).
     if \<not> is_success status then Err (Ambiguous (path @ '': http '' @ shown status))
     else map_err Ambiguous body)"

definition client_create :: "Json http_outcome \<Rightarrow> (CallError, nat \<times> Json) result" where
  "client_create resp =
     and_then (map_err classify resp) (\<lambda>(status, body).
     Ok (status, case body of Inr v \<Rightarrow> v | Inl _ \<Rightarrow> JNull))"

definition client_delete :: "Json http_outcome \<Rightarrow> (CallError, nat) result" where
  "client_delete resp = and_then (map_err classify resp) (\<lambda>(status, _). Ok status)"

definition client_forward ::
  "(string, unit) result \<Rightarrow> 'b http_outcome \<Rightarrow> (CallError, nat \<times> 'b) result" where
  "client_forward method resp =
     and_then (map_err Unreachable method) (\<lambda>_.
     and_then (map_err classify resp) (\<lambda>(status, body).
     and_then (map_err Ambiguous body) (\<lambda>bytes. Ok (status, bytes))))"

text \<open>A host that is called unreachable was sent nothing.\<close>

lemma client_create_unreachable: "client_create resp = Err (Unreachable m) \<longleftrightarrow> resp = Err (True, m)"
  by (cases resp) (auto simp: client_create_def classify_def split: if_splits)

text \<open>
  A store statement answers whether it was executed, a query the tables (\<^verbatim>\<open>None\<close> an error). Of a
  host: \<open>HGet\<close> is a read of \<^verbatim>\<open>HostClient::json\<close>, \<open>HCreate\<close> and \<open>HDelete\<close> the two calls that change
  what the host has, \<open>HForward\<close> any other, with the body of the answer if it is JSON.
\<close>

datatype 'a fprog =
    FRet 'a
  | FStmt FleetStmt "bool \<Rightarrow> 'a fprog"
  | FRead "FleetDb option \<Rightarrow> 'a fprog"
  | FNow "u64 \<Rightarrow> 'a fprog"
  | HGet string string "(CallError, Json) result \<Rightarrow> 'a fprog"
  | HCreate string Json "(CallError, nat \<times> Json) result \<Rightarrow> 'a fprog"
  | HDelete string string "(CallError, nat) result \<Rightarrow> 'a fprog"
  | HForward string string string "Json option" "(CallError, nat \<times> Json option) result \<Rightarrow> 'a fprog"

datatype FleetError =
    StoreFailed
  | TemplateRequired
  | InvalidRule ParseError
  | NoHostHasTemplate string
  | NoFreeSlot string
  | HostVanished
  | HostRefused nat string string
  | NoReply string string string
  | NoHostCouldTake string
  | NoSuchVm
  | VmIs string string
  | HostNotConfigured string
  | HostFailed string CallError
  | BadRecord string
  | NameRequired
  | NoHealthyHost
  | NoSuchBuild string

fun status_of :: "FleetError \<Rightarrow> nat" where
  "status_of StoreFailed = 500"
| "status_of TemplateRequired = 400"
| "status_of (InvalidRule _) = 400"
| "status_of (NoHostHasTemplate _) = 404"
| "status_of (NoFreeSlot _) = 409"
| "status_of HostVanished = 500"
| "status_of (HostRefused s _ _) = s"
| "status_of (NoReply _ _ _) = 502"
| "status_of (NoHostCouldTake _) = 409"
| "status_of NoSuchVm = 404"
| "status_of (VmIs _ _) = 409"
| "status_of (HostNotConfigured _) = 409"
| "status_of (HostFailed _ _) = 502"
| "status_of (BadRecord _) = 502"
| "status_of NameRequired = 400"
| "status_of NoHealthyHost = 409"
| "status_of (NoSuchBuild _) = 404"

text \<open>The JSON body of a 200.\<close>

definition ok_body :: "(CallError, nat \<times> Json option) result \<Rightarrow> Json option" where
  "ok_body r = (case r of Inr (s, b) \<Rightarrow> if s = 200 then b else None | Inl _ \<Rightarrow> None)"

text \<open>\<^verbatim>\<open>?\<close> on a statement.\<close>

definition stmt_q :: "FleetStmt \<Rightarrow> (FleetError, 'a) result fprog \<Rightarrow> (FleetError, 'a) result fprog" where
  "stmt_q s p = FStmt s (\<lambda>ok. if ok then p else FRet (Err StoreFailed))"

definition stmt_ignored :: "FleetStmt \<Rightarrow> 'a fprog \<Rightarrow> 'a fprog" where
  "stmt_ignored s p = FStmt s (\<lambda>_. p)"

definition error_text :: "string \<Rightarrow> Json \<Rightarrow> string" where
  "error_text dflt resp = (case as_str (json_index resp ''error'') of Some m \<Rightarrow> m | None \<Rightarrow> dflt)"

definition contains :: "string \<Rightarrow> string \<Rightarrow> bool" where
  "contains p s \<longleftrightarrow> sublist p s"

section \<open>Creating\<close>

text \<open>What follows the answer of a host; \<open>go_on\<close> asks the next one.\<close>

definition create_reply ::
  "string \<Rightarrow> string \<Rightarrow> (string \<Rightarrow> (FleetError, string \<times> string) result fprog) \<Rightarrow> (CallError, nat \<times> Json) result \<Rightarrow>
     (FleetError, string \<times> string) result fprog" where
  "create_reply i host go_on reply =
     (case reply of
        Inr (status, resp) \<Rightarrow>
          if is_success status then
            stmt_q (SetVmState i st_placed (Some ''creating'') None)
            (stmt_ignored (HostTookSlot host)
            (HForward host ''GET'' (''/vms/'' @ i) None (\<lambda>r.
              let done = FRet (Ok (case as_str (json_index resp ''id'') of Some x \<Rightarrow> x | None \<Rightarrow> i, host)) in
              case ok_body r of
                Some v \<Rightarrow> stmt_ignored (SetVmView i v) done
              | None \<Rightarrow> done)))
          else if status = 409 then
            (let msg = error_text ''conflict'' resp in
             if contains ''already exists'' msg then
               stmt_q (SetVmState i st_placed None None) (FRet (Ok (i, host)))
             else go_on (host @ '': '' @ msg))
          else
            stmt_q (DeleteFVm i) (FRet (Err (HostRefused status host (error_text ''host error'' resp))))
      | Inl (Unreachable e) \<Rightarrow>
          stmt_ignored (HostUnreachable host e) (go_on (host @ '': '' @ e))
      | Inl (Ambiguous e) \<Rightarrow>
          stmt_q (SetVmState i st_creating None (Some e)) (FRet (Err (NoReply host e i))))"

fun create_on ::
  "Codec \<Rightarrow> Fleet \<Rightarrow> Json \<Rightarrow> PolicyFields \<Rightarrow> string \<Rightarrow> string list \<Rightarrow> string \<Rightarrow>
     (FleetError, string \<times> string) result fprog" where
  "create_on K F body policy i [] why =
     stmt_q (DeleteFVm i) (FRet (Err (NoHostCouldTake why)))"
| "create_on K F body policy i (host # hosts) why =
     stmt_q (SetVmHost i host)
     (if host \<notin> set (fl_hosts F) then FRet (Err HostVanished)
      else FNow (\<lambda>now.
        case fields_sign K F now host i 1 policy of
          Inl e \<Rightarrow> FRet (Err (InvalidRule e))
        | Inr sp \<Rightarrow> HCreate host (json_insert ''signed'' (json_of_signed sp) body)
            (create_reply i host (create_on K F body policy i hosts))))"

text \<open>\<open>fresh\<close> is the id \<^verbatim>\<open>new_id\<close> draws.\<close>

definition create ::
  "(rat \<Rightarrow> rat) \<Rightarrow> Codec \<Rightarrow> Fleet \<Rightarrow> VmId \<Rightarrow> Json \<Rightarrow> (FleetError, string \<times> string) result fprog" where
  "create rnd K F fresh body =
     (case as_str (json_index body ''template'') of
        None \<Rightarrow> FRet (Err TemplateRequired)
      | Some template \<Rightarrow>
          if template = [] then FRet (Err TemplateRequired)
          else
            let pin = Option.bind (json_lookup ''host'' body) as_str;
                body = json_remove ''id'' (json_remove ''host'' body);
                labels = (case json_lookup ''labels'' body of Some l \<Rightarrow> l | None \<Rightarrow> JObj []);
                policy = fields_from_create body in
            case fields_check policy of
              Inl e \<Rightarrow> FRet (Err (InvalidRule e))
            | Inr _ \<Rightarrow>
                FRead (\<lambda>r. case r of None \<Rightarrow> FRet (Err StoreFailed) | Some db \<Rightarrow>
                  let hosts = list_hosts db; cs = candidates rnd hosts template pin in
                  if cs = [] then
                    FRet (Err (if \<not> template_known hosts template then NoHostHasTemplate template
                               else NoFreeSlot template))
                  else
                    let i = vmid_display fresh; body = json_insert ''id'' (JStr i) body in
                    stmt_q (InsertFVm i (fh_name (hd cs)) template labels body)
                      (create_on K F body policy i (map fh_name cs) ''no candidate'')))"

section \<open>Reading, deleting, changing\<close>

datatype DeleteReply = NoContent | Accepted string

definition delete_one :: "Fleet \<Rightarrow> string \<Rightarrow> (FleetError, DeleteReply) result fprog" where
  "delete_one F i =
     FRead (\<lambda>r. case r of None \<Rightarrow> FRet (Err StoreFailed) | Some db \<Rightarrow>
       (case get_fvm i db of
          None \<Rightarrow> FRet (Err NoSuchVm)
        | Some row \<Rightarrow>
            if fv_state row = st_lost \<or> fv_state row = st_failed then
              stmt_q (DeleteFVm i) (FRet (Ok NoContent))
            else if fv_host row \<notin> set (fl_hosts F) then
              stmt_q (DeleteFVm i) (FRet (Ok NoContent))
            else
              HDelete (fv_host row) i (\<lambda>reply.
                case reply of
                  Inr s \<Rightarrow>
                    if s = 204 \<or> s = 404 then
                      stmt_q (DeleteFVm i) (stmt_ignored (HostFreedSlot (fv_host row)) (FRet (Ok NoContent)))
                    else FRet (Err (HostRefused s (fv_host row) ''refused the delete''))
                | Inl e \<Rightarrow>
                    stmt_q (SetVmState i st_deleting None (Some (call_error_display e)))
                      (FRet (Ok (Accepted (fv_host row)))))))"

definition str_or :: "string \<Rightarrow> Json \<Rightarrow> string" where
  "str_or d v = (case as_str v of Some s \<Rightarrow> s | None \<Rightarrow> d)"

definition array_or_empty :: "Json \<Rightarrow> Json" where
  "array_or_empty v = JArr (case as_array v of Some xs \<Rightarrow> xs | None \<Rightarrow> [])"

text \<open>A VM as the fleet describes it, in the shape of a host's record.\<close>

definition synthesized :: "FleetVm \<Rightarrow> Json" where
  "synthesized row =
     (let s = fv_spec row in
      JObj [(''id'', JStr (fv_id row)), (''slot'', JNull), (''template'', JStr (fv_template row)),
        (''state'', JStr (case fv_host_state row of Some st \<Rightarrow> st | None \<Rightarrow> ''creating'')),
        (''egress'', JStr (str_or ''deny'' (json_index s ''egress''))),
        (''lifecycle'', JStr (str_or ''ephemeral'' (json_index s ''lifecycle''))),
        (''restart'', JStr (str_or ''never'' (json_index s ''restart''))),
        (''labels'', fv_labels row), (''ingress'', JArr []), (''tap'', JNull), (''rootfs_device'', JNull),
        (''principal'', json_index s ''principal''), (''allow'', array_or_empty (json_index s ''allow'')),
        (''rules'', array_or_empty (json_index s ''rules'')), (''policy_gen'', JNum 1)])"

definition vm_view :: "FleetVm \<Rightarrow> Json option \<Rightarrow> Json" where
  "vm_view row host_view =
     (let v = (case coalesce host_view (fv_view row) of Some v \<Rightarrow> v | None \<Rightarrow> synthesized row);
          v = json_insert ''fleet_state'' (JStr (fv_state row)) (json_insert ''host'' (JStr (fv_host row)) v) in
      case fv_last_error row of Some e \<Rightarrow> json_insert ''fleet_error'' (JStr e) v | None \<Rightarrow> v)"

definition list_all_vms :: "(FleetError, Json list) result fprog" where
  "list_all_vms = FRead (\<lambda>r. case r of None \<Rightarrow> FRet (Err StoreFailed)
     | Some db \<Rightarrow> FRet (Ok (map (\<lambda>row. vm_view row None) (list_fvms db))))"

definition active :: "FleetVm \<Rightarrow> bool" where
  "active row \<longleftrightarrow> fv_state row = st_placed \<or> fv_state row = st_creating"

definition get_one :: "Fleet \<Rightarrow> string \<Rightarrow> (FleetError, Json) result fprog" where
  "get_one F i =
     FRead (\<lambda>r. case r of None \<Rightarrow> FRet (Err StoreFailed) | Some db \<Rightarrow>
       (case get_fvm i db of
          None \<Rightarrow> FRet (Err NoSuchVm)
        | Some row \<Rightarrow>
            if active row \<and> fv_host row \<in> set (fl_hosts F) then
              HForward (fv_host row) ''GET'' (''/vms/'' @ i) None (\<lambda>r.
                case ok_body r of
                  Some v \<Rightarrow> stmt_ignored (SetVmView i v) (FRet (Ok (vm_view row (Some v))))
                | None \<Rightarrow> FRet (Ok (vm_view row None)))
            else FRet (Ok (vm_view row None))))"

definition fleet_set_policy ::
  "Codec \<Rightarrow> Fleet \<Rightarrow> string \<Rightarrow> Json \<Rightarrow> (FleetError, nat \<times> Json option) result fprog" where
  "fleet_set_policy K F i change =
     FRead (\<lambda>r. case r of None \<Rightarrow> FRet (Err StoreFailed) | Some db \<Rightarrow>
       (case get_fvm i db of
          None \<Rightarrow> FRet (Err NoSuchVm)
        | Some row \<Rightarrow>
            let host = fv_host row;
                failed = (\<lambda>e. stmt_ignored (HostUnreachable host (call_error_display e)) (FRet (Err (HostFailed host e)))) in
            if \<not> active row then FRet (Err (VmIs (fv_state row) host))
            else if host \<notin> set (fl_hosts F) then FRet (Err (HostNotConfigured host))
            else
              HForward host ''GET'' (''/vms/'' @ i) None (\<lambda>r.
                case r of
                  Inl e \<Rightarrow> failed e
                | Inr (status, answer) \<Rightarrow>
                    if status \<noteq> 200 then FRet (Err (HostRefused status host ''has no vm''))
                    else (case answer of
                      None \<Rightarrow> FRet (Err (BadRecord host))
                    | Some view \<Rightarrow>
                        let current_gen = (case as_u64 (json_index view ''policy_gen'') of Some g \<Rightarrow> g | None \<Rightarrow> 1);
                            fields = patched change (fields_from_view view) in
                        (case fields_check fields of
                           Inl e \<Rightarrow> FRet (Err (InvalidRule e))
                         | Inr _ \<Rightarrow> FNow (\<lambda>now.
                             case fields_sign K F now host i (of_nat current_gen + 1) fields of
                               Inl e \<Rightarrow> FRet (Err (InvalidRule e))
                             | Inr sp \<Rightarrow>
                                 HForward host ''PATCH'' (''/vms/'' @ i @ ''/policy'')
                                   (Some (json_insert ''signed'' (json_of_signed sp) change)) (\<lambda>r.
                                   case r of
                                     Inl e \<Rightarrow> failed e
                                   | Inr (status, answer) \<Rightarrow>
                                       if is_success status then
                                         HForward host ''GET'' (''/vms/'' @ i) None (\<lambda>r.
                                           case ok_body r of
                                             Some v \<Rightarrow> stmt_ignored (SetVmView i v) (FRet (Ok (status, answer)))
                                           | None \<Rightarrow> FRet (Ok (status, answer)))
                                       else FRet (Ok (status, answer)))))))))"

definition fleet_forward ::
  "Fleet \<Rightarrow> string \<Rightarrow> string \<Rightarrow> string \<Rightarrow> string option \<Rightarrow> Json option \<Rightarrow> (FleetError, nat \<times> Json option) result fprog" where
  "fleet_forward F i rest method query body =
     FRead (\<lambda>r. case r of None \<Rightarrow> FRet (Err StoreFailed) | Some db \<Rightarrow>
       (case get_fvm i db of
          None \<Rightarrow> FRet (Err NoSuchVm)
        | Some row \<Rightarrow>
            let host = fv_host row in
            if \<not> active row then FRet (Err (VmIs (fv_state row) host))
            else if host \<notin> set (fl_hosts F) then FRet (Err (HostNotConfigured host))
            else
              HForward host method (''/vms/'' @ i @ ''/'' @ rest @ (case query of Some q \<Rightarrow> ''?'' @ q | None \<Rightarrow> [])) body (\<lambda>r.
                case r of
                  Inr answer \<Rightarrow> FRet (Ok answer)
                | Inl e \<Rightarrow>
                    stmt_ignored (HostUnreachable host (call_error_display e)) (FRet (Err (HostFailed host e))))))"

section \<open>Templates and totals\<close>

text \<open>
  \<^verbatim>\<open>POST /templates/build\<close> on each of \<open>hosts\<close>; \<open>acc\<close> collects what each answered and \<open>n\<close> how many
  accepted.
\<close>

fun build_on ::
  "Fleet \<Rightarrow> Json \<Rightarrow> string list \<Rightarrow> (string \<times> Json) list \<Rightarrow> nat \<Rightarrow> (nat \<Rightarrow> (string \<times> Json) list \<Rightarrow> 'a fprog) \<Rightarrow> 'a fprog" where
  "build_on F body [] acc n k = k n acc"
| "build_on F body (host # hosts) acc n k =
     (if host \<notin> set (fl_hosts F) then build_on F body hosts acc n k
      else HForward host ''POST'' ''/templates/build'' (Some body) (\<lambda>r.
        case r of
          Inr (status, answer) \<Rightarrow>
            build_on F body hosts
              (AList.update host (json_insert ''http'' (JNum (of_nat status)) (case answer of Some v \<Rightarrow> v | None \<Rightarrow> JNull)) acc)
              (if is_success status then n + 1 else n) k
        | Inl e \<Rightarrow>
            build_on F body hosts
              (AList.update host (JObj [(''http'', JNum 502), (''error'', JStr (call_error_display e))]) acc) n k))"

definition build_template :: "Fleet \<Rightarrow> Json \<Rightarrow> (FleetError, nat \<times> Json) result fprog" where
  "build_template F body =
     (let pin = Option.bind (json_lookup ''host'' body) as_str;
          body = json_remove ''host'' body;
          name = str_or [] (json_index body ''name'') in
      if name = [] then FRet (Err NameRequired)
      else FRead (\<lambda>r. case r of None \<Rightarrow> FRet (Err StoreFailed) | Some db \<Rightarrow>
        let targets = filter (\<lambda>h. fh_healthy h \<and> (case pin of None \<Rightarrow> True | Some p \<Rightarrow> p = fh_name h)) (list_hosts db) in
        if targets = [] then FRet (Err NoHealthyHost)
        else build_on F body (map fh_name targets) [] 0 (\<lambda>accepted per_host.
          FRet (Ok (if 0 < accepted then 202 else 502, JObj [(''name'', JStr name), (''hosts'', JObj per_host)])))))"

fun builds_on ::
  "(nat \<Rightarrow> string) \<Rightarrow> Fleet \<Rightarrow> string list \<Rightarrow> (string \<times> Json) list \<Rightarrow> ((string \<times> Json) list \<Rightarrow> 'a fprog) \<Rightarrow> 'a fprog" where
  "builds_on shown F [] acc k = k acc"
| "builds_on shown F (host # hosts) acc k =
     (if host \<notin> set (fl_hosts F) then builds_on shown F hosts acc k
      else HForward host ''GET'' ''/templates/builds'' None (\<lambda>r.
        builds_on shown F hosts
          (AList.update host
            (case r of
               Inr (status, answer) \<Rightarrow>
                 if is_success status then (case answer of Some v \<Rightarrow> v | None \<Rightarrow> JNull)
                 else JObj [(''error'', JStr (''http '' @ shown status))]
             | Inl e \<Rightarrow> JObj [(''error'', JStr (call_error_display e))]) acc) k))"

definition list_builds :: "(nat \<Rightarrow> string) \<Rightarrow> Fleet \<Rightarrow> (FleetError, Json) result fprog" where
  "list_builds shown F = FRead (\<lambda>r. case r of None \<Rightarrow> FRet (Err StoreFailed) | Some db \<Rightarrow>
     builds_on shown F (map fh_name (list_hosts db)) [] (\<lambda>out. FRet (Ok (JObj out))))"

text \<open>What a host says of a build; \<open>None\<close> where it has none of that name.\<close>

definition build_entry :: "(nat \<Rightarrow> string) \<Rightarrow> (CallError, nat \<times> Json option) result \<Rightarrow> Json option" where
  "build_entry shown r =
     (case r of
        Inr (status, answer) \<Rightarrow>
          if status = 200 then Some (case answer of Some v \<Rightarrow> v | None \<Rightarrow> JNull)
          else if status = 404 then None
          else Some (JObj [(''state'', JStr ''unknown''), (''error'', JStr (''http '' @ shown status))])
      | Inl e \<Rightarrow> Some (JObj [(''state'', JStr ''unknown''), (''error'', JStr (call_error_display e))]))"

fun get_build_on ::
  "(nat \<Rightarrow> string) \<Rightarrow> Fleet \<Rightarrow> string \<Rightarrow> string list \<Rightarrow> (string \<times> Json) list \<Rightarrow> ((string \<times> Json) list \<Rightarrow> 'a fprog) \<Rightarrow> 'a fprog" where
  "get_build_on shown F name [] acc k = k acc"
| "get_build_on shown F name (host # hosts) acc k =
     (if host \<notin> set (fl_hosts F) then get_build_on shown F name hosts acc k
      else HForward host ''GET'' (''/templates/builds/'' @ name) None (\<lambda>r.
        case build_entry shown r of
          None \<Rightarrow> get_build_on shown F name hosts acc k
        | Some v \<Rightarrow> get_build_on shown F name hosts (acc @ [(host, v)]) k))"

text \<open>The state of the whole, from the entries the hosts gave.\<close>

definition build_state :: "Json list \<Rightarrow> string" where
  "build_state entries =
     (let st = map (\<lambda>v. as_str (json_index v ''state'')) entries;
          ready = length (filter (\<lambda>s. s = Some ''ready'') st);
          failed = length (filter (\<lambda>s. s = Some ''failed'') st);
          building = length (filter (\<lambda>s. s \<noteq> Some ''ready'' \<and> s \<noteq> Some ''failed'') st) in
      if 0 < failed then ''failed'' else if 0 < building then ''building''
      else if 0 < ready then ''ready'' else ''unknown'')"

definition get_build :: "(nat \<Rightarrow> string) \<Rightarrow> Fleet \<Rightarrow> string \<Rightarrow> (FleetError, Json) result fprog" where
  "get_build shown F name = FRead (\<lambda>r. case r of None \<Rightarrow> FRet (Err StoreFailed) | Some db \<Rightarrow>
     get_build_on shown F name (map fh_name (list_hosts db)) [] (\<lambda>per_host.
       if per_host = [] then FRet (Err (NoSuchBuild name))
       else FRet (Ok (JObj [(''name'', JStr name), (''state'', JStr (build_state (map snd per_host))),
         (''hosts'', JObj per_host)]))))"

text \<open>\<^verbatim>\<open>GET /stats\<close>: capacity over the healthy hosts, pool usage as the worst host's; sums are \<^verbatim>\<open>u32\<close>.\<close>

definition sum_u32 :: "nat list \<Rightarrow> nat" where
  "sum_u32 xs = sum_list xs mod 2 ^ 32"

definition by_state :: "FleetVm list \<Rightarrow> (string \<times> nat) list" where
  "by_state vms =
     fold (\<lambda>v m. AList.update (fv_state v) ((case map_of m (fv_state v) of Some n \<Rightarrow> n | None \<Rightarrow> 0) + 1) m) vms []"

definition fleet_totals :: "FleetDb \<Rightarrow> Json" where
  "fleet_totals db =
     (let hosts = list_hosts db; healthy = filter fh_healthy hosts; num = (\<lambda>n::nat. JNum (of_nat n));
          all = sum_u32 (map fh_slots_total healthy); free = sum_u32 (map fh_slots_free healthy) in
      JObj [(''storage_backend'', JNull), (''pool_capacity_bytes'', JNull), (''pool_used_bytes'', JNull),
        (''snapshot_bytes'', JNull), (''filesystem_capacity_bytes'', JNull), (''filesystem_available_bytes'', JNull),
        (''data_percent'', JNum (fold max (map fh_pool_data healthy) 0)),
        (''metadata_percent'', JNum (fold max (map fh_pool_meta healthy) 0)),
        (''slots_used'', num (all - free)), (''slots_total'', num all), (''vms'', num (length (list_fvms db))),
        (''hosts'', num (length hosts)), (''hosts_healthy'', num (length healthy)), (''slots_free'', num free),
        (''vms_by_state'', JObj (map (\<lambda>(s, n). (s, num n)) (by_state (list_fvms db)))),
        (''orphans'', num (sum_u32 (map fh_orphans hosts)))])"

definition fleet_stats :: "(FleetError, Json) result fprog" where
  "fleet_stats = FRead (\<lambda>r. case r of None \<Rightarrow> FRet (Err StoreFailed) | Some db \<Rightarrow> FRet (Ok (fleet_totals db)))"

section \<open>The sync loop\<close>

definition number_or :: "rat \<Rightarrow> string \<Rightarrow> Json \<Rightarrow> rat" where
  "number_or d k stats =
     (case as_f64 (json_index stats k) of
        Some x \<Rightarrow> x
      | None \<Rightarrow> (case as_f64 (json_index (json_index stats ''pool'') k) of Some x \<Rightarrow> x | None \<Rightarrow> d))"

definition u32_or0 :: "string \<Rightarrow> Json \<Rightarrow> nat" where
  "u32_or0 k stats = (case as_u64 (json_index stats k) of Some n \<Rightarrow> n mod 2 ^ 32 | None \<Rightarrow> 0)"

text \<open>What a host reports, by id.\<close>

definition reported :: "Json list \<Rightarrow> (string \<times> Json) list" where
  "reported vms =
     fold (\<lambda>v m. case as_str (json_index v ''id'') of Some i \<Rightarrow> AList.update i v m | None \<Rightarrow> m) vms []"

definition refresh_signature :: "Codec \<Rightarrow> Fleet \<Rightarrow> string \<Rightarrow> PolicyClaims \<Rightarrow> 'a fprog \<Rightarrow> 'a fprog" where
  "refresh_signature K F host claims p =
     FNow (\<lambda>now. HForward host ''PATCH'' (''/vms/'' @ pc_vm claims @ ''/policy'')
       (Some (JObj [(''signed'', json_of_signed (resign K F now claims))])) (\<lambda>_. p))"

text \<open>\<^verbatim>\<open>c.expires.saturating_sub(now) <= policy_ttl_secs / 3\<close>\<close>

definition due :: "Fleet \<Rightarrow> u64 \<Rightarrow> PolicyClaims \<Rightarrow> bool" where
  "due F now c \<longleftrightarrow> unat (pc_expires c) - unat now \<le> unat (fl_policy_ttl F) div 3"

fun sync_rows ::
  "Codec \<Rightarrow> Fleet \<Rightarrow> string \<Rightarrow> (string \<times> Json) list \<Rightarrow> FleetVm list \<Rightarrow> nat \<Rightarrow> (nat \<Rightarrow> unit fprog) \<Rightarrow> unit fprog" where
  "sync_rows K F host has [] known k = k known"
| "sync_rows K F host has (r # rows) known k =
     (case map_of has (fv_id r) of
        Some v \<Rightarrow>
          let rest = sync_rows K F host has rows (known + 1) k in
          if fv_state r = st_deleting then
            HDelete host (fv_id r) (\<lambda>reply.
              case reply of
                Inr s \<Rightarrow>
                  if is_success s \<or> s = 404 then
                    stmt_ignored (DeleteFVm (fv_id r)) (stmt_ignored (HostFreedSlot host) rest)
                  else rest
              | Inl _ \<Rightarrow> rest)
          else
            stmt_ignored (SetVmView (fv_id r) v) (stmt_ignored (SetVmState (fv_id r) st_placed None None)
              (case own_claims K F v of
                 Some c \<Rightarrow> FNow (\<lambda>now. if due F now c then refresh_signature K F host c rest else rest)
               | None \<Rightarrow> rest))
      | None \<Rightarrow>
          let rest = sync_rows K F host has rows known k in
          if fv_state r = st_deleting then stmt_ignored (DeleteFVm (fv_id r)) rest
          else if fv_state r = st_creating then
            FNow (\<lambda>now.
              if uint now - fv_created_at r < fl_create_grace F then rest
              else stmt_ignored (SetVmState (fv_id r) st_failed None (Some ''host never reported it'')) rest)
          else if fv_state r = st_lost \<or> fv_state r = st_failed then rest
          else stmt_ignored (SetVmState (fv_id r) st_lost None (Some ''host no longer has it'')) rest)"

fun mark_unreachable :: "string \<Rightarrow> FleetVm list \<Rightarrow> unit fprog" where
  "mark_unreachable why [] = FRet ()"
| "mark_unreachable why (r # rows) =
     (if active r then stmt_ignored (SetVmState (fv_id r) st_unreachable None (Some why)) (mark_unreachable why rows)
      else mark_unreachable why rows)"

definition sync_failed :: "string \<Rightarrow> CallError \<Rightarrow> unit fprog" where
  "sync_failed host e =
     stmt_ignored (HostUnreachable host (call_error_display e))
     (FRead (\<lambda>r. case r of
        None \<Rightarrow> FRet ()
      | Some db \<Rightarrow> mark_unreachable (call_error_display e) (list_vms_on host db)))"

definition template_names :: "Json \<Rightarrow> string list" where
  "template_names v =
     (case as_array v of
        Some ts \<Rightarrow> List.map_filter (\<lambda>t. as_str (json_index t ''name'')) ts
      | None \<Rightarrow> [])"

text \<open>A host that answered: what it has is recorded, then reconciled with the fleet's rows.\<close>

definition sync_seen :: "Codec \<Rightarrow> Fleet \<Rightarrow> string \<Rightarrow> Json \<Rightarrow> string list \<Rightarrow> Json list \<Rightarrow> unit fprog" where
  "sync_seen K F host stats templates vms =
     (let slots_all = u32_or0 ''slots_total'' stats; has = reported vms in
      stmt_ignored (HostSeen host (slots_all - u32_or0 ''slots_used'' stats) slots_all
        (number_or 0 ''data_percent'' stats) (number_or 0 ''metadata_percent'' stats) templates)
      (FRead (\<lambda>r. case r of
         None \<Rightarrow> FRet ()
       | Some db \<Rightarrow>
           sync_rows K F host has (list_vms_on host db) 0 (\<lambda>known.
             stmt_ignored (HostOrphans host ((length has - known) mod 2 ^ 32)) (FRet ())))))"

definition listed_vms :: "Json \<Rightarrow> Json list" where
  "listed_vms v = (case as_array v of Some xs \<Rightarrow> xs | None \<Rightarrow> [])"

text \<open>A question to a host; the sync gives up where it is not answered.\<close>

definition ask :: "string \<Rightarrow> string \<Rightarrow> (Json \<Rightarrow> unit fprog) \<Rightarrow> unit fprog" where
  "ask host path k = HGet host path (\<lambda>r. case r of Inl e \<Rightarrow> sync_failed host e | Inr x \<Rightarrow> k x)"

definition sync_host :: "Codec \<Rightarrow> Fleet \<Rightarrow> string \<Rightarrow> unit fprog" where
  "sync_host K F host =
     ask host ''/stats'' (\<lambda>stats. ask host ''/templates'' (\<lambda>templates. ask host ''/vms'' (\<lambda>vms.
       sync_seen K F host stats (template_names templates) (listed_vms vms))))"

section \<open>Runs\<close>

datatype FEvent =
    EStmt FleetStmt bool
  | ERead "FleetDb option"
  | ENow u64
  | EGet string string "(CallError, Json) result"
  | ECreate string Json "(CallError, nat \<times> Json) result"
  | EDelete string string "(CallError, nat) result"
  | EForward string string string "Json option" "(CallError, nat \<times> Json option) result"

text \<open>What a program can do whatever it is answered: other handlers may run at any point.\<close>

primrec ftrace :: "'a fprog \<Rightarrow> FEvent list \<Rightarrow> 'a \<Rightarrow> bool" where
  "ftrace (FRet x) tr y \<longleftrightarrow> tr = [] \<and> y = x"
| "ftrace (FStmt s k) tr y \<longleftrightarrow> (\<exists>ok tr'. tr = EStmt s ok # tr' \<and> ftrace (k ok) tr' y)"
| "ftrace (FRead k) tr y \<longleftrightarrow> (\<exists>db tr'. tr = ERead db # tr' \<and> ftrace (k db) tr' y)"
| "ftrace (FNow k) tr y \<longleftrightarrow> (\<exists>n tr'. tr = ENow n # tr' \<and> ftrace (k n) tr' y)"
| "ftrace (HGet h p k) tr y \<longleftrightarrow> (\<exists>r tr'. tr = EGet h p r # tr' \<and> ftrace (k r) tr' y)"
| "ftrace (HCreate h b k) tr y \<longleftrightarrow> (\<exists>r tr'. tr = ECreate h b r # tr' \<and> ftrace (k r) tr' y)"
| "ftrace (HDelete h i k) tr y \<longleftrightarrow> (\<exists>r tr'. tr = EDelete h i r # tr' \<and> ftrace (k r) tr' y)"
| "ftrace (HForward h m p b k) tr y \<longleftrightarrow> (\<exists>r tr'. tr = EForward h m p b r # tr' \<and> ftrace (k r) tr' y)"

text \<open>A run alone on the tables, the store working, the hosts answering as they like.\<close>

primrec falone :: "'a fprog \<Rightarrow> FleetDb \<Rightarrow> FEvent list \<Rightarrow> FleetDb \<Rightarrow> 'a \<Rightarrow> bool" where
  "falone (FRet x) db tr db' y \<longleftrightarrow> tr = [] \<and> db' = db \<and> y = x"
| "falone (FStmt s k) db tr db' y \<longleftrightarrow> (\<exists>now tr'.
     (case fleet_exec now s db of
        Some db1 \<Rightarrow> tr = EStmt s True # tr' \<and> falone (k True) db1 tr' db' y
      | None \<Rightarrow> tr = EStmt s False # tr' \<and> falone (k False) db tr' db' y))"
| "falone (FRead k) db tr db' y \<longleftrightarrow> (\<exists>tr'. tr = ERead (Some db) # tr' \<and> falone (k (Some db)) db tr' db' y)"
| "falone (FNow k) db tr db' y \<longleftrightarrow> (\<exists>n tr'. tr = ENow n # tr' \<and> falone (k n) db tr' db' y)"
| "falone (HGet h p k) db tr db' y \<longleftrightarrow> (\<exists>r tr'. tr = EGet h p r # tr' \<and> falone (k r) db tr' db' y)"
| "falone (HCreate h b k) db tr db' y \<longleftrightarrow> (\<exists>r tr'. tr = ECreate h b r # tr' \<and> falone (k r) db tr' db' y)"
| "falone (HDelete h i k) db tr db' y \<longleftrightarrow> (\<exists>r tr'. tr = EDelete h i r # tr' \<and> falone (k r) db tr' db' y)"
| "falone (HForward h m p b k) db tr db' y \<longleftrightarrow>
     (\<exists>r tr'. tr = EForward h m p b r # tr' \<and> falone (k r) db tr' db' y)"

end
