(* ===== verification/Iso_Reconcile.thy ===== *)
theory Iso_Reconcile
  imports Iso_Fleet
begin

text \<open>
  What the fleet keeps true of its VMs: a create asks hosts one after another and the record
  names the one that may have it; a delete forgets a VM only when its host cannot have it; a
  sync settles each row; and what the fleet signs is what a proxy tier enforces.
\<close>

section \<open>One host per VM\<close>

fun creates :: "FEvent list \<Rightarrow> (string \<times> (CallError, nat \<times> Json) result) list" where
  "creates [] = []"
| "creates (ECreate h b r # tr) = (h, r) # creates tr"
| "creates (_ # tr) = creates tr"

text \<open>After this answer the host may have the VM.\<close>

fun may_have :: "(CallError, nat \<times> Json) result \<Rightarrow> bool" where
  "may_have (Inl (Unreachable _)) = False"
| "may_have (Inl (Ambiguous _)) = True"
| "may_have (Inr (status, resp)) \<longleftrightarrow>
     is_success status \<or> status = 409 \<and> contains ''already exists'' (error_text ''conflict'' resp)"

text \<open>The host the VM's record was last pointed at.\<close>

fun record_host :: "string \<Rightarrow> FEvent list \<Rightarrow> string option \<Rightarrow> string option" where
  "record_host i [] h = h"
| "record_host i (EStmt (SetVmHost j h') True # tr) h = record_host i tr (if i = j then Some h' else h)"
| "record_host i (_ # tr) h = record_host i tr h"

definition deletes :: "string \<Rightarrow> FEvent list \<Rightarrow> bool" where
  "deletes i tr \<longleftrightarrow> (\<exists>ok. EStmt (DeleteFVm i) ok \<in> set tr)"

definition one_host :: "string \<Rightarrow> FEvent list \<Rightarrow> (FleetError, string \<times> string) result \<Rightarrow> string option \<Rightarrow> bool" where
  "one_host i tr r h0 \<longleftrightarrow>
     (\<forall>c \<in> set (butlast (creates tr)). \<not> may_have (snd c)) \<and>
     (\<forall>c \<in> set (creates tr). may_have (snd c) \<longrightarrow> record_host i tr h0 = Some (fst c) \<and> \<not> deletes i tr) \<and>
     (\<forall>vm host. r = Ok (vm, host) \<longrightarrow> (\<exists>rep. creates tr \<noteq> [] \<and> last (creates tr) = (host, rep) \<and> may_have rep))"

lemma one_host_cons_quiet:
  assumes "one_host i tr r h0" and "creates (e # tr) = creates tr" and "record_host i (e # tr) h1 = record_host i tr h0"
    and "\<And>ok. e \<noteq> EStmt (DeleteFVm i) ok"
  shows "one_host i (e # tr) r h1"
  using assms by (auto simp: one_host_def deletes_def)

lemma one_host_refused:
  assumes "one_host i tr r h0" and "\<not> may_have rep"
  shows "one_host i (ECreate h b rep # tr) r h0"
  using assms by (auto simp: one_host_def deletes_def)

lemma one_host_taken:
  assumes "creates tr = []" and "record_host i tr (Some h) = Some h" and "\<not> deletes i tr" and "may_have rep"
    and "\<And>vm host. r = Ok (vm, host) \<Longrightarrow> host = h"
  shows "one_host i (ECreate h b rep # tr) r (Some h)"
  using assms by (auto simp: one_host_def deletes_def)

lemma one_host_asked:
  assumes "one_host i tr r (Some h)"
  shows "one_host i (EStmt (SetVmHost i h) True # ENow n # tr) r h0"
  using assms by (auto simp: one_host_def deletes_def)

lemma create_reply_one_host:
  assumes "\<And>why tr h0. ftrace (go_on why) tr r \<Longrightarrow> one_host i tr r h0"
    and "ftrace (create_reply i host go_on rep) tr r"
  shows "one_host i (ECreate host b rep # tr) r (Some host)"
proof (cases rep)
  case (Inr a)
  obtain status resp where rep: "rep = Ok (status, resp)" using Inr by (cases a) simp
  consider "is_success status" | "\<not> is_success status" "status = 409" "contains ''already exists'' (error_text ''conflict'' resp)"
    | "\<not> is_success status" "status = 409" "\<not> contains ''already exists'' (error_text ''conflict'' resp)"
    | "\<not> is_success status" "status \<noteq> 409" by blast
  then show ?thesis
  proof cases
    case 1
    then show ?thesis
      using assms(2) unfolding rep
      by (intro one_host_taken) (auto simp: create_reply_def stmt_q_def stmt_ignored_def deletes_def Let_def
          split: if_splits option.splits)
  next
    case 2
    then show ?thesis
      using assms(2) unfolding rep
      by (intro one_host_taken) (auto simp: create_reply_def stmt_q_def deletes_def split: if_splits)
  next
    case 3
    then show ?thesis
      using assms unfolding rep by (intro one_host_refused) (auto simp: create_reply_def Let_def)
  next
    case 4
    then show ?thesis
      using assms(2) unfolding rep by (auto simp: create_reply_def stmt_q_def one_host_def split: if_splits)
  qed
next
  case (Inl e)
  show ?thesis
  proof (cases e)
    case (Unreachable m)
    then show ?thesis
      using assms Inl
      by (auto simp: create_reply_def stmt_ignored_def intro!: one_host_refused one_host_cons_quiet)
  next
    case (Ambiguous m)
    then show ?thesis
      using assms(2) Inl
      by (intro one_host_taken) (auto simp: create_reply_def stmt_q_def deletes_def split: if_splits)
  qed
qed

text \<open>Asking the first host of several: a run fails before it asks, or goes on with the answer.\<close>

lemma create_on_ConsE:
  assumes "ftrace (create_on K F body policy i (host # hosts) why) tr r"
  obtains (quiet) "creates tr = []" and "isl r" and "\<not> deletes i tr"
    | (asked) n sp reply tr1 where "fields_sign K F n host i 1 policy = Ok sp"
      and "tr = EStmt (SetVmHost i host) True # ENow n #
        ECreate host (json_insert ''signed'' (json_of_signed sp) body) reply # tr1"
      and "ftrace (create_reply i host (create_on K F body policy i hosts) reply) tr1 r"
proof -
  from assms obtain ok tr1 where tr: "tr = EStmt (SetVmHost i host) ok # tr1"
    and run: "ftrace (if ok then if host \<notin> set (fl_hosts F) then FRet (Err HostVanished) else FNow (\<lambda>now.
        case fields_sign K F now host i 1 policy of
          Inl e \<Rightarrow> FRet (Err (InvalidRule e))
        | Inr sp \<Rightarrow> HCreate host (json_insert ''signed'' (json_of_signed sp) body)
            (create_reply i host (create_on K F body policy i hosts)))
      else FRet (Err StoreFailed)) tr1 r"
    by (auto simp: stmt_q_def)
  show thesis
  proof (cases "ok \<and> host \<in> set (fl_hosts F)")
    case False
    with run show thesis by (intro quiet) (auto simp: tr deletes_def split: if_splits)
  next
    case True
    with run obtain n tr2 where tr1: "tr1 = ENow n # tr2"
      and run2: "ftrace (case fields_sign K F n host i 1 policy of
          Inl e \<Rightarrow> FRet (Err (InvalidRule e))
        | Inr sp \<Rightarrow> HCreate host (json_insert ''signed'' (json_of_signed sp) body)
            (create_reply i host (create_on K F body policy i hosts))) tr2 r"
      by auto
    show thesis
    proof (cases "fields_sign K F n host i 1 policy")
      case (Inl e)
      with run2 show thesis by (intro quiet) (auto simp: tr tr1 deletes_def)
    next
      case (Inr sp)
      with run2 True show thesis by (auto simp: tr tr1 intro: asked)
    qed
  qed
qed

lemma create_on_one_host:
  "ftrace (create_on K F body policy i hosts why) tr r \<Longrightarrow> one_host i tr r h0"
proof (induction hosts arbitrary: why tr h0)
  case Nil
  then show ?case by (auto simp: stmt_q_def one_host_def deletes_def split: if_splits)
next
  case (Cons host hosts)
  from Cons.prems show ?case
  proof (cases rule: create_on_ConsE)
    case quiet
    then show ?thesis by (auto simp: one_host_def)
  next
    case (asked n sp reply tr1)
    from create_reply_one_host [OF Cons.IH asked(3)] show ?thesis
      unfolding asked(2) by (rule one_host_asked)
  qed
qed

text \<open>Up to the record's insertion no host is asked.\<close>

definition keeps_one :: "string \<Rightarrow> (FleetError, string \<times> string) result fprog \<Rightarrow> bool" where
  "keeps_one i p \<longleftrightarrow> (\<forall>tr r. ftrace p tr r \<longrightarrow> one_host i tr r None)"

lemma keeps_one_Err: "keeps_one i (FRet (Err e))"
  by (simp add: keeps_one_def one_host_def)

lemma keeps_one_Read: "(\<And>db. keeps_one i (k db)) \<Longrightarrow> keeps_one i (FRead k)"
  by (auto simp: keeps_one_def intro!: one_host_cons_quiet)

lemma keeps_one_insert: "keeps_one i p \<Longrightarrow> keeps_one i (stmt_q (InsertFVm j h t l s) p)"
  by (auto simp: keeps_one_def stmt_q_def intro!: one_host_cons_quiet split: if_splits) (simp add: one_host_def)

lemma keeps_one_create_on: "keeps_one i (create_on K F body policy i hosts why)"
  by (simp add: keeps_one_def create_on_one_host)

lemma create_one_host: "keeps_one (vmid_display fresh) (create rnd K F fresh body)"
  unfolding create_def Let_def
  by (auto split: option.split sum.split
      intro!: keeps_one_Err keeps_one_Read keeps_one_insert keeps_one_create_on)

lemma fields_from_create_remove:
  "k \<notin> {''egress'', ''principal'', ''allow'', ''rules''} \<Longrightarrow> fields_from_create (json_remove k v) = fields_from_create v"
  by (auto simp: fields_from_create_def json_index_def json_lookup_remove)

lemma creates_Nil_iff: "creates tr = [] \<longleftrightarrow> (\<forall>h b rep. ECreate h b rep \<notin> set tr)"
  by (induction tr rule: creates.induct) auto

lemma create_reply_asks:
  assumes "ftrace (create_reply i host go_on rep) tr r" and "ECreate h b rep' \<in> set tr"
  obtains why tr' where "ftrace (go_on why) tr' r" and "ECreate h b rep' \<in> set tr'" and "set tr' \<subseteq> set tr"
  using assms
  by (auto simp: create_reply_def stmt_q_def stmt_ignored_def Let_def
      split: sum.splits prod.splits if_splits option.splits CallError.splits) blast

text \<open>What a create sends a host is signed for that host.\<close>

lemma create_on_signed:
  assumes "ftrace (create_on K F (JObj fs) policy i hosts why) tr r" and "ECreate h b rep \<in> set tr"
  shows "\<exists>now sp. ENow now \<in> set tr \<and> fields_sign K F now h i 1 policy = Ok sp \<and>
    json_lookup ''signed'' b = Some (json_of_signed sp)"
  using assms
proof (induction hosts arbitrary: why tr)
  case Nil
  then show ?case by (auto simp: stmt_q_def split: if_splits)
next
  case (Cons host hosts)
  from Cons.prems(1) show ?case
  proof (cases rule: create_on_ConsE)
    case quiet
    with Cons.prems(2) show ?thesis by (auto simp: creates_Nil_iff)
  next
    case (asked n sp reply tr1)
    show ?thesis
    proof (cases "ECreate h b rep \<in> set tr1")
      case True
      with asked(3) obtain why' tr' where "ftrace (create_on K F (JObj fs) policy i hosts why') tr' r"
        "ECreate h b rep \<in> set tr'" "set tr' \<subseteq> set tr1"
        by (rule create_reply_asks)
      with Cons.IH [of why' tr'] show ?thesis unfolding asked(2) by auto
    next
      case False
      with Cons.prems(2) asked(1) show ?thesis
        unfolding asked(2) using json_lookup_insert by (auto intro!: exI [of _ n] exI [of _ sp])
    qed
  qed
qed

text \<open>The shape of a run that asks a host.\<close>

lemma create_asks:
  assumes "ftrace (create rnd K F fresh body) tr r" and "creates tr \<noteq> []"
  obtains db h t l s fs hosts why tr' where
    "tr = ERead (Some db) # EStmt (InsertFVm (vmid_display fresh) h t l s) True # tr'"
    and "ftrace (create_on K F (JObj fs) (fields_from_create body) (vmid_display fresh) hosts why) tr' r"
proof -
  let ?b = "json_remove ''id'' (json_remove ''host'' body)"
  obtain fs0 where body: "body = JObj fs0"
    using assms by (cases body) (auto simp: create_def json_index_def json_lookup_def)
  then obtain fs where fs: "json_insert ''id'' (JStr (vmid_display fresh)) ?b = JObj fs" by simp
  have policy: "fields_from_create ?b = fields_from_create body"
    by (simp add: fields_from_create_remove)
  show thesis
    using assms that
    by (fastforce simp: create_def Let_def policy fs stmt_q_def
        split: option.splits if_splits sum.splits)
qed

section \<open>What a sync settles\<close>

lemma get_on_fvm:
  "(\<And>v. fv_id (f v) = fv_id v) \<Longrightarrow>
   get_fvm i (on_fvm j f db) = (if i = j then map_option f (get_fvm i db) else get_fvm i db)"
proof -
  assume f: "\<And>v. fv_id (f v) = fv_id v"
  have "find (\<lambda>v. fv_id v = i) (map (\<lambda>v. if fv_id v = j then f v else v) vs) =
      (if i = j then map_option f (find (\<lambda>v. fv_id v = i) vs) else find (\<lambda>v. fv_id v = i) vs)" for vs
    by (induction vs) (auto simp: f)
  then show ?thesis by (simp add: get_fvm_def on_fvm_def)
qed

lemma get_delete_fvm: "get_fvm i (delete_fvm j db) = (if i = j then None else get_fvm i db)"
proof -
  have "find (\<lambda>v. fv_id v = i) (filter (\<lambda>v. fv_id v \<noteq> j) vs) =
      (if i = j then None else find (\<lambda>v. fv_id v = i) vs)" for vs
    by (induction vs) auto
  from this [of "fd_vms db"] show ?thesis unfolding get_fvm_def delete_fvm_def by simp
qed

lemma get_on_host: "get_fvm i (on_host n f db) = get_fvm i db"
  by (simp add: get_fvm_def on_host_def)

fun row_effect :: "int \<Rightarrow> FleetStmt \<Rightarrow> string \<Rightarrow> FleetVm option \<Rightarrow> FleetVm option" where
  "row_effect now (SetVmHost j h) i v = (if i = j then map_option (\<lambda>v. v\<lparr>fv_host := h, fv_updated_at := now\<rparr>) v else v)"
| "row_effect now (SetVmView j w) i v =
     (if i = j then map_option (\<lambda>v. v\<lparr>fv_view := Some w,
        fv_host_state := coalesce (as_str (json_index w ''state'')) (fv_host_state v), fv_updated_at := now\<rparr>) v else v)"
| "row_effect now (SetVmState j s hs e) i v =
     (if i = j then map_option (\<lambda>v. v\<lparr>fv_state := s, fv_host_state := coalesce hs (fv_host_state v),
        fv_last_error := e, fv_updated_at := now\<rparr>) v else v)"
| "row_effect now (DeleteFVm j) i v = (if i = j then None else v)"
| "row_effect now _ i v = v"

fun is_insert :: "FleetStmt \<Rightarrow> bool" where
  "is_insert (InsertFVm _ _ _ _ _) = True"
| "is_insert _ = False"

text \<open>Row by row, what a statement that is no insert does.\<close>

lemma fleet_exec_row:
  assumes "\<not> is_insert s"
  shows "\<exists>db'. fleet_exec now s db = Some db' \<and> (\<forall>i. get_fvm i db' = row_effect now s i (get_fvm i db))"
  using assms
  by (cases s) (auto simp: host_seen_def host_unreachable_def host_orphans_def host_took_slot_def
      host_freed_slot_def set_vm_host_def set_vm_view_def set_vm_state_def get_on_host get_on_fvm get_delete_fvm)

lemma falone_ignored:
  assumes "falone (stmt_ignored s p) db tr db' x" and "\<not> is_insert s"
  obtains now db1 tr' where "tr = EStmt s True # tr'" and "falone p db1 tr' db' x"
    and "\<And>i. get_fvm i db1 = row_effect now s i (get_fvm i db)"
proof -
  from assms(1) obtain now tr' where
    "case fleet_exec now s db of
        Some db1 \<Rightarrow> tr = EStmt s True # tr' \<and> falone p db1 tr' db' x
      | None \<Rightarrow> tr = EStmt s False # tr' \<and> falone p db tr' db' x"
    by (auto simp: stmt_ignored_def)
  with fleet_exec_row [OF assms(2), of now db] that show thesis by auto
qed

definition confirmed :: "string \<Rightarrow> FEvent list \<Rightarrow> string \<Rightarrow> bool" where
  "confirmed host tr i \<longleftrightarrow> (\<exists>s. EDelete host i (Ok s) \<in> set tr \<and> (is_success s \<or> s = 404))"

text \<open>
  What becomes of a VM whose row was \<open>r\<close> when the sync read it: \<open>cur\<close> its row when the sync
  came to it, \<open>fin\<close> its row afterwards, \<open>has\<close> what the host reports, \<open>conf\<close> whether it confirmed
  a deletion, \<open>clk\<close> the readings of the clock.
\<close>

definition settled ::
  "Fleet \<Rightarrow> (string \<times> Json) list \<Rightarrow> bool \<Rightarrow> u64 set \<Rightarrow> FleetVm \<Rightarrow> FleetVm option \<Rightarrow> FleetVm option \<Rightarrow> bool" where
  "settled F has conf clk r cur fin \<longleftrightarrow>
     (case map_of has (fv_id r) of
        Some v \<Rightarrow>
          if fv_state r = st_deleting then fin = (if conf then None else cur)
          else \<exists>now. fin = map_option (\<lambda>w. w\<lparr>fv_view := Some v,
                 fv_host_state := coalesce (as_str (json_index v ''state'')) (fv_host_state w),
                 fv_state := st_placed, fv_last_error := None, fv_updated_at := now\<rparr>) cur
      | None \<Rightarrow>
          if fv_state r = st_deleting then fin = None
          else if fv_state r = st_creating then
            \<exists>n \<in> clk.
              if uint n - fv_created_at r < fl_create_grace F then fin = cur
              else \<exists>now. fin = map_option (\<lambda>w. w\<lparr>fv_state := st_failed,
                fv_last_error := Some ''host never reported it'', fv_updated_at := now\<rparr>) cur
          else if fv_state r = st_lost \<or> fv_state r = st_failed then fin = cur
          else \<exists>now. fin = map_option (\<lambda>w. w\<lparr>fv_state := st_lost,
              fv_last_error := Some ''host no longer has it'', fv_updated_at := now\<rparr>) cur)"

definition clocks :: "FEvent list \<Rightarrow> u64 set" where
  "clocks tr = {n. ENow n \<in> set tr}"

lemma clocks_simps [simp]:
  "clocks (ENow n # tr) = insert n (clocks tr)"
  "clocks (t1 @ t2) = clocks t1 \<union> clocks t2"
  by (auto simp: clocks_def)

lemma settled_mono: "settled F has conf A r cur fin \<Longrightarrow> A \<subseteq> B \<Longrightarrow> settled F has conf B r cur fin"
  by (auto simp: settled_def split: option.splits if_splits)

definition delete_asks :: "FEvent list \<Rightarrow> string set" where
  "delete_asks tr = {i. \<exists>h rep. EDelete h i rep \<in> set tr}"

lemma delete_asks_simps [simp]:
  "delete_asks [] = {}"
  "delete_asks (EDelete h i rep # tr) = insert i (delete_asks tr)"
  "delete_asks (EStmt s ok # tr) = delete_asks tr"
  "delete_asks (ENow n # tr) = delete_asks tr"
  "delete_asks (ERead d # tr) = delete_asks tr"
  "delete_asks (EGet h p g # tr) = delete_asks tr"
  "delete_asks (EForward h m p b r' # tr) = delete_asks tr"
  "delete_asks (t1 @ t2) = delete_asks t1 \<union> delete_asks t2"
  by (auto simp: delete_asks_def)

lemma confirmed_simps [simp]:
  "\<not> confirmed host [] i"
  "confirmed host (EStmt s ok # tr) i = confirmed host tr i"
  "confirmed host (ENow n # tr) i = confirmed host tr i"
  "confirmed host (EForward h m p b r' # tr) i = confirmed host tr i"
  "confirmed host (EDelete h j rep # tr) i \<longleftrightarrow>
     (h = host \<and> j = i \<and> (\<exists>s. rep = Ok s \<and> (is_success s \<or> s = 404))) \<or> confirmed host tr i"
  by (auto simp: confirmed_def)

lemma not_asked_confirmed: "i \<notin> delete_asks tr \<Longrightarrow> \<not> confirmed host tr i"
  by (auto simp: confirmed_def delete_asks_def)

text \<open>
  One row's turn: a run goes on from tables that agree with the old ones on every other row,
  after events that ask a host to delete no other VM.
\<close>

definition turn ::
  "Fleet \<Rightarrow> string \<Rightarrow> (string \<times> Json) list \<Rightarrow> FleetVm \<Rightarrow> unit fprog \<Rightarrow> FleetDb \<Rightarrow> FEvent list \<Rightarrow> FleetDb \<Rightarrow> bool" where
  "turn F host has r rest db tr db' \<longleftrightarrow>
     (\<exists>db1 tr1 tr'. falone rest db1 tr' db' () \<and> tr = tr1 @ tr' \<and> delete_asks tr1 \<subseteq> {fv_id r} \<and>
       (\<forall>i. i \<noteq> fv_id r \<longrightarrow> get_fvm i db1 = get_fvm i db) \<and>
       settled F has (confirmed host tr1 (fv_id r)) (clocks tr1) r (get_fvm (fv_id r) db) (get_fvm (fv_id r) db1))"

lemma turnI:
  assumes "falone rest db1 tr' db' ()" and "tr = tr1 @ tr'" and "delete_asks tr1 \<subseteq> {fv_id r}"
    and "\<And>i. i \<noteq> fv_id r \<Longrightarrow> get_fvm i db1 = get_fvm i db"
    and "settled F has (confirmed host tr1 (fv_id r)) (clocks tr1) r (get_fvm (fv_id r) db) (get_fvm (fv_id r) db1)"
  shows "turn F host has r rest db tr db'"
  using assms unfolding turn_def by blast

lemma turn_delete:
  assumes "map_of has (fv_id r) = Some v" and "fv_state r = st_deleting"
    and "falone (HDelete host (fv_id r) (\<lambda>reply. case reply of
        Inr s \<Rightarrow> if is_success s \<or> s = 404 then
          stmt_ignored (DeleteFVm (fv_id r)) (stmt_ignored (HostFreedSlot host) rest) else rest
      | Inl _ \<Rightarrow> rest)) db tr db' ()"
  shows "turn F host has r rest db tr db'"
proof -
  from assms(3) obtain rep tr2 where tr: "tr = EDelete host (fv_id r) rep # tr2"
    and run: "falone (case rep of Inr s \<Rightarrow> if is_success s \<or> s = 404 then
        stmt_ignored (DeleteFVm (fv_id r)) (stmt_ignored (HostFreedSlot host) rest) else rest
      | Inl _ \<Rightarrow> rest) db tr2 db' ()"
    by auto
  show ?thesis
  proof (cases "\<exists>s. rep = Ok s \<and> (is_success s \<or> s = 404)")
    case True
    then have "falone (stmt_ignored (DeleteFVm (fv_id r)) (stmt_ignored (HostFreedSlot host) rest)) db tr2 db' ()"
      using run by auto
    then obtain t1 db1 tr3 where 1: "tr2 = EStmt (DeleteFVm (fv_id r)) True # tr3"
      "falone (stmt_ignored (HostFreedSlot host) rest) db1 tr3 db' ()"
      "\<And>i. get_fvm i db1 = row_effect t1 (DeleteFVm (fv_id r)) i (get_fvm i db)"
      by (rule falone_ignored) (simp, blast)
    from 1(2) obtain t2 db2 tr4 where 2: "tr3 = EStmt (HostFreedSlot host) True # tr4" "falone rest db2 tr4 db' ()"
      "\<And>i. get_fvm i db2 = row_effect t2 (HostFreedSlot host) i (get_fvm i db1)"
      by (rule falone_ignored) (simp, blast)
    have "tr = [EDelete host (fv_id r) rep, EStmt (DeleteFVm (fv_id r)) True, EStmt (HostFreedSlot host) True] @ tr4"
      by (simp add: tr 1 2)
    then show ?thesis
      by (rule turnI [OF 2(2)]) (use True assms in \<open>auto simp: 1 2 settled_def\<close>)
  next
    case False
    then have "falone rest db tr2 db' ()" using run by (auto split: sum.splits if_splits)
    moreover have "tr = [EDelete host (fv_id r) rep] @ tr2" by (simp add: tr)
    ultimately show ?thesis
      by (rule turnI) (use False assms in \<open>auto simp: settled_def\<close>)
  qed
qed

lemma falone_renew:
  assumes "falone (case own_claims K F v of
      Some c \<Rightarrow> FNow (\<lambda>now. if due F now c then refresh_signature K F host c rest else rest)
    | None \<Rightarrow> rest) db tr db' x"
  obtains tr1 tr' where "tr = tr1 @ tr'" and "falone rest db tr' db' x" and "delete_asks tr1 = {}"
proof (cases "own_claims K F v")
  case None
  then show thesis using that [of "[]"] assms by simp
next
  case (Some c)
  then obtain n tr2 where tr: "tr = ENow n # tr2"
    and run: "falone (if due F n c then refresh_signature K F host c rest else rest) db tr2 db' x"
    using assms by auto
  show thesis
  proof (cases "due F n c")
    case True
    then show thesis
      using run that [of "ENow n # ENow _ # [EForward _ _ _ _ _]"] by (fastforce simp: refresh_signature_def tr)
  next
    case False
    then show thesis using run that [of "[ENow n]"] by (simp add: tr)
  qed
qed

lemma turn_placed:
  assumes "map_of has (fv_id r) = Some v" and "fv_state r \<noteq> st_deleting"
    and "falone (stmt_ignored (SetVmView (fv_id r) v) (stmt_ignored (SetVmState (fv_id r) st_placed None None)
      (case own_claims K F v of
         Some c \<Rightarrow> FNow (\<lambda>now. if due F now c then refresh_signature K F host c rest else rest)
       | None \<Rightarrow> rest))) db tr db' ()"
  shows "turn F host has r rest db tr db'"
proof -
  let ?renew = "case own_claims K F v of
         Some c \<Rightarrow> FNow (\<lambda>now. if due F now c then refresh_signature K F host c rest else rest)
       | None \<Rightarrow> rest"
  from assms(3) obtain t1 db1 tr1 where 1: "tr = EStmt (SetVmView (fv_id r) v) True # tr1"
    "falone (stmt_ignored (SetVmState (fv_id r) st_placed None None) ?renew) db1 tr1 db' ()"
    "\<And>i. get_fvm i db1 = row_effect t1 (SetVmView (fv_id r) v) i (get_fvm i db)"
    by (rule falone_ignored) (simp, blast)
  from 1(2) obtain t2 db2 tr2 where 2: "tr1 = EStmt (SetVmState (fv_id r) st_placed None None) True # tr2"
    "falone ?renew db2 tr2 db' ()"
    "\<And>i. get_fvm i db2 = row_effect t2 (SetVmState (fv_id r) st_placed None None) i (get_fvm i db1)"
    by (rule falone_ignored) (simp, blast)
  from 2(2) obtain tr3 tr4 where 3: "tr2 = tr3 @ tr4" "falone rest db2 tr4 db' ()" "delete_asks tr3 = {}"
    by (rule falone_renew)
  have "tr = (EStmt (SetVmView (fv_id r) v) True # EStmt (SetVmState (fv_id r) st_placed None None) True # tr3) @ tr4"
    by (simp add: 1 2 3)
  then show ?thesis
    by (rule turnI [OF 3(2)])
      (use assms 3(3) in \<open>auto simp: 1 2 settled_def option.map_comp comp_def intro!: exI [of _ t2]\<close>)
qed

lemma turn_stmt:
  assumes "falone (stmt_ignored s rest) db tr db' ()" and "\<not> is_insert s" and "delete_asks pre = {}"
    and "\<And>now i. i \<noteq> fv_id r \<Longrightarrow> row_effect now s i (get_fvm i db) = get_fvm i db"
    and "\<And>now. settled F has False (clocks pre) r (get_fvm (fv_id r) db)
      (row_effect now s (fv_id r) (get_fvm (fv_id r) db))"
  shows "turn F host has r rest db (pre @ tr) db'"
proof -
  from assms(1,2) obtain t1 db1 tr1 where 1: "tr = EStmt s True # tr1" "falone rest db1 tr1 db' ()"
    "\<And>i. get_fvm i db1 = row_effect t1 s i (get_fvm i db)"
    by (rule falone_ignored) blast
  have "settled F has (confirmed host (pre @ [EStmt s True]) (fv_id r)) (clocks (pre @ [EStmt s True])) r
      (get_fvm (fv_id r) db) (get_fvm (fv_id r) db1)"
    using assms(3,5) not_asked_confirmed [of "fv_id r" "pre @ [EStmt s True]" host]
    by (auto simp: 1 clocks_def intro: settled_mono)
  moreover have "pre @ tr = (pre @ [EStmt s True]) @ tr1" by (simp add: 1)
  ultimately show ?thesis by (intro turnI [OF 1(2)]) (use assms in \<open>auto simp: 1\<close>)
qed

lemma turn_none:
  assumes "falone rest db tr db' ()" and "delete_asks pre = {}"
    and "settled F has False (clocks pre) r (get_fvm (fv_id r) db) (get_fvm (fv_id r) db)"
  shows "turn F host has r rest db (pre @ tr) db'"
  by (rule turnI [OF assms(1), of _ pre]) (use assms not_asked_confirmed in auto)

text \<open>The turn of the first row of a sync.\<close>

lemma sync_turn:
  assumes "falone (sync_rows K F host has (r # rows) known k) db tr db' ()"
  shows "\<exists>known'. turn F host has r (sync_rows K F host has rows known' k) db tr db'"
proof (cases "map_of has (fv_id r)")
  case (Some v)
  show ?thesis
  proof (cases "fv_state r = st_deleting")
    case True
    with Some assms show ?thesis by (auto simp: Let_def intro!: turn_delete [where v = v])
  next
    case False
    with Some assms show ?thesis
      by (auto simp: Let_def intro!: turn_placed [where v = v and K = K])
  qed
next
  case None
  consider "fv_state r = st_deleting" | "fv_state r = st_creating" | "fv_state r = st_lost \<or> fv_state r = st_failed"
    | "fv_state r \<notin> {st_deleting, st_creating, st_lost, st_failed}" by blast
  then show ?thesis
  proof cases
    case 1
    with None assms have "falone (stmt_ignored (DeleteFVm (fv_id r)) (sync_rows K F host has rows known k)) db tr db' ()"
      by (simp add: Let_def)
    then show ?thesis
      by (intro exI [of _ known]) (drule turn_stmt [where pre = "[]"]; use 1 None in \<open>simp add: settled_def\<close>)
  next
    case 2
    with None assms obtain n tr1 where tr: "tr = ENow n # tr1"
      and run: "falone (if uint n - fv_created_at r < fl_create_grace F then sync_rows K F host has rows known k
        else stmt_ignored (SetVmState (fv_id r) st_failed None (Some ''host never reported it''))
          (sync_rows K F host has rows known k)) db tr1 db' ()"
      by (auto simp: Let_def fleet_states)
    have "turn F host has r (sync_rows K F host has rows known k) db ([ENow n] @ tr1) db'"
    proof (cases "uint n - fv_created_at r < fl_create_grace F")
      case True
      with run 2 None show ?thesis by (intro turn_none) (auto simp: settled_def fleet_states)
    next
      case False
      with run 2 None show ?thesis by (intro turn_stmt) (auto simp: settled_def fleet_states)
    qed
    then show ?thesis using tr by auto
  next
    case 3
    with None assms have "falone (sync_rows K F host has rows known k) db tr db' ()"
      by (auto simp: Let_def fleet_states)
    then show ?thesis
      by (intro exI [of _ known]) (drule turn_none [where pre = "[]"]; use 3 None in \<open>auto simp: settled_def fleet_states\<close>)
  next
    case 4
    with None assms have "falone (stmt_ignored (SetVmState (fv_id r) st_lost None (Some ''host no longer has it''))
        (sync_rows K F host has rows known k)) db tr db' ()"
      by (simp add: Let_def)
    then show ?thesis
      by (intro exI [of _ known]) (drule turn_stmt [where pre = "[]"]; use 4 None in \<open>auto simp: settled_def\<close>)
  qed
qed

lemma settled_frame:
  assumes "settled F has (confirmed host t1 (fv_id r)) (clocks t1) r cur fin" and "tr = t0 @ t1 @ t2"
    and "fv_id r \<notin> delete_asks t0" and "fv_id r \<notin> delete_asks t2"
  shows "settled F has (confirmed host tr (fv_id r)) (clocks tr) r cur fin"
proof -
  have "confirmed host tr (fv_id r) = confirmed host t1 (fv_id r)"
    using assms(2-4) not_asked_confirmed by (auto simp: confirmed_def delete_asks_def)
  then show ?thesis using assms by (auto elim: settled_mono)
qed

lemma sync_rows_settle:
  assumes "falone (sync_rows K F host has rows known k) db tr db' ()" and "distinct (map fv_id rows)"
  shows "\<exists>known' db1 tr1 tr2. falone (k known') db1 tr2 db' () \<and> tr = tr1 @ tr2 \<and>
    delete_asks tr1 \<subseteq> fv_id ` set rows \<and> (\<forall>i. i \<notin> fv_id ` set rows \<longrightarrow> get_fvm i db1 = get_fvm i db) \<and>
    (\<forall>r \<in> set rows. settled F has (confirmed host tr1 (fv_id r)) (clocks tr1) r
      (get_fvm (fv_id r) db) (get_fvm (fv_id r) db1))"
  using assms
proof (induction rows arbitrary: known db tr)
  case Nil
  then show ?case by (intro exI [of _ known] exI [of _ db] exI [of _ "[]"] exI [of _ tr]) auto
next
  case (Cons r rows)
  from sync_turn [OF Cons.prems(1)] obtain known1 db1 t1 tr1
    where 1: "falone (sync_rows K F host has rows known1 k) db1 tr1 db' ()" "tr = t1 @ tr1" "delete_asks t1 \<subseteq> {fv_id r}"
      "\<forall>i. i \<noteq> fv_id r \<longrightarrow> get_fvm i db1 = get_fvm i db"
      "settled F has (confirmed host t1 (fv_id r)) (clocks t1) r (get_fvm (fv_id r) db) (get_fvm (fv_id r) db1)"
    unfolding turn_def by blast
  from Cons.IH [OF 1(1)] Cons.prems(2) obtain known2 db2 t2 tr2
    where 2: "falone (k known2) db2 tr2 db' ()" "tr1 = t2 @ tr2" "delete_asks t2 \<subseteq> fv_id ` set rows"
      "\<forall>i. i \<notin> fv_id ` set rows \<longrightarrow> get_fvm i db2 = get_fvm i db1"
      "\<forall>q \<in> set rows. settled F has (confirmed host t2 (fv_id q)) (clocks t2) q (get_fvm (fv_id q) db1) (get_fvm (fv_id q) db2)"
    by auto
  have r: "fv_id r \<notin> fv_id ` set rows" using Cons.prems(2) by simp
  have "settled F has (confirmed host (t1 @ t2) (fv_id r)) (clocks (t1 @ t2)) r (get_fvm (fv_id r) db) (get_fvm (fv_id r) db2)"
    using settled_frame [OF 1(5), of "t1 @ t2" "[]" t2] 2(3,4) r by auto
  moreover have "settled F has (confirmed host (t1 @ t2) (fv_id q)) (clocks (t1 @ t2)) q (get_fvm (fv_id q) db) (get_fvm (fv_id q) db2)"
    if "q \<in> set rows" for q
  proof -
    have "fv_id q \<noteq> fv_id r" using r that by (metis imageI)
    then have "settled F has (confirmed host t2 (fv_id q)) (clocks t2) q (get_fvm (fv_id q) db) (get_fvm (fv_id q) db2)"
      using 1(4) 2(5) that by metis
    from settled_frame [OF this, of "t1 @ t2" t1 "[]"] show ?thesis using 1(3) \<open>fv_id q \<noteq> fv_id r\<close> by auto
  qed
  ultimately show ?case
    using 1 2 by (intro exI [of _ known2] exI [of _ db2] exI [of _ "t1 @ t2"] exI [of _ tr2]) auto
qed

lemma get_fvm_row:
  assumes "distinct (map fv_id (fd_vms db))" and "v \<in> set (fd_vms db)"
  shows "get_fvm (fv_id v) db = Some v"
proof -
  have "distinct (map fv_id vs) \<Longrightarrow> v \<in> set vs \<Longrightarrow> find (\<lambda>w. fv_id w = fv_id v) vs = Some v" for vs
    by (induction vs) auto
  with assms show ?thesis by (simp add: get_fvm_def)
qed

lemma mark_unreachable_rows:
  assumes "falone (mark_unreachable why rows) db tr db' ()" and "distinct (map fv_id rows)"
  shows "(\<forall>i. i \<notin> fv_id ` {r \<in> set rows. active r} \<longrightarrow> get_fvm i db' = get_fvm i db) \<and>
    (\<forall>r \<in> set rows. active r \<longrightarrow> (\<exists>now. get_fvm (fv_id r) db' =
      map_option (\<lambda>v. v\<lparr>fv_state := st_unreachable, fv_last_error := Some why, fv_updated_at := now\<rparr>) (get_fvm (fv_id r) db)))"
  using assms
proof (induction rows arbitrary: db tr)
  case (Cons r rows)
  show ?case
  proof (cases "active r")
    case True
    with Cons.prems(1) have "falone (stmt_ignored (SetVmState (fv_id r) st_unreachable None (Some why)) (mark_unreachable why rows)) db tr db' ()"
      by simp
    then obtain n db1 tr1 where 1: "falone (mark_unreachable why rows) db1 tr1 db' ()"
      "\<And>i. get_fvm i db1 = row_effect n (SetVmState (fv_id r) st_unreachable None (Some why)) i (get_fvm i db)"
      by (rule falone_ignored) (simp, blast)
    have r: "fv_id r \<notin> fv_id ` set rows" using Cons.prems(2) by simp
    have "(\<forall>i. i \<notin> fv_id ` {r \<in> set rows. active r} \<longrightarrow> get_fvm i db' = get_fvm i db1) \<and>
      (\<forall>r \<in> set rows. active r \<longrightarrow> (\<exists>now. get_fvm (fv_id r) db' =
        map_option (\<lambda>v. v\<lparr>fv_state := st_unreachable, fv_last_error := Some why, fv_updated_at := now\<rparr>) (get_fvm (fv_id r) db1)))"
      using Cons.IH [OF 1(1)] Cons.prems(2) by simp
    moreover have "get_fvm (fv_id r) db1 = map_option (\<lambda>v. v\<lparr>fv_state := st_unreachable,
        fv_last_error := Some why, fv_updated_at := n\<rparr>) (get_fvm (fv_id r) db)"
      and "\<And>i. i \<noteq> fv_id r \<Longrightarrow> get_fvm i db1 = get_fvm i db"
      by (simp_all add: 1(2))
    moreover have "fv_id r \<notin> fv_id ` {r \<in> set rows. active r}" "\<And>q. q \<in> set rows \<Longrightarrow> fv_id q \<noteq> fv_id r"
      using r by (auto simp: image_iff)
    ultimately show ?thesis using True by (auto simp: image_iff) metis
  next
    case False
    then have "{q \<in> set (r # rows). active q} = {q \<in> set rows. active q}" by auto
    with Cons False show ?thesis by simp
  qed
qed simp

text \<open>The answer to \<^verbatim>\<open>GET /vms\<close>, if the host gave one.\<close>

fun vms_answer :: "FEvent list \<Rightarrow> Json list option" where
  "vms_answer [] = None"
| "vms_answer (EGet h p (Inr v) # tr) =
     (if p = ''/vms'' then Some (listed_vms v) else vms_answer tr)"
| "vms_answer (_ # tr) = vms_answer tr"

lemma sync_failed_rows:
  assumes "falone (sync_failed host e) db tr db' ()" and "distinct (map fv_id (fd_vms db))" and "v \<in> set (fd_vms db)"
  shows "if fv_host v = host \<and> active v
    then \<exists>now. get_fvm (fv_id v) db' = Some (v\<lparr>fv_state := st_unreachable,
      fv_last_error := Some (call_error_display e), fv_updated_at := now\<rparr>)
    else get_fvm (fv_id v) db' = Some v"
proof -
  from assms(1) obtain n db1 tr1 where 1: "db1 = host_unreachable host (call_error_display e) db"
    "falone (mark_unreachable (call_error_display e) (list_vms_on host db1)) db1 tr1 db' ()"
    by (auto simp: sync_failed_def stmt_ignored_def)
  have vms: "fd_vms db1 = fd_vms db" by (simp add: 1 host_unreachable_def on_host_def)
  have "distinct (map fv_id (list_vms_on host db1))"
    using assms(2) by (simp add: list_vms_on_def vms distinct_map_filter)
  note rows = mark_unreachable_rows [OF 1(2) this]
  have "get_fvm (fv_id v) db1 = Some v" using get_fvm_row [of db1] assms vms by simp
  moreover have "fv_host v = host \<and> active v" if "fv_id v \<in> fv_id ` {r \<in> set (list_vms_on host db1). active r}"
    using that assms(2,3) by (auto simp: list_vms_on_def vms distinct_map dest: inj_onD)
  moreover have "v \<in> set (list_vms_on host db1)" if "fv_host v = host"
    using that assms(3) by (simp add: list_vms_on_def vms)
  ultimately show ?thesis using rows by (cases "fv_host v = host \<and> active v") (force, metis)
qed

lemma mark_unreachable_asks: "falone (mark_unreachable why rows) db tr db' () \<Longrightarrow> vms_answer tr = None"
  by (induction why rows arbitrary: db tr rule: mark_unreachable.induct)
    (fastforce simp: stmt_ignored_def split: if_splits option.splits)+

lemma sync_failed_asks: "falone (sync_failed host e) db tr db' () \<Longrightarrow> vms_answer tr = None"
  by (auto simp: sync_failed_def stmt_ignored_def mark_unreachable_asks)

lemma sync_seen_rows:
  assumes "falone (sync_seen K F host stats templates vms) db tr db' ()"
    and "distinct (map fv_id (fd_vms db))" and "v \<in> set (fd_vms db)"
  shows "if fv_host v \<noteq> host then get_fvm (fv_id v) db' = Some v
    else settled F (reported vms) (confirmed host tr (fv_id v)) (clocks tr) v (Some v) (get_fvm (fv_id v) db')"
proof -
  let ?has = "reported vms"
  from assms(1) obtain now f n p m db1 tr1 where 1: "db1 = host_seen now host f n p m templates db"
    "tr = EStmt (HostSeen host f n p m templates) True # ERead (Some db1) # tr1"
    "falone (sync_rows K F host ?has (list_vms_on host db1) 0 (\<lambda>known.
        stmt_ignored (HostOrphans host ((length ?has - known) mod 2 ^ 32)) (FRet ()))) db1 tr1 db' ()"
    by (auto simp: sync_seen_def Let_def stmt_ignored_def)
  have vms: "fd_vms db1 = fd_vms db" by (simp add: 1 host_seen_def on_host_def)
  have "distinct (map fv_id (list_vms_on host db1))"
    using assms(2) by (simp add: list_vms_on_def vms distinct_map_filter)
  from sync_rows_settle [OF 1(3) this] obtain known db2 t1 t2
    where 2: "falone (stmt_ignored (HostOrphans host ((length ?has - known) mod 2 ^ 32)) (FRet ())) db2 t2 db' ()" "tr1 = t1 @ t2"
      "\<forall>i. i \<notin> fv_id ` set (list_vms_on host db1) \<longrightarrow> get_fvm i db2 = get_fvm i db1"
      "\<forall>r \<in> set (list_vms_on host db1). settled F ?has (confirmed host t1 (fv_id r)) (clocks t1) r
        (get_fvm (fv_id r) db1) (get_fvm (fv_id r) db2)"
    by blast
  have fin: "get_fvm i db' = get_fvm i db2" "delete_asks t2 = {}" for i
    using 2(1) by (auto simp: stmt_ignored_def host_orphans_def get_on_host)
  have v: "get_fvm (fv_id v) db1 = Some v" using get_fvm_row [of db1] assms vms by simp
  show ?thesis
  proof (cases "fv_host v = host")
    case True
    then have "settled F ?has (confirmed host t1 (fv_id v)) (clocks t1) v (Some v) (get_fvm (fv_id v) db')"
      using bspec [OF 2(4), of v] v assms(3) by (simp add: list_vms_on_def vms fin)
    from settled_frame [OF this, of tr "[EStmt (HostSeen host f n p m templates) True, ERead (Some db1)]" t2] True show ?thesis
      by (simp add: 1 2 fin)
  next
    case False
    then have "fv_id v \<notin> fv_id ` set (list_vms_on host db1)"
      using assms(2,3) by (auto simp: list_vms_on_def vms distinct_map dest: inj_onD)
    with False show ?thesis by (simp add: fin 2(3) v)
  qed
qed

lemma ask_cases:
  assumes "falone (ask host path k) db tr db' ()"
  obtains e tr1 where "tr = EGet host path (Err e) # tr1" and "falone (sync_failed host e) db tr1 db' ()"
    | x tr1 where "tr = EGet host path (Ok x) # tr1" and "falone (k x) db tr1 db' ()"
proof -
  from assms obtain r tr1 where "tr = EGet host path r # tr1"
    and "falone (case r of Inl e \<Rightarrow> sync_failed host e | Inr x \<Rightarrow> k x) db tr1 db' ()"
    by (auto simp: ask_def)
  with that show thesis by (cases r) auto
qed

text \<open>C20: one pass of the sync loop over a host, alone on the tables. A VM of another host is untouched.
  Where the host told what it has, each of its VMs is settled: one it has is placed with the
  host's record, or, if it was being deleted, gone once the host confirmed and kept as it was
  otherwise; one it has not is gone if it was being deleted, failed if it was being created and
  the grace is over, lost otherwise. Where the host did not, what was placed or being created is unreachable
  and nothing else changes.\<close>

theorem sync_settles:
  assumes "distinct (map fv_id (fd_vms db))" and "v \<in> set (fd_vms db)"
    and "falone (sync_host K F host) db tr db' ()"
  shows "if fv_host v \<noteq> host then get_fvm (fv_id v) db' = Some v
    else case vms_answer tr of
      Some vms \<Rightarrow> settled F (reported vms) (confirmed host tr (fv_id v)) (clocks tr) v (Some v) (get_fvm (fv_id v) db')
    | None \<Rightarrow>
        if active v then \<exists>now e. get_fvm (fv_id v) db' = Some (v\<lparr>fv_state := st_unreachable,
          fv_last_error := Some (call_error_display e), fv_updated_at := now\<rparr>)
        else get_fvm (fv_id v) db' = Some v"
proof -
  have failed: ?thesis if "falone (sync_failed host e) db tr1 db' ()" and "vms_answer tr = vms_answer tr1" for e tr1
    using sync_failed_rows [OF that(1) assms(1,2)] sync_failed_asks [OF that(1)] that(2) by (auto split: if_splits)
  have seen: ?thesis if "falone (sync_seen K F host stats templates vms) db tr1 db' ()"
    and "vms_answer tr = Some vms" and "tr = pre @ tr1" and "delete_asks pre = {}" for stats templates vms tr1 pre
    using sync_seen_rows [OF that(1) assms(1,2)] that(2,4) settled_frame [of F "reported vms" host tr1 v _ _ tr pre "[]"]
    by (auto simp: that(3))
  from assms(3) [unfolded sync_host_def] show ?thesis
  proof (cases rule: ask_cases)
    case (1 e tr1)
    then show ?thesis by (intro failed [of e tr1]) simp_all
  next
    case stats: (2 stats tr1)
    from stats(2) show ?thesis
    proof (cases rule: ask_cases)
      case (1 e tr2)
      with stats show ?thesis by (intro failed [of e tr2]) simp_all
    next
      case templates: (2 templates tr2)
      from templates(2) show ?thesis
      proof (cases rule: ask_cases)
        case (1 e tr3)
        with stats templates show ?thesis by (intro failed [of e tr3]) simp_all
      next
        case (2 vms tr3)
        from 2(2) show ?thesis
          by (rule seen [of _ _ _ _ "[EGet host ''/stats'' (Ok stats), EGet host ''/templates'' (Ok templates),
            EGet host ''/vms'' (Ok vms)]"]) (simp_all add: stats templates 2)
      qed
    qed
  qed
qed

section \<open>Properties\<close>

text \<open>C14: a create never makes two VMs. Of the hosts it asks, none but the last can have made it;
  the record was there before the first was asked; and where a host may have it, the record
  names that host and is not deleted. An answer of success names the host that made it.\<close>

theorem create_places_once:
  assumes "ftrace (create rnd K F fresh body) tr r"
  shows "(\<forall>c \<in> set (butlast (creates tr)). \<not> may_have (snd c)) \<and>
    (creates tr \<noteq> [] \<longrightarrow> (\<exists>db h t l s. take 2 tr = [ERead (Some db), EStmt (InsertFVm (vmid_display fresh) h t l s) True])) \<and>
    (\<forall>c \<in> set (creates tr). may_have (snd c) \<longrightarrow>
      record_host (vmid_display fresh) tr None = Some (fst c) \<and> \<not> deletes (vmid_display fresh) tr) \<and>
    (\<forall>vm host. r = Ok (vm, host) \<longrightarrow> (\<exists>rep. creates tr \<noteq> [] \<and> last (creates tr) = (host, rep) \<and> may_have rep))"
proof -
  have "one_host (vmid_display fresh) tr r None"
    using create_one_host assms by (auto simp: keeps_one_def)
  moreover have "\<exists>db h t l s. take 2 tr = [ERead (Some db), EStmt (InsertFVm (vmid_display fresh) h t l s) True]"
    if asked: "creates tr \<noteq> []"
    by (rule create_asks [OF assms asked]) simp
  ultimately show ?thesis by (auto simp: one_host_def)
qed

text \<open>C19: from a create to the tier. What is sent to each host carries a signature with which the
  tier serves the VM's streams from that host's edge, from no other edge, until it
  expires, under exactly the egress mode, principal and effective rules the client gave.\<close>

theorem created_policy_served:
  assumes b64: "\<forall>s. b64_decode K (b64_encode K s) = Ok s"
    and json: "\<forall>c. claims_from_json K (claims_to_json K c) = Ok c"
    and own: "\<forall>m. ed_verify K (ed_public K (fl_key F)) m (ed_sign K (fl_key F) m)"
    and run: "ftrace (create rnd K F fresh body) tr r" and asked: "ECreate host b rep \<in> set tr"
  shows "\<exists>now sp rs. ENow now \<in> set tr \<and> json_lookup ''signed'' b = Some (json_of_signed sp) \<and>
    from_record (pf_allow (fields_from_create body)) (pf_rules (fields_from_create body)) = Ok rs \<and>
    (\<forall>t d edge name. wp_signed (de_policy d) = Some sp \<longrightarrow>
      accept_stream K t True (Some d) edge name (Some (ed_public K (fl_key F))) =
        (if now + fl_policy_ttl F \<le> t then Reply 403 ''policy does not verify''
         else if name \<noteq> host then Reply 403 ''policy is for another host''
         else if pf_egress (fields_from_create body) = ''deny'' then Reply 403 ''deny-mode vm''
         else Serve (case de_src d of Some s \<Rightarrow> s | None \<Rightarrow> edge)
           \<lparr>po_egress = pf_egress (fields_from_create body), po_principal = pf_principal (fields_from_create body),
            po_rules = rs, po_policy_gen = 1, po_vm = Some (vmid_display fresh), po_signed = Some sp\<rparr> (de_dst d)))"
proof -
  let ?f = "fields_from_create body" and ?i = "vmid_display fresh"
  have "creates tr \<noteq> []" using asked by (auto simp: creates_Nil_iff)
  then obtain db h t l s fs hosts why tr' where
    tr: "tr = ERead (Some db) # EStmt (InsertFVm ?i h t l s) True # tr'"
    and run': "ftrace (create_on K F (JObj fs) ?f ?i hosts why) tr' r"
    by (rule create_asks [OF run]) (rule that)
  have "ECreate host b rep \<in> set tr'" using asked tr by simp
  from create_on_signed [OF run' this] obtain now sp where sp: "fields_sign K F now host ?i 1 ?f = Ok sp"
      "ENow now \<in> set tr" "json_lookup ''signed'' b = Some (json_of_signed sp)"
    unfolding tr by auto
  from sp(1) obtain rs where rs: "from_record (pf_allow ?f) (pf_rules ?f) = Ok rs"
    and signed: "sp = sign K (fl_key F) \<lparr>pc_host = host, pc_vm = ?i, pc_egress = pf_egress ?f, pc_principal = pf_principal ?f,
      pc_rules = to_strings rs, pc_policy_gen = 1, pc_expires = now + fl_policy_ttl F\<rparr>" (is "_ = sign K _ ?c")
    by (auto simp: fields_sign_def sign_policy_def and_then_Inr_iff)
  have verify: "verify_at K (ed_public K (fl_key F)) sp t =
      (if pc_expires ?c \<le> t then Err (VE_Expired (t - pc_expires ?c)) else Ok ?c)" for t
    using b64 json own unfolding signed by (simp add: verify_at_def sign_def Let_def)
  show ?thesis
    by (intro exI [of _ now] exI [of _ sp] exI [of _ rs])
      (simp add: sp(2,3) rs accept_stream_def verify is_deny_mode_def policy_from_claims_def to_strings_parse [OF rs])
qed

text \<open>C21: a delete forgets a VM only when no host can have it. The record goes only if it was lost or
  failed, if its host is no longer configured, or if its host answered that it deleted it or
  has no such VM; no other record goes; only the VM's host is asked. Without an answer the
  record is kept as one to delete, and the reply says so.\<close>

theorem delete_forgets_only:
  assumes "ftrace (delete_one F i) tr r"
  shows "(\<forall>j ok. EStmt (DeleteFVm j) ok \<in> set tr \<longrightarrow> j = i \<and>
      (\<exists>db row. ERead (Some db) \<in> set tr \<and> get_fvm i db = Some row \<and>
        (fv_state row = st_lost \<or> fv_state row = st_failed \<or> fv_host row \<notin> set (fl_hosts F) \<or>
         EDelete (fv_host row) i (Ok 204) \<in> set tr \<or> EDelete (fv_host row) i (Ok 404) \<in> set tr))) \<and>
    (\<forall>h j rep. EDelete h j rep \<in> set tr \<longrightarrow> j = i \<and>
      (\<exists>db row. ERead (Some db) \<in> set tr \<and> get_fvm i db = Some row \<and> fv_host row = h) \<and>
      (\<forall>e. rep = Err e \<longrightarrow> (\<exists>ok. EStmt (SetVmState i st_deleting None (Some (call_error_display e))) ok \<in> set tr \<and>
        r = (if ok then Ok (Accepted h) else Err StoreFailed))))"
proof -
  from assms obtain dbo tr1 where tr: "tr = ERead dbo # tr1" by (auto simp: delete_one_def)
  show ?thesis
  proof (cases "Option.bind dbo (get_fvm i)")
    case None
    with assms tr show ?thesis by (cases dbo) (auto simp: delete_one_def)
  next
    case (Some row)
    then obtain db where db: "dbo = Some db" "get_fvm i db = Some row" by (auto simp: bind_eq_Some_conv)
    show ?thesis
    proof (cases "fv_state row = st_lost \<or> fv_state row = st_failed \<or> fv_host row \<notin> set (fl_hosts F)")
      case True
      then have "ftrace (stmt_q (DeleteFVm i) (FRet (Ok NoContent))) tr1 r"
        using assms by (auto simp: delete_one_def tr db split: if_splits)
      then obtain ok where "tr1 = [EStmt (DeleteFVm i) ok]" by (auto simp: stmt_q_def split: if_splits)
      with True db show ?thesis unfolding tr by simp
    next
      case False
      then have "ftrace (HDelete (fv_host row) i (\<lambda>rep. case rep of
          Inr s \<Rightarrow> if s = 204 \<or> s = 404 then
              stmt_q (DeleteFVm i) (stmt_ignored (HostFreedSlot (fv_host row)) (FRet (Ok NoContent)))
            else FRet (Err (HostRefused s (fv_host row) ''refused the delete''))
        | Inl e \<Rightarrow> stmt_q (SetVmState i st_deleting None (Some (call_error_display e)))
            (FRet (Ok (Accepted (fv_host row)))))) tr1 r"
        using assms by (simp add: delete_one_def tr db)
      then obtain rep tr2 where "tr1 = EDelete (fv_host row) i rep # tr2"
        "ftrace (case rep of Inr s \<Rightarrow> if s = 204 \<or> s = 404 then
            stmt_q (DeleteFVm i) (stmt_ignored (HostFreedSlot (fv_host row)) (FRet (Ok NoContent)))
          else FRet (Err (HostRefused s (fv_host row) ''refused the delete''))
        | Inl e \<Rightarrow> stmt_q (SetVmState i st_deleting None (Some (call_error_display e)))
            (FRet (Ok (Accepted (fv_host row))))) tr2 r"
        by simp blast
      then consider ok where "rep = Ok 204 \<or> rep = Ok 404" "tr1 = [EDelete (fv_host row) i rep, EStmt (DeleteFVm i) ok]"
        | ok where "rep = Ok 204 \<or> rep = Ok 404"
          "tr1 = [EDelete (fv_host row) i rep, EStmt (DeleteFVm i) True, EStmt (HostFreedSlot (fv_host row)) ok]"
        | s where "rep = Ok s" "tr1 = [EDelete (fv_host row) i rep]"
        | e ok where "rep = Err e" "r = (if ok then Ok (Accepted (fv_host row)) else Err StoreFailed)"
          "tr1 = [EDelete (fv_host row) i rep, EStmt (SetVmState i st_deleting None (Some (call_error_display e))) ok]"
        by (cases rep) (auto simp: stmt_q_def stmt_ignored_def split: if_splits)
      then show ?thesis using db unfolding tr by cases auto
    qed
  qed
qed

section \<open>Sample runs\<close>

text \<open>
  A codec with all the laws: a claim's document is the list of its fields, each character marked
  with a \<^verbatim>\<open>c\<close> and each field closed with a dot; numbers are unary; a signature repeats the message.
\<close>

fun enc_field :: "string \<Rightarrow> string" where
  "enc_field [] = ''.''"
| "enc_field (x # xs) = CHR ''c'' # x # enc_field xs"

fun dec_fields :: "string \<Rightarrow> string list" where
  "dec_fields [] = []"
| "dec_fields [k] = (if k = CHR ''c'' then [] else [[]])"
| "dec_fields (k # x # s) =
     (if k = CHR ''c'' then (case dec_fields s of [] \<Rightarrow> [[x]] | f # fs \<Rightarrow> (x # f) # fs) else [] # dec_fields (x # s))"

lemma dec_enc_field: "dec_fields (enc_field f @ s) = f # dec_fields s"
  by (induction f rule: enc_field.induct) (simp_all, cases s, simp_all)

lemma dec_enc_fields: "dec_fields (concat (map enc_field fs)) = fs"
  by (induction fs) (simp_all add: dec_enc_field)

definition claims_fields :: "PolicyClaims \<Rightarrow> string list" where
  "claims_fields c = [pc_host c, pc_vm c, pc_egress c, case pc_principal c of None \<Rightarrow> [] | Some p \<Rightarrow> CHR ''p'' # p,
     replicate (unat (pc_policy_gen c)) CHR ''1'', replicate (unat (pc_expires c)) CHR ''1''] @ pc_rules c"

fun fields_claims :: "string list \<Rightarrow> (string, PolicyClaims) result" where
  "fields_claims (host # vm # egress # princ # gen # expires # rules) =
     Ok \<lparr>pc_host = host, pc_vm = vm, pc_egress = egress, pc_principal = (case princ of [] \<Rightarrow> None | _ # p \<Rightarrow> Some p),
       pc_rules = rules, pc_policy_gen = of_nat (length gen), pc_expires = of_nat (length expires)\<rparr>"
| "fields_claims _ = Err ''fields''"

lemma fields_claims_fields: "fields_claims (claims_fields c) = Ok c"
  by (cases c) (simp add: claims_fields_def split: option.split)

definition field_codec :: Codec where
  "field_codec =
     \<lparr>b64_encode = (\<lambda>s. s), b64_decode = Ok, claims_to_json = (\<lambda>c. concat (map enc_field (claims_fields c))),
      claims_from_json = (\<lambda>s. fields_claims (dec_fields s)), ed_public = (\<lambda>key. key), ed_sign = (\<lambda>key m. key @ m),
      ed_verify = (\<lambda>public m sig. sig = public @ m)\<rparr>"

definition sample_fleet :: Fleet where
  "sample_fleet = \<lparr>fl_hosts = [''h1'', ''h2''], fl_key = ''k'', fl_policy_ttl = 100, fl_create_grace = 60\<rparr>"

definition sample_host :: "string \<Rightarrow> HostRow" where
  "sample_host name = \<lparr>fh_name = name, fh_url = [], fh_healthy = True, fh_last_seen = Some 1, fh_slots_free = 2,
     fh_slots_total = 4, fh_pool_data = 0, fh_pool_meta = 0, fh_templates = [''base''], fh_orphans = 0, fh_last_error = None\<rparr>"

definition sample_body :: Json where
  "sample_body = JObj [(''template'', JStr ''base''), (''egress'', JStr ''proxy'')]"

definition sample_fleet_db :: "FleetVm list \<Rightarrow> FleetDb" where
  "sample_fleet_db vms = \<lparr>fd_hosts = [sample_host ''h1''], fd_vms = vms\<rparr>"

text \<open>A create that gets no reply from the only host.\<close>

definition sample_sent :: "VmId \<Rightarrow> Json" where
  "sample_sent fresh = (let b = json_insert ''id'' (JStr (vmid_display fresh)) sample_body in
     json_insert ''signed'' (json_of_signed (sign field_codec ''k'' \<lparr>pc_host = ''h1'', pc_vm = vmid_display fresh,
       pc_egress = ''proxy'', pc_principal = None, pc_rules = [], pc_policy_gen = 1, pc_expires = 5 + 100\<rparr>)) b)"

definition sample_create_trace :: "VmId \<Rightarrow> FEvent list" where
  "sample_create_trace fresh =
     [ERead (Some (sample_fleet_db [])),
      EStmt (InsertFVm (vmid_display fresh) ''h1'' ''base'' (JObj []) (json_insert ''id'' (JStr (vmid_display fresh)) sample_body)) True,
      EStmt (SetVmHost (vmid_display fresh) ''h1'') True, ENow 5,
      ECreate ''h1'' (sample_sent fresh) (Err (Ambiguous ''timeout'')),
      EStmt (SetVmState (vmid_display fresh) st_creating None (Some ''timeout'')) True]"

lemma sample_create_run:
  "ftrace (create (\<lambda>x. x) field_codec sample_fleet fresh sample_body) (sample_create_trace fresh)
     (Err (NoReply ''h1'' ''timeout'' (vmid_display fresh)))"
proof -
  have fields: "fields_from_create sample_body = \<lparr>pf_egress = ''proxy'', pf_principal = None, pf_allow = [], pf_rules = []\<rparr>"
    by (simp add: fields_from_create_def sample_body_def json_index_def json_lookup_def known_egress_def strings_def)
  have cands: "candidates (\<lambda>x. x) (list_hosts (sample_fleet_db [])) ''base'' None = [sample_host ''h1'']"
    by (simp add: candidates_def list_hosts_def sample_fleet_db_def eligible_def sample_host_def)
  have body: "json_remove ''id'' (json_remove ''host'' sample_body) = sample_body"
    by (simp add: sample_body_def)
  have rules: "from_record [] [] = Ok \<lparr>rs_rules = []\<rparr>"
    by (simp add: from_record_def ruleset_parse_def ruleset_new_def from_allow_list_def)
  have lookups: "json_index sample_body ''template'' = JStr ''base''" "json_lookup ''host'' sample_body = None"
    "json_lookup ''labels'' sample_body = None"
    by (simp_all add: sample_body_def json_index_def json_lookup_def)
  show ?thesis
    by (simp add: create_def body fields cands lookups fields_check_def rules stmt_q_def sample_create_trace_def,
        simp add: sample_host_def sample_fleet_def fields_sign_def sign_policy_def rules to_strings_def
        sample_sent_def Let_def create_reply_def stmt_q_def, blast)
qed

theorem create_places_once_witness:
  "creates (sample_create_trace 0) = [(''h1'', Err (Ambiguous ''timeout''))] \<and>
   record_host (vmid_display 0) (sample_create_trace 0) None = Some ''h1'' \<and>
   \<not> deletes (vmid_display 0) (sample_create_trace 0)"
proof -
  have asked: "creates (sample_create_trace 0) = [(''h1'', Err (Ambiguous ''timeout''))]"
    by (simp add: sample_create_trace_def)
  with create_places_once [OF sample_create_run, of 0] show ?thesis by simp
qed

theorem created_policy_served_witness:
  "\<exists>sp p. json_lookup ''signed'' (sample_sent 0) = Some (json_of_signed sp) \<and>
     accept_stream field_codec 50 True (Some (sample_stream (Some sp) ''deny'')) (V4 1) ''h1'' (Some ''k'') =
       Serve (V4 1) p (de_dst (sample_stream (Some sp) ''deny'')) \<and> po_egress p = ''proxy'' \<and>
     accept_stream field_codec 50 True (Some (sample_stream (Some sp) ''deny'')) (V4 1) ''h2'' (Some ''k'') =
       Reply 403 ''policy is for another host''"
proof -
  have laws: "\<forall>s. b64_decode field_codec (b64_encode field_codec s) = Ok s"
    "\<forall>c. claims_from_json field_codec (claims_to_json field_codec c) = Ok c"
    "\<forall>m. ed_verify field_codec (ed_public field_codec (fl_key sample_fleet)) m (ed_sign field_codec (fl_key sample_fleet) m)"
    by (simp_all add: field_codec_def dec_enc_fields fields_claims_fields)
  have asked: "ECreate ''h1'' (sample_sent 0) (Err (Ambiguous ''timeout'')) \<in> set (sample_create_trace 0)"
    by (simp add: sample_create_trace_def)
  have key: "ed_public field_codec (fl_key sample_fleet) = ''k''" "fl_policy_ttl sample_fleet = 100"
    "pf_egress (fields_from_create sample_body) = ''proxy''"
    by (simp_all add: field_codec_def sample_fleet_def fields_from_create_def sample_body_def json_index_def
        json_lookup_def known_egress_def)
  from created_policy_served [OF laws sample_create_run asked] obtain now sp rs
    where now: "ENow now \<in> set (sample_create_trace 0)" and sp: "json_lookup ''signed'' (sample_sent 0) = Some (json_of_signed sp)"
      and served: "\<And>t d edge name. wp_signed (de_policy d) = Some sp \<Longrightarrow>
      accept_stream field_codec t True (Some d) edge name (Some ''k'') =
        (if now + 100 \<le> t then Reply 403 ''policy does not verify''
         else if name \<noteq> ''h1'' then Reply 403 ''policy is for another host''
         else if ''proxy'' = ''deny'' then Reply 403 ''deny-mode vm''
         else Serve (case de_src d of Some s \<Rightarrow> s | None \<Rightarrow> edge)
           \<lparr>po_egress = ''proxy'', po_principal = pf_principal (fields_from_create sample_body),
            po_rules = rs, po_policy_gen = 1, po_vm = Some (vmid_display 0), po_signed = Some sp\<rparr> (de_dst d))"
    unfolding key by metis
  have "now = 5" using now by (simp add: sample_create_trace_def)
  moreover have "wp_signed (de_policy (sample_stream (Some sp) ''deny'')) = Some sp" "de_src (sample_stream (Some sp) ''deny'') = None"
    by (simp_all add: sample_stream_def)
  ultimately show ?thesis using sp by (intro exI [of _ sp]) (simp add: served)
qed

definition sample_fvm :: "string \<Rightarrow> string \<Rightarrow> string \<Rightarrow> FleetVm" where
  "sample_fvm i host st = \<lparr>fv_id = i, fv_host = host, fv_template = ''base'', fv_state = st, fv_host_state = None,
     fv_created_at = 1, fv_updated_at = 1, fv_last_error = None, fv_labels = JObj [], fv_spec = JObj [], fv_view = None\<rparr>"

definition sample_delete_trace :: "FEvent list" where
  "sample_delete_trace = [ERead (Some (sample_fleet_db [sample_fvm ''v'' ''h1'' st_placed])),
     EDelete ''h1'' ''v'' (Err (Ambiguous ''x'')), EStmt (SetVmState ''v'' st_deleting None (Some ''no reply: x'')) True]"

theorem delete_forgets_only_witness:
  "\<not> deletes ''v'' sample_delete_trace \<and>
   (\<exists>db row. ERead (Some db) \<in> set sample_delete_trace \<and> get_fvm ''v'' db = Some row \<and> fv_host row = ''h1'')"
proof -
  have "ftrace (delete_one sample_fleet ''v'') sample_delete_trace (Ok (Accepted ''h1''))"
    by (simp add: delete_one_def sample_delete_trace_def get_fvm_def sample_fleet_db_def sample_fvm_def fleet_states
        sample_fleet_def stmt_q_def) blast
  from delete_forgets_only [OF this, THEN conjunct2, rule_format, of "''h1''" "''v''" "Err (Ambiguous ''x'')"] have
    "\<exists>db row. ERead (Some db) \<in> set sample_delete_trace \<and> get_fvm ''v'' db = Some row \<and> fv_host row = ''h1''"
    by (simp add: sample_delete_trace_def)
  then show ?thesis by (simp add: deletes_def sample_delete_trace_def)
qed

definition sample_sync_db :: FleetDb where
  "sample_sync_db = sample_fleet_db [sample_fvm ''v1'' ''h1'' st_deleting, sample_fvm ''v2'' ''h2'' st_placed]"

text \<open>A sync that retries a delete, which the host confirms.\<close>

definition sample_synced :: FleetDb where
  "sample_synced = host_orphans ''h1'' 0 (host_freed_slot ''h1'' (delete_fvm ''v1''
     (host_seen 9 ''h1'' 0 0 0 0 [] sample_sync_db)))"

definition sample_sync_trace :: "FEvent list" where
  "sample_sync_trace =
     [EGet ''h1'' ''/stats'' (Ok JNull), EGet ''h1'' ''/templates'' (Ok JNull),
      EGet ''h1'' ''/vms'' (Ok (JArr [JObj [(''id'', JStr ''v1'')]])), EStmt (HostSeen ''h1'' 0 0 0 0 []) True,
      ERead (Some (host_seen 9 ''h1'' 0 0 0 0 [] sample_sync_db)), EDelete ''h1'' ''v1'' (Ok 204),
      EStmt (DeleteFVm ''v1'') True, EStmt (HostFreedSlot ''h1'') True, EStmt (HostOrphans ''h1'' 0) True]"

lemma sample_sync_run: "falone (sync_host field_codec sample_fleet ''h1'') sample_sync_db sample_sync_trace sample_synced ()"
proof -
  have rep: "reported (listed_vms (JArr [JObj [(''id'', JStr ''v1'')]])) = [(''v1'', JObj [(''id'', JStr ''v1'')])]"
    by (simp add: reported_def listed_vms_def json_index_def json_lookup_def)
  have rows: "list_vms_on ''h1'' (host_seen 9 ''h1'' 0 0 0 0 [] sample_sync_db) = [sample_fvm ''v1'' ''h1'' st_deleting]"
    by (simp add: list_vms_on_def host_seen_def on_host_def sample_sync_db_def sample_fleet_db_def sample_fvm_def)
  have nums: "u32_or0 k JNull = 0" "number_or 0 k JNull = 0" "template_names JNull = []" for k
    by (simp_all add: u32_or0_def number_or_def template_names_def json_index_def json_lookup_def)
  have "falone (sync_rows field_codec sample_fleet ''h1'' [(''v1'', JObj [(''id'', JStr ''v1'')])]
      [sample_fvm ''v1'' ''h1'' st_deleting] 0 (\<lambda>known. stmt_ignored (HostOrphans ''h1'' ((1 - known) mod 2 ^ 32)) (FRet ())))
      (host_seen 9 ''h1'' 0 0 0 0 [] sample_sync_db) (drop 5 sample_sync_trace) sample_synced ()"
    by (simp add: sample_sync_trace_def sample_fvm_def stmt_ignored_def sample_synced_def is_success_def Let_def)
  then show ?thesis
    unfolding sync_host_def ask_def sync_seen_def sample_sync_trace_def
    by (simp add: rep nums Let_def stmt_ignored_def) (rule exI [of _ 9], simp add: rows)
qed

theorem sync_settles_witness:
  "get_fvm ''v1'' sample_synced = None \<and>
   get_fvm ''v2'' sample_synced = Some (sample_fvm ''v2'' ''h2'' st_placed)"
proof -
  have keys: "distinct (map fv_id (fd_vms sample_sync_db))"
    and rows: "sample_fvm ''v1'' ''h1'' st_deleting \<in> set (fd_vms sample_sync_db)"
      "sample_fvm ''v2'' ''h2'' st_placed \<in> set (fd_vms sample_sync_db)"
    by (simp_all add: sample_sync_db_def sample_fleet_db_def sample_fvm_def)
  have "settled sample_fleet [(''v1'', JObj [(''id'', JStr ''v1'')])] True {} (sample_fvm ''v1'' ''h1'' st_deleting)
      (Some (sample_fvm ''v1'' ''h1'' st_deleting)) (get_fvm ''v1'' sample_synced)"
    using sync_settles [OF keys rows(1) sample_sync_run]
    by (simp add: sample_sync_trace_def sample_fvm_def reported_def listed_vms_def json_index_def json_lookup_def
        confirmed_def is_success_def clocks_def)
  moreover have "get_fvm ''v2'' sample_synced = Some (sample_fvm ''v2'' ''h2'' st_placed)"
    using sync_settles [OF keys rows(2) sample_sync_run] by (simp add: sample_fvm_def)
  ultimately show ?thesis by (simp add: settled_def sample_fvm_def)
qed

end
