(* ===== verification/Iso_Secrets.thy ===== *)
theory Iso_Secrets
  imports Iso_Proxy Iso_Json
begin

text \<open>
  The secrets service (\<^verbatim>\<open>crates/iso-secrets/src/lib.rs\<close>): the provider contract, the adapters over a
  TOML file, a program and a chain of providers, the request handler and its client. A
  \<^verbatim>\<open>HashMap\<close> of headers is an association list with distinct keys. Base64 is a parameter.
\<close>

section \<open>Requests, answers and the contract\<close>

record HeadersRequest =
  hq_domain :: string
  hq_principal :: "string option"
  hq_path :: "string option"
  hq_names_only :: bool

definition request_new :: "string \<Rightarrow> string option \<Rightarrow> HeadersRequest" where
  "request_new domain princ = \<lparr>hq_domain = domain, hq_principal = princ, hq_path = None, hq_names_only = False\<rparr>"

definition with_path :: "string option \<Rightarrow> HeadersRequest \<Rightarrow> HeadersRequest" where
  "with_path path r = r\<lparr>hq_path := map_option (\<lambda>p. hd (split_on CHR ''?'' p)) path\<rparr>"

definition names_only :: "HeadersRequest \<Rightarrow> HeadersRequest" where
  "names_only r = r\<lparr>hq_names_only := True\<rparr>"

type_synonym Headers = "(string \<times> string) list"

record HeadersResponse =
  hr_headers :: Headers
  hr_names :: "string list"

definition response_default :: HeadersResponse where
  "response_default = \<lparr>hr_headers = [], hr_names = []\<rparr>"

definition header_names :: "HeadersResponse \<Rightarrow> string list" where
  "header_names r = sort (if hr_names r = [] then map fst (hr_headers r) else hr_names r)"

text \<open>A provider at one moment: its two calls.\<close>

record SecretProvider =
  sp_headers :: "string \<Rightarrow> string option \<Rightarrow> string option \<Rightarrow> Headers"
  sp_names :: "string \<Rightarrow> string option \<Rightarrow> string option \<Rightarrow> string list"

text \<open>The handler, on the request it parsed (\<^verbatim>\<open>None\<close> a body that is none).\<close>

definition secrets_handle :: "SecretProvider \<Rightarrow> HeadersRequest option \<Rightarrow> HeadersResponse" where
  "secrets_handle P req =
     (case req of
        None \<Rightarrow> response_default
      | Some r \<Rightarrow>
          if hq_names_only r then
            response_default\<lparr>hr_names := remdups_adj (sort (sp_names P (hq_domain r) (hq_principal r) (hq_path r)))\<rparr>
          else response_default\<lparr>hr_headers := sp_headers P (hq_domain r) (hq_principal r) (hq_path r)\<rparr>)"

text \<open>The client; \<open>call\<close> is the RPC, \<^verbatim>\<open>None\<close> an error.\<close>

definition secrets_headers ::
  "(HeadersRequest \<Rightarrow> HeadersResponse option) \<Rightarrow> string \<Rightarrow> string option \<Rightarrow> string option \<Rightarrow> Headers" where
  "secrets_headers call domain princ path =
     (case call (with_path path (request_new domain princ)) of Some r \<Rightarrow> hr_headers r | None \<Rightarrow> [])"

definition secrets_names ::
  "(HeadersRequest \<Rightarrow> HeadersResponse option) \<Rightarrow> string \<Rightarrow> string option \<Rightarrow> string option \<Rightarrow> string list" where
  "secrets_names call domain princ path =
     (case call (names_only (with_path path (request_new domain princ))) of Some r \<Rightarrow> header_names r | None \<Rightarrow> [])"

section \<open>The TOML file\<close>

datatype HeaderSpec = Literal string | Bearer string | Basic string string

definition default_basic_user :: string where
  "default_basic_user = ''x-access-token''"

fun render :: "(string \<Rightarrow> string) \<Rightarrow> HeaderSpec \<Rightarrow> string" where
  "render b64 (Literal s) = s"
| "render b64 (Bearer token) = ''Bearer '' @ token"
| "render b64 (Basic token user) = ''Basic '' @ b64 (user @ '':'' @ token)"

type_synonym DomainHeaders = "(string \<times> (string \<times> HeaderSpec) list) list"

record SecretsFile =
  sf_global :: DomainHeaders
  sf_principals :: "(string \<times> DomainHeaders) list"

record TomlSecretProvider =
  tp_path :: "string option"
  tp_file :: SecretsFile
  tp_mtime :: "nat option"

text \<open>\<open>cur\<close> is the file's modification time, \<open>read\<close> what reading and parsing it gives.\<close>

definition reload_if_changed ::
  "nat option \<Rightarrow> (string, SecretsFile) result \<Rightarrow> TomlSecretProvider \<Rightarrow> TomlSecretProvider" where
  "reload_if_changed cur read st =
     (case tp_path st of
        None \<Rightarrow> st
      | Some _ \<Rightarrow>
          if tp_mtime st = cur then st
          else (case read of Inr file \<Rightarrow> st\<lparr>tp_file := file, tp_mtime := cur\<rparr> | Inl _ \<Rightarrow> st))"

text \<open>\<^verbatim>\<open>HashMap::extend\<close>\<close>

definition extend :: "Headers \<Rightarrow> Headers \<Rightarrow> Headers" where
  "extend out kvs = fold (\<lambda>(k, v). AList.update k v) kvs out"

definition rendered :: "(string \<Rightarrow> string) \<Rightarrow> (string \<times> HeaderSpec) list option \<Rightarrow> Headers" where
  "rendered b64 h = (case h of Some specs \<Rightarrow> map (\<lambda>(k, v). (k, render b64 v)) specs | None \<Rightarrow> [])"

definition principal_specs :: "SecretsFile \<Rightarrow> string \<Rightarrow> string option \<Rightarrow> (string \<times> HeaderSpec) list option" where
  "principal_specs f domain princ =
     Option.bind princ (\<lambda>p. Option.bind (map_of (sf_principals f) p) (\<lambda>by_domain. map_of by_domain domain))"

definition toml_headers :: "(string \<Rightarrow> string) \<Rightarrow> SecretsFile \<Rightarrow> string \<Rightarrow> string option \<Rightarrow> string option \<Rightarrow> Headers" where
  "toml_headers b64 f domain princ path =
     extend (extend [] (rendered b64 (principal_specs f domain princ))) (rendered b64 (map_of (sf_global f) domain))"

definition toml_names :: "(string \<Rightarrow> string) \<Rightarrow> SecretsFile \<Rightarrow> string \<Rightarrow> string option \<Rightarrow> string option \<Rightarrow> string list" where
  "toml_names b64 f domain princ path = map fst (toml_headers b64 f domain princ path)"

text \<open>A request to the provider: the file is looked at first.\<close>

definition toml_provider :: "(string \<Rightarrow> string) \<Rightarrow> SecretsFile \<Rightarrow> SecretProvider" where
  "toml_provider b64 f = \<lparr>sp_headers = toml_headers b64 f, sp_names = toml_names b64 f\<rparr>"

definition toml_serve ::
  "(string \<Rightarrow> string) \<Rightarrow> nat option \<Rightarrow> (string, SecretsFile) result \<Rightarrow> HeadersRequest option \<Rightarrow> TomlSecretProvider \<Rightarrow>
     HeadersResponse \<times> TomlSecretProvider" where
  "toml_serve b64 cur read req st =
     (case req of
        None \<Rightarrow> (response_default, st)
      | Some r \<Rightarrow>
          let st' = reload_if_changed cur read st in (secrets_handle (toml_provider b64 (tp_file st')) req, st'))"

section \<open>A program, and a chain\<close>

text \<open>What became of the program: it could not be run, timed out, or ended (whether in success,
  and its output as JSON).\<close>

datatype ExecOutcome = Not_Run | Timed_Out | Exited bool "Json option"

definition exec_args :: "string list \<Rightarrow> string \<Rightarrow> string \<Rightarrow> string option \<Rightarrow> string option \<Rightarrow> string list" where
  "exec_args args op domain princ path =
     args @ [op, domain, case princ of Some p \<Rightarrow> p | None \<Rightarrow> ''-'', case path of Some p \<Rightarrow> p | None \<Rightarrow> ''-'']"

fun exec_run :: "ExecOutcome \<Rightarrow> Json option" where
  "exec_run Not_Run = None"
| "exec_run Timed_Out = None"
| "exec_run (Exited success out) = (if success then out else None)"

text \<open>\<^verbatim>\<open>serde_json::from_value\<close> into a map or a list of strings.\<close>

fun json_string_map :: "Json \<Rightarrow> Headers option" where
  "json_string_map (JObj fs) =
     (if list_all (\<lambda>(_, v). as_str v \<noteq> None) fs then Some (List.map_filter (\<lambda>(k, v). map_option (Pair k) (as_str v)) fs) else None)"
| "json_string_map _ = None"

definition json_string_list :: "Json \<Rightarrow> string list option" where
  "json_string_list v =
     Option.bind (as_array v) (\<lambda>xs. if list_all (\<lambda>x. as_str x \<noteq> None) xs then Some (List.map_filter as_str xs) else None)"

definition unwrapped :: "string \<Rightarrow> Json option \<Rightarrow> Json" where
  "unwrapped k out =
     (let v = (case out of Some v \<Rightarrow> v | None \<Rightarrow> JNull) in case json_lookup k v of Some x \<Rightarrow> x | None \<Rightarrow> v)"

text \<open>\<open>exec\<close> is what becomes of the program under an argument list.\<close>

definition exec_provider :: "string list \<Rightarrow> (string list \<Rightarrow> ExecOutcome) \<Rightarrow> SecretProvider" where
  "exec_provider args exec =
     \<lparr>sp_headers = (\<lambda>d p path. case json_string_map (unwrapped ''headers'' (exec_run (exec (exec_args args ''headers'' d p path)))) of
         Some hs \<Rightarrow> hs | None \<Rightarrow> []),
      sp_names = (\<lambda>d p path. case json_string_list (unwrapped ''names'' (exec_run (exec (exec_args args ''names'' d p path)))) of
         Some ns \<Rightarrow> ns | None \<Rightarrow> [])\<rparr>"

definition chain_provider :: "SecretProvider list \<Rightarrow> SecretProvider" where
  "chain_provider ps =
     \<lparr>sp_headers = (\<lambda>d p path. fold (\<lambda>q out. extend out (sp_headers q d p path)) ps []),
      sp_names = (\<lambda>d p path. remdups_adj (sort (concat (map (\<lambda>q. sp_names q d p path) ps))))\<rparr>"

text \<open>The service over a list of files, as a client sees it.\<close>

definition toml_service :: "(string \<Rightarrow> string) \<Rightarrow> SecretsFile list \<Rightarrow> HeadersRequest \<Rightarrow> HeadersResponse option" where
  "toml_service b64 fs r = Some (secrets_handle (chain_provider (map (toml_provider b64) fs)) (Some r))"

section \<open>The contract of a provider\<close>

lemma map_of_extend: "map_of (extend out kvs) = map_of out ++ map_of (rev kvs)"
  by (induction kvs arbitrary: out) (auto simp: extend_def update_conv' fun_eq_iff map_add_def split: option.splits)

lemma keys_extend: "fst ` set (extend out kvs) = fst ` set out \<union> fst ` set kvs"
  by (simp add: dom_map_of_conv_image_fst [symmetric] map_of_extend) (auto simp: dom_map_of_conv_image_fst)

lemma distinct_extend: "distinct (map fst out) \<Longrightarrow> distinct (map fst (extend out kvs))"
  by (induction kvs arbitrary: out) (auto simp: extend_def distinct_update)

lemma sorted_keys:
  assumes "set xs = fst ` set kvs" and "distinct (map fst kvs)"
  shows "remdups_adj (sort xs) = sort (map fst (kvs :: Headers))"
proof -
  have "remdups_adj (sort xs) = remdups_adj (sort (map fst kvs))"
    using assms(1) by (intro remdups_adj_sort_key_unique) auto
  with assms(2) show ?thesis by (simp add: remdups_adj_distinct)
qed

text \<open>
  What the trait asks of an adapter: names are those of the headers it would give, and a header is
  given once.
\<close>

locale secret_provider =
  fixes headers :: "string \<Rightarrow> string option \<Rightarrow> string option \<Rightarrow> Headers"
    and names :: "string \<Rightarrow> string option \<Rightarrow> string option \<Rightarrow> string list"
  assumes names_headers: "set (names d p path) = fst ` set (headers d p path)"
    and headers_once: "distinct (map fst (headers d p path))"
begin

text \<open>What a client is told of is what it would be given, over the handler.\<close>

lemma described:
  "secrets_names (\<lambda>r. Some (secrets_handle \<lparr>sp_headers = headers, sp_names = names\<rparr> (Some r))) d p path =
   sort (map fst (secrets_headers (\<lambda>r. Some (secrets_handle \<lparr>sp_headers = headers, sp_names = names\<rparr> (Some r))) d p path))"
proof -
  let ?path = "map_option (\<lambda>p. hd (split_on CHR ''?'' p)) path"
  have "remdups_adj (sort (names d p ?path)) = sort (map fst (headers d p ?path))"
    by (rule sorted_keys [OF names_headers headers_once])
  moreover have "names d p ?path = [] \<longleftrightarrow> headers d p ?path = []"
    using names_headers [of d p ?path] by (metis image_is_empty set_empty)
  ultimately show ?thesis
    by (auto simp: secrets_names_def secrets_headers_def secrets_handle_def header_names_def response_default_def
        names_only_def with_path_def request_new_def sorted_sort_id)
qed

text \<open>A description carries no value.\<close>

lemma describes_no_value:
  "hr_headers (secrets_handle \<lparr>sp_headers = headers, sp_names = names\<rparr> (Some (names_only r))) = []"
  by (simp add: secrets_handle_def names_only_def response_default_def)

end

lemma map_of_rendered: "map_of (rendered b64 h) k = Option.bind h (\<lambda>specs. map_option (render b64) (map_of specs k))"
  by (cases h) (auto simp: rendered_def map_of_map)

interpretation toml: secret_provider "toml_headers b64 f" "toml_names b64 f" for b64 f
proof
  show "set (toml_names b64 f d p path) = fst ` set (toml_headers b64 f d p path)" for d p path
    by (simp add: toml_names_def)
  show "distinct (map fst (toml_headers b64 f d p path))" for d p path
    by (simp add: toml_headers_def distinct_extend)
qed

text \<open>Providers that keep the contract keep it in a chain.\<close>

locale secret_chain =
  fixes ps :: "SecretProvider list"
  assumes each: "q \<in> set ps \<Longrightarrow> secret_provider (sp_headers q) (sp_names q)"
begin

lemma chain_keys:
  "fst ` set (fold (\<lambda>q out. extend out (sp_headers q d p path)) qs out) =
     fst ` set out \<union> (\<Union>q \<in> set qs. fst ` set (sp_headers q d p path))"
  by (induction qs arbitrary: out) (auto simp: keys_extend)

lemma chain_distinct:
  "distinct (map fst out) \<Longrightarrow> distinct (map fst (fold (\<lambda>q out. extend out (sp_headers q d p path)) qs out))"
  by (induction qs arbitrary: out) (auto simp: distinct_extend)

end

sublocale secret_chain \<subseteq> chain: secret_provider "sp_headers (chain_provider ps)" "sp_names (chain_provider ps)"
proof
  fix d p path
  have "set (sp_names q d p path) = fst ` set (sp_headers q d p path)" if "q \<in> set ps" for q
    using each [OF that] by (rule secret_provider.names_headers)
  then show "set (sp_names (chain_provider ps) d p path) = fst ` set (sp_headers (chain_provider ps) d p path)"
    by (simp add: chain_provider_def chain_keys)
  show "distinct (map fst (sp_headers (chain_provider ps) d p path))"
    by (simp add: chain_provider_def chain_distinct)
qed

interpretation toml_chain: secret_chain "map (toml_provider b64) fs" for b64 fs
proof (rule secret_chain.intro)
  fix q
  assume "q \<in> set (map (toml_provider b64) fs)"
  then obtain f where "q = toml_provider b64 f" by auto
  then show "secret_provider (sp_headers q) (sp_names q)"
    by (simp add: toml_provider_def toml.secret_provider_axioms)
qed

section \<open>What is described and what is injected\<close>

text \<open>Over files no path narrows, and later files win.\<close>

definition spec_of :: "SecretsFile \<Rightarrow> string \<Rightarrow> string option \<Rightarrow> string \<Rightarrow> HeaderSpec option" where
  "spec_of f domain princ k =
     (case Option.bind (map_of (sf_global f) domain) (\<lambda>h. map_of (rev h) k) of
        Some s \<Rightarrow> Some s
      | None \<Rightarrow> Option.bind (principal_specs f domain princ) (\<lambda>h. map_of (rev h) k))"

lemma map_of_rendered_rev:
  "map_of (rev (rendered b64 h)) k = Option.bind h (\<lambda>specs. map_option (render b64) (map_of (rev specs) k))"
  by (cases h) (simp_all add: rendered_def rev_map map_of_map)

lemma map_of_toml: "map_of (toml_headers b64 f domain princ path) k = map_option (render b64) (spec_of f domain princ k)"
proof -
  have "Option.bind h (\<lambda>specs. map_option (render b64) (map_of (rev specs) k)) =
      map_option (render b64) (Option.bind h (\<lambda>specs. map_of (rev specs) k))" for h
    by (cases h) simp_all
  then show ?thesis
    by (simp add: toml_headers_def map_of_extend map_of_rendered_rev spec_of_def map_add_def split: option.split)
qed

lemma provider_eta: "\<lparr>sp_headers = sp_headers P, sp_names = sp_names P\<rparr> = P"
  by simp

lemma set_update_subset: "set (AList.update k v xs) \<subseteq> insert (k, v) (set xs)"
  by (induction xs) auto

lemma set_extend: "set (extend out kvs) \<subseteq> set out \<union> set kvs"
proof (induction kvs arbitrary: out)
  case (Cons kv kvs)
  obtain k v where kv: "kv = (k, v)" by (cases kv)
  have "set (extend out (kv # kvs)) \<subseteq> set (AList.update k v out) \<union> set kvs"
    using Cons.IH [of "AList.update k v out"] by (simp add: extend_def kv)
  then show ?case using set_update_subset [of k v out] kv by auto
qed (simp add: extend_def)

lemma chain_origin:
  "kv \<in> set (fold (\<lambda>q out. extend out (sp_headers q d p path)) qs out) \<Longrightarrow>
     kv \<in> set out \<or> (\<exists>q \<in> set qs. kv \<in> set (sp_headers q d p path))"
  by (induction qs arbitrary: out) (use set_extend in fastforce)+

lemma toml_service_origin:
  assumes "(k, v) \<in> set (secrets_headers (toml_service b64 fs) d p path)"
  shows "\<exists>f \<in> set fs. \<exists>spec. spec_of f d p k = Some spec \<and> v = render b64 spec"
proof -
  let ?path = "map_option (\<lambda>p. hd (split_on CHR ''?'' p)) path"
  have "(k, v) \<in> set (sp_headers (chain_provider (map (toml_provider b64) fs)) d p ?path)"
    using assms by (simp add: secrets_headers_def toml_service_def secrets_handle_def with_path_def request_new_def)
  then obtain f where f: "f \<in> set fs" "(k, v) \<in> set (toml_headers b64 f d p ?path)"
    unfolding chain_provider_def using chain_origin [of "(k, v)" d p ?path "map (toml_provider b64) fs" "[]"]
    by (auto simp: toml_provider_def)
  then have "map_of (toml_headers b64 f d p ?path) k = Some v"
    using toml.headers_once by simp
  with f(1) show ?thesis by (auto simp: map_of_toml)
qed

lemma toml_service_names:
  "secrets_names (toml_service b64 fs) d p path = sort (map fst (secrets_headers (toml_service b64 fs) d p path))"
  unfolding toml_service_def by (rule toml_chain.chain.described [unfolded provider_eta])

lemma toml_path_irrelevant:
  "secrets_headers (toml_service b64 fs) d p path = secrets_headers (toml_service b64 fs) d p path'"
  by (simp add: secrets_headers_def toml_service_def secrets_handle_def chain_provider_def toml_provider_def
      toml_headers_def with_path_def request_new_def fold_map comp_def)


definition sample_secrets :: "string \<Rightarrow> SecretsFile" where
  "sample_secrets token = \<lparr>sf_global = [(''api.x.io'', [(''authorization'', Bearer token)])], sf_principals = []\<rparr>"

definition sample_http_secrets :: HttpEnv where
  "sample_http_secrets = sample_http\<lparr>he_secrets := secrets_headers (toml_service (\<lambda>s. s) [sample_secrets ''s3cret''])\<rparr>"


end
