(* ===== verification/Iso_Metadata.thy ===== *)
theory Iso_Metadata
  imports Iso_Secrets Iso_Identify
begin

text \<open>
  The metadata service a VM asks about itself (\<^verbatim>\<open>crates/iso-controld/src/metadata.rs\<close>). The caller is
  named by its source address; what the proxy would inject for it is described by the secrets
  service, names only.
\<close>

section \<open>The answer\<close>

definition opt_json :: "('a \<Rightarrow> Json) \<Rightarrow> 'a option \<Rightarrow> Json" where
  "opt_json f x = (case x of Some y \<Rightarrow> f y | None \<Rightarrow> JNull)"

definition json_strings :: "string list \<Rightarrow> Json" where
  "json_strings xs = JArr (map JStr xs)"

definition json_nat :: "nat \<Rightarrow> Json" where
  "json_nat n = JNum (of_nat n)"

definition endpoint :: "string option \<Rightarrow> PortForward \<Rightarrow> Json" where
  "endpoint host f =
     JObj [(''vm_port'', json_nat (unat (vm_port f))), (''host_port'', json_nat (unat (host_port f))),
       (''proto'', JStr (proto_display (proto f))),
       (''endpoint'', opt_json (\<lambda>h. JStr (h @ '':'' @ show_nat (unat (host_port f)))) host)]"

text \<open>What the proxy would inject for each literal host of the policy, by name.\<close>

definition credentials :: "(HeadersRequest \<Rightarrow> HeadersResponse option) option \<Rightarrow> VmRecord \<Rightarrow> Json list option" where
  "credentials secrets v =
     (case v_egress v of
        E_Deny \<Rightarrow> None
      | E_Proxy \<Rightarrow>
          map_option (\<lambda>call.
            map (\<lambda>domain. JObj [(''host'', JStr domain),
                (''headers'', json_strings (secrets_names call domain (v_principal v) None))])
              (case from_record (v_allow v) (v_rules v) of Inr rs \<Rightarrow> literal_allow_hosts rs | Inl _ \<Rightarrow> [])) secrets)"

definition egress_note :: "EgressMode \<Rightarrow> string" where
  "egress_note e =
     (case e of
        E_Deny \<Rightarrow> ''No external egress. Host services (DNS, metadata) are reachable.''
      | E_Proxy \<Rightarrow> ''All egress goes through the proxy. HTTPS and WebSocket requests pass when `allow` or `rules` permit them; other TCP passes only through a `tunnel tcp://host:port` rule. Anything else is refused.'')"

text \<open>\<open>shown\<close> is the text of a control plane error.\<close>

definition whoami ::
  "(CpError \<Rightarrow> string) \<Rightarrow> (Ipv4Addr \<Rightarrow> SlotId option) \<Rightarrow> Db \<Rightarrow> Ipv4Addr option \<Rightarrow>
     (HeadersRequest \<Rightarrow> HeadersResponse option) option \<Rightarrow> IpAddr \<Rightarrow> Json" where
  "whoami shown a2s db host_ip secrets peer =
     (case peer of
        V6 _ \<Rightarrow> JObj [(''error'', JStr ''unsupported source'')]
      | V4 ip \<Rightarrow>
          (case identify a2s ip db of
             Inr (Some v) \<Rightarrow>
               let host = map_option ipv4_display host_ip in
               JObj [(''id'', JStr (vmid_display (v_id v))),
                 (''name'', opt_json JStr (map_of (v_labels v) ''name'')),
                 (''slot'', opt_json (\<lambda>s. json_nat (unat (slot_get s))) (v_slot v)),
                 (''template'', JStr (v_template v)),
                 (''labels'', JObj (map (\<lambda>(k, x). (k, JStr x)) (v_labels v))),
                 (''host'', opt_json JStr host),
                 (''endpoints'', JArr (map (endpoint host) (v_ingress v))),
                 (''egress'', JStr (egress_str (v_egress v))), (''egress_note'', JStr (egress_note (v_egress v))),
                 (''principal'', opt_json JStr (v_principal v)), (''allow'', json_strings (v_allow v)),
                 (''rules'', json_strings (v_rules v)), (''policy_gen'', json_nat (unat (v_policy_gen v))),
                 (''credentials'', opt_json JArr (credentials secrets v))]
           | Inr None \<Rightarrow> JObj [(''error'', JStr ''unknown caller''), (''src'', JStr (ipv4_display ip))]
           | Inl e \<Rightarrow> JObj [(''error'', JStr (shown e))]))"

section \<open>What it tells\<close>

lemma toml_names_set: "set (toml_names b64 f d p path) = {k. spec_of f d p k \<noteq> None}"
proof -
  have "set (toml_names b64 f d p path) = dom (map_of (toml_headers b64 f d p path))"
    by (simp add: toml_names_def dom_map_of_conv_image_fst)
  also have "\<dots> = {k. spec_of f d p k \<noteq> None}" by (auto simp: map_of_toml)
  finally show ?thesis .
qed

lemma service_names_cong:
  assumes "\<And>k. (\<exists>f \<in> set fs. spec_of f d p k \<noteq> None) \<longleftrightarrow> (\<exists>f \<in> set fs'. spec_of f d p k \<noteq> None)"
  shows "secrets_names (toml_service b64 fs) d p path = secrets_names (toml_service b64' fs') d p path"
proof -
  have names: "set (concat (map (\<lambda>q. sp_names q d p path) (map (toml_provider b) gs))) =
      {k. \<exists>f \<in> set gs. spec_of f d p k \<noteq> None}" for b gs path
    by (auto simp: toml_provider_def toml_names_set)
  have "sp_names (chain_provider (map (toml_provider b64) fs)) d p path =
      sp_names (chain_provider (map (toml_provider b64') fs')) d p path" for path
    unfolding chain_provider_def SecretProvider.simps
    by (rule remdups_adj_sort_key_unique) (simp, unfold names assms, rule refl)
  then show ?thesis
    by (simp add: secrets_names_def toml_service_def secrets_handle_def header_names_def response_default_def
        names_only_def with_path_def request_new_def)
qed

lemma whoami_fields:
  assumes "identify a2s ip db = Ok (Some v)"
  shows "json_index (whoami shown a2s db host secrets (V4 ip)) ''id'' = JStr (vmid_display (v_id v))"
    and "json_index (whoami shown a2s db host secrets (V4 ip)) ''principal'' = opt_json JStr (v_principal v)"
    and "json_index (whoami shown a2s db host secrets (V4 ip)) ''policy_gen'' = json_nat (unat (v_policy_gen v))"
    and "json_index (whoami shown a2s db host secrets (V4 ip)) ''credentials'' = opt_json JArr (credentials secrets v)"
  by (simp_all add: whoami_def assms Let_def json_index_def json_lookup_def)

text \<open>A VM learns no secret from the metadata service. Whatever it asks, over two secrets files
  that name the same headers for each host and principal the answers are the same, so they tell
  nothing of a value.\<close>

theorem whoami_hides_values:
  assumes "\<And>d p k. (\<exists>f \<in> set fs. spec_of f d p k \<noteq> None) \<longleftrightarrow> (\<exists>f \<in> set fs'. spec_of f d p k \<noteq> None)"
  shows "whoami shown a2s db host (Some (toml_service b64 fs)) peer = whoami shown a2s db host (Some (toml_service b64' fs')) peer"
proof -
  have same: "credentials (Some (toml_service b64 fs)) v = credentials (Some (toml_service b64' fs')) v" for v
    using service_names_cong [of fs _ _ fs' b64 _ b64', OF assms] by (simp add: credentials_def split: EgressMode.split)
  show ?thesis unfolding whoami_def same by (rule refl)
qed

theorem whoami_hides_values_witness:
  "whoami (\<lambda>_. []) (\<lambda>_. Some (SlotId 3)) sample_db None (Some (toml_service (\<lambda>s. s) [sample_secrets ''s3cret''])) (V4 1) =
   whoami (\<lambda>_. []) (\<lambda>_. Some (SlotId 3)) sample_db None (Some (toml_service (\<lambda>s. s) [sample_secrets ''other''])) (V4 1)"
  by (rule whoami_hides_values) (simp add: spec_of_def sample_secrets_def principal_specs_def)

end
