(* ===== verification/Iso_Master.thy ===== *)
theory Iso_Master
  imports Iso_Json Iso_Strings "HOL-Library.Product_Lexorder"
begin

text \<open>
  The master (\<^verbatim>\<open>iso-master\<close>) keeps agent sessions, each with a workspace VM on some control
  plane, alone or in a swarm: a tree of planners and workers. This theory has its data
  (\<^verbatim>\<open>model.rs\<close>), its SQLite store (\<^verbatim>\<open>store.rs\<close>) one statement or transaction at a time, and the
  checks of its configuration (\<^verbatim>\<open>config.rs\<close>). Rows hold the values whose JSON the table has.
  Times are seconds since the epoch, subtracted with saturation, so natural numbers.
\<close>

section \<open>Sessions\<close>

datatype Phase =
    Ph_Allocating | Ph_AllocationUnknown | Ph_Starting | Ph_Idle | Ph_Working | Ph_Sleeping | Ph_Asleep
  | Ph_Stopping | Ph_Stopped | Ph_Waking | Ph_Interrupted | Ph_Closing | Ph_Closed

fun phase_edge :: "Phase \<Rightarrow> Phase list" where
  "phase_edge Ph_Allocating = [Ph_Starting, Ph_AllocationUnknown, Ph_Interrupted]"
| "phase_edge Ph_AllocationUnknown = [Ph_Allocating, Ph_Interrupted, Ph_Closed]"
| "phase_edge Ph_Starting = [Ph_Idle, Ph_Interrupted]"
| "phase_edge Ph_Idle = [Ph_Working, Ph_Sleeping, Ph_Stopping, Ph_Interrupted, Ph_Closing]"
| "phase_edge Ph_Working = [Ph_Idle, Ph_Stopping, Ph_Interrupted, Ph_Closing]"
| "phase_edge Ph_Sleeping = [Ph_Asleep, Ph_Interrupted]"
| "phase_edge Ph_Asleep = [Ph_Waking, Ph_Stopping, Ph_Closing, Ph_Interrupted]"
| "phase_edge Ph_Stopping = [Ph_Stopped, Ph_Interrupted]"
| "phase_edge Ph_Stopped = [Ph_Waking, Ph_Stopping, Ph_Interrupted, Ph_Closing]"
| "phase_edge Ph_Waking = [Ph_Idle, Ph_Interrupted]"
| "phase_edge Ph_Interrupted = [Ph_Starting, Ph_Stopping, Ph_Closing]"
| "phase_edge Ph_Closing = [Ph_Closed, Ph_Interrupted]"
| "phase_edge Ph_Closed = []"

definition phase_check :: "Phase \<Rightarrow> Phase \<Rightarrow> bool" where
  "phase_check a b \<longleftrightarrow> a = b \<or> (b = Ph_Closing \<and> a \<noteq> Ph_Closed) \<or> b \<in> set (phase_edge a)"

datatype Role = Planner | Worker

fun role_text :: "Role \<Rightarrow> string" where
  "role_text Planner = ''planner''"
| "role_text Worker = ''worker''"

record Swarm =
  sw_root :: string
  sw_parent :: "string option"
  sw_role :: Role
  sw_depth :: nat
  sw_planner_model :: string
  sw_worker_model :: string
  sw_task :: string

record Session =
  ss_id :: string
  ss_name :: string
  ss_plane :: string
  ss_vm :: "string option"
  ss_phase :: Phase
  ss_created_at :: nat
  ss_last_active :: nat
  ss_error :: "string option"
  ss_model :: "string option"
  ss_swarm :: "Swarm option"

record Acl =
  acl_egress :: "string option"
  acl_allow :: "string list"
  acl_rules :: "string list"

record CreateOptions =
  co_model :: "string option"
  co_swarm :: bool
  co_planner_model :: "string option"
  co_worker_model :: "string option"
  co_acl :: Acl

definition acl_default :: Acl where
  "acl_default = \<lparr>acl_egress = None, acl_allow = [], acl_rules = []\<rparr>"

definition acl_is_empty :: "Acl \<Rightarrow> bool" where
  "acl_is_empty a \<longleftrightarrow>
     (case acl_egress a of Some e \<Rightarrow> e = [] | None \<Rightarrow> True) \<and> acl_allow a = [] \<and> acl_rules a = []"

definition parent_of :: "Session \<Rightarrow> string option" where
  "parent_of s = Option.bind (ss_swarm s) sw_parent"

section \<open>Configuration\<close>

record PlaneConfig =
  pl_id :: string
  pl_server :: string
  pl_template :: string
  pl_egress :: string
  pl_principal :: "string option"
  pl_allow :: "string list"
  pl_max_vms :: nat

record MasterConfig =
  mc_public_origin :: string
  mc_data_dir :: string
  mc_pi_model :: "string option"
  mc_pi_models :: "string list"
  mc_swarm_max_depth :: nat
  mc_swarm_max_agents :: nat
  mc_idle_seconds :: nat
  mc_suspended_seconds :: nat
  mc_max_agents :: nat
  mc_demo :: bool
  mc_planes :: "PlaneConfig list"

definition below_limit :: "nat \<Rightarrow> nat \<Rightarrow> bool" where
  "below_limit count limit \<longleftrightarrow> limit = 0 \<or> count < limit"

definition config_models :: "MasterConfig \<Rightarrow> string list" where
  "config_models cfg = remdups_adj (sort (mc_pi_models cfg @ (case mc_pi_model cfg of Some m \<Rightarrow> [m] | None \<Rightarrow> [])))"

definition has_whitespace :: "string \<Rightarrow> bool" where
  "has_whitespace s \<longleftrightarrow> list_ex (\<lambda>t. ws_len t > 0) (suffixes s)"

definition model_ok :: "string \<Rightarrow> bool" where
  "model_ok m \<longleftrightarrow>
     (case split_once ''/'' m of Some (p, n) \<Rightarrow> p \<noteq> [] \<and> n \<noteq> [] | None \<Rightarrow> False) \<and> \<not> has_whitespace m"

datatype ConfigError =
    InvalidSwarmLimits | InvalidModelFormat | IdleSecondsZero | NoPlanes | NoPublicOrigin | OriginEndsInSlash
  | InvalidPlaneId | DuplicatePlaneId | PlaneNotHttps | InvalidEgressMode | NoTemplate

definition ensure :: "bool \<Rightarrow> 'e \<Rightarrow> ('e, 'a) result \<Rightarrow> ('e, 'a) result" where
  "ensure b e r = (if b then r else Err e)"

fun validate_planes :: "bool \<Rightarrow> string list \<Rightarrow> PlaneConfig list \<Rightarrow> (ConfigError, unit) result" where
  "validate_planes demo seen [] = Ok ()"
| "validate_planes demo seen (p # ps) =
     ensure (pl_id p \<noteq> [] \<and> length (pl_id p) \<le> 64 \<and>
             list_all (\<lambda>c. ascii_alphanumeric c \<or> c = CHR ''-'' \<or> c = CHR ''_'') (pl_id p)) InvalidPlaneId
    (ensure (pl_id p \<notin> set seen) DuplicatePlaneId
    (ensure (demo \<or> starts_with ''https://'' (pl_server p)) PlaneNotHttps
    (ensure (pl_egress p = ''deny'' \<or> pl_egress p = ''proxy'') InvalidEgressMode
    (ensure (pl_template p \<noteq> []) NoTemplate
    (validate_planes demo (pl_id p # seen) ps)))))"

definition config_validate :: "MasterConfig \<Rightarrow> (ConfigError, unit) result" where
  "config_validate cfg =
     ensure (mc_swarm_max_depth cfg \<le> 16) InvalidSwarmLimits
    (ensure (list_all model_ok (config_models cfg)) InvalidModelFormat
    (ensure (mc_idle_seconds cfg > 0) IdleSecondsZero
    (ensure (mc_planes cfg \<noteq> []) NoPlanes
    (ensure (starts_with ''https://'' (mc_public_origin cfg) \<or> starts_with ''http://'' (mc_public_origin cfg)) NoPublicOrigin
    (ensure (\<not> ends_with ''/'' (mc_public_origin cfg)) OriginEndsInSlash
    (validate_planes (mc_demo cfg) [] (mc_planes cfg)))))))"

section \<open>Tables\<close>

text \<open>The mailbox's \<^verbatim>\<open>status\<close> texts, and its rows; \<open>ml_delivery\<close> is the prompt and the event staged.\<close>

datatype MailStatus = Pending | Dispatching | Delivered | Uncertain | Cancelled

record Mail =
  ml_id :: nat
  ml_sender :: string
  ml_recipient :: string
  ml_message :: string
  ml_status :: MailStatus
  ml_delivery :: "(string \<times> Json) option"

record Post =
  po_scope :: string
  po_path :: string
  po_author :: string
  po_updated_by :: string
  po_body :: string
  po_created_at :: nat
  po_updated_at :: nat

text \<open>
  Tables in rowid order. Nothing is ever deleted from \<open>events\<close> and \<open>mailbox\<close>, so the next
  number of either is one more than its length.
\<close>

record MasterDb =
  md_sessions :: "Session list"
  md_events :: "(string \<times> Json) list"
  md_mailbox :: "Mail list"
  md_board :: "Post list"
  md_policy :: "(string \<times> Acl) list"

definition mdb_empty :: MasterDb where
  "mdb_empty = \<lparr>md_sessions = [], md_events = [], md_mailbox = [], md_board = [], md_policy = []\<rparr>"

definition has_session :: "string \<Rightarrow> MasterDb \<Rightarrow> bool" where
  "has_session sid db \<longleftrightarrow> sid \<in> set (map ss_id (md_sessions db))"

definition ms_get :: "string \<Rightarrow> MasterDb \<Rightarrow> Session option" where
  "ms_get sid db = find (\<lambda>s. ss_id s = sid) (md_sessions db)"

definition ms_list :: "MasterDb \<Rightarrow> Session list" where
  "ms_list db = rev (md_sessions db)"

text \<open>A new row of the mailbox; the recipient is a foreign key.\<close>

definition mail_insert :: "string \<Rightarrow> string \<Rightarrow> string \<Rightarrow> MasterDb \<Rightarrow> MasterDb option" where
  "mail_insert sender recipient text db =
     (if has_session recipient db
      then Some (db\<lparr>md_mailbox := md_mailbox db @
        [\<lparr>ml_id = Suc (length (md_mailbox db)), ml_sender = sender, ml_recipient = recipient,
          ml_message = text, ml_status = Pending, ml_delivery = None\<rparr>]\<rparr>)
      else None)"

text \<open>\<^verbatim>\<open>insert\<close>: the session and, for a child, its task as its parent's first message, in one transaction.\<close>

definition ms_insert :: "Session \<Rightarrow> MasterDb \<Rightarrow> MasterDb option" where
  "ms_insert s db =
     (if has_session (ss_id s) db then None
      else let db' = db\<lparr>md_sessions := md_sessions db @ [s]\<rparr> in
        case ss_swarm s of
          None \<Rightarrow> Some db'
        | Some w \<Rightarrow> (case sw_parent w of None \<Rightarrow> Some db' | Some p \<Rightarrow> mail_insert p (ss_id s) (sw_task w) db'))"

text \<open>The closures given to \<^verbatim>\<open>update\<close>.\<close>

datatype Upd =
    SetPhase Phase
  | Interrupt string
  | Settle
  | SetVm string
  | Adopt "string option"
  | Allocated string
  | SetError string
  | SetModel string

fun apply_upd :: "nat \<Rightarrow> Upd \<Rightarrow> Session \<Rightarrow> Session option" where
  "apply_upd now (SetPhase p) s = Some (s\<lparr>ss_phase := p, ss_last_active := now, ss_error := None\<rparr>)"
| "apply_upd now (Interrupt e) s =
     Some (if ss_phase s \<in> {Ph_Closed, Ph_Closing, Ph_AllocationUnknown} then s
           else s\<lparr>ss_phase := Ph_Interrupted, ss_error := Some e\<rparr>)"
| "apply_upd now Settle s =
     Some (if ss_phase s = Ph_Working then s\<lparr>ss_phase := Ph_Idle, ss_last_active := now\<rparr> else s)"
| "apply_upd now (SetVm vm) s = Some (s\<lparr>ss_vm := Some vm\<rparr>)"
| "apply_upd now (Adopt None) s = None"
| "apply_upd now (Adopt (Some vm)) s = Some (s\<lparr>ss_vm := Some vm, ss_phase := Ph_Interrupted\<rparr>)"
| "apply_upd now (Allocated vm) s = Some (s\<lparr>ss_vm := Some vm, ss_phase := Ph_Interrupted, ss_error := None\<rparr>)"
| "apply_upd now (SetError e) s = Some (s\<lparr>ss_error := Some e\<rparr>)"
| "apply_upd now (SetModel m) s = Some (s\<lparr>ss_model := Some m\<rparr>)"

text \<open>\<^verbatim>\<open>update\<close>: nothing is written unless the closure succeeds and the phase may change so.\<close>

definition ms_update :: "nat \<Rightarrow> string \<Rightarrow> Upd \<Rightarrow> MasterDb \<Rightarrow> (Session \<times> MasterDb) option" where
  "ms_update now sid u db =
     (case ms_get sid db of
        None \<Rightarrow> None
      | Some s \<Rightarrow> (case apply_upd now u s of
          None \<Rightarrow> None
        | Some s' \<Rightarrow>
            if phase_check (ss_phase s) (ss_phase s')
            then Some (s', db\<lparr>md_sessions := map (\<lambda>t. if ss_id t = sid then s' else t) (md_sessions db)\<rparr>)
            else None))"

definition notice :: "string \<Rightarrow> Json" where
  "notice text = JObj [(''type'', JStr ''notice''), (''text'', JStr text)]"

text \<open>\<open>jlen\<close> is the length of a value's JSON text (\<^verbatim>\<open>serde_json\<close>).\<close>

definition ms_event :: "(Json \<Rightarrow> nat) \<Rightarrow> string \<Rightarrow> Json \<Rightarrow> MasterDb \<Rightarrow> MasterDb option" where
  "ms_event jlen sid data db =
     (let data' = (if jlen data > 262144
        then notice ''Large event omitted; full history is retained in pi's session file.'' else data)
      in if has_session sid db then Some (db\<lparr>md_events := md_events db @ [(sid, data')]\<rparr>) else None)"

text \<open>\<^verbatim>\<open>events\<close>: what a session's cursor has not seen, at most 500, each with its number.\<close>

definition ms_events :: "string \<Rightarrow> nat \<Rightarrow> MasterDb \<Rightarrow> (nat \<times> Json) list" where
  "ms_events sid after db =
     take 500 (map (\<lambda>(n, s, d). (n, d))
       (filter (\<lambda>(n, s, d). s = sid \<and> after < n) (zip [1..<Suc (length (md_events db))] (md_events db))))"

section \<open>Mailbox\<close>

definition on_mail :: "nat \<Rightarrow> (Mail \<Rightarrow> Mail) \<Rightarrow> MasterDb \<Rightarrow> MasterDb" where
  "on_mail mid f db = db\<lparr>md_mailbox := map (\<lambda>m. if ml_id m = mid then f m else m) (md_mailbox db)\<rparr>"

definition pending_for :: "string \<Rightarrow> MasterDb \<Rightarrow> Mail list" where
  "pending_for recipient db =
     filter (\<lambda>m. ml_recipient m = recipient \<and> ml_status m = Pending) (md_mailbox db)"

definition ms_enqueue :: "string \<Rightarrow> string \<Rightarrow> string \<Rightarrow> MasterDb \<Rightarrow> (nat \<times> MasterDb) option" where
  "ms_enqueue sender recipient text db =
     (if length (pending_for recipient db) < 100
      then map_option (\<lambda>db'. (length (md_mailbox db'), db')) (mail_insert sender recipient text db)
      else None)"

definition has_pending_message :: "string \<Rightarrow> MasterDb \<Rightarrow> bool" where
  "has_pending_message recipient db \<longleftrightarrow> pending_for recipient db \<noteq> []"

definition ms_claim :: "string \<Rightarrow> MasterDb \<Rightarrow> (nat \<times> string \<times> string) option \<times> MasterDb" where
  "ms_claim recipient db =
     (case pending_for recipient db of
        [] \<Rightarrow> (None, db)
      | m # _ \<Rightarrow> (Some (ml_id m, ml_sender m, ml_message m),
                  on_mail (ml_id m) (\<lambda>m. m\<lparr>ml_status := Dispatching\<rparr>) db))"

definition message_status :: "nat \<Rightarrow> MailStatus \<Rightarrow> MasterDb \<Rightarrow> MasterDb" where
  "message_status mid st db = on_mail mid (\<lambda>m. m\<lparr>ml_status := st\<rparr>) db"

definition stage_delivery :: "nat \<Rightarrow> string \<Rightarrow> Json \<Rightarrow> MasterDb \<Rightarrow> MasterDb" where
  "stage_delivery mid prompt ev db = on_mail mid (\<lambda>m. m\<lparr>ml_delivery := Some (prompt, ev)\<rparr>) db"

definition cancel_operator_message :: "string \<Rightarrow> nat \<Rightarrow> MasterDb \<Rightarrow> MasterDb option" where
  "cancel_operator_message recipient mid db =
     (if list_ex (\<lambda>m. ml_id m = mid \<and> ml_recipient m = recipient \<and> ml_sender m = ''operator'' \<and>
                      ml_status m = Pending) (md_mailbox db)
      then Some (message_status mid Cancelled db) else None)"

definition operator_queue :: "string \<Rightarrow> MasterDb \<Rightarrow> (nat \<times> string \<times> MailStatus) list" where
  "operator_queue recipient db =
     map (\<lambda>m. (ml_id m, ml_message m, ml_status m))
       (filter (\<lambda>m. ml_recipient m = recipient \<and> ml_sender m = ''operator'' \<and>
                    ml_status m \<in> {Pending, Dispatching, Uncertain}) (md_mailbox db))"

definition ms_mailbox :: "string \<Rightarrow> MasterDb \<Rightarrow> Mail list" where
  "ms_mailbox sid db =
     take 100 (rev (filter (\<lambda>m. ml_sender m = sid \<or> ml_recipient m = sid) (md_mailbox db)))"

text \<open>
  \<^verbatim>\<open>record_swarm_event\<close>: the prompt pi echoes is recorded as the event staged for it; false
  where none was.
\<close>

definition record_swarm_event :: "string \<Rightarrow> string \<Rightarrow> MasterDb \<Rightarrow> bool \<times> MasterDb" where
  "record_swarm_event recipient prompt db =
     (case filter (\<lambda>m. ml_recipient m = recipient \<and> map_option fst (ml_delivery m) = Some prompt) (md_mailbox db) of
        [] \<Rightarrow> (False, db)
      | m # _ \<Rightarrow> (case ml_delivery m of
          None \<Rightarrow> (False, db)
        | Some (_, ev) \<Rightarrow>
            (True, on_mail (ml_id m) (\<lambda>m. m\<lparr>ml_delivery := None\<rparr>)
                     (db\<lparr>md_events := md_events db @ [(recipient, ev)]\<rparr>))))"

text \<open>The first statement of \<^verbatim>\<open>recover\<close>.\<close>

definition fence_dispatching :: "MasterDb \<Rightarrow> MasterDb" where
  "fence_dispatching db =
     db\<lparr>md_mailbox := map (\<lambda>m. if ml_status m = Dispatching then m\<lparr>ml_status := Uncertain\<rparr> else m) (md_mailbox db)\<rparr>"

section \<open>Access-control lists\<close>

definition set_swarm_policy :: "string \<Rightarrow> Acl \<Rightarrow> MasterDb \<Rightarrow> MasterDb" where
  "set_swarm_policy scope a db =
     db\<lparr>md_policy := (if acl_is_empty a then AList.delete scope (md_policy db)
                      else AList.update scope a (md_policy db))\<rparr>"

definition get_swarm_policy :: "string \<Rightarrow> MasterDb \<Rightarrow> Acl" where
  "get_swarm_policy scope db = (case map_of (md_policy db) scope of Some a \<Rightarrow> a | None \<Rightarrow> acl_default)"

definition swarm_name :: "Session \<Rightarrow> MasterDb \<Rightarrow> string" where
  "swarm_name s db =
     (case Option.bind (ss_swarm s) (\<lambda>w. ms_get (sw_root w) db) of Some r \<Rightarrow> ss_name r | None \<Rightarrow> [])"

section \<open>Board\<close>

definition post_at :: "string \<Rightarrow> string \<Rightarrow> Post \<Rightarrow> bool" where
  "post_at scope path p \<longleftrightarrow> po_scope p = scope \<and> po_path p = path"

datatype BoardError = BoardFull | PostExists | NoPost

definition board_create ::
  "nat \<Rightarrow> string \<Rightarrow> string \<Rightarrow> string \<Rightarrow> string \<Rightarrow> MasterDb \<Rightarrow> (BoardError, MasterDb) result" where
  "board_create now scope path author body db =
     (if length (filter (\<lambda>p. po_scope p = scope) (md_board db)) \<ge> 1000 then Err BoardFull
      else if list_ex (post_at scope path) (md_board db) then Err PostExists
      else Ok (db\<lparr>md_board := md_board db @
        [\<lparr>po_scope = scope, po_path = path, po_author = author, po_updated_by = author, po_body = body,
          po_created_at = now, po_updated_at = now\<rparr>]\<rparr>))"

definition board_update ::
  "nat \<Rightarrow> string \<Rightarrow> string \<Rightarrow> string \<Rightarrow> string \<Rightarrow> MasterDb \<Rightarrow> (BoardError, MasterDb) result" where
  "board_update now scope path editor body db =
     (if list_ex (post_at scope path) (md_board db)
      then Ok (db\<lparr>md_board := map (\<lambda>p. if post_at scope path p
             then p\<lparr>po_body := body, po_updated_by := editor, po_updated_at := now\<rparr> else p) (md_board db)\<rparr>)
      else Err NoPost)"

definition board_delete :: "string \<Rightarrow> string \<Rightarrow> MasterDb \<Rightarrow> (BoardError, MasterDb) result" where
  "board_delete scope path db =
     (if list_ex (post_at scope path) (md_board db)
      then Ok (db\<lparr>md_board := filter (\<lambda>p. \<not> post_at scope path p) (md_board db)\<rparr>) else Err NoPost)"

definition board_read :: "string \<Rightarrow> string \<Rightarrow> MasterDb \<Rightarrow> Post option" where
  "board_read scope path db = find (post_at scope path) (md_board db)"

text \<open>SQL's \<^verbatim>\<open>length\<close> of a text: its characters up to the first NUL.\<close>

definition sql_length :: "string \<Rightarrow> nat" where
  "sql_length s = length (filter (\<lambda>c. byte c < 128 \<or> 192 \<le> byte c) (takeWhile (\<lambda>c. byte c \<noteq> 0) s))"

definition under_dir :: "string \<Rightarrow> string \<Rightarrow> bool" where
  "under_dir dir path \<longleftrightarrow> dir = [] \<or> path = dir \<or> starts_with (dir @ ''/'') path"

definition board_list :: "string \<Rightarrow> string \<Rightarrow> MasterDb \<Rightarrow> (Post \<times> nat) list" where
  "board_list scope dir db =
     map (\<lambda>p. (p, sql_length (po_body p)))
       (sort_key po_path (filter (\<lambda>p. po_scope p = scope \<and> under_dir dir (po_path p)) (md_board db)))"

text \<open>\<^verbatim>\<open>board_path\<close>: the path a post is kept under.\<close>

fun has_control :: "string \<Rightarrow> bool" where
  "has_control (c # d # s) =
     (byte c < 32 \<or> byte c = 127 \<or> (byte c = 194 \<and> 128 \<le> byte d \<and> byte d < 160) \<or> has_control (d # s))"
| "has_control [c] = (byte c < 32 \<or> byte c = 127)"
| "has_control [] = False"

definition trim_matches :: "char \<Rightarrow> string \<Rightarrow> string" where
  "trim_matches d s = trim_end_matches d (dropWhile (\<lambda>c. c = d) s)"

datatype PathError = PathLength | PathControl | PathTooDeep | PathSegment | PathSegmentLong

fun check_segments :: "string list \<Rightarrow> (PathError, unit) result" where
  "check_segments [] = Ok ()"
| "check_segments (seg # segs) =
     ensure (seg \<noteq> [] \<and> seg \<noteq> ''.'' \<and> seg \<noteq> ''..'') PathSegment
    (ensure (length seg \<le> 128) PathSegmentLong (check_segments segs))"

definition board_path :: "string \<Rightarrow> (PathError, string) result" where
  "board_path raw =
     (let path = trim_matches CHR ''/'' (trim raw); segs = split_on CHR ''/'' path in
      ensure (path \<noteq> [] \<and> length path \<le> 512) PathLength
     (ensure (\<not> has_control path) PathControl
     (ensure (length segs \<le> 16) PathTooDeep
     (and_then (check_segments segs) (\<lambda>_. Ok path)))))"

end
