(* ===== verification/Iso_Engine.thy ===== *)
theory Iso_Engine
  imports Iso_Master
begin

text \<open>
  The master's engine (\<^verbatim>\<open>engine.rs\<close>): every operation as a program of atomic actions, since
  other operations run beside it. An action is one statement of the store, one access to a
  map in memory, taking or dropping an async lock, one call of a control plane, or one
  command to an agent process; the program goes on from the reply. Futures joined by
  \<^verbatim>\<open>join_all\<close> that call planes are made in list order here.
\<close>

section \<open>Errors, actions, programs\<close>

datatype MasterError =
    Anyhow string
  | NoSuchSession
  | NameLength
  | SelectPlanner
  | SelectWorker
  | ModelNotEnabled
  | NoSwarmName
  | AgentLimit
  | NoPlaneWithCapacity
  | PlaneNotConfigured
  | NoWorkspace
  | MessageLength
  | HarnessCommand
  | WaitForStartup
  | NotIdle
  | AgentDisconnected
  | PromptUnknown
  | NotInterrupted
  | RecoveryFailed
  | NotWorking
  | CannotStop
  | StopNotConfirmed
  | OnlyIdleSleep
  | UnresolvedAllocations
  | ChildrenFirst
  | HierarchyIncomplete "(string \<times> MasterError) list"
  | NotAmbiguous
  | LabelCount nat
  | NotRetriable
  | LabelTaken
  | PlaneFull
  | AllocationUnknownAgain
  | InvalidToken
  | WorkerInactive
  | NotASwarm
  | BadEgress
  | BadPath PathError
  | BodyLength
  | OnBoard BoardError
  | TaskLength
  | ParentInactive
  | NotPlanner
  | DepthLimit
  | SizeLimit
  | NotOwnChild
  | NotVertical
  | RecipientClosed
  | SwarmModelsFixed
  | WaitToFinish
  | InvalidModel

datatype LockName = SessionLock string | Placement | LaunchGate | SwarmGate

datatype WriteOp =
    W_Insert Session
  | W_Event string Json
  | W_Status nat MailStatus
  | W_Stage nat string Json
  | W_Cancel string nat
  | W_Policy string Acl
  | W_Fence
  | W_Echo string string

datatype BoardOp = B_Post string string string string | B_Update string string string string | B_Delete string string

datatype MemAct =
    AddToken string string
  | DropToken string
  | AddWorker string
  | DropWorker string
  | ClearTokens
  | TakeWorkers

datatype MAct =
    A_Now
  | A_Uuid
  | A_Read
  | A_Update string Upd
  | A_Write WriteOp
  | A_Board BoardOp
  | A_Enqueue string string string
  | A_Claim string
  | A_Workers
  | A_Tokens
  | A_Mem MemAct
  | A_Lock LockName
  | A_TryLock LockName
  | A_Unlock LockName
  | P_List string
  | P_Create string string Json
  | P_Get string string
  | P_Action string string string
  | P_Ready string string
  | P_Policy string string Json
  | Pi_Start string string "string option" "Json option"
  | Pi_Prompt string string
  | Pi_Model string string string
  | Pi_Close string

text \<open>Replies; one of another kind than the action's is read as a failure.\<close>

datatype MReply =
    R_Fail MasterError
  | R_Unit
  | R_Bool bool
  | R_Nat nat
  | R_Text string
  | R_Db MasterDb
  | R_Session Session
  | R_Mail "(nat \<times> string \<times> string) option"
  | R_Ids "string list"
  | R_Tokens "(string \<times> string) list"
  | R_Json Json
  | R_Jsons "Json list"

datatype 'a mprog = MRet 'a | MDo MAct "MReply \<Rightarrow> 'a mprog"

primrec mbind :: "'a mprog \<Rightarrow> ('a \<Rightarrow> 'b mprog) \<Rightarrow> 'b mprog" where
  "mbind (MRet x) f = f x"
| "mbind (MDo a k) f = MDo a (\<lambda>r. mbind (k r) f)"

type_synonym 'a mres = "(MasterError, 'a) result mprog"

text \<open>\<^verbatim>\<open>?\<close>, \<^verbatim>\<open>ensure!\<close> and the guard of a lock.\<close>

definition mtry :: "'a mres \<Rightarrow> ('a \<Rightarrow> 'b mres) \<Rightarrow> 'b mres" where
  "mtry p f = mbind p (\<lambda>r. case r of Inl e \<Rightarrow> MRet (Inl e) | Inr x \<Rightarrow> f x)"

definition mensure :: "bool \<Rightarrow> MasterError \<Rightarrow> 'a mres \<Rightarrow> 'a mres" where
  "mensure b e p = (if b then p else MRet (Err e))"

definition mdo :: "MAct \<Rightarrow> 'a mprog \<Rightarrow> 'a mprog" where
  "mdo a p = MDo a (\<lambda>_. p)"

definition with_lock :: "LockName \<Rightarrow> 'a mprog \<Rightarrow> 'a mprog" where
  "with_lock l p = mdo (A_Lock l) (mbind p (\<lambda>x. mdo (A_Unlock l) (MRet x)))"

definition mfail :: "MReply \<Rightarrow> (MasterError, 'a) result" where
  "mfail r = Err (case r of R_Fail e \<Rightarrow> e | _ \<Rightarrow> Anyhow [])"

definition unit_act :: "MAct \<Rightarrow> unit mres" where
  "unit_act a = MDo a (\<lambda>r. MRet (case r of R_Unit \<Rightarrow> Ok () | _ \<Rightarrow> mfail r))"

definition read_db :: "MasterDb mres" where
  "read_db = MDo A_Read (\<lambda>r. MRet (case r of R_Db db \<Rightarrow> Ok db | _ \<Rightarrow> mfail r))"

definition get_session :: "string \<Rightarrow> Session mres" where
  "get_session sid = mtry read_db (\<lambda>db. MRet (case ms_get sid db of Some s \<Rightarrow> Ok s | None \<Rightarrow> Err NoSuchSession))"

definition list_sessions :: "Session list mres" where
  "list_sessions = mtry read_db (\<lambda>db. MRet (Ok (ms_list db)))"

definition update_session :: "string \<Rightarrow> Upd \<Rightarrow> Session mres" where
  "update_session sid u = MDo (A_Update sid u) (\<lambda>r. MRet (case r of R_Session s \<Rightarrow> Ok s | _ \<Rightarrow> mfail r))"

definition set_phase :: "string \<Rightarrow> Phase \<Rightarrow> Session mres" where
  "set_phase sid p = update_session sid (SetPhase p)"

definition event :: "string \<Rightarrow> Json \<Rightarrow> unit mres" where
  "event sid data = unit_act (A_Write (W_Event sid data))"

definition tell :: "string \<Rightarrow> string \<Rightarrow> unit mres" where
  "tell sid text = event sid (notice text)"

text \<open>\<^verbatim>\<open>interrupt\<close> ignores both results.\<close>

definition interrupt :: "string \<Rightarrow> string \<Rightarrow> unit mprog" where
  "interrupt sid why =
     mdo (A_Update sid (Interrupt why)) (mdo (A_Write (W_Event sid (notice why))) (MRet ()))"

definition after :: "unit mprog \<Rightarrow> 'a mprog \<Rightarrow> 'a mprog" where
  "after p q = mbind p (\<lambda>_. q)"

definition now_q :: "(nat \<Rightarrow> 'a mprog) \<Rightarrow> 'a mprog" where
  "now_q k = MDo A_Now (\<lambda>r. k (case r of R_Nat n \<Rightarrow> n | _ \<Rightarrow> 0))"

definition uuid_q :: "(string \<Rightarrow> 'a mprog) \<Rightarrow> 'a mprog" where
  "uuid_q k = MDo A_Uuid (\<lambda>r. k (case r of R_Text t \<Rightarrow> t | _ \<Rightarrow> []))"

definition workers_q :: "(string list \<Rightarrow> 'a mprog) \<Rightarrow> 'a mprog" where
  "workers_q k = MDo A_Workers (\<lambda>r. k (case r of R_Ids ws \<Rightarrow> ws | _ \<Rightarrow> []))"

definition plane_of :: "MasterConfig \<Rightarrow> string \<Rightarrow> (MasterError, PlaneConfig) result" where
  "plane_of cfg pid =
     (case find (\<lambda>p. pl_id p = pid) (mc_planes cfg) of Some p \<Rightarrow> Ok p | None \<Rightarrow> Err PlaneNotConfigured)"

definition vm_of :: "Session \<Rightarrow> (MasterError, string) result" where
  "vm_of s = (case ss_vm s of Some vm \<Rightarrow> Ok vm | None \<Rightarrow> Err NoWorkspace)"

definition plane_list :: "string \<Rightarrow> Json list mres" where
  "plane_list pid = MDo (P_List pid) (\<lambda>r. MRet (case r of R_Jsons vs \<Rightarrow> Ok vs | _ \<Rightarrow> mfail r))"

definition plane_get :: "string \<Rightarrow> string \<Rightarrow> Json mres" where
  "plane_get pid vm = MDo (P_Get pid vm) (\<lambda>r. MRet (case r of R_Json v \<Rightarrow> Ok v | _ \<Rightarrow> mfail r))"

section \<open>Planes\<close>

definition json_strs :: "string list \<Rightarrow> Json" where
  "json_strs xs = JArr (map JStr xs)"

definition json_opt :: "string option \<Rightarrow> Json" where
  "json_opt x = (case x of Some s \<Rightarrow> JStr s | None \<Rightarrow> JNull)"

text \<open>The request of \<^verbatim>\<open>Plane::create\<close>: the list overrides the plane's defaults where it sets them.\<close>

definition create_body :: "PlaneConfig \<Rightarrow> string \<Rightarrow> string \<Rightarrow> Acl \<Rightarrow> Json" where
  "create_body pc sid name a =
     JObj [(''template'', JStr (pl_template pc)),
       (''egress'', JStr (case acl_egress a of Some e \<Rightarrow> if e = [] then pl_egress pc else e | None \<Rightarrow> pl_egress pc)),
       (''allow'', json_strs (if acl_allow a = [] \<and> acl_rules a = [] then pl_allow pc else acl_allow a)),
       (''rules'', json_strs (acl_rules a)),
       (''principal'', json_opt (pl_principal pc)),
       (''lifecycle'', JStr ''durable''),
       (''restart'', JStr ''never''),
       (''labels'', JObj [(''name'', JStr name), (''managed-by'', JStr ''iso-master''), (''master-session'', JStr sid)])]"

definition policy_body :: "Acl \<Rightarrow> Json" where
  "policy_body a = JObj [(''egress'', json_opt (acl_egress a)), (''allow'', json_strs (acl_allow a)),
                         (''rules'', json_strs (acl_rules a))]"

definition plane_create :: "PlaneConfig \<Rightarrow> string \<Rightarrow> string \<Rightarrow> Acl \<Rightarrow> string mres" where
  "plane_create pc sid name a =
     MDo (P_Create (pl_id pc) sid (create_body pc sid name a))
       (\<lambda>r. MRet (case r of R_Text vm \<Rightarrow> Ok vm | _ \<Rightarrow> mfail r))"

definition labelled :: "string \<Rightarrow> Json \<Rightarrow> bool" where
  "labelled sid v \<longleftrightarrow> json_index (json_index v ''labels'') ''master-session'' = JStr sid"

section \<open>Models\<close>

text \<open>\<open>disc\<close> is what pi reported at startup.\<close>

definition models :: "MasterConfig \<Rightarrow> string list \<Rightarrow> string list" where
  "models cfg disc =
     remdups_adj (sort
       ((if disc = [] then config_models cfg
         else if mc_pi_models cfg = [] then disc
         else filter (\<lambda>m. m \<in> set (config_models cfg)) disc)
        @ (case mc_pi_model cfg of Some m \<Rightarrow> [m] | None \<Rightarrow> [])))"

definition validate_model :: "MasterConfig \<Rightarrow> string list \<Rightarrow> string option \<Rightarrow> bool" where
  "validate_model cfg disc m \<longleftrightarrow> (case m of Some x \<Rightarrow> x \<in> set (models cfg disc) | None \<Rightarrow> True)"

section \<open>Starting an agent\<close>

definition ellipsis :: string where
  "ellipsis = [CHR 0xE2, CHR 0x80, CHR 0xA6]"

definition swarm_json :: "MasterConfig \<Rightarrow> Session \<Rightarrow> string \<Rightarrow> Json option" where
  "swarm_json cfg s tok =
     map_option (\<lambda>w. JObj [(''session'', JStr (ss_id s)), (''name'', JStr (ss_name s)), (''token'', JStr tok),
       (''socket'', JStr (mc_data_dir cfg @ ''/swarm.sock'')), (''role'', JStr (role_text (sw_role w))),
       (''parent'', json_opt (sw_parent w)), (''task'', JStr (sw_task w))]) (ss_swarm s)"

text \<open>The text of the errors that are shown: a plane's own, or that there is no such plane.\<close>

definition error_display :: "MasterError \<Rightarrow> string" where
  "error_display e =
     (case e of Anyhow t \<Rightarrow> t | PlaneNotConfigured \<Rightarrow> ''Control plane is no longer configured'' | _ \<Rightarrow> [])"

definition connect_agent :: "MasterConfig \<Rightarrow> Session \<Rightarrow> string \<Rightarrow> unit mres" where
  "connect_agent cfg s vm =
     uuid_q (\<lambda>tok.
       mdo (A_Mem (AddToken (ss_id s) tok))
      (mtry (tell (ss_id s) (''Workspace ready; connecting agent'' @ ellipsis)) (\<lambda>_.
       mbind (unit_act (Pi_Start (ss_id s) vm
                (case ss_model s of Some m \<Rightarrow> Some m | None \<Rightarrow> mc_pi_model cfg) (swarm_json cfg s tok)))
         (\<lambda>r. case r of
              Inl e \<Rightarrow> mdo (A_Mem (DropToken (ss_id s))) (MRet (Inl e))
            | Inr _ \<Rightarrow> mdo (A_Mem (AddWorker (ss_id s)))
                        (mtry (set_phase (ss_id s) Ph_Idle) (\<lambda>_. MRet (Ok ())))))))"

definition launch_body :: "MasterConfig \<Rightarrow> string \<Rightarrow> bool \<Rightarrow> unit mres" where
  "launch_body cfg sid recovering =
     workers_q (\<lambda>ws.
     mensure (below_limit (length ws) (mc_max_agents cfg)) AgentLimit
    (mtry (get_session sid) (\<lambda>s.
     mtry (MRet (plane_of cfg (ss_plane s))) (\<lambda>pc.
     mtry (MRet (vm_of s)) (\<lambda>vm.
     mtry (set_phase sid (if ss_phase s \<in> {Ph_Asleep, Ph_Stopped} then Ph_Waking else Ph_Starting)) (\<lambda>_.
     mtry (plane_get (pl_id pc) vm) (\<lambda>info.
     mtry (if recovering
           then mtry (tell sid ''Cold recovery: discarding suspended execution state; workspace disk and conversation are retained.'')
                  (\<lambda>_. unit_act (P_Action (pl_id pc) vm ''terminate''))
           else MRet (Ok ())) (\<lambda>_.
     mtry (if recovering \<or> json_index info ''state'' \<noteq> JStr ''running''
           then mtry (tell sid (''Starting workspace VM'' @ ellipsis)) (\<lambda>_. unit_act (P_Action (pl_id pc) vm ''start''))
           else MRet (Ok ())) (\<lambda>_.
     mtry (tell sid (''Checking guest and DNS readiness (up to 60 seconds)'' @ ellipsis)) (\<lambda>_.
     mbind (unit_act (P_Ready (pl_id pc) vm)) (\<lambda>r. case r of
         Inl e \<Rightarrow> mtry (tell sid (error_display e @
                    ''. Workspace retained; pi was not started and no prompts were replayed.'')) (\<lambda>_. MRet (Inl e))
       | Inr _ \<Rightarrow> connect_agent cfg s vm)))))))))))"

definition launch :: "MasterConfig \<Rightarrow> string \<Rightarrow> bool \<Rightarrow> unit mres" where
  "launch cfg sid recovering =
     (if mc_max_agents cfg = 0 then launch_body cfg sid recovering
      else with_lock LaunchGate (launch_body cfg sid recovering))"

definition stop_worker :: "string \<Rightarrow> unit mprog" where
  "stop_worker sid =
     mdo (A_Mem (DropToken sid))
    (MDo (A_Mem (DropWorker sid)) (\<lambda>r.
       if r = R_Bool True then mdo (Pi_Close sid) (MRet ()) else MRet ()))"

section \<open>Creating\<close>

definition swarm_names :: "string list" where
  "swarm_names = [''Aster'', ''Birch'', ''Cedar'', ''Dahlia'', ''Elm'', ''Finch'', ''Grove'', ''Hazel'', ''Iris'',
     ''Juniper'', ''Kestrel'', ''Laurel'', ''Maple'', ''Nova'', ''Orion'', ''Willow'']"

definition name_candidate :: "nat \<Rightarrow> string" where
  "name_candidate i =
     (let base = swarm_names ! (i mod 16) in
      if i < 16 then base else base @ ''-'' @ show_nat (i div 16 + 1))"

definition assign_name :: "Session list \<Rightarrow> string option" where
  "assign_name sessions =
     find (\<lambda>c. \<not> list_ex (\<lambda>s. eq_ignore_ascii_case (ss_name s) c) sessions)
       (map name_candidate [0..<Suc (length sessions)])"

text \<open>The planes that answered and have room, with the number of their VMs.\<close>

fun candidate_planes :: "PlaneConfig list \<Rightarrow> (nat \<times> PlaneConfig) list mprog" where
  "candidate_planes [] = MRet []"
| "candidate_planes (p # ps) =
     mbind (plane_list (pl_id p)) (\<lambda>r. mbind (candidate_planes ps) (\<lambda>cs.
       MRet (case r of
           Inr vs \<Rightarrow> if below_limit (length vs) (pl_max_vms p) then (length vs, p) # cs else cs
         | Inl _ \<Rightarrow> cs)))"

definition best_plane :: "(nat \<times> PlaneConfig) list \<Rightarrow> PlaneConfig option" where
  "best_plane cs = (case sort_key (\<lambda>(n, p). (n, pl_id p)) cs of [] \<Rightarrow> None | (_, p) # _ \<Rightarrow> Some p)"

definition fill_root :: "string \<Rightarrow> Swarm option \<Rightarrow> Swarm option" where
  "fill_root sid sw = map_option (\<lambda>w. if sw_root w = [] then w\<lparr>sw_root := sid\<rparr> else w) sw"

definition node_model :: "Swarm option \<Rightarrow> string option \<Rightarrow> string option" where
  "node_model sw m =
     (case sw of
        Some w \<Rightarrow> Some (if sw_role w = Planner then sw_planner_model w else sw_worker_model w)
      | None \<Rightarrow> m)"

definition policy_scope :: "Session \<Rightarrow> string" where
  "policy_scope s = (case ss_swarm s of Some w \<Rightarrow> sw_root w | None \<Rightarrow> ss_id s)"

definition new_session :: "string \<Rightarrow> string \<Rightarrow> string \<Rightarrow> string option \<Rightarrow> Swarm option \<Rightarrow> nat \<Rightarrow> nat \<Rightarrow> Session" where
  "new_session sid name pid m sw created active =
     \<lparr>ss_id = sid, ss_name = name, ss_plane = pid, ss_vm = None, ss_phase = Ph_Allocating, ss_created_at = created,
      ss_last_active = active, ss_error = None, ss_model = m, ss_swarm = sw\<rparr>"

definition could_not_start :: string where
  "could_not_start = ''Could not start pi. Check the configured executable, remote extension, and provider settings. Workspace retained.''"

text \<open>What follows the insert, under the session's lock.\<close>

definition allocate :: "MasterConfig \<Rightarrow> PlaneConfig \<Rightarrow> string \<Rightarrow> string \<Rightarrow> Acl \<Rightarrow> Session mres" where
  "allocate cfg pc sid name a =
     mbind (plane_create pc sid name a) (\<lambda>r. case r of
         Inl _ \<Rightarrow>
           mtry (set_phase sid Ph_AllocationUnknown) (\<lambda>_.
           mtry (tell sid ''Allocation outcome unknown. Reconcile by session label before creating another workspace.'') (\<lambda>_.
           get_session sid))
       | Inr vm \<Rightarrow>
           mtry (update_session sid (SetVm vm)) (\<lambda>_.
           mbind (launch cfg sid False) (\<lambda>r.
           after (case r of Inl _ \<Rightarrow> interrupt sid could_not_start | Inr _ \<Rightarrow> MRet ()) (get_session sid))))"

text \<open>\<^verbatim>\<open>set_swarm_policy\<close> is called only with a list that says something.\<close>

definition persist_acl :: "string \<Rightarrow> Acl \<Rightarrow> unit mres" where
  "persist_acl scope a = (if acl_is_empty a then MRet (Ok ()) else unit_act (A_Write (W_Policy scope a)))"

definition create_named ::
  "MasterConfig \<Rightarrow> string \<Rightarrow> string option \<Rightarrow> Swarm option \<Rightarrow> Acl \<Rightarrow> Session mres" where
  "create_named cfg name m sw a =
     workers_q (\<lambda>ws.
     mensure (below_limit (length ws) (mc_max_agents cfg)) AgentLimit
    (mbind (candidate_planes (mc_planes cfg)) (\<lambda>cs.
     mtry (MRet (case best_plane cs of Some p \<Rightarrow> Ok p | None \<Rightarrow> Err NoPlaneWithCapacity)) (\<lambda>pc.
     uuid_q (\<lambda>sid. now_q (\<lambda>created. now_q (\<lambda>active.
       let sw' = fill_root sid sw; s = new_session sid name (pl_id pc) (node_model sw' m) sw' created active in
       mtry (persist_acl (policy_scope s) a) (\<lambda>_.
       mtry (unit_act (A_Write (W_Insert s))) (\<lambda>_.
       with_lock (SessionLock sid) (allocate cfg pc sid name a))))))))))"

definition create_node ::
  "MasterConfig \<Rightarrow> string \<Rightarrow> string option \<Rightarrow> Swarm option \<Rightarrow> Acl \<Rightarrow> Session mres" where
  "create_node cfg name m sw a =
     mensure ((sw \<noteq> None \<or> trim name \<noteq> []) \<and> length name \<le> 120) NameLength
    (with_lock Placement
      (mtry (if trim name = []
             then mtry list_sessions (\<lambda>ss. MRet (case assign_name ss of Some n \<Rightarrow> Ok n | None \<Rightarrow> Err NoSwarmName))
             else MRet (Ok (trim name)))
        (\<lambda>n. create_named cfg n m sw a)))"

definition or_model :: "string option \<Rightarrow> string option \<Rightarrow> string option" where
  "or_model a b = (case a of Some x \<Rightarrow> Some x | None \<Rightarrow> b)"

definition create_options ::
  "MasterConfig \<Rightarrow> string list \<Rightarrow> string \<Rightarrow> CreateOptions \<Rightarrow> Session mres" where
  "create_options cfg disc name opts =
     (let m = or_model (co_model opts) (mc_pi_model cfg) in
      mensure (validate_model cfg disc m) ModelNotEnabled
     (if co_swarm opts
      then case or_model (co_planner_model opts) m of
          None \<Rightarrow> MRet (Err SelectPlanner)
        | Some pm \<Rightarrow> (case or_model (co_worker_model opts) m of
            None \<Rightarrow> MRet (Err SelectWorker)
          | Some wm \<Rightarrow>
              mensure (validate_model cfg disc (Some pm) \<and> validate_model cfg disc (Some wm)) ModelNotEnabled
             (create_node cfg name m
               (Some \<lparr>sw_root = [], sw_parent = None, sw_role = Planner, sw_depth = 0, sw_planner_model = pm,
                      sw_worker_model = wm, sw_task = []\<rparr>) (co_acl opts)))
      else create_node cfg name m None (co_acl opts)))"

section \<open>Prompts\<close>

definition prompt_locked :: "MasterConfig \<Rightarrow> string \<Rightarrow> string \<Rightarrow> unit mres" where
  "prompt_locked cfg sid text =
     mtry (get_session sid) (\<lambda>s.
     mbind (if ss_phase s \<in> {Ph_Asleep, Ph_Stopped} then launch cfg sid False else MRet (Ok ())) (\<lambda>woken.
     case woken of
       Inl e \<Rightarrow> after (interrupt sid ''Wake failed. The new prompt was not sent.'') (MRet (Inl e))
     | Inr _ \<Rightarrow>
         mtry (get_session sid) (\<lambda>s.
         mensure (ss_phase s = Ph_Idle) NotIdle
        (workers_q (\<lambda>ws.
         mensure (sid \<in> set ws) AgentDisconnected
        (mtry (set_phase sid Ph_Working) (\<lambda>_.
         mbind (unit_act (Pi_Prompt sid text)) (\<lambda>r. case r of
             Inl _ \<Rightarrow> after (interrupt sid
                 ''Prompt was not acknowledged. Recover before continuing; do not blindly resend.'') (MRet (Err PromptUnknown))
           | Inr _ \<Rightarrow> MRet (Ok ())))))))))"

definition submit_prompt :: "MasterConfig \<Rightarrow> string \<Rightarrow> string \<Rightarrow> unit mres" where
  "submit_prompt cfg sid text =
     mensure (trim text \<noteq> [] \<and> length text \<le> 100000) MessageLength
    (mensure (\<not> (starts_with ''/'' (trim_start text) \<or> starts_with ''!'' (trim_start text))) HarnessCommand
    (with_lock (SessionLock sid)
      (mtry (get_session sid) (\<lambda>s.
       mensure (ss_phase s \<in> {Ph_Idle, Ph_Asleep, Ph_Stopped, Ph_Working}) WaitForStartup
      (mtry (if ss_phase s = Ph_Working then MRet (Ok True)
             else mtry read_db (\<lambda>db. MRet (Ok (has_pending_message sid db)))) (\<lambda>queue.
       if queue
       then MDo (A_Enqueue ''operator'' sid text) (\<lambda>r. MRet (case r of R_Nat _ \<Rightarrow> Ok () | _ \<Rightarrow> mfail r))
       else prompt_locked cfg sid text))))))"

text \<open>\<open>dbg\<close> is the quoted form of a text that \<^verbatim>\<open>{:?}\<close> prints.\<close>

definition message_prompt ::
  "(string \<Rightarrow> string) \<Rightarrow> string \<Rightarrow> Session \<Rightarrow> string \<Rightarrow> MasterDb \<Rightarrow> (MasterError, string \<times> Json) result" where
  "message_prompt dbg sender recipient text db =
     (case ms_get sender db of
        None \<Rightarrow> Err NoSuchSession
      | Some from \<Rightarrow> (case ss_swarm from of
          None \<Rightarrow> Err NotASwarm
        | Some source \<Rightarrow> (case ss_swarm recipient of
            None \<Rightarrow> Err NotASwarm
          | Some target \<Rightarrow>
              ensure (sw_root source = sw_root target) NotVertical
             (if sw_parent target = Some sender \<or> sw_parent source = Some (ss_id recipient)
              then let rel = (if sw_parent target = Some sender then ''parent'' else ''child''); role = role_text (sw_role source) in
                Ok (''Message from your '' @ rel @ '' '' @ role @ '' '' @ dbg (ss_name from) @ '' (session '' @ sender @ ''):'' @
                      [CHR 0x0A] @ text,
                    JObj [(''type'', JStr ''swarm_message''), (''text'', JStr text),
                      (''source'', JObj [(''id'', JStr sender), (''name'', JStr (ss_name from)), (''role'', JStr role),
                                         (''relationship'', JStr rel)])])
              else Err NotVertical))))"

text \<open>What \<^verbatim>\<open>deliver_messages\<close> does for one session, beside the others.\<close>

definition deliver_claimed ::
  "MasterConfig \<Rightarrow> (string \<Rightarrow> string) \<Rightarrow> Session \<Rightarrow> nat \<Rightarrow> string \<Rightarrow> string \<Rightarrow> unit mprog" where
  "deliver_claimed cfg dbg s mid sender text =
     mbind (if sender = ''operator''
            then MRet (Ok (text, JObj [(''type'', JStr ''message''), (''role'', JStr ''user''), (''text'', JStr text)]))
            else mtry read_db (\<lambda>db. MRet (message_prompt dbg sender s text db)))
      (\<lambda>p. mbind (mtry (MRet p) (\<lambda>(prompt, ev).
              mtry (unit_act (A_Write (W_Stage mid prompt ev))) (\<lambda>_. prompt_locked cfg (ss_id s) prompt)))
      (\<lambda>r. mdo (A_Write (W_Status mid (case r of Inr _ \<Rightarrow> Delivered | Inl _ \<Rightarrow> Uncertain))) (MRet ())))"

definition deliver_one :: "MasterConfig \<Rightarrow> (string \<Rightarrow> string) \<Rightarrow> string \<Rightarrow> unit mprog" where
  "deliver_one cfg dbg sid =
     MDo (A_TryLock (SessionLock sid)) (\<lambda>got.
       if got \<noteq> R_Bool True then MRet ()
       else mbind (mbind (get_session sid) (\<lambda>r. case r of
           Inl _ \<Rightarrow> MRet ()
         | Inr s \<Rightarrow>
             if ss_phase s \<notin> {Ph_Idle, Ph_Asleep, Ph_Stopped} then MRet ()
             else MDo (A_Claim sid) (\<lambda>c. case c of
                 R_Mail (Some (mid, sender, text)) \<Rightarrow> deliver_claimed cfg dbg s mid sender text
               | _ \<Rightarrow> MRet ())))
         (\<lambda>_. mdo (A_Unlock (SessionLock sid)) (MRet ())))"

text \<open>\<^verbatim>\<open>pi_event\<close>, on what an agent process prints.\<close>

definition content_text :: "Json \<Rightarrow> string" where
  "content_text c =
     (case as_str c of Some t \<Rightarrow> t
      | None \<Rightarrow> join_with (CHR 0x0A) (List.map_filter (\<lambda>x. as_str (json_index x ''text''))
          (filter (\<lambda>x. json_index x ''type'' = JStr ''text'') (case as_array c of Some xs \<Rightarrow> xs | None \<Rightarrow> []))))"

definition pi_display :: "string \<Rightarrow> Json \<Rightarrow> Json option" where
  "pi_display kind ev =
     (let fld = json_index ev in
      if kind = ''message_start'' \<and> json_index (fld ''message'') ''role'' = JStr ''assistant''
      then Some (JObj [(''type'', JStr ''assistant_start'')])
      else if kind = ''message_update'' \<and> json_index (fld ''assistantMessageEvent'') ''type'' = JStr ''text_delta''
      then Some (JObj [(''type'', JStr ''delta''), (''text'', json_index (fld ''assistantMessageEvent'') ''delta'')])
      else if kind = ''tool_execution_start''
      then Some (JObj [(''type'', JStr ''tool_start''), (''id'', fld ''toolCallId''), (''name'', fld ''toolName''), (''args'', fld ''args'')])
      else if kind = ''tool_execution_end''
      then Some (JObj [(''type'', JStr ''tool_end''), (''id'', fld ''toolCallId''), (''name'', fld ''toolName''),
                       (''result'', fld ''result''), (''isError'', fld ''isError'')])
      else None)"

definition pi_event :: "string \<Rightarrow> Json \<Rightarrow> unit mprog" where
  "pi_event sid ev =
     (let kind = (case as_str (json_index ev ''type'') of Some t \<Rightarrow> t | None \<Rightarrow> []) in
      if kind = ''agent_settled'' then mdo (A_Update sid Settle) (MRet ())
      else if kind = ''message_end''
      then let m = json_index ev ''message''; role = as_str (json_index m ''role''); text = content_text (json_index m ''content'');
        say = mdo (A_Write (W_Event sid (JObj [(''type'', JStr ''message''), (''role'', json_index m ''role''),
                (''text'', JStr text), (''error'', json_index m ''errorMessage'')]))) (MRet ())
       in if role = Some ''user''
          then MDo (A_Write (W_Echo sid text)) (\<lambda>r. if r = R_Bool True then MRet () else say)
          else if role = Some ''assistant'' then say else MRet ()
      else case pi_display kind ev of
          Some d \<Rightarrow> mdo (A_Write (W_Event sid d)) (MRet ())
        | None \<Rightarrow> MRet ())"

section \<open>Recovering and stopping\<close>

definition RESTART_INTERRUPT :: string where
  "RESTART_INTERRUPT = ''Master restarted during a live session. Recover will reboot the workspace without replaying prompts.''"

definition SHUTDOWN_INTERRUPT :: string where
  "SHUTDOWN_INTERRUPT = ''Master stopped. Recover to resume; no prompts will be replayed.''"

text \<open>\<^verbatim>\<open>Store::recover\<close>, which \<^verbatim>\<open>Engine::new\<close> runs first.\<close>

fun recover_sessions :: "Session list \<Rightarrow> unit mres" where
  "recover_sessions [] = MRet (Ok ())"
| "recover_sessions (s # ss) =
     (if ss_phase s = Ph_Allocating
      then mtry (set_phase (ss_id s) Ph_AllocationUnknown) (\<lambda>_. recover_sessions ss)
      else if ss_phase s \<notin> {Ph_Closed, Ph_Asleep, Ph_Stopped, Ph_AllocationUnknown, Ph_Interrupted}
      then after (interrupt (ss_id s) RESTART_INTERRUPT) (recover_sessions ss)
      else recover_sessions ss)"

definition recover_store :: "unit mres" where
  "recover_store = mtry (unit_act (A_Write W_Fence)) (\<lambda>_. mtry list_sessions recover_sessions)"

definition recover_session :: "MasterConfig \<Rightarrow> string \<Rightarrow> Session mres" where
  "recover_session cfg sid =
     with_lock (SessionLock sid)
      (mtry (get_session sid) (\<lambda>s.
       mensure (ss_phase s = Ph_Interrupted) NotInterrupted
      (after (stop_worker sid)
      (mbind (launch cfg sid True) (\<lambda>r. case r of
           Inl _ \<Rightarrow> after (interrupt sid ''Recovery failed; workspace retained. Restore plane connectivity and retry.'')
                     (MRet (Err RecoveryFailed))
         | Inr _ \<Rightarrow>
             mtry (tell sid ''Recovered pi history and rebooted the workspace to fence off previous commands. No prompts were replayed.'')
               (\<lambda>_. get_session sid))))))"

fun auto_recover_each :: "MasterConfig \<Rightarrow> Session list \<Rightarrow> unit mprog" where
  "auto_recover_each cfg [] = MRet ()"
| "auto_recover_each cfg (s # ss) =
     (if ss_phase s = Ph_Interrupted \<and> (ss_error s = Some RESTART_INTERRUPT \<or> ss_error s = Some SHUTDOWN_INTERRUPT)
      then mbind (recover_session cfg (ss_id s)) (\<lambda>_. auto_recover_each cfg ss)
      else auto_recover_each cfg ss)"

definition auto_recover :: "MasterConfig \<Rightarrow> unit mprog" where
  "auto_recover cfg =
     mbind list_sessions (\<lambda>r. case r of Inl _ \<Rightarrow> MRet () | Inr ss \<Rightarrow> auto_recover_each cfg ss)"

definition abort :: "MasterConfig \<Rightarrow> string \<Rightarrow> unit mres" where
  "abort cfg sid =
     with_lock (SessionLock sid)
      (mtry (get_session sid) (\<lambda>s.
       mensure (ss_phase s = Ph_Working) NotWorking
      (after (interrupt sid ''Agent stopped. Recover will reboot the workspace, retaining files and conversation.'')
      (after (stop_worker sid)
      (mtry (MRet (plane_of cfg (ss_plane s))) (\<lambda>pc.
       mtry (MRet (vm_of s)) (\<lambda>vm. unit_act (P_Action (pl_id pc) vm ''halt''))))))))"

text \<open>An action that must leave the VM stopped, and be seen to.\<close>

definition confirm_stopped :: "string \<Rightarrow> string \<Rightarrow> string \<Rightarrow> unit mres" where
  "confirm_stopped pid vm act =
     mtry (unit_act (P_Action pid vm act)) (\<lambda>_.
     mtry (plane_get pid vm) (\<lambda>v. MRet (if json_index v ''state'' = JStr ''stopped'' then Ok () else Err StopNotConfirmed)))"

definition em_dash :: string where
  "em_dash = [CHR 0xE2, CHR 0x80, CHR 0x94]"

definition stop_agent_vm :: "MasterConfig \<Rightarrow> string \<Rightarrow> unit mres" where
  "stop_agent_vm cfg sid =
     with_lock (SessionLock sid)
      (mtry (get_session sid) (\<lambda>s.
       mensure (ss_phase s \<in> {Ph_Idle, Ph_Working, Ph_Asleep, Ph_Stopped, Ph_Interrupted}) CannotStop
      (mtry (MRet (vm_of s)) (\<lambda>vm.
       mtry (set_phase sid Ph_Stopping) (\<lambda>_.
       mtry (tell sid ''Stopping VM; workspace files and conversation are retained.'') (\<lambda>_.
       after (stop_worker sid)
      (mtry (MRet (plane_of cfg (ss_plane s))) (\<lambda>pc.
       mbind (confirm_stopped (pl_id pc) vm ''terminate'') (\<lambda>r. case r of
           Inl e \<Rightarrow> after (interrupt sid
               ''VM stop not confirmed. Check the plane and retry Stop VM; no prompts will be replayed.'') (MRet (Inl e))
         | Inr _ \<Rightarrow> mtry (set_phase sid Ph_Stopped) (\<lambda>_.
             tell sid (''VM stopped; resources reclaimed. Workspace files and conversation are retained '' @ em_dash @
                       '' your next message cold-boots it.'')))))))))))"

definition sleep_locked :: "MasterConfig \<Rightarrow> string \<Rightarrow> unit mres" where
  "sleep_locked cfg sid =
     mtry (get_session sid) (\<lambda>s.
     mensure (ss_phase s = Ph_Idle) OnlyIdleSleep
    (mtry (set_phase sid Ph_Sleeping) (\<lambda>_.
     after (stop_worker sid)
    (mtry (MRet (plane_of cfg (ss_plane s))) (\<lambda>pc.
     mtry (MRet (vm_of s)) (\<lambda>vm.
     mbind (unit_act (P_Action (pl_id pc) vm ''suspend'')) (\<lambda>r. case r of
         Inl e \<Rightarrow> after (interrupt sid ''Suspend outcome unknown; recover to continue.'') (MRet (Inl e))
       | Inr _ \<Rightarrow> mtry (set_phase sid Ph_Asleep) (\<lambda>_.
           tell sid ''Workspace asleep. Your next message will wake it and resume the conversation.''))))))))"

definition sleep :: "MasterConfig \<Rightarrow> string \<Rightarrow> unit mres" where
  "sleep cfg sid = with_lock (SessionLock sid) (sleep_locked cfg sid)"

definition retire_suspension_locked :: "MasterConfig \<Rightarrow> string \<Rightarrow> unit mres" where
  "retire_suspension_locked cfg sid =
     mtry (get_session sid) (\<lambda>s. now_q (\<lambda>now.
     if ss_phase s \<noteq> Ph_Asleep \<or> mc_suspended_seconds cfg = 0 \<or> now - ss_last_active s < mc_suspended_seconds cfg
     then MRet (Ok ())
     else mtry read_db (\<lambda>db.
     if has_pending_message sid db then MRet (Ok ())
     else mtry (MRet (plane_of cfg (ss_plane s))) (\<lambda>pc.
     mtry (MRet (vm_of s)) (\<lambda>vm.
     mtry (set_phase sid Ph_Stopping) (\<lambda>_.
     mbind (confirm_stopped (pl_id pc) vm ''retire-suspension'') (\<lambda>r. case r of
         Inl e \<Rightarrow> after (interrupt sid ''Automatic shutdown not confirmed. Workspace retained; inspect the plane before explicit recovery. No prompts replayed.'') (MRet (Inl e))
       | Inr _ \<Rightarrow> mtry (set_phase sid Ph_Stopped) (\<lambda>_.
           tell sid ''Workspace shut down cleanly after suspension expiry. Suspension files released; the next new message will cold-boot the retained workspace.''))))))))"

definition try_locked :: "string \<Rightarrow> unit mprog \<Rightarrow> unit mprog" where
  "try_locked sid p =
     MDo (A_TryLock (SessionLock sid)) (\<lambda>got.
       if got = R_Bool True then after p (mdo (A_Unlock (SessionLock sid)) (MRet ())) else MRet ())"

definition ignore :: "'a mprog \<Rightarrow> unit mprog" where
  "ignore p = mbind p (\<lambda>_. MRet ())"

fun sweep_each :: "MasterConfig \<Rightarrow> Session list \<Rightarrow> unit mprog" where
  "sweep_each cfg [] = MRet ()"
| "sweep_each cfg (s # ss) =
     now_q (\<lambda>now.
     after (if ss_phase s = Ph_Asleep \<and> mc_suspended_seconds cfg > 0 \<and> now - ss_last_active s \<ge> mc_suspended_seconds cfg
            then try_locked (ss_id s) (ignore (retire_suspension_locked cfg (ss_id s))) else MRet ())
    (now_q (\<lambda>now'.
     after (if ss_phase s = Ph_Idle \<and> now' - ss_last_active s \<ge> mc_idle_seconds cfg
            then try_locked (ss_id s)
              (mbind (get_session (ss_id s)) (\<lambda>r. case r of
                  Inl _ \<Rightarrow> MRet ()
                | Inr cur \<Rightarrow> now_q (\<lambda>now''.
                    if ss_phase cur = Ph_Idle \<and> now'' - ss_last_active cur \<ge> mc_idle_seconds cfg
                    then ignore (sleep_locked cfg (ss_id s)) else MRet ())))
            else MRet ())
     (sweep_each cfg ss))))"

definition sweep :: "MasterConfig \<Rightarrow> unit mprog" where
  "sweep cfg = mbind list_sessions (\<lambda>r. case r of Inl _ \<Rightarrow> MRet () | Inr ss \<Rightarrow> sweep_each cfg ss)"

fun close_workers :: "string list \<Rightarrow> unit mprog" where
  "close_workers [] = MRet ()"
| "close_workers (w # ws) = mdo (Pi_Close w) (after (interrupt w SHUTDOWN_INTERRUPT) (close_workers ws))"

definition shutdown :: "unit mprog" where
  "shutdown =
     mdo (A_Mem ClearTokens)
    (MDo (A_Mem TakeWorkers) (\<lambda>r. close_workers (case r of R_Ids ws \<Rightarrow> ws | _ \<Rightarrow> [])))"

section \<open>Closing\<close>

text \<open>One pass of the loop in \<^verbatim>\<open>close_session\<close>, and the loop: until a pass adds nothing.\<close>

definition add_child :: "Session \<Rightarrow> string list \<Rightarrow> string list" where
  "add_child n ids =
     (case parent_of n of Some p \<Rightarrow> if p \<in> set ids then List.insert (ss_id n) ids else ids | None \<Rightarrow> ids)"

definition close_pass :: "Session list \<Rightarrow> string list \<Rightarrow> string list" where
  "close_pass sessions ids = fold add_child sessions ids"

lemma add_child_grows: "set ids \<subseteq> set (add_child n ids)"
  by (auto simp: add_child_def List.insert_def split: option.splits)

lemma close_pass_Cons: "close_pass (n # ns) ids = close_pass ns (add_child n ids)"
  by (simp add: close_pass_def)

lemma close_pass_grows: "set ids \<subseteq> set (close_pass sessions ids)"
proof (induction sessions arbitrary: ids)
  case (Cons n ns)
  show ?case using add_child_grows [of ids n] Cons.IH [of "add_child n ids"]
    unfolding close_pass_Cons by (rule subset_trans)
qed (simp add: close_pass_def)

lemma close_pass_ids: "set (close_pass sessions ids) \<subseteq> set ids \<union> ss_id ` set sessions"
proof (induction sessions arbitrary: ids)
  case (Cons n ns)
  have "set (add_child n ids) \<subseteq> insert (ss_id n) (set ids)"
    by (auto simp: add_child_def split: option.splits)
  with Cons [of "add_child n ids"] show ?case unfolding close_pass_Cons by fastforce
qed (simp add: close_pass_def)

lemma close_pass_longer:
  assumes "length (close_pass sessions ids) \<noteq> length ids"
  shows "set ids \<subset> set (close_pass sessions ids)"
proof -
  have "add_child n xs = xs \<or> set xs \<subset> set (add_child n xs)" for n xs
    by (auto simp: add_child_def List.insert_def split: option.splits)
  then have "fold add_child ns xs = xs \<or> set xs \<subset> set (fold add_child ns xs)" for ns xs
  proof (induction ns arbitrary: xs)
    case (Cons n ns) then show ?case by simp (metis psubset_trans)
  qed simp
  with assms show ?thesis unfolding close_pass_def by metis
qed

function subtree :: "Session list \<Rightarrow> string list \<Rightarrow> string list" where
  "subtree sessions ids =
     (let ids' = close_pass sessions ids in
      if length ids' = length ids then ids' else subtree sessions ids')"
  by pat_completeness auto
termination
proof (relation "measure (\<lambda>(sessions, ids). card (ss_id ` set sessions - set ids))", goal_cases)
  case (2 sessions ids ids')
  then have new: "set ids \<subset> set ids'" using close_pass_longer by simp
  moreover have "set ids' \<subseteq> set ids \<union> ss_id ` set sessions" using 2 close_pass_ids by simp
  ultimately have "ss_id ` set sessions - set ids' \<subset> ss_id ` set sessions - set ids" by blast
  then show ?case by (simp add: psubset_card_mono)
qed simp

declare subtree.simps [simp del]

definition close_nodes :: "Session list \<Rightarrow> string \<Rightarrow> Session list" where
  "close_nodes sessions sid =
     sort_key (\<lambda>s. - int (case ss_swarm s of Some w \<Rightarrow> sw_depth w | None \<Rightarrow> 0))
       (filter (\<lambda>s. ss_id s \<in> set (subtree sessions [sid]) \<and> ss_phase s \<noteq> Ph_Closed) sessions)"

fun fence_nodes :: "Session list \<Rightarrow> unit mres" where
  "fence_nodes [] = MRet (Ok ())"
| "fence_nodes (n # ns) =
     mtry (with_lock (SessionLock (ss_id n))
            (mtry (set_phase (ss_id n) Ph_Closing) (\<lambda>_. after (stop_worker (ss_id n)) (MRet (Ok ())))))
       (\<lambda>_. fence_nodes ns)"

definition not_confirmed :: string where
  "not_confirmed = ''Workspace deletion not confirmed. Retry Close after restoring connectivity.''"

definition close_one :: "MasterConfig \<Rightarrow> string \<Rightarrow> unit mres" where
  "close_one cfg sid =
     with_lock (SessionLock sid)
      (mtry (get_session sid) (\<lambda>s.
       if ss_phase s = Ph_Closed then MRet (Ok ())
       else mtry list_sessions (\<lambda>ss.
       mensure (\<not> list_ex (\<lambda>n. ss_phase n \<noteq> Ph_Closed \<and> parent_of n = Some sid) ss) ChildrenFirst
      (mensure (phase_check (ss_phase s) Ph_Closing) (Anyhow ''Invalid transition'')
      (mtry (set_phase sid Ph_Closing) (\<lambda>_.
       after (stop_worker sid)
      (mbind
        (mtry (MRet (plane_of cfg (ss_plane s))) (\<lambda>pc.
         mtry (MRet (vm_of s)) (\<lambda>vm.
         mtry (plane_list (pl_id pc)) (\<lambda>vs.
         if list_ex (\<lambda>v. json_index v ''id'' = JStr vm) vs
         then unit_act (P_Action (pl_id pc) vm ''destroy'') else MRet (Ok ())))))
        (\<lambda>r. case r of
            Inl e \<Rightarrow> mtry (update_session sid (SetError not_confirmed)) (\<lambda>_. MRet (Inl e))
          | Inr _ \<Rightarrow> mtry (set_phase sid Ph_Closed) (\<lambda>_. MRet (Ok ()))))))))))"

fun close_all :: "MasterConfig \<Rightarrow> Session list \<Rightarrow> (string \<times> MasterError) list mprog" where
  "close_all cfg [] = MRet []"
| "close_all cfg (n # ns) =
     mbind (close_one cfg (ss_id n)) (\<lambda>r.
     mbind (close_all cfg ns) (\<lambda>es.
     MRet (case r of Inl e \<Rightarrow> (ss_name n, e) # es | Inr _ \<Rightarrow> es)))"

definition close_session :: "MasterConfig \<Rightarrow> string \<Rightarrow> unit mres" where
  "close_session cfg sid =
     with_lock SwarmGate
      (mtry (get_session sid) (\<lambda>_.
       mtry list_sessions (\<lambda>ss.
       let nodes = close_nodes ss sid in
       mensure (list_all (\<lambda>s. ss_vm s \<noteq> None) nodes) UnresolvedAllocations
      (mtry (fence_nodes nodes) (\<lambda>_.
       mbind (close_all cfg nodes) (\<lambda>errs.
       MRet (if errs = [] then Ok () else Err (HierarchyIncomplete errs))))))))"

section \<open>Allocations whose outcome is unknown\<close>

definition reconcile :: "MasterConfig \<Rightarrow> string \<Rightarrow> Session mres" where
  "reconcile cfg sid =
     with_lock (SessionLock sid)
      (mtry (get_session sid) (\<lambda>s.
       mensure (ss_phase s = Ph_AllocationUnknown) NotAmbiguous
      (mtry (MRet (plane_of cfg (ss_plane s))) (\<lambda>pc.
       mtry (plane_list (pl_id pc)) (\<lambda>vs.
       case filter (labelled sid) vs of
         [v] \<Rightarrow> update_session sid (Adopt (as_str (json_index v ''id'')))
       | found \<Rightarrow> MRet (Err (LabelCount (length found))))))))"

definition retry_allocation :: "MasterConfig \<Rightarrow> string \<Rightarrow> Session mres" where
  "retry_allocation cfg sid =
     with_lock Placement (with_lock (SessionLock sid)
      (mtry (get_session sid) (\<lambda>s.
       mensure (ss_phase s = Ph_AllocationUnknown \<and> ss_vm s = None) NotRetriable
      (mtry (MRet (plane_of cfg (ss_plane s))) (\<lambda>pc.
       mtry (plane_list (pl_id pc)) (\<lambda>vs.
       mensure (\<not> list_ex (labelled sid) vs) LabelTaken
      (mensure (below_limit (length vs) (pl_max_vms pc)) PlaneFull
      (workers_q (\<lambda>ws.
       mensure (below_limit (length ws) (mc_max_agents cfg)) AgentLimit
      (mtry (set_phase sid Ph_Allocating) (\<lambda>_.
       mtry (tell sid ''Operator explicitly retried allocation after checking the plane. No prompts will be replayed.'') (\<lambda>_.
       mtry read_db (\<lambda>db.
       mbind (plane_create pc sid (ss_name s) (get_swarm_policy (policy_scope s) db)) (\<lambda>r. case r of
           Inl _ \<Rightarrow> mtry (set_phase sid Ph_AllocationUnknown) (\<lambda>_. MRet (Err AllocationUnknownAgain))
         | Inr vm \<Rightarrow>
             mtry (update_session sid (Allocated vm)) (\<lambda>_.
             mtry (tell sid ''Workspace allocated. Use Recover to start the agent; no prompts were replayed.'') (\<lambda>_.
             get_session sid))))))))))))))))"

section \<open>Swarms\<close>

definition worker_identity :: "string \<Rightarrow> string mres" where
  "worker_identity tok =
     MDo A_Tokens (\<lambda>r.
       case find (\<lambda>(_, t). t = tok) (case r of R_Tokens ts \<Rightarrow> ts | _ \<Rightarrow> []) of
         None \<Rightarrow> MRet (Err InvalidToken)
       | Some (sid, _) \<Rightarrow>
           mtry (get_session sid) (\<lambda>s.
           mensure (ss_phase s \<in> {Ph_Idle, Ph_Working, Ph_Starting, Ph_Waking}) WorkerInactive
          (mensure (ss_swarm s \<noteq> None) NotASwarm (MRet (Ok sid)))))"

definition tree_of :: "string \<Rightarrow> MasterDb \<Rightarrow> Session list" where
  "tree_of r db = filter (\<lambda>s. map_option sw_root (ss_swarm s) = Some r) (ms_list db)"

definition tree :: "string \<Rightarrow> Session list mres" where
  "tree sid =
     mtry (get_session sid) (\<lambda>s. case ss_swarm s of
         None \<Rightarrow> MRet (Err NotASwarm)
       | Some w \<Rightarrow> mtry read_db (\<lambda>db. MRet (Ok (tree_of (sw_root w) db))))"

definition get_acl :: "string \<Rightarrow> Acl mres" where
  "get_acl sid = mtry (get_session sid) (\<lambda>s. mtry read_db (\<lambda>db. MRet (Ok (get_swarm_policy (policy_scope s) db))))"

definition acl_mode_ok :: "Acl \<Rightarrow> bool" where
  "acl_mode_ok a \<longleftrightarrow> (case acl_egress a of Some m \<Rightarrow> m = [] \<or> m = ''proxy'' \<or> m = ''deny'' | None \<Rightarrow> True)"

text \<open>The fan-out; a member's outcome is whether the list was applied, or why it was not.\<close>

fun apply_acl :: "MasterConfig \<Rightarrow> Acl \<Rightarrow> Session list \<Rightarrow> (string \<times> string option) list mprog" where
  "apply_acl cfg a [] = MRet []"
| "apply_acl cfg a (s # ss) =
     mbind
      (case ss_vm s of
         Some vm \<Rightarrow>
           if ss_phase s \<in> {Ph_Idle, Ph_Working, Ph_Asleep, Ph_Starting}
           then mbind (mtry (MRet (plane_of cfg (ss_plane s))) (\<lambda>pc. unit_act (P_Policy (pl_id pc) vm (policy_body a)))) (\<lambda>r.
             case r of
               Inr _ \<Rightarrow> mdo (A_Write (W_Event (ss_id s) (notice ''Egress ACL updated by the operator.''))) (MRet (ss_name s, None))
             | Inl e \<Rightarrow> MRet (ss_name s, Some (error_display e)))
           else MRet (ss_name s, Some ''no live workspace'')
       | None \<Rightarrow> MRet (ss_name s, Some ''no live workspace''))
      (\<lambda>x. mbind (apply_acl cfg a ss) (\<lambda>xs. MRet (x # xs)))"

definition set_acl :: "MasterConfig \<Rightarrow> string \<Rightarrow> Acl \<Rightarrow> (string \<times> string option) list mres" where
  "set_acl cfg sid a =
     mensure (acl_mode_ok a) BadEgress
    (mtry (get_session sid) (\<lambda>s.
     mtry (unit_act (A_Write (W_Policy (policy_scope s) a))) (\<lambda>_.
     mtry list_sessions (\<lambda>ss.
     mbind (apply_acl cfg a (filter (\<lambda>m. policy_scope m = policy_scope s) ss)) (\<lambda>rs. MRet (Ok rs))))))"

definition board_scope :: "string \<Rightarrow> (string \<Rightarrow> 'a mres) \<Rightarrow> 'a mres" where
  "board_scope sid k = mtry (get_session sid) (\<lambda>s. k (case ss_swarm s of Some w \<Rightarrow> sw_root w | None \<Rightarrow> sid))"

definition checked_path :: "string \<Rightarrow> string mres" where
  "checked_path raw = MRet (map_err BadPath (board_path raw))"

definition body_ok :: "string \<Rightarrow> bool" where
  "body_ok body \<longleftrightarrow> trim body \<noteq> [] \<and> length body \<le> 64000"

definition engine_board_post :: "string \<Rightarrow> string \<Rightarrow> string \<Rightarrow> string mres" where
  "engine_board_post sid raw body =
     mtry (checked_path raw) (\<lambda>path.
     mensure (body_ok body) BodyLength
    (board_scope sid (\<lambda>scope. mtry (unit_act (A_Board (B_Post scope path sid body))) (\<lambda>_. MRet (Ok path)))))"

definition engine_board_update :: "string \<Rightarrow> string \<Rightarrow> string \<Rightarrow> string mres" where
  "engine_board_update sid raw body =
     mtry (checked_path raw) (\<lambda>path.
     mensure (body_ok body) BodyLength
    (board_scope sid (\<lambda>scope. mtry (unit_act (A_Board (B_Update scope path sid body))) (\<lambda>_. MRet (Ok path)))))"

definition engine_board_delete :: "string \<Rightarrow> string \<Rightarrow> string mres" where
  "engine_board_delete sid raw =
     mtry (checked_path raw) (\<lambda>path.
     board_scope sid (\<lambda>scope. mtry (unit_act (A_Board (B_Delete scope path))) (\<lambda>_. MRet (Ok path))))"

definition engine_board_read :: "string \<Rightarrow> string \<Rightarrow> Post mres" where
  "engine_board_read sid raw =
     board_scope sid (\<lambda>scope.
     mtry (checked_path raw) (\<lambda>path.
     mtry read_db (\<lambda>db. MRet (case board_read scope path db of Some p \<Rightarrow> Ok p | None \<Rightarrow> Err (OnBoard NoPost)))))"

definition engine_board_list :: "string \<Rightarrow> string \<Rightarrow> (Post \<times> nat) list mres" where
  "engine_board_list sid raw =
     mtry (if trim raw = [] then MRet (Ok []) else checked_path raw) (\<lambda>dir.
     board_scope sid (\<lambda>scope. mtry read_db (\<lambda>db. MRet (Ok (board_list scope dir db)))))"

definition child_swarm :: "Swarm \<Rightarrow> string \<Rightarrow> Role \<Rightarrow> string \<Rightarrow> Swarm" where
  "child_swarm p parent role task =
     \<lparr>sw_root = sw_root p, sw_parent = Some parent, sw_role = role, sw_depth = sw_depth p + 1,
      sw_planner_model = sw_planner_model p, sw_worker_model = sw_worker_model p, sw_task = task\<rparr>"

definition spawn_child :: "MasterConfig \<Rightarrow> string \<Rightarrow> string \<Rightarrow> Role \<Rightarrow> string \<Rightarrow> Session mres" where
  "spawn_child cfg parent name role task =
     mensure (trim task \<noteq> [] \<and> length task \<le> 32000) TaskLength
    (with_lock SwarmGate
      (mtry (get_session parent) (\<lambda>ps.
       mensure (ss_phase ps \<notin> {Ph_Closed, Ph_Closing, Ph_Interrupted}) ParentInactive
      (case ss_swarm ps of
         None \<Rightarrow> MRet (Err NotASwarm)
       | Some p \<Rightarrow>
           mensure (sw_role p = Planner) NotPlanner
          (mensure (sw_depth p < mc_swarm_max_depth cfg) DepthLimit
          (mtry (tree parent) (\<lambda>nodes.
           mensure (below_limit (length nodes) (mc_swarm_max_agents cfg)) SizeLimit
          (mtry read_db (\<lambda>db.
           mtry (create_node cfg name None (Some (child_swarm p parent role task)) (get_swarm_policy (sw_root p) db)) (\<lambda>child.
           mtry (tell parent (''Scheduled '' @ ss_name child @ '' ('' @ ss_id child @ '')'')) (\<lambda>_.
           MRet (Ok child))))))))))))"

definition swarm_stop :: "MasterConfig \<Rightarrow> string \<Rightarrow> string \<Rightarrow> unit mres" where
  "swarm_stop cfg caller target =
     mtry (get_session caller) (\<lambda>from. case ss_swarm from of
         None \<Rightarrow> MRet (Err NotASwarm)
       | Some planner \<Rightarrow>
           mensure (sw_role planner = Planner) NotPlanner
          (mtry (get_session target) (\<lambda>child. case ss_swarm child of
               None \<Rightarrow> MRet (Err NotASwarm)
             | Some c \<Rightarrow>
                 mensure (sw_root c = sw_root planner \<and> sw_parent c = Some caller) NotOwnChild
                (close_session cfg target))))"

definition send_message :: "string \<Rightarrow> string \<Rightarrow> string \<Rightarrow> nat mres" where
  "send_message sender recipient text =
     mensure (trim text \<noteq> [] \<and> length text \<le> 32000) MessageLength
    (mtry (get_session sender) (\<lambda>from.
     mtry (get_session recipient) (\<lambda>to. case ss_swarm from of
         None \<Rightarrow> MRet (Err NotASwarm)
       | Some a \<Rightarrow> (case ss_swarm to of
           None \<Rightarrow> MRet (Err NotASwarm)
         | Some b \<Rightarrow>
             mensure (sw_root a = sw_root b \<and> (sw_parent a = Some recipient \<or> sw_parent b = Some sender)) NotVertical
            (mensure (ss_phase to \<notin> {Ph_Closed, Ph_Closing}) RecipientClosed
            (MDo (A_Enqueue sender recipient text) (\<lambda>r. MRet (case r of R_Nat n \<Rightarrow> Ok n | _ \<Rightarrow> mfail r))))))))"

definition set_model :: "MasterConfig \<Rightarrow> string list \<Rightarrow> string \<Rightarrow> string \<Rightarrow> Session mres" where
  "set_model cfg disc sid m =
     mensure (validate_model cfg disc (Some m)) ModelNotEnabled
    (with_lock (SessionLock sid)
      (mtry (get_session sid) (\<lambda>s.
       mensure (ss_swarm s = None) SwarmModelsFixed
      (mensure (ss_phase s \<in> {Ph_Idle, Ph_Asleep, Ph_Stopped, Ph_Interrupted}) WaitToFinish
      (mtry (if ss_phase s = Ph_Idle
             then workers_q (\<lambda>ws.
               mensure (sid \<in> set ws) AgentDisconnected
              (case split_once ''/'' m of
                 None \<Rightarrow> MRet (Err InvalidModel)
               | Some (provider, name) \<Rightarrow> unit_act (Pi_Model sid provider name)))
             else MRet (Ok ())) (\<lambda>_.
       update_session sid (SetModel m)))))))"

end
