(* ===== verification/Iso_Swarm_Safety.thy ===== *)
theory Iso_Swarm_Safety
  imports Iso_Swarm
begin

text \<open>
  What holds of the master whatever is asked of it and in whatever order its operations run:
  swarms are trees, mail is vertical and handed out once, sessions follow their state machine.
\<close>

section \<open>Claims\<close>

lemma ext_row:
  assumes "ext db db'" "m \<in> set (md_mailbox db)"
  shows "\<exists>m' \<in> set (md_mailbox db'). mail_keeps m m'"
proof -
  from assms(1) obtain old new where o: "md_mailbox db' = old @ new" "list_all2 mail_keeps (md_mailbox db) old"
    unfolding ext_def by blast
  from assms(2) obtain i where i: "i < length (md_mailbox db)" "md_mailbox db ! i = m" by (auto simp: in_set_conv_nth)
  with o(2) have "mail_keeps m (old ! i)" "i < length old" by (auto simp: list_all2_conv_all_nth)
  with o(1) show ?thesis by (auto intro!: bexI [of _ "old ! i"])
qed

lemma claims_ext: "claims_wf db tr \<Longrightarrow> ext db db' \<Longrightarrow> claims_wf db' tr"
  unfolding claims_wf_def using ext_row by (metis mail_keeps_def)

lemma claim_pending:
  assumes "claim_exec sid db = (R_Mail (Some (mid, x)), db')"
  shows "(\<exists>m \<in> set (md_mailbox db). ml_id m = mid \<and> ml_status m = Pending) \<and>
    (\<exists>m \<in> set (md_mailbox db'). ml_id m = mid \<and> ml_status m \<noteq> Pending)"
proof -
  from assms obtain m ms where p: "pending_for sid db = m # ms" "mid = ml_id m"
      and db': "db' = on_mail mid (\<lambda>m. m\<lparr>ml_status := Dispatching\<rparr>) db"
    by (auto simp: claim_exec_def ms_claim_def split: list.splits)
  from p(1) have "m \<in> set (pending_for sid db)" by simp
  then have m: "m \<in> set (md_mailbox db)" "ml_status m = Pending" by (auto simp: pending_for_def)
  then have "m\<lparr>ml_status := Dispatching\<rparr> \<in> set (md_mailbox db')"
    using p(2) by (auto simp: db' on_mail_def image_iff intro!: bexI [of _ m])
  then have "\<exists>m' \<in> set (md_mailbox db'). ml_id m' = mid \<and> ml_status m' \<noteq> Pending"
    by (rule bexI [rotated]) (simp add: p(2))
  with m p(2) show ?thesis by blast
qed

lemma ids_distinct: "mdb_wf cfg db \<Longrightarrow> distinct (map ml_id (md_mailbox db))"
  by (simp add: mdb_wf_def del: upt_Suc)

lemma claims_step:
  assumes "claims_wf (me_db st) tr" "mdb_wf cfg (me_db st)" "serves jlen a st r st'" "ext (me_db st) (me_db st')"
  shows "claims_wf (me_db st') ((a, r) # tr)"
proof (cases "\<exists>sid mid x. a = A_Claim sid \<and> r = R_Mail (Some (mid, x))")
  case False
  then have "claimed ((a, r) # tr) = claimed tr" by (cases "(a, r) # tr" rule: claimed.cases) auto
  with claims_ext [OF assms(1,4)] show ?thesis by (simp add: claims_wf_def)
next
  case True
  then obtain sid mid x where ar: "a = A_Claim sid" "r = R_Mail (Some (mid, x))" by blast
  with assms(3) have "claim_exec sid (me_db st) = (R_Mail (Some (mid, x)), me_db st')"
    by (auto simp: sql_serves_def prod_eq_iff)
  note c = claim_pending [OF this]
  then obtain m where m: "m \<in> set (md_mailbox (me_db st))" "ml_id m = mid" "ml_status m = Pending" by blast
  have "mid \<notin> set (claimed tr)"
  proof
    assume "mid \<in> set (claimed tr)"
    with assms(1) obtain m' where "m' \<in> set (md_mailbox (me_db st))" "ml_id m' = mid" "ml_status m' \<noteq> Pending"
      unfolding claims_wf_def by blast
    with m ids_distinct [OF assms(2)] show False by (metis distinct_map inj_onD)
  qed
  with c claims_ext [OF assms(1,4)] show ?thesis by (simp add: claims_wf_def ar)
qed

section \<open>Every reachable state\<close>

definition move :: "(Json \<Rightarrow> nat) \<Rightarrow> MState \<times> (MAct \<times> MReply) list \<Rightarrow> unit mprog \<Rightarrow> MState \<times> (MAct \<times> MReply) list \<Rightarrow> unit mprog \<Rightarrow> bool" where
  "move jlen s p s' p' \<longleftrightarrow>
     (\<exists>a k r. p = MDo a k \<and> serves jlen a (fst s) r (fst s') \<and> snd s' = (a, r) # snd s \<and> p' = k r)"

definition minv :: "MasterConfig \<Rightarrow> MState \<times> (MAct \<times> MReply) list \<Rightarrow> bool" where
  "minv cfg s \<longleftrightarrow> mdb_wf cfg (me_db (fst s)) \<and> claims_wf (me_db (fst s)) (snd s)"

lemma serves_fits: "serves jlen a st r st' \<Longrightarrow> fits a r (me_db st')"
  by (cases a) (auto simp: fits_def sql_serves_def)

interpretation master: rely_guarantee "move jlen" "minv cfg" "\<lambda>s s'. ext (me_db (fst s)) (me_db (fst s'))"
    "\<lambda>s p. msafe cfg p (me_db (fst s))" for jlen cfg
proof (unfold_locales, goal_cases)
  case (1 s p s' p')
  then obtain a k r where m: "p = MDo a k" "serves jlen a (fst s) r (fst s')" "snd s' = (a, r) # snd s"
    by (auto simp: move_def)
  with 1 have w: "mdb_wf cfg (me_db (fst s')) \<and> ext (me_db (fst s)) (me_db (fst s'))"
    by (intro serves_wf) (auto simp: minv_def)
  with 1 m claims_step [of "fst s" "snd s" cfg jlen a r "fst s'"] show ?case by (simp add: minv_def)
next
  case (2 s p s' p')
  then show ?case using serves_wf by (auto simp: move_def minv_def)
next
  case (3 s p s' p')
  then obtain a k r where m: "p = MDo a k" "serves jlen a (fst s) r (fst s')" "p' = k r"
    by (auto simp: move_def)
  with 3 have "mdb_wf cfg (me_db (fst s')) \<and> ext (me_db (fst s)) (me_db (fst s'))"
    by (intro serves_wf) (auto simp: minv_def)
  with 3(2) m serves_fits [OF m(2)] show ?case by simp
next
  case (4 s p s')
  then show ?case by (rule safe_ext)
qed

lemma wf_empty: "mdb_wf cfg mdb_empty"
  by (simp add: mdb_wf_def mdb_empty_def swarm_at_def ms_get_def)

lemma mreach_inv:
  assumes "mreach cfg disc dbg jlen c"
  shows "minv cfg (mx_state c, mx_trace c) \<and> (\<forall>t. msafe cfg (mx_progs c t) (me_db (mx_state c)))"
  using assms unfolding mreach_def
proof (induction rule: rtranclp_induct)
  case base
  show ?case by (simp add: sys_init_def minv_def wf_empty claims_wf_def)
next
  case (step c c')
  from step.hyps(2) show ?case
  proof cases
    case (sys_request t q)
    with step.IH show ?thesis by (simp add: msafe_handler)
  next
    case (sys_step t a k r st')
    have "move jlen (mx_state c, mx_trace c) (mx_progs c t) (st', (a, r) # mx_trace c) (k r)"
      using sys_step by (simp add: move_def)
    from master.pool_step [of cfg _ "mx_progs c", OF _ _ this] step.IH sys_step show ?thesis by simp
  next
    case sys_restart
    with step.IH show ?thesis by (auto simp: minv_def quiet_safe)
  qed
qed

lemma reach_wf:
  "mreach cfg disc dbg jlen c \<Longrightarrow> mdb_wf cfg (me_db (mx_state c)) \<and> claims_wf (me_db (mx_state c)) (mx_trace c)"
  using mreach_inv [of cfg disc dbg jlen c] by (simp add: minv_def)

text \<open>The parent \<open>n\<close> steps up.\<close>

fun climb :: "nat \<Rightarrow> MasterDb \<Rightarrow> string \<Rightarrow> string option" where
  "climb 0 db sid = Some sid"
| "climb (Suc n) db sid = Option.bind (Option.bind (swarm_at db sid) sw_parent) (climb n db)"

lemma wf_climb:
  assumes "mdb_wf cfg db" "swarm_at db sid = Some w"
  shows "climb (sw_depth w) db sid = Some (sw_root w) \<and>
    (\<exists>top. swarm_at db (sw_root w) = Some top \<and> sw_parent top = None \<and> sw_role top = Planner \<and>
       sw_planner_model top = sw_planner_model w \<and> sw_worker_model top = sw_worker_model w)"
  using assms(2)
proof (induction "sw_depth w" arbitrary: sid w)
  case 0
  from assms(1) 0 have "node_ok cfg db sid w" by (simp add: mdb_wf_def)
  with 0 show ?case by (auto simp: node_ok_def child_of_def split: option.splits)
next
  case (Suc n)
  from assms(1) Suc have ok: "node_ok cfg db sid w" by (simp add: mdb_wf_def)
  with Suc obtain p wp where p: "sw_parent w = Some p" "swarm_at db p = Some wp" "child_of w wp"
    by (auto simp: node_ok_def split: option.splits)
  then have "n = sw_depth wp" using Suc.hyps(2) by (simp add: child_of_def)
  from Suc.hyps(1) [OF this p(2)] p \<open>n = sw_depth wp\<close> show ?case
    using Suc.prems by (auto simp: child_of_def)
qed

section \<open>Sessions follow the state machine\<close>

lemma write_session:
  assumes "ms_get sid db = Some s"
  shows "ms_get sid (snd (write_exec jlen w db)) = Some s"
proof (cases "inserts_session w")
  case False
  then show ?thesis using assms ms_get_cong [OF write_frame] by metis
next
  case True
  then obtain n where w: "w = W_Insert n" by (cases w) auto
  have "ms_get sid (db\<lparr>md_sessions := md_sessions db @ [n]\<rparr>) = Some s"
    using assms ms_get_snoc [of "db\<lparr>md_sessions := md_sessions db @ [n]\<rparr>" db n sid] by simp
  then show ?thesis
    using assms by (auto simp: w wrote_def ms_insert_def mail_insert_def ms_get_def Let_def split: option.splits)
qed

lemma serves_session:
  assumes "serves jlen a st r st'" "ms_get sid (me_db st) = Some s"
  shows "\<exists>s'. ms_get sid (me_db st') = Some s' \<and> session_keeps s s'"
proof (cases a)
  case (A_Write w)
  with assms write_session show ?thesis by (auto simp: sql_serves_def)
next
  case (A_Update x u)
  have "\<exists>s'. ms_get sid (snd (update_exec now x u (me_db st))) = Some s' \<and> session_keeps s s'" for now
    using assms(2) by (auto simp: update_exec_def dest!: ms_update_get split: option.split)
  with assms A_Update show ?thesis by (auto simp: sql_serves_def)
next
  case (A_Board b)
  with assms ms_get_cong [OF board_exec_frame(1)] show ?thesis by (auto simp: sql_serves_def)
next
  case (A_Enqueue x y msg)
  have "md_sessions (snd (enqueue_exec x y msg (me_db st))) = md_sessions (me_db st)"
    by (auto simp: enqueue_exec_def ms_enqueue_def mail_insert_def split: option.split)
  from ms_get_cong [OF this] A_Enqueue assms show ?thesis by (auto simp: sql_serves_def)
next
  case (A_Claim x)
  with assms ms_get_cong [OF claim_frame(1)] show ?thesis by (auto simp: sql_serves_def)
next
  case (A_Mem m)
  with assms show ?thesis by (cases m) auto
qed (use assms in \<open>auto simp: sql_serves_def split: if_splits\<close>)

lemma closed_final: "phase_check\<^sup>*\<^sup>* a b \<Longrightarrow> a = Ph_Closed \<Longrightarrow> b = Ph_Closed"
  by (induction rule: rtranclp_induct) (auto simp: phase_check_def)

definition same_session :: "Session \<Rightarrow> Session \<Rightarrow> bool" where
  "same_session s s' \<longleftrightarrow>
     ss_id s' = ss_id s \<and> ss_name s' = ss_name s \<and> ss_plane s' = ss_plane s \<and> ss_created_at s' = ss_created_at s \<and>
     ss_swarm s' = ss_swarm s \<and> phase_check\<^sup>*\<^sup>* (ss_phase s) (ss_phase s')"

lemma same_session_step: "same_session a b \<Longrightarrow> session_keeps b c \<Longrightarrow> same_session a c"
  by (auto simp: same_session_def session_keeps_def)

section \<open>Closing a hierarchy\<close>

definition child_edge :: "Session list \<Rightarrow> string \<Rightarrow> string \<Rightarrow> bool" where
  "child_edge ss p x \<longleftrightarrow> (\<exists>n \<in> set ss. ss_id n = x \<and> parent_of n = Some p)"

lemma add_child_cases: "add_child n ids = ids \<or> length (add_child n ids) = Suc (length ids)"
  by (auto simp: add_child_def List.insert_def split: option.splits)

lemma close_pass_length: "length ids \<le> length (close_pass ss ids)"
proof (induction ss arbitrary: ids)
  case (Cons n ns)
  have "length ids \<le> length (add_child n ids)" using add_child_cases [of n ids] by auto
  with Cons [of "add_child n ids"] show ?case by (simp add: close_pass_Cons)
qed (simp add: close_pass_def)

lemma close_pass_fix:
  assumes "length (close_pass ss ids) = length ids"
  shows "close_pass ss ids = ids \<and> (\<forall>n \<in> set ss. add_child n ids = ids)"
  using assms
proof (induction ss)
  case (Cons n ns)
  from close_pass_length [of "add_child n ids" ns] Cons.prems add_child_cases [of n ids]
  have "add_child n ids = ids" by (auto simp: close_pass_Cons)
  with Cons show ?case by (simp add: close_pass_Cons)
qed (simp add: close_pass_def)

lemma add_child_edge: "x \<in> set (add_child n ids) \<Longrightarrow> n \<in> set ss \<Longrightarrow> x \<in> set ids \<or> (\<exists>p \<in> set ids. child_edge ss p x)"
  by (auto simp: add_child_def child_edge_def split: option.splits if_splits)

lemma close_pass_sound:
  assumes "\<And>x. x \<in> set ids \<Longrightarrow> (child_edge ss)\<^sup>*\<^sup>* sid x" "set ns \<subseteq> set ss" "x \<in> set (close_pass ns ids)"
  shows "(child_edge ss)\<^sup>*\<^sup>* sid x"
  using assms
proof (induction ns arbitrary: ids)
  case (Cons n ns)
  have "(child_edge ss)\<^sup>*\<^sup>* sid y" if "y \<in> set (add_child n ids)" for y
    using add_child_edge [OF that, of ss] Cons.prems by (auto intro: rtranclp.rtrancl_into_rtrancl)
  with Cons.IH [of "add_child n ids"] Cons.prems show ?case by (simp add: close_pass_Cons)
qed (simp add: close_pass_def)

lemma subtree_spec:
  assumes "\<And>x. x \<in> set ids \<Longrightarrow> (child_edge ss)\<^sup>*\<^sup>* sid x"
  shows "set ids \<subseteq> set (subtree ss ids) \<and> (\<forall>x \<in> set (subtree ss ids). (child_edge ss)\<^sup>*\<^sup>* sid x) \<and>
    (\<forall>n \<in> set ss. add_child n (subtree ss ids) = subtree ss ids)"
  using assms
proof (induction ss ids rule: subtree.induct)
  case (1 ss ids)
  let ?n = "close_pass ss ids"
  have sound: "(child_edge ss)\<^sup>*\<^sup>* sid x" if "x \<in> set ?n" for x
    using close_pass_sound [OF 1(2) _ that] by simp
  show ?case
  proof (cases "length ?n = length ids")
    case True
    then have "subtree ss ids = ids" using close_pass_fix [OF True] by (subst subtree.simps) (simp add: Let_def)
    with 1(2) close_pass_fix [OF True] show ?thesis by simp
  next
    case False
    then have "subtree ss ids = subtree ss ?n" by (subst subtree.simps) (simp add: Let_def)
    with 1(1) [OF refl False sound] close_pass_grows [of ids ss] show ?thesis by auto
  qed
qed

section \<open>An executable scheduler\<close>

text \<open>
  One reply of an action: what the tables, the memory and the locks say, or \<open>x\<close> where the reply
  comes from outside or \<open>x\<close> is a failure of the store; \<open>None\<close> where the action would wait or \<open>x\<close> is
  no such reply.
\<close>

definition on_db :: "MReply \<Rightarrow> MState \<Rightarrow> (MasterDb \<Rightarrow> MReply \<times> MasterDb) \<Rightarrow> (MReply \<times> MState) option" where
  "on_db x st f =
     (case x of
        R_Fail (Anyhow t) \<Rightarrow> Some (x, st)
      | _ \<Rightarrow> let (r, db') = f (me_db st) in Some (r, st\<lparr>me_db := db'\<rparr>))"

definition respond :: "(Json \<Rightarrow> nat) \<Rightarrow> MAct \<Rightarrow> MReply \<Rightarrow> MState \<Rightarrow> (MReply \<times> MState) option" where
  "respond jlen a x st =
     (case a of
        A_Now \<Rightarrow> (case x of R_Nat n \<Rightarrow> Some (x, st) | _ \<Rightarrow> None)
      | A_Uuid \<Rightarrow> (case x of R_Text u \<Rightarrow> if u = [] then None else Some (x, st) | _ \<Rightarrow> None)
      | A_Read \<Rightarrow> Some (R_Db (me_db st), st)
      | A_Update sid u \<Rightarrow> on_db x st (update_exec 0 sid u)
      | A_Write w \<Rightarrow> on_db x st (write_exec jlen w)
      | A_Board b \<Rightarrow> on_db x st (board_exec 0 b)
      | A_Enqueue s q t \<Rightarrow> on_db x st (enqueue_exec s q t)
      | A_Claim sid \<Rightarrow> on_db x st (claim_exec sid)
      | A_Workers \<Rightarrow> Some (R_Ids (me_workers st), st)
      | A_Tokens \<Rightarrow> Some (R_Tokens (me_tokens st), st)
      | A_Mem m \<Rightarrow> Some (memory_exec m st)
      | A_Lock l \<Rightarrow> if l \<in> me_held st then None else Some (R_Unit, st\<lparr>me_held := insert l (me_held st)\<rparr>)
      | A_TryLock l \<Rightarrow>
          if l \<in> me_held st then Some (R_Bool False, st) else Some (R_Bool True, st\<lparr>me_held := insert l (me_held st)\<rparr>)
      | A_Unlock l \<Rightarrow> Some (R_Unit, st\<lparr>me_held := me_held st - {l}\<rparr>)
      | _ \<Rightarrow> Some (x, st))"

lemma respond_serves: "respond jlen a x st = Some (r, st') \<Longrightarrow> serves jlen a st r st'"
proof -
  assume "respond jlen a x st = Some (r, st')"
  moreover have "sql_serves (f (me_db st)) st r st'" if "on_db x st f = Some (r, st')" for f
    using that by (auto simp: on_db_def sql_serves_def split: MReply.splits MasterError.splits prod.splits)
  ultimately show ?thesis by (cases a) (auto simp: respond_def sql_serves_def split: MReply.splits if_splits)
qed

text \<open>A program run by a script of such replies.\<close>

fun drive ::
  "(Json \<Rightarrow> nat) \<Rightarrow> MReply list \<Rightarrow> 'a mprog \<times> MState \<times> (MAct \<times> MReply) list \<Rightarrow>
   ('a mprog \<times> MState \<times> (MAct \<times> MReply) list) option" where
  "drive jlen [] s = Some s"
| "drive jlen (x # xs) (MRet v, st, tr) = None"
| "drive jlen (x # xs) (MDo a k, st, tr) =
     (case respond jlen a x st of
        None \<Rightarrow> None
      | Some (r, st') \<Rightarrow> drive jlen xs (k r, st', (a, r) # tr))"

lemma drive_runs:
  assumes "drive jlen xs (p, mx_state c, mx_trace c) = Some (p', st', tr')" "mx_progs c t = p"
  shows "(msys cfg disc dbg jlen)\<^sup>*\<^sup>* c \<lparr>mx_state = st', mx_progs = (mx_progs c)(t := p'), mx_trace = tr'\<rparr>"
  using assms
proof (induction jlen xs "(p, mx_state c, mx_trace c)" arbitrary: p c rule: drive.induct)
  case (1 jlen)
  then show ?case by (cases c) auto
next
  case (3 jlen x xs a k)
  then obtain r st1 where r: "respond jlen a x (mx_state c) = Some (r, st1)"
      "drive jlen xs (k r, st1, (a, r) # mx_trace c) = Some (p', st', tr')" by (auto split: option.splits)
  let ?c = "\<lparr>mx_state = st1, mx_progs = (mx_progs c)(t := k r), mx_trace = (a, r) # mx_trace c\<rparr>"
  have "msys cfg disc dbg jlen c ?c" using 3 respond_serves [OF r(1)] by (intro sys_step) auto
  moreover have "(msys cfg disc dbg jlen)\<^sup>*\<^sup>* ?c \<lparr>mx_state = st', mx_progs = (mx_progs c)(t := p'), mx_trace = tr'\<rparr>"
    using 3(1) [OF r(1), of r ?c] r(2) by simp
  ultimately show ?case by (rule converse_rtranclp_into_rtranclp)
qed simp

lemma handler_runs:
  assumes "drive jlen xs (master_handler cfg disc dbg q, mx_state c, mx_trace c) = Some (p', st', tr')"
    and "mx_progs c t = MRet ()"
  shows "(msys cfg disc dbg jlen)\<^sup>*\<^sup>* c \<lparr>mx_state = st', mx_progs = (mx_progs c)(t := p'), mx_trace = tr'\<rparr>"
proof -
  let ?c = "c\<lparr>mx_progs := (mx_progs c)(t := master_handler cfg disc dbg q)\<rparr>"
  have "msys cfg disc dbg jlen c ?c" using assms(2) by (rule sys_request)
  moreover have "(msys cfg disc dbg jlen)\<^sup>*\<^sup>* ?c \<lparr>mx_state = st', mx_progs = (mx_progs c)(t := p'), mx_trace = tr'\<rparr>"
    using drive_runs [of jlen xs "master_handler cfg disc dbg q" ?c p' st' tr' t cfg disc dbg] assms(1) by simp
  ultimately show ?thesis by (rule converse_rtranclp_into_rtranclp)
qed

text \<open>A master with one plane: a swarm is created, its allocation fails, and a worker is scheduled into it.\<close>

definition wit_cfg :: MasterConfig where
  "wit_cfg =
     \<lparr>mc_public_origin = ''http://m'', mc_data_dir = ''d'', mc_pi_model = Some ''a/b'', mc_pi_models = [],
      mc_swarm_max_depth = 2, mc_swarm_max_agents = 0, mc_idle_seconds = 900, mc_suspended_seconds = 600,
      mc_max_agents = 0, mc_demo = True,
      mc_planes = [\<lparr>pl_id = ''p'', pl_server = ''s'', pl_template = ''t'', pl_egress = ''deny'', pl_principal = None,
                    pl_allow = [], pl_max_vms = 0\<rparr>]\<rparr>"

definition wit_create :: MRequest where
  "wit_create = Q_Create ''boss'' \<lparr>co_model = None, co_swarm = True, co_planner_model = None, co_worker_model = None,
     co_acl = acl_default\<rparr>"

definition wit_drive ::
  "MRequest \<Rightarrow> MReply list \<Rightarrow> MState \<times> (MAct \<times> MReply) list \<Rightarrow> (unit mprog \<times> MState \<times> (MAct \<times> MReply) list) option" where
  "wit_drive q xs s = drive (\<lambda>_. 0) xs (master_handler wit_cfg [] (\<lambda>s. s) q, s)"

definition wit_sys :: "MSys" where
  "wit_sys =
     (case wit_drive wit_create
        [R_Unit, R_Unit, R_Jsons [], R_Text ''r'', R_Nat 1, R_Nat 1, R_Unit, R_Unit, R_Fail (Anyhow ''down''), R_Unit,
         R_Fail (Anyhow ''disk full''), R_Unit, R_Unit] (mx_state sys_init, []) of
        Some (p, st, tr) \<Rightarrow> \<lparr>mx_state = st, mx_progs = (\<lambda>_. MRet ())(0 := p), mx_trace = tr\<rparr>
      | None \<Rightarrow> sys_init)"

definition wit_swarm :: "MSys" where
  "wit_swarm =
     (case wit_drive (Q_Spawn ''r'' ''hand'' Worker ''dig'')
        [R_Unit, R_Unit, R_Unit, R_Unit, R_Unit, R_Unit, R_Unit, R_Jsons [], R_Text ''c'', R_Nat 2, R_Nat 2, R_Unit]
        (mx_state wit_sys, mx_trace wit_sys) of
        Some (p, st, tr) \<Rightarrow> \<lparr>mx_state = st, mx_progs = (mx_progs wit_sys)(1 := p), mx_trace = tr\<rparr>
      | None \<Rightarrow> wit_sys)"

lemma wit_sys_runs: "(msys wit_cfg [] (\<lambda>s. s) (\<lambda>_. 0))\<^sup>*\<^sup>* sys_init wit_sys"
  using handler_runs [of "\<lambda>_. 0" _ wit_cfg "[]" "\<lambda>s. s" wit_create sys_init _ _ _ 0]
  by (auto simp: wit_sys_def wit_drive_def sys_init_def split: option.split)

lemma wit_swarm_runs: "(msys wit_cfg [] (\<lambda>s. s) (\<lambda>_. 0))\<^sup>*\<^sup>* wit_sys wit_swarm"
proof -
  have "mx_progs wit_sys 1 = MRet ()" by (simp add: wit_sys_def sys_init_def split: option.split)
  then show ?thesis
    using handler_runs [of "\<lambda>_. 0" _ wit_cfg "[]" "\<lambda>s. s" "Q_Spawn ''r'' ''hand'' Worker ''dig''" wit_sys _ _ _ 1]
    by (auto simp: wit_swarm_def wit_drive_def split: option.split)
qed

lemma wit_reach: "mreach wit_cfg [] (\<lambda>s. s) (\<lambda>_. 0) wit_swarm"
  unfolding mreach_def using wit_sys_runs wit_swarm_runs by (rule rtranclp_trans)

definition wit_child :: Swarm where
  "wit_child = \<lparr>sw_root = ''r'', sw_parent = Some ''r'', sw_role = Worker, sw_depth = 1, sw_planner_model = ''a/b'',
                sw_worker_model = ''a/b'', sw_task = ''dig''\<rparr>"


lemma wit_state:
  "swarm_at (me_db (mx_state wit_swarm)) ''c'' = Some wit_child"
  by code_simp

lemma wit_mail:
  "map (\<lambda>m. (ml_id m, ml_sender m, ml_recipient m, ml_status m)) (md_mailbox (me_db (mx_state wit_swarm))) =
     [(1, ''r'', ''c'', Pending)]"
  by code_simp

lemma wit_phase:
  "map_option ss_phase (ms_get ''r'' (me_db (mx_state wit_sys))) = Some Ph_AllocationUnknown"
  by code_simp

lemma wit_mail_ex:
  obtains m where "m \<in> set (md_mailbox (me_db (mx_state wit_swarm)))" "ml_id m = 1" "ml_sender m = ''r''"
    "ml_recipient m = ''c''" "ml_status m = Pending"
proof -
  have "(1, ''r'', ''c'', Pending) \<in>
      (\<lambda>m. (ml_id m, ml_sender m, ml_recipient m, ml_status m)) ` set (md_mailbox (me_db (mx_state wit_swarm)))"
    using arg_cong [OF wit_mail, of set] by simp
  with that show ?thesis by auto
qed

section \<open>Theorems\<close>

text \<open>C23: In every reachable state a session of a swarm stands exactly its depth below its root: as many
  parents up is the root, a planner without a parent that has the models of the whole swarm, and the depth is
  within the configured limit.\<close>

theorem swarm_is_tree:
  assumes "mreach cfg disc dbg jlen c" "swarm_at (me_db (mx_state c)) sid = Some w"
  shows "sw_depth w \<le> mc_swarm_max_depth cfg \<and>
    climb (sw_depth w) (me_db (mx_state c)) sid = Some (sw_root w) \<and>
    (\<exists>top. swarm_at (me_db (mx_state c)) (sw_root w) = Some top \<and> sw_parent top = None \<and> sw_role top = Planner \<and>
       sw_planner_model top = sw_planner_model w \<and> sw_worker_model top = sw_worker_model w)"
proof -
  from reach_wf [OF assms(1)] have wf: "mdb_wf cfg (me_db (mx_state c))" by simp
  then have "node_ok cfg (me_db (mx_state c)) sid w" using assms(2) by (simp add: mdb_wf_def)
  with wf_climb [OF wf assms(2)] show ?thesis by (simp add: node_ok_def)
qed

theorem swarm_is_tree_witness:
  "swarm_at (me_db (mx_state wit_swarm)) ''c'' = Some wit_child \<and>
   climb 1 (me_db (mx_state wit_swarm)) ''c'' = Some ''r''"
  using swarm_is_tree [OF wit_reach wit_state] by (simp add: wit_state) (simp add: wit_child_def)

text \<open>C24: In every reachable state each message is the operator's or between a parent and its child in one swarm.\<close>

theorem messages_vertical:
  assumes "mreach cfg disc dbg jlen c" "m \<in> set (md_mailbox (me_db (mx_state c)))"
  shows "ml_sender m = ''operator'' \<or> related (me_db (mx_state c)) (ml_sender m) (ml_recipient m)"
  using reach_wf [OF assms(1)] assms(2) by (auto simp: mdb_wf_def mail_ok_def)

theorem messages_vertical_witness: "related (me_db (mx_state wit_swarm)) ''r'' ''c''"
proof -
  obtain m where "m \<in> set (md_mailbox (me_db (mx_state wit_swarm)))" "ml_sender m = ''r''" "ml_recipient m = ''c''"
    by (rule wit_mail_ex)
  then show ?thesis using messages_vertical [OF wit_reach] by fastforce
qed



text \<open>C25: Whatever happens, a stored session stays stored with its id, name, plane and place in its swarm, its
  phase moves along the edges of Phase::check, and once closed it stays closed.\<close>

theorem session_follows_phases:
  assumes "(msys cfg disc dbg jlen)\<^sup>*\<^sup>* c c'" "ms_get sid (me_db (mx_state c)) = Some s"
  shows "\<exists>s'. ms_get sid (me_db (mx_state c')) = Some s' \<and> same_session s s' \<and>
    (ss_phase s = Ph_Closed \<longrightarrow> ss_phase s' = Ph_Closed)"
proof -
  from assms(1) have "\<exists>s'. ms_get sid (me_db (mx_state c')) = Some s' \<and> same_session s s'"
  proof (induction rule: rtranclp_induct)
    case base
    then show ?case using assms(2) by (simp add: same_session_def)
  next
    case (step d e)
    then obtain s1 where s1: "ms_get sid (me_db (mx_state d)) = Some s1" "same_session s s1" by blast
    from step.hyps(2) show ?case
    proof cases
      case (sys_step t a k r st')
      with serves_session [OF _ s1(1)] obtain s2 where "ms_get sid (me_db st') = Some s2" "session_keeps s1 s2" by blast
      with s1(2) sys_step show ?thesis using same_session_step by auto
    qed (use s1 in auto)
  qed
  then show ?thesis using closed_final by (auto simp: same_session_def)
qed

theorem session_follows_phases_witness:
  "\<exists>s'. ms_get ''r'' (me_db (mx_state wit_swarm)) = Some s' \<and> phase_check\<^sup>*\<^sup>* Ph_AllocationUnknown (ss_phase s')"
proof -
  obtain s where "ms_get ''r'' (me_db (mx_state wit_sys)) = Some s" "ss_phase s = Ph_AllocationUnknown"
    using wit_phase by auto
  then show ?thesis using session_follows_phases [OF wit_swarm_runs] by (fastforce simp: same_session_def)
qed

text \<open>C27: The loop with which close_session gathers a hierarchy ends, whatever the sessions' parents are (cycles
  and missing parents included), and gathers exactly the session and its descendants.\<close>

theorem subtree_exact: "set (subtree ss [sid]) = {x. (child_edge ss)\<^sup>*\<^sup>* sid x}"
proof -
  have s: "sid \<in> set (subtree ss [sid])" "\<forall>x \<in> set (subtree ss [sid]). (child_edge ss)\<^sup>*\<^sup>* sid x"
    "\<forall>n \<in> set ss. add_child n (subtree ss [sid]) = subtree ss [sid]"
    using subtree_spec [of "[sid]" ss sid] by auto
  have "x \<in> set (subtree ss [sid])" if "(child_edge ss)\<^sup>*\<^sup>* sid x" for x
    using that
  proof (induction rule: rtranclp_induct)
    case (step y z)
    then obtain n where "n \<in> set ss" "ss_id n = z" "parent_of n = Some y" by (auto simp: child_edge_def)
    with s(3) step.IH have "List.insert z (subtree ss [sid]) = subtree ss [sid]" by (auto simp: add_child_def)
    then show ?case by (metis in_set_insert set_insert insertI1)
  qed (rule s(1))
  with s(2) show ?thesis by blast
qed

end
