(* ===== verification/Iso_Master_Runs.thy ===== *)
theory Iso_Master_Runs
  imports Iso_Swarm_Safety
begin

text \<open>
  Runs of single operations of the master. \<open>mtrace\<close> is a run among others: every reply is
  arbitrary. \<open>malone\<close> is a run with nobody else on the tables, as \<^verbatim>\<open>recover\<close> has when the daemon
  starts.
\<close>

section \<open>Runs\<close>

primrec mtrace :: "'a mprog \<Rightarrow> (MAct \<times> MReply) list \<Rightarrow> 'a \<Rightarrow> bool" where
  "mtrace (MRet x) tr y \<longleftrightarrow> tr = [] \<and> y = x"
| "mtrace (MDo a k) tr y \<longleftrightarrow> (\<exists>r tr'. tr = (a, r) # tr' \<and> mtrace (k r) tr' y)"

primrec malone :: "(Json \<Rightarrow> nat) \<Rightarrow> 'a mprog \<Rightarrow> MState \<Rightarrow> (MAct \<times> MReply) list \<Rightarrow> MState \<Rightarrow> 'a \<Rightarrow> bool" where
  "malone jlen (MRet x) st tr st' y \<longleftrightarrow> tr = [] \<and> st' = st \<and> y = x"
| "malone jlen (MDo a k) st tr st' y \<longleftrightarrow>
     (\<exists>r st1 tr'. tr = (a, r) # tr' \<and> serves jlen a st r st1 \<and> malone jlen (k r) st1 tr' st' y)"

lemma mtrace_bind:
  "mtrace (mbind p f) tr y \<longleftrightarrow> (\<exists>t1 x t2. tr = t1 @ t2 \<and> mtrace p t1 x \<and> mtrace (f x) t2 y)"
proof (induction p arbitrary: tr)
  case (MDo a k)
  show ?case
  proof
    assume "mtrace (mbind (MDo a k) f) tr y"
    then obtain r tr' where r: "tr = (a, r) # tr'" "mtrace (mbind (k r) f) tr' y" by auto
    with MDo [of "k r" tr'] obtain t1 x t2 where "tr' = t1 @ t2" "mtrace (k r) t1 x" "mtrace (f x) t2 y" by auto
    with r show "\<exists>t1 x t2. tr = t1 @ t2 \<and> mtrace (MDo a k) t1 x \<and> mtrace (f x) t2 y"
      by (auto intro!: exI [of _ "(a, r) # t1"])
  next
    assume "\<exists>t1 x t2. tr = t1 @ t2 \<and> mtrace (MDo a k) t1 x \<and> mtrace (f x) t2 y"
    then obtain r t1 x t2 where "tr = (a, r) # t1 @ t2" "mtrace (k r) t1 x" "mtrace (f x) t2 y" by auto
    with MDo [of "k r" "t1 @ t2"] show "mtrace (mbind (MDo a k) f) tr y" by auto
  qed
qed simp

lemma mtrace_try:
  "mtrace (mtry p f) tr y \<longleftrightarrow>
     (\<exists>e. mtrace p tr (Inl e) \<and> y = Inl e) \<or> (\<exists>t1 x t2. tr = t1 @ t2 \<and> mtrace p t1 (Inr x) \<and> mtrace (f x) t2 y)"
    (is "_ \<longleftrightarrow> ?err \<or> ?ok")
proof
  assume "mtrace (mtry p f) tr y"
  then obtain t1 r t2 where t: "tr = t1 @ t2" "mtrace p t1 r"
      "mtrace (case r of Inl e \<Rightarrow> MRet (Inl e) | Inr x \<Rightarrow> f x) t2 y"
    unfolding mtry_def mtrace_bind by blast
  then show "?err \<or> ?ok" by (cases r) auto
next
  assume "?err \<or> ?ok"
  then show "mtrace (mtry p f) tr y"
  proof
    assume ?err
    then obtain e where "mtrace p tr (Inl e)" "y = Inl e" by blast
    then show ?thesis unfolding mtry_def mtrace_bind
      by (intro exI [of _ tr] exI [of _ "Inl e"] exI [of _ "[]"]) simp
  next
    assume ?ok
    then obtain t1 x t2 where "tr = t1 @ t2" "mtrace p t1 (Inr x)" "mtrace (f x) t2 y" by blast
    then show ?thesis unfolding mtry_def mtrace_bind
      by (intro exI [of _ t1] exI [of _ "Inr x"] exI [of _ t2]) simp
  qed
qed

lemma reply_Ok:
  "(case r of R_Session s \<Rightarrow> Ok s | _ \<Rightarrow> mfail r) = Ok x \<longleftrightarrow> r = R_Session x"
  "(case r of R_Db d \<Rightarrow> Ok d | _ \<Rightarrow> mfail r) = Ok db \<longleftrightarrow> r = R_Db db"
  "(case r of R_Unit \<Rightarrow> Ok () | _ \<Rightarrow> mfail r) = Ok u \<longleftrightarrow> r = R_Unit"
  "(case r of R_Jsons vs \<Rightarrow> Ok vs | _ \<Rightarrow> mfail r) = Ok js \<longleftrightarrow> r = R_Jsons js"
  by (cases r; auto simp: mfail_def)+

lemma mtrace_acts:
  "mtrace (update_session sid u) tr (Ok s) \<longleftrightarrow> tr = [(A_Update sid u, R_Session s)]"
  "mtrace (set_phase sid ph) tr (Ok s) \<longleftrightarrow> tr = [(A_Update sid (SetPhase ph), R_Session s)]"
  "mtrace read_db tr (Ok db) \<longleftrightarrow> tr = [(A_Read, R_Db db)]"
  "mtrace (unit_act a) tr (Ok v) \<longleftrightarrow> tr = [(a, R_Unit)]"
  "mtrace (plane_list pid) tr (Ok js) \<longleftrightarrow> tr = [(P_List pid, R_Jsons js)]"
  by (auto simp: update_session_def set_phase_def read_db_def unit_act_def plane_list_def
      reply_Ok [THEN eq_reflection [THEN meta_eq_to_obj_eq], symmetric] dest: reply_Ok [THEN iffD1, OF sym])

lemma mtrace_reads:
  "mtrace (get_session sid) tr (Ok s) \<longleftrightarrow> (\<exists>db. tr = [(A_Read, R_Db db)] \<and> ms_get sid db = Some s)"
  "mtrace list_sessions tr (Ok ss) \<longleftrightarrow> (\<exists>db. tr = [(A_Read, R_Db db)] \<and> ss = ms_list db)"
  by (auto simp: get_session_def list_sessions_def mtrace_try mtrace_acts split: option.splits)

lemma mtrace_ensure: "mtrace (mensure b e p) tr y \<longleftrightarrow> (if b then mtrace p tr y else tr = [] \<and> y = Err e)"
  by (simp add: mensure_def)

lemma mtrace_lock:
  "mtrace (with_lock l p) tr y \<longleftrightarrow>
     (\<exists>r r' t. tr = (A_Lock l, r) # t @ [(A_Unlock l, r')] \<and> mtrace p t y)"
  by (auto simp: with_lock_def mdo_def mtrace_bind; metis)

lemma only_trace: "only Q p \<Longrightarrow> mtrace p tr y \<Longrightarrow> (a, r) \<in> set tr \<Longrightarrow> Q a"
proof (induction p arbitrary: tr)
  case (MDo b k)
  then obtain s tr' where "tr = (b, s) # tr'" "mtrace (k s) tr' y" by auto
  with MDo.prems MDo.IH [of "k s" tr'] show ?case by auto
qed simp

section \<open>A hierarchy is fenced before anything is destroyed\<close>

definition is_destroy :: "MAct \<Rightarrow> bool" where
  "is_destroy a \<longleftrightarrow> (case a of P_Action pid vm what \<Rightarrow> what = ''destroy'' | _ \<Rightarrow> False)"

lemma spare_stop_worker: "only (\<lambda>a. \<not> is_destroy a) (stop_worker sid)"
  unfolding stop_worker_def by (intro only_rules; simp add: is_destroy_def)

lemma spare_fence: "only (\<lambda>a. \<not> is_destroy a) (fence_nodes ns)"
  by (induction ns; unfold fence_nodes.simps; intro only_rules spare_stop_worker) (simp_all add: is_destroy_def)

lemma fence_trace:
  assumes "mtrace (fence_nodes ns) tr (Ok ())" "n \<in> set ns"
  shows "\<exists>s. (A_Update (ss_id n) (SetPhase Ph_Closing), R_Session s) \<in> set tr"
  using assms
proof (induction ns arbitrary: tr)
  case (Cons m ms)
  let ?one = "mtry (set_phase (ss_id m) Ph_Closing) (\<lambda>_. after (stop_worker (ss_id m)) (MRet (Ok ())))"
  from Cons.prems(1) obtain t1 t2 where t: "tr = t1 @ t2"
      "mtrace (with_lock (SessionLock (ss_id m)) ?one) t1 (Ok ())" "mtrace (fence_nodes ms) t2 (Ok ())"
    by (auto simp: mtrace_try)
  have "\<exists>s. (A_Update (ss_id m) (SetPhase Ph_Closing), R_Session s) \<in> set t1"
    using t(2) by (auto simp: mtrace_lock mtrace_try mtrace_acts)
  with Cons.IH [OF t(3)] Cons.prems(2) t(1) show ?case by auto
qed simp

lemma split_after:
  assumes "as @ bs = pre @ x # post" "x \<notin> set as"
  shows "\<exists>us. pre = as @ us"
  using assms by (auto simp: append_eq_append_conv2) (metis Cons_eq_append_conv in_set_conv_decomp self_append_conv)

lemma try_after:
  assumes "mtrace (mtry p f) tr y" "d \<in> set tr" "\<And>t z. mtrace p t z \<Longrightarrow> d \<notin> set t"
  obtains t1 x t2 where "tr = t1 @ t2" "mtrace p t1 (Inr x)" "mtrace (f x) t2 y" "d \<in> set t2" "d \<notin> set t1"
proof -
  from assms(1) consider e where "mtrace p tr (Inl e)"
    | t1 x t2 where "tr = t1 @ t2" "mtrace p t1 (Inr x)" "mtrace (f x) t2 y"
    unfolding mtrace_try by blast
  then show ?thesis
  proof cases
    case 1
    with assms(2,3) show ?thesis by blast
  next
    case 2
    then show ?thesis using assms(2) assms(3) [of t1 "Inr x"] by (intro that) auto
  qed
qed

definition close_rest :: "MasterConfig \<Rightarrow> Session list \<Rightarrow> unit mres" where
  "close_rest cfg nodes =
     mensure (list_all (\<lambda>s. ss_vm s \<noteq> None) nodes) UnresolvedAllocations
      (mtry (fence_nodes nodes) (\<lambda>_. mbind (close_all cfg nodes) (\<lambda>errs.
       MRet (if errs = [] then Ok () else Err (HierarchyIncomplete errs)))))"

lemma close_session_rest:
  "close_session cfg sid =
     with_lock SwarmGate (mtry (get_session sid) (\<lambda>_. mtry list_sessions (\<lambda>ss. close_rest cfg (close_nodes ss sid))))"
  unfolding close_session_def close_rest_def Let_def by (rule refl)

lemma close_rest_fences:
  assumes "mtrace (close_rest cfg nodes) tr y" "(a, r) \<in> set tr" "is_destroy a"
  shows "\<exists>f t. tr = f @ t \<and> mtrace (fence_nodes nodes) f (Ok ()) \<and> (a, r) \<notin> set f \<and> (\<forall>n \<in> set nodes. ss_vm n \<noteq> None)"
proof -
  from assms(1,2) have vms: "\<forall>n \<in> set nodes. ss_vm n \<noteq> None"
    and m: "mtrace (mtry (fence_nodes nodes) (\<lambda>_. mbind (close_all cfg nodes) (\<lambda>errs.
       MRet (if errs = [] then Ok () else Err (HierarchyIncomplete errs))))) tr y"
    by (auto simp: close_rest_def mtrace_ensure list_all_iff split: if_splits)
  have "(a, r) \<notin> set t" if "mtrace (fence_nodes nodes) t z" for t z
    using only_trace [OF spare_fence that] assms(3) by blast
  from m assms(2) this show ?thesis
    by (rule try_after) (use vms in auto)
qed

text \<open>C26: Closing a hierarchy destroys no workspace before every session of the hierarchy that is not
  closed has a workspace on record and has been marked as closing, whatever the planes answer and whatever runs
  beside it.\<close>

theorem close_fences_first:
  assumes "mtrace (close_session cfg sid) tr y" "tr = pre @ (P_Action pid vm ''destroy'', r) # post"
  shows "\<exists>db. (A_Read, R_Db db) \<in> set pre \<and>
    (\<forall>n \<in> set (close_nodes (ms_list db) sid). ss_vm n \<noteq> None \<and>
       (\<exists>s. (A_Update (ss_id n) (SetPhase Ph_Closing), R_Session s) \<in> set pre))"
proof -
  let ?d = "(P_Action pid vm ''destroy'', r)"
  have d: "is_destroy (P_Action pid vm ''destroy'')" by (simp add: is_destroy_def)
  have spare: "?d \<notin> set t" if "only (\<lambda>a. \<not> is_destroy a) p" "mtrace p t z" for p :: "'z mres" and t z
    using only_trace [OF that] d by blast
  have q: "only (\<lambda>a. \<not> is_destroy a) (get_session sid)" "only (\<lambda>a. \<not> is_destroy a) list_sessions"
    by (simp_all add: is_destroy_def)
  from assms(1) obtain l1 l2 t where tr: "tr = (A_Lock SwarmGate, l1) # t @ [(A_Unlock SwarmGate, l2)]"
    and t: "mtrace (mtry (get_session sid) (\<lambda>_. mtry list_sessions (\<lambda>ss. close_rest cfg (close_nodes ss sid)))) t y"
    unfolding close_session_rest mtrace_lock by blast
  have "?d \<in> set t" using arg_cong [OF assms(2), of set] by (auto simp: tr)
  from t this spare [OF q(1)] obtain g s t1 where t1: "t = g @ t1" "mtrace (get_session sid) g (Ok s)"
    "mtrace (mtry list_sessions (\<lambda>ss. close_rest cfg (close_nodes ss sid))) t1 y" "?d \<in> set t1" "?d \<notin> set g"
    by (rule try_after)
  from t1(3,4) spare [OF q(2)] obtain l ss t2 where t2: "t1 = l @ t2" "mtrace list_sessions l (Ok ss)"
      "mtrace (close_rest cfg (close_nodes ss sid)) t2 y" "?d \<in> set t2" "?d \<notin> set l"
    by (rule try_after)
  from close_rest_fences [OF t2(3,4) d] obtain f t3 where t3: "t2 = f @ t3"
      "mtrace (fence_nodes (close_nodes ss sid)) f (Ok ())" "?d \<notin> set f" "\<forall>n \<in> set (close_nodes ss sid). ss_vm n \<noteq> None"
    by blast
  from t2(2) obtain db where db: "l = [(A_Read, R_Db db)]" "ss = ms_list db" by (auto simp: mtrace_reads)
  have "((A_Lock SwarmGate, l1) # g @ l @ f) @ t3 @ [(A_Unlock SwarmGate, l2)] = pre @ ?d # post"
    using assms(2) tr t1(1) t2(1) t3(1) by simp
  from split_after [OF this] t1(5) t2(5) t3(3) obtain us where "pre = ((A_Lock SwarmGate, l1) # g @ l @ f) @ us"
    by auto
  with db t3(4) fence_trace [OF t3(2)] show ?thesis by (auto intro!: exI [of _ db])
qed

fun follow :: "MReply list \<Rightarrow> 'a mprog \<Rightarrow> ((MAct \<times> MReply) list \<times> 'a) option" where
  "follow rs (MRet x) = (if rs = [] then Some ([], x) else None)"
| "follow [] (MDo a k) = None"
| "follow (r # rs) (MDo a k) = map_option (\<lambda>(tr, y). ((a, r) # tr, y)) (follow rs (k r))"

lemma follow_mtrace: "follow rs p = Some (tr, y) \<Longrightarrow> mtrace p tr y"
  by (induction rs p arbitrary: tr rule: follow.induct) (auto split: if_splits)

definition wit_session :: Session where
  "wit_session =
     \<lparr>ss_id = ''r'', ss_name = ''solo'', ss_plane = ''p'', ss_vm = Some ''v'', ss_phase = Ph_Idle, ss_created_at = 0,
      ss_last_active = 0, ss_error = None, ss_model = None, ss_swarm = None\<rparr>"

definition wit_close :: "((MAct \<times> MReply) list \<times> (MasterError, unit) result) option" where
  "wit_close =
     (let db = R_Db (mdb_empty\<lparr>md_sessions := [wit_session]\<rparr>); s = R_Session wit_session in
      follow ([R_Unit, db, db, R_Unit, s, R_Unit, R_Bool False, R_Unit, R_Unit, db, db, s, R_Unit, R_Bool False,
               R_Jsons [JObj [(''id'', JStr ''v'')]], R_Unit, s, R_Unit, R_Unit])
        (close_session wit_cfg ''r''))"

lemma wit_close_run:
  "map_option (\<lambda>(tr, y). (map fst (dropWhile (\<lambda>(a, r). \<not> is_destroy a) tr), y)) wit_close =
   Some ([P_Action ''p'' ''v'' ''destroy'', A_Update ''r'' (SetPhase Ph_Closed), A_Unlock (SessionLock ''r''),
          A_Unlock SwarmGate], Ok ())"
  by code_simp

theorem close_fences_first_witness:
  "\<exists>tr pre r post db. mtrace (close_session wit_cfg ''r'') tr (Ok ()) \<and>
     tr = pre @ (P_Action ''p'' ''v'' ''destroy'', r) # post \<and> (A_Read, R_Db db) \<in> set pre"
proof -
  obtain tr where w: "wit_close = Some (tr, Ok ())"
      and d: "map fst (dropWhile (\<lambda>(a, r). \<not> is_destroy a) tr) = P_Action ''p'' ''v'' ''destroy'' #
        [A_Update ''r'' (SetPhase Ph_Closed), A_Unlock (SessionLock ''r''), A_Unlock SwarmGate]"
    using wit_close_run by auto
  from w have m: "mtrace (close_session wit_cfg ''r'') tr (Ok ())"
    unfolding wit_close_def Let_def by (rule follow_mtrace)
  from d obtain r post where "dropWhile (\<lambda>(a, r). \<not> is_destroy a) tr = (P_Action ''p'' ''v'' ''destroy'', r) # post"
    by (auto simp: map_eq_Cons_conv)
  then have "tr = takeWhile (\<lambda>(a, r). \<not> is_destroy a) tr @ (P_Action ''p'' ''v'' ''destroy'', r) # post"
    by (metis takeWhile_dropWhile_id)
  with close_fences_first [OF m this] m show ?thesis by blast
qed

section \<open>Starting again\<close>

definition phases :: "MasterDb \<Rightarrow> string \<Rightarrow> Phase option" where
  "phases db sid = map_option ss_phase (ms_get sid db)"

text \<open>The phase a session has after the master started again.\<close>

fun recovered_phase :: "Phase \<Rightarrow> Phase" where
  "recovered_phase Ph_Allocating = Ph_AllocationUnknown"
| "recovered_phase Ph_AllocationUnknown = Ph_AllocationUnknown"
| "recovered_phase Ph_Asleep = Ph_Asleep"
| "recovered_phase Ph_Stopped = Ph_Stopped"
| "recovered_phase Ph_Closing = Ph_Closing"
| "recovered_phase Ph_Closed = Ph_Closed"
| "recovered_phase _ = Ph_Interrupted"

definition no_failure :: "(MAct \<times> MReply) list \<Rightarrow> bool" where
  "no_failure tr \<longleftrightarrow> (\<forall>(a, r) \<in> set tr. \<forall>e. r \<noteq> R_Fail e)"

lemma no_failure_simps [simp]:
  "no_failure []" "no_failure ((a, r) # tr) \<longleftrightarrow> (\<forall>e. r \<noteq> R_Fail e) \<and> no_failure tr"
  "no_failure (s @ t) \<longleftrightarrow> no_failure s \<and> no_failure t"
  by (auto simp: no_failure_def)

lemma malone_bind:
  assumes "malone jlen (mbind p f) st tr st' y"
  obtains t1 x st1 t2 where "tr = t1 @ t2" "malone jlen p st t1 st1 x" "malone jlen (f x) st1 t2 st' y"
  using assms
proof (induction p arbitrary: st tr thesis)
  case (MRet x)
  from MRet.prems(1) [of "[]" tr st x] MRet.prems(2) show ?case by simp
next
  case (MDo a k)
  then obtain r s tr' where r: "tr = (a, r) # tr'" "serves jlen a st r s" "malone jlen (mbind (k r) f) s tr' st' y" by auto
  from MDo.IH [OF _ _ r(3)] obtain t1 x st1 t2
    where "tr' = t1 @ t2" "malone jlen (k r) s t1 st1 x" "malone jlen (f x) st1 t2 st' y" by blast
  with r show ?case by (intro MDo.prems(1) [of "(a, r) # t1" t2 st1 x]) auto
qed

lemma update_alone:
  assumes "serves jlen (A_Update sid u) st r st'" "\<forall>e. r \<noteq> R_Fail e"
  shows "\<exists>now s s'. ms_get sid (me_db st) = Some s \<and> apply_upd now u s = Some s' \<and>
    phases (me_db st') = (phases (me_db st))(sid \<mapsto> ss_phase s') \<and>
    map ss_id (md_sessions (me_db st')) = map ss_id (md_sessions (me_db st)) \<and>
    (\<forall>x. x \<noteq> sid \<longrightarrow> ms_get x (me_db st') = ms_get x (me_db st)) \<and> md_mailbox (me_db st') = md_mailbox (me_db st)"
proof -
  from assms obtain now s' db' where u: "ms_update now sid u (me_db st) = Some (s', db')" "me_db st' = db'"
    by (auto simp: sql_serves_def update_exec_def split: option.splits)
  from ms_update_get [OF u(1)] obtain s where s: "ms_get sid (me_db st) = Some s" "session_keeps s s'"
      "db' = me_db st\<lparr>md_sessions := map (\<lambda>t. if ss_id t = sid then s' else t) (md_sessions (me_db st))\<rparr>"
      and get: "\<forall>x. ms_get x db' = (if x = sid then Some s' else ms_get x (me_db st))" by blast
  from u(1) s(1) have "apply_upd now u s = Some s'" by (auto simp: ms_update_def split: option.splits if_splits)
  moreover have "map ss_id (md_sessions db') = map ss_id (md_sessions (me_db st))"
    using s(2) ms_get_SomeD [OF s(1)] by (simp add: s(3) session_keeps_def)
  ultimately show ?thesis using s get by (auto simp: u(2) phases_def fun_eq_iff)
qed

lemma event_alone:
  "serves jlen (A_Write (W_Event sid d)) st r st' \<Longrightarrow>
   md_sessions (me_db st') = md_sessions (me_db st) \<and> md_mailbox (me_db st') = md_mailbox (me_db st)"
  by (auto simp: sql_serves_def wrote_def ms_event_def Let_def split: option.splits if_splits)

definition recovers :: "string set \<Rightarrow> MasterDb \<Rightarrow> MasterDb \<Rightarrow> bool" where
  "recovers ids db db' \<longleftrightarrow>
     phases db' = (\<lambda>x. if x \<in> ids then map_option recovered_phase (phases db x) else phases db x) \<and>
     map ss_id (md_sessions db') = map ss_id (md_sessions db) \<and> md_mailbox db' = md_mailbox db"

lemma recovers_one:
  assumes "phases (me_db st') = (phases (me_db st))(ss_id s \<mapsto> recovered_phase (ss_phase s))"
    and "ms_get (ss_id s) (me_db st) = Some s"
    and "map ss_id (md_sessions (me_db st')) = map ss_id (md_sessions (me_db st))"
    and "md_mailbox (me_db st') = md_mailbox (me_db st)"
    and "recovers (ss_id ` set ss) (me_db st') (me_db st2)" "ss_id s \<notin> ss_id ` set ss"
  shows "recovers (ss_id ` set (s # ss)) (me_db st) (me_db st2)"
proof -
  have "phases (me_db st) (ss_id s) = Some (ss_phase s)" using assms(2) by (simp add: phases_def)
  then show ?thesis using assms(1,3,4,5,6) unfolding recovers_def by (auto simp: fun_eq_iff)
qed

text \<open>One session of the list.\<close>

definition recovers_to :: "Session \<Rightarrow> MasterDb \<Rightarrow> MasterDb \<Rightarrow> bool" where
  "recovers_to s db db' \<longleftrightarrow>
     phases db' = (phases db)(ss_id s \<mapsto> recovered_phase (ss_phase s)) \<and>
     map ss_id (md_sessions db') = map ss_id (md_sessions db) \<and>
     (\<forall>x. x \<noteq> ss_id s \<longrightarrow> ms_get x db' = ms_get x db) \<and> md_mailbox db' = md_mailbox db"

lemma recover_step:
  assumes "malone jlen (recover_sessions (s # ss)) st tr st' (Ok v)" "no_failure tr"
    and get: "ms_get (ss_id s) (me_db st) = Some s"
  obtains st1 tr1 where "malone jlen (recover_sessions ss) st1 tr1 st' (Ok v)" "no_failure tr1"
    "recovers_to s (me_db st) (me_db st1)"
proof (cases "ss_phase s = Ph_Allocating")
  case True
  with assms(1,2) obtain r st1 tr1 where m: "serves jlen (A_Update (ss_id s) (SetPhase Ph_AllocationUnknown)) st r st1"
      "\<forall>e. r \<noteq> R_Fail e" "no_failure tr1"
      "malone jlen (case (case r of R_Session x \<Rightarrow> Ok x | _ \<Rightarrow> mfail r) of
         Inl e \<Rightarrow> MRet (Inl e) | Inr _ \<Rightarrow> recover_sessions ss) st1 tr1 st' (Ok v)"
    by (auto simp: mtry_def set_phase_def update_session_def simp del: serves.simps)
  from m(4) have "malone jlen (recover_sessions ss) st1 tr1 st' (Ok v)" by (cases r) (auto simp: mfail_def)
  moreover from update_alone [OF m(1,2)] get True have "recovers_to s (me_db st) (me_db st1)"
    by (auto simp: recovers_to_def)
  ultimately show ?thesis using m(3) that by blast
next
  case alloc: False
  show ?thesis
  proof (cases "ss_phase s \<in> {Ph_Closed, Ph_Asleep, Ph_Stopped, Ph_AllocationUnknown, Ph_Interrupted}")
    case True
    then have "recovers_to s (me_db st) (me_db st)" using get by (auto simp: recovers_to_def phases_def)
    moreover have "malone jlen (recover_sessions ss) st tr st' (Ok v)" using assms(1) alloc True by auto
    ultimately show ?thesis using that assms(2) by blast
  next
    case False
    with alloc assms(1,2) obtain r r2 st1 st2 tr1 where m:
        "serves jlen (A_Update (ss_id s) (Interrupt RESTART_INTERRUPT)) st r st1" "\<forall>e. r \<noteq> R_Fail e"
        "serves jlen (A_Write (W_Event (ss_id s) (notice RESTART_INTERRUPT))) st1 r2 st2" "no_failure tr1"
        "malone jlen (recover_sessions ss) st2 tr1 st' (Ok v)"
      by (auto simp: after_def interrupt_def mdo_def simp del: serves.simps)
    have "recovered_phase (ss_phase s) = (if ss_phase s = Ph_Closing then Ph_Closing else Ph_Interrupted)"
      using alloc False by (cases "ss_phase s") auto
    with update_alone [OF m(1,2)] get False have "recovers_to s (me_db st) (me_db st1)" by (auto simp: recovers_to_def)
    moreover have "phases (me_db st2) = phases (me_db st1)"
      using event_alone [OF m(3)] by (simp add: phases_def ms_get_def fun_eq_iff)
    ultimately have "recovers_to s (me_db st) (me_db st2)"
      using event_alone [OF m(3)] by (simp add: recovers_to_def ms_get_def)
    with m(4,5) that show ?thesis by blast
  qed
qed

lemma recover_alone:
  assumes "malone jlen (recover_sessions ss) st tr st' (Ok v)" "no_failure tr" "distinct (map ss_id ss)"
    and "\<And>s. s \<in> set ss \<Longrightarrow> ms_get (ss_id s) (me_db st) = Some s"
  shows "recovers (ss_id ` set ss) (me_db st) (me_db st')"
  using assms
proof (induction ss arbitrary: st tr)
  case Nil
  then show ?case by (simp add: recovers_def)
next
  case (Cons s ss)
  note get = Cons.prems(4) [of s, simplified]
  from Cons.prems(1,2) get obtain st1 tr1 where st1: "malone jlen (recover_sessions ss) st1 tr1 st' (Ok v)" "no_failure tr1"
      "recovers_to s (me_db st) (me_db st1)" by (rule recover_step)
  have "ms_get (ss_id x) (me_db st1) = Some x" if "x \<in> set ss" for x
    using that Cons.prems(3,4) st1(3) by (auto simp: recovers_to_def image_iff)
  with st1 Cons.prems(3) have "recovers (ss_id ` set ss) (me_db st1) (me_db st')" by (intro Cons.IH) auto
  with st1(3) get Cons.prems(3) show ?case by (intro recovers_one [of st1 st s]) (auto simp: recovers_to_def)
qed


lemma drive_malone:
  "drive jlen xs (p, st, tr) = Some (MRet y, st', tr') \<Longrightarrow> \<exists>t. tr' = rev t @ tr \<and> malone jlen p st t st' y"
proof (induction jlen xs "(p, st, tr)" arbitrary: p st tr rule: drive.induct)
  case (3 jlen x xs a k st tr)
  then obtain r st1 where r: "respond jlen a x st = Some (r, st1)"
      "drive jlen xs (k r, st1, (a, r) # tr) = Some (MRet y, st', tr')" by (auto split: option.splits)
  from 3(1) [OF r(1) refl r(2)] obtain t where "tr' = rev t @ (a, r) # tr" "malone jlen (k r) st1 t st' y" by blast
  then show ?case using respond_serves [OF r(1)] by (intro exI [of _ "(a, r) # t"]) auto
qed auto

definition wit_crashed :: MState where
  "wit_crashed =
     \<lparr>me_db = mdb_empty\<lparr>md_sessions := [wit_session\<lparr>ss_phase := Ph_Allocating\<rparr>],
        md_mailbox := [\<lparr>ml_id = 1, ml_sender = ''operator'', ml_recipient = ''r'', ml_message = ''go'',
          ml_status = Dispatching, ml_delivery = None\<rparr>]\<rparr>,
      me_workers = [], me_tokens = [], me_held = {}\<rparr>"

lemma wit_crashed_wf: "mdb_wf wit_cfg (me_db wit_crashed)"
  by (simp add: mdb_wf_def wit_crashed_def mdb_empty_def swarm_at_def ms_get_def wit_session_def mail_ok_def)

lemma wit_recover_run:
  "map_option (\<lambda>(p, st, tr). (case p of MRet y \<Rightarrow> y = Ok () | _ \<Rightarrow> False, list_all (\<lambda>(a, r). case r of R_Fail _ \<Rightarrow> False | _ \<Rightarrow> True) tr))
     (drive (\<lambda>_. 0) [R_Unit, R_Unit, R_Unit] (recover_store, wit_crashed, [])) = Some (True, True)"
  by code_simp


section \<open>A list the operator sets can be undone\<close>

text \<open>
  \<^verbatim>\<open>spawn_child\<close> reads the swarm's list and \<^verbatim>\<open>create_node\<close> writes what it was given back; \<^verbatim>\<open>set_acl\<close> takes
  no lock between them. The operator's new list, set in that window, is lost.
\<close>

definition wit_acl :: "string \<Rightarrow> Acl" where
  "wit_acl h = \<lparr>acl_egress = Some ''proxy'', acl_allow = [h], acl_rules = []\<rparr>"

definition wit_create_acl :: MRequest where
  "wit_create_acl = Q_Create ''boss'' \<lparr>co_model = None, co_swarm = True, co_planner_model = None, co_worker_model = None,
     co_acl = wit_acl ''old''\<rparr>"

definition wit_race :: "(unit mprog \<times> MState \<times> (MAct \<times> MReply) list) option" where
  "wit_race =
     (case wit_drive wit_create_acl
        [R_Unit, R_Unit, R_Jsons [], R_Text ''r'', R_Nat 1, R_Nat 1, R_Unit, R_Unit, R_Unit, R_Fail (Anyhow ''down''), R_Unit,
         R_Fail (Anyhow ''disk full''), R_Unit, R_Unit] (mx_state sys_init, []) of
        None \<Rightarrow> None
      | Some (p0, st0, tr0) \<Rightarrow>
     (case wit_drive (Q_Spawn ''r'' ''hand'' Worker ''dig'') [R_Unit, R_Unit, R_Unit, R_Unit, R_Unit] (st0, tr0) of
        None \<Rightarrow> None
      | Some (p1, st1, tr1) \<Rightarrow>
     (case wit_drive (Q_SetAcl ''r'' (wit_acl ''new'')) [R_Unit, R_Unit, R_Unit] (st1, tr1) of
        None \<Rightarrow> None
      | Some (p2, st2, tr2) \<Rightarrow>
          drive (\<lambda>_. 0) [R_Unit, R_Unit, R_Jsons [], R_Text ''c'', R_Nat 2, R_Nat 2, R_Unit] (p1, st2, tr2))))"

fun policy_writes :: "(MAct \<times> MReply) list \<Rightarrow> string list list" where
  "policy_writes [] = []"
| "policy_writes ((A_Write (W_Policy scope a), R_Unit) # tr) = acl_allow a # policy_writes tr"
| "policy_writes (_ # tr) = policy_writes tr"

lemma wit_race_end:
  "map_option (\<lambda>(p, st, tr). (policy_writes tr, acl_allow (get_swarm_policy ''r'' (me_db st)))) wit_race =
   Some ([[''old''], [''new''], [''old'']], [''old''])"
  by code_simp

lemma wit_race_reach:
  assumes "wit_race = Some (p, st, tr)"
  shows "\<exists>ps. mreach wit_cfg [] (\<lambda>s. s) (\<lambda>_. 0) \<lparr>mx_state = st, mx_progs = ps, mx_trace = tr\<rparr>"
proof -
  let ?R = "(msys wit_cfg [] (\<lambda>s. s) (\<lambda>_. 0))\<^sup>*\<^sup>*"
  from assms obtain p0 st0 tr0 p1 st1 tr1 p2 st2 tr2 xs0 xs1 xs2 xs3 where
    d0: "wit_drive wit_create_acl xs0 (mx_state sys_init, []) = Some (p0, st0, tr0)" and
    d1: "wit_drive (Q_Spawn ''r'' ''hand'' Worker ''dig'') xs1 (st0, tr0) = Some (p1, st1, tr1)" and
    d2: "wit_drive (Q_SetAcl ''r'' (wit_acl ''new'')) xs2 (st1, tr1) = Some (p2, st2, tr2)" and
    d3: "drive (\<lambda>_. 0) xs3 (p1, st2, tr2) = Some (p, st, tr)"
    unfolding wit_race_def by (auto split: option.splits)
  define c0 where "c0 = \<lparr>mx_state = st0, mx_progs = (\<lambda>_. MRet ())(0 := p0), mx_trace = tr0\<rparr>"
  define c1 where "c1 = \<lparr>mx_state = st1, mx_progs = (mx_progs c0)(1 := p1), mx_trace = tr1\<rparr>"
  define c2 where "c2 = \<lparr>mx_state = st2, mx_progs = (mx_progs c1)(2 := p2), mx_trace = tr2\<rparr>"
  have "?R sys_init c0" using handler_runs [of "\<lambda>_. 0" xs0 wit_cfg "[]" "\<lambda>s. s" wit_create_acl sys_init p0 st0 tr0 0] d0
    by (simp add: wit_drive_def sys_init_def c0_def)
  moreover have "?R c0 c1" using handler_runs [of "\<lambda>_. 0" xs1 wit_cfg "[]" "\<lambda>s. s" "Q_Spawn ''r'' ''hand'' Worker ''dig''" c0 p1 st1 tr1 1] d1
    by (simp add: wit_drive_def c0_def c1_def)
  moreover have "?R c1 c2" using handler_runs [of "\<lambda>_. 0" xs2 wit_cfg "[]" "\<lambda>s. s" "Q_SetAcl ''r'' (wit_acl ''new'')" c1 p2 st2 tr2 2] d2
    by (simp add: wit_drive_def c0_def c1_def c2_def)
  moreover have "?R c2 \<lparr>mx_state = st, mx_progs = (mx_progs c2)(1 := p), mx_trace = tr\<rparr>"
    using drive_runs [of "\<lambda>_. 0" xs3 p1 c2 p st tr 1] d3 by (simp add: c0_def c1_def c2_def)
  ultimately show ?thesis unfolding mreach_def by (meson rtranclp_trans)
qed

theorem acl_can_be_undone:
  "\<exists>c. mreach wit_cfg [] (\<lambda>s. s) (\<lambda>_. 0) c \<and> policy_writes (mx_trace c) = [[''old''], [''new''], [''old'']] \<and>
     acl_allow (get_swarm_policy ''r'' (me_db (mx_state c))) = [''old'']"
proof -
  from wit_race_end obtain p st tr where w: "wit_race = Some (p, st, tr)" "policy_writes tr = [[''old''], [''new''], [''old'']]"
    "acl_allow (get_swarm_policy ''r'' (me_db st)) = [''old'']" by auto
  with wit_race_reach [OF w(1)] show ?thesis by force
qed

end
