(* ===== verification/Iso_Board.thy ===== *)
theory Iso_Board
  imports Iso_Swarm
begin

text \<open>
  Facts about the master's tables and texts that concern one operation each: what a write leaves
  alone, the names it gives swarm sessions, and the paths of the message board.
\<close>

section \<open>Writes and what they leave alone\<close>

text \<open>A table that is read by key, and writes each of which is to one key.\<close>

locale keyed_writes =
  fixes look :: "'k \<Rightarrow> 'db \<Rightarrow> 'v"
    and wr :: "'w \<Rightarrow> 'db \<Rightarrow> 'db"
    and key :: "'w \<Rightarrow> 'k"
  assumes look_other: "k \<noteq> key w \<Longrightarrow> look k (wr w db) = look k db"
begin

lemma look_fold: "k \<notin> key ` set ws \<Longrightarrow> look k (fold wr ws db) = look k db"
  by (induction ws arbitrary: db) (auto simp: look_other)

lemma look_last: "k \<notin> key ` set ws \<Longrightarrow> look k (fold wr (us @ w # ws) db) = look k (wr w (fold wr us db))"
  by (simp add: look_fold)

end

fun board_key :: "BoardOp \<Rightarrow> string \<times> string" where
  "board_key (B_Post scope path author body) = (scope, path)"
| "board_key (B_Update scope path editor body) = (scope, path)"
| "board_key (B_Delete scope path) = (scope, path)"

lemma find_filter_other: "(\<And>x. P x \<Longrightarrow> Q x) \<Longrightarrow> find P (filter Q xs) = find P xs"
  by (induction xs) auto

lemma find_map_other: "(\<And>x. P (f x) = P x) \<Longrightarrow> (\<And>x. P x \<Longrightarrow> f x = x) \<Longrightarrow> find P (map f xs) = find P xs"
  by (induction xs) auto

lemma board_read_other:
  assumes "(scope, path) \<noteq> board_key op"
  shows "board_read scope path (snd (board_exec now op db)) = board_read scope path db"
proof (cases op)
  case (B_Post s p a b)
  then show ?thesis using assms
    by (auto simp: posted_def board_create_def board_read_def find_snoc post_at_def split: option.split)
next
  case (B_Update s p e b)
  then show ?thesis using assms
    by (auto simp: posted_def board_update_def board_read_def post_at_def intro!: find_map_other)
next
  case (B_Delete s p)
  then show ?thesis using assms
    by (auto simp: posted_def board_delete_def board_read_def post_at_def intro!: find_filter_other)
qed

interpretation board: keyed_writes "\<lambda>(scope, path). board_read scope path"
    "\<lambda>(now, op) db. snd (board_exec now op db)" "\<lambda>(now, op). board_key op"
  by unfold_locales (auto simp: board_read_other)

interpretation policy: keyed_writes get_swarm_policy "\<lambda>(scope, acl). set_swarm_policy scope acl" fst
  by unfold_locales (auto simp: get_swarm_policy_def set_swarm_policy_def update_conv' delete_conv')

interpretation session: keyed_writes ms_get "\<lambda>(now, sid, u) db. snd (update_exec now sid u db)" "\<lambda>(now, sid, u). sid"
  by unfold_locales (auto simp: update_exec_def dest!: ms_update_get split: option.split)

text \<open>What is read back.\<close>

lemma policy_read_back: "get_swarm_policy scope (set_swarm_policy scope acl db) = (if acl_is_empty acl then acl_default else acl)"
  by (simp add: get_swarm_policy_def set_swarm_policy_def update_conv' delete_conv')

theorem policy_last_set:
  "scope \<notin> fst ` set ws \<Longrightarrow>
   get_swarm_policy scope (fold (\<lambda>(s, a). set_swarm_policy s a) (us @ (scope, acl) # ws) db) =
   (if acl_is_empty acl then acl_default else acl)"
  using policy.look_last [of scope ws us "(scope, acl)" db] by (simp add: policy_read_back)

theorem board_last_post:
  assumes "board_create now scope path author body (fold (\<lambda>(n, op) db. snd (board_exec n op db)) us db) = Ok db'"
    and "(scope, path) \<notin> (\<lambda>(n, op). board_key op) ` set ws"
  shows "board_read scope path (fold (\<lambda>(n, op) db. snd (board_exec n op db)) (us @ (now, B_Post scope path author body) # ws) db) =
    Some \<lparr>po_scope = scope, po_path = path, po_author = author, po_updated_by = author, po_body = body,
          po_created_at = now, po_updated_at = now\<rparr>"
proof -
  let ?d = "fold (\<lambda>(n, op) db. snd (board_exec n op db)) us db"
  from assms(1) have none: "find (post_at scope path) (md_board ?d) = None"
    by (auto simp: board_create_def find_None_iff list_ex_iff split: if_splits)
  have "board_read scope path (snd (board_exec now (B_Post scope path author body) ?d)) =
      Some \<lparr>po_scope = scope, po_path = path, po_author = author, po_updated_by = author, po_body = body,
          po_created_at = now, po_updated_at = now\<rparr>"
    using assms(1) none by (auto simp: posted_def board_create_def board_read_def find_snoc post_at_def split: if_splits)
  with board.look_last [of "(scope, path)" ws us "(now, B_Post scope path author body)" db] assms(2) show ?thesis by simp
qed

section \<open>Names\<close>

lemma show_nat_inj: "show_nat m = show_nat n \<longleftrightarrow> m = n"
  by (metis option.inject parse_digits_show_nat)

lemma lower_names:
  "distinct (map to_ascii_lowercase swarm_names)"
  "list_all (\<lambda>n. list_all (\<lambda>c. c \<noteq> CHR ''-'') (to_ascii_lowercase n)) swarm_names"
  by code_simp+

lemma length_swarm_names: "length swarm_names = 16"
  by (simp add: swarm_names_def)

lemma lower_base:
  assumes "i < 16"
  shows "CHR ''-'' \<notin> set (to_ascii_lowercase (swarm_names ! i))"
proof -
  have "swarm_names ! i \<in> set swarm_names" using assms by (intro nth_mem) (simp add: length_swarm_names)
  with lower_names(2) show ?thesis by (auto simp: list_all_iff)
qed

lemma lower_digits: "list_all ascii_digit s \<Longrightarrow> to_ascii_lowercase s = s"
  by (auto simp: to_ascii_lowercase_def list_all_iff ascii_digit_def ascii_upper_def intro!: map_idI lower_char_id)

lemma lower_candidate:
  "to_ascii_lowercase (name_candidate i) =
     to_ascii_lowercase (swarm_names ! (i mod 16)) @ (if i < 16 then [] else CHR ''-'' # show_nat (i div 16 + 1))"
  using lower_digits [OF show_nat_digits]
  by (auto simp: name_candidate_def Let_def to_ascii_lowercase_def lower_char_def ascii_upper_def byte_def)

lemma candidate_inj: "inj (\<lambda>i. to_ascii_lowercase (name_candidate i))"
proof (rule injI)
  fix i j
  assume eq: "to_ascii_lowercase (name_candidate i) = to_ascii_lowercase (name_candidate j)"
  let ?b = "\<lambda>i. to_ascii_lowercase (swarm_names ! (i mod 16))"
  let ?r = "\<lambda>i. if i < 16 then [] else CHR ''-'' # show_nat (i div 16 + 1)"
  have base: "takeWhile (\<lambda>c. c \<noteq> CHR ''-'') (?b k @ ?r k) = ?b k"
    and rest: "dropWhile (\<lambda>c. c \<noteq> CHR ''-'') (?b k @ ?r k) = ?r k" for k
    using lower_base [of "k mod 16"] by (subst takeWhile_append2 dropWhile_append2, auto)+
  from eq have e: "?b i @ ?r i = ?b j @ ?r j" by (simp only: lower_candidate)
  then have "?b i = ?b j" "?r i = ?r j" by (metis base, metis rest)
  then have "i mod 16 = j mod 16"
    using lower_names(1) nth_eq_iff_index_eq [of "map to_ascii_lowercase swarm_names" "i mod 16" "j mod 16"]
    by (simp add: length_swarm_names)
  moreover have "i div 16 = j div 16"
    using \<open>?r i = ?r j\<close> by (auto simp: show_nat_inj split: if_splits)
  ultimately show "i = j" by (metis mult_div_mod_eq)
qed

theorem assign_name_fresh:
  "\<exists>n. assign_name sessions = Some n \<and> (\<forall>s \<in> set sessions. \<not> eq_ignore_ascii_case (ss_name s) n)"
proof -
  let ?c = "\<lambda>i. to_ascii_lowercase (name_candidate i)"
  let ?taken = "(\<lambda>s. to_ascii_lowercase (ss_name s)) ` set sessions"
  have "\<not> ?c ` {0..<Suc (length sessions)} \<subseteq> ?taken"
  proof
    assume "?c ` {0..<Suc (length sessions)} \<subseteq> ?taken"
    then have "card (?c ` {0..<Suc (length sessions)}) \<le> card ?taken" by (intro card_mono) auto
    also have "\<dots> \<le> length sessions" by (metis card_image_le card_length finite_set le_trans)
    finally show False using card_image [OF inj_on_subset [OF candidate_inj subset_UNIV], of "{0..<Suc (length sessions)}"] by simp
  qed
  then obtain i where "i < Suc (length sessions)" "?c i \<notin> ?taken" by (auto simp: image_subset_iff)
  then have "name_candidate i \<in> set (map name_candidate [0..<Suc (length sessions)])"
    "\<not> list_ex (\<lambda>s. eq_ignore_ascii_case (ss_name s) (name_candidate i)) sessions"
    by (auto simp: list_ex_iff eq_ignore_ascii_case_def image_iff simp del: upt_Suc)
  then have "find (\<lambda>c. \<not> list_ex (\<lambda>s. eq_ignore_ascii_case (ss_name s) c) sessions)
      (map name_candidate [0..<Suc (length sessions)]) \<noteq> None"
    unfolding find_None_iff by blast
  then obtain n where "assign_name sessions = Some n" unfolding assign_name_def by auto
  moreover from this have "\<not> list_ex (\<lambda>s. eq_ignore_ascii_case (ss_name s) n) sessions"
    unfolding assign_name_def by (auto simp: find_Some_iff)
  ultimately show ?thesis by (auto simp: list_ex_iff)
qed

section \<open>Board paths\<close>

lemma check_segments_Ok:
  "check_segments segs = Ok () \<longleftrightarrow> (\<forall>seg \<in> set segs. seg \<notin> {[], ''.'', ''..''} \<and> length seg \<le> 128)"
  by (induction segs) (auto simp: ensure_def)

theorem board_path_shape:
  assumes "board_path raw = Ok path"
  shows "path \<noteq> [] \<and> length path \<le> 512 \<and> \<not> has_control path \<and>
    (\<exists>segs. path = join_with CHR ''/'' segs \<and> length segs \<le> 16 \<and>
       (\<forall>seg \<in> set segs. CHR ''/'' \<notin> set seg \<and> seg \<notin> {[], ''.'', ''..''} \<and> length seg \<le> 128))"
proof -
  from assms have p: "path \<noteq> []" "length path \<le> 512" "\<not> has_control path" "length (split_on CHR ''/'' path) \<le> 16"
      "check_segments (split_on CHR ''/'' path) = Ok ()"
    by (auto simp: board_path_def Let_def ensure_def and_then_Inr_iff split: if_splits)
  have "\<forall>seg \<in> set (split_on CHR ''/'' path). CHR ''/'' \<notin> set seg \<and> seg \<notin> {[], ''.'', ''..''} \<and> length seg \<le> 128"
    using p(5) split_on_pieces by (auto simp: check_segments_Ok simp del: split_on.simps)
  with p(1-4) show ?thesis by (intro conjI exI [of _ "split_on CHR ''/'' path"]) (simp_all add: join_split)
qed

text \<open>
  The text a post is listed under is not always one it can be read by: blanks inside the outer
  slashes survive the first normalization and not the second.
\<close>

theorem board_path_not_idempotent:
  "board_path ''/ notes'' = Ok '' notes''" "board_path '' notes'' = Ok ''notes''"
  by code_simp+

end
