(* ===== verification/Iso_Path.thy ===== *)
theory Iso_Path
  imports Iso_Common
begin

text \<open>
  Paths and words of text, as the host-side crates use them: \<^verbatim>\<open>std::path::Path\<close> (its components,
  \<^verbatim>\<open>join\<close>, \<^verbatim>\<open>file_name\<close>, \<^verbatim>\<open>parent\<close>, \<^verbatim>\<open>strip_prefix\<close>) over the bytes of a path,
  \<^verbatim>\<open>str::split_whitespace\<close> and \<^verbatim>\<open>str::parse\<close> at the unsigned widths.
\<close>

section \<open>Components\<close>

datatype Component = RootDir | CurDir | ParentDir | Normal string

definition segments :: "string \<Rightarrow> string list" where
  "segments p = filter (\<lambda>s. s \<noteq> '''' \<and> s \<noteq> ''.'') (split_on (CHR ''/'') p)"

definition seg_component :: "string \<Rightarrow> Component" where
  "seg_component s = (if s = ''..'' then ParentDir else Normal s)"

text \<open>Repeated separators and inner dots are dropped; a leading dot is kept.\<close>

definition components :: "string \<Rightarrow> Component list" where
  "components p =
     (if starts_with ''/'' p then [RootDir]
      else if hd (split_on (CHR ''/'') p) = ''.'' then [CurDir] else []) @
     map seg_component (segments p)"

definition is_absolute :: "string \<Rightarrow> bool" where
  "is_absolute p = starts_with ''/'' p"

text \<open>\<^verbatim>\<open>Path::join\<close>: an absolute argument replaces the path.\<close>

definition path_join :: "string \<Rightarrow> string \<Rightarrow> string" where
  "path_join p q =
     (if is_absolute q then q
      else if p = '''' \<or> ends_with ''/'' p then p @ q
      else p @ ''/'' @ q)"

fun component_name :: "Component \<Rightarrow> string option" where
  "component_name (Normal s) = Some s"
| "component_name _ = None"

definition file_name :: "string \<Rightarrow> string option" where
  "file_name p = (if components p = [] then None else component_name (last (components p)))"

text \<open>\<^verbatim>\<open>Path::parent\<close>, as the components that remain.\<close>

definition path_parent :: "string \<Rightarrow> Component list option" where
  "path_parent p =
     (if components p = [] \<or> last (components p) = RootDir then None
      else Some (butlast (components p)))"

fun component_text :: "Component \<Rightarrow> string" where
  "component_text RootDir = []"
| "component_text CurDir = ''.''"
| "component_text ParentDir = ''..''"
| "component_text (Normal s) = s"

definition path_text :: "Component list \<Rightarrow> string" where
  "path_text cs = (if cs = [RootDir] then ''/'' else join_with (CHR ''/'') (map component_text cs))"

text \<open>\<^verbatim>\<open>strip_prefix("/")\<close>, or the path itself where it is relative.\<close>

definition unrooted :: "string \<Rightarrow> string" where
  "unrooted p = dropWhile (\<lambda>c. c = CHR ''/'') p"

lemma path_join_rel:
  "\<not> is_absolute q \<Longrightarrow> p \<noteq> '''' \<Longrightarrow> \<not> ends_with ''/'' p \<Longrightarrow> path_join p q = p @ ''/'' @ q"
  by (simp add: path_join_def)

lemma unrooted_rel: "\<not> is_absolute (unrooted p)"
  by (induction p) (auto simp: unrooted_def is_absolute_def starts_with_iff)

lemma segments_normal: "s \<in> set (segments p) \<Longrightarrow> s \<noteq> '''' \<and> s \<noteq> ''.'' \<and> CHR ''/'' \<notin> set s"
  by (auto simp: segments_def dest: split_on_pieces)

text \<open>What a file name cannot be: empty, a dot, two dots, or with a separator in it.\<close>

definition plain_name :: "string \<Rightarrow> bool" where
  "plain_name s \<longleftrightarrow> s \<noteq> '''' \<and> s \<noteq> ''.'' \<and> s \<noteq> ''..'' \<and> CHR ''/'' \<notin> set s"

lemma components_normal: "Normal s \<in> set (components p) \<Longrightarrow> plain_name s"
  by (auto simp: components_def seg_component_def plain_name_def dest: segments_normal split: if_splits)

lemma file_name_plain: "file_name p = Some s \<Longrightarrow> plain_name s"
proof -
  assume "file_name p = Some s"
  then have "components p \<noteq> []" "component_name (last (components p)) = Some s"
    by (auto simp: file_name_def split: if_splits)
  then have "last (components p) = Normal s" and "last (components p) \<in> set (components p)"
    by (auto elim: component_name.elims)
  then show "plain_name s" by (auto intro: components_normal)
qed

section \<open>Words of text\<close>

lemma split_once_ws_shorter: "split_once_ws s = Some (a, r) \<Longrightarrow> length r < length s"
proof (induction s arbitrary: a)
  case Nil
  then show ?case by simp
next
  case (Cons c cs)
  show ?case
  proof (cases "ws_len (c # cs) > 0")
    case True
    with Cons.prems show ?thesis by (auto simp del: ws_len.simps)
  next
    case False
    with Cons.prems obtain a' where "split_once_ws cs = Some (a', r)" by (auto simp del: ws_len.simps)
    then show ?thesis using Cons.IH by fastforce
  qed
qed

lemma length_trim_start: "length (trim_start s) \<le> length s"
  using suffix_trim_start by (rule suffix_length_le)

function split_whitespace :: "string \<Rightarrow> string list" where
  "split_whitespace s =
     (if trim_start s = '''' then []
      else case split_once_ws (trim_start s) of
        None \<Rightarrow> [trim_start s]
      | Some (w, r) \<Rightarrow> w # split_whitespace r)"
  by pat_completeness auto
termination
proof (relation "measure length")
  fix s w r and x :: "string \<times> string"
  assume "split_once_ws (trim_start s) = Some x" and "(w, r) = x"
  then show "(r, s) \<in> measure length"
    using split_once_ws_shorter [of "trim_start s" w r] length_trim_start [of s] by auto
qed simp

declare split_whitespace.simps [simp del]

text \<open>A word before white space is the first word.\<close>

lemma split_once_ws_at:
  "list_all plain w \<Longrightarrow> ws1 c \<Longrightarrow> split_once_ws (w @ c # s) = Some (w, s)"
proof (induction w)
  case Nil
  then have "ws_len (c # s) = 1" by (cases s rule: ws_len.cases; cases s; cases "tl s") auto
  then show ?case by (simp del: ws_len.simps)
next
  case (Cons x w)
  then have "ws_len (x # w @ c # s) = 0" by (simp add: ws_len_plain)
  with Cons show ?case by (simp del: ws_len.simps)
qed

lemma split_once_ws_none: "list_all plain w \<Longrightarrow> split_once_ws w = None"
proof (induction w)
  case (Cons x w)
  then have "ws_len (x # w) = 0" by (simp add: ws_len_plain)
  with Cons show ?case by (simp del: ws_len.simps)
qed simp

lemma trim_start_plain: "list_all plain w \<Longrightarrow> w \<noteq> [] \<Longrightarrow> trim_start (w @ s) = w @ s"
  by (cases w) (auto intro!: trim_start_id ws_len_plain)

lemma split_whitespace_word:
  assumes "list_all plain w" and "w \<noteq> []" and "ws1 c"
  shows "split_whitespace (w @ c # s) = w # split_whitespace s"
  using assms by (subst split_whitespace.simps) (simp add: trim_start_plain split_once_ws_at)

lemma split_whitespace_last:
  assumes "list_all plain w" and "w \<noteq> []"
  shows "split_whitespace w = [w]"
  using assms trim_start_plain [of w "[]"]
  by (subst split_whitespace.simps) (simp add: split_once_ws_none)

lemma split_whitespace_Nil [simp]: "split_whitespace [] = []"
  by (subst split_whitespace.simps) (simp add: trim_start_id)

section \<open>Unsigned numbers in text\<close>

text \<open>\<^verbatim>\<open>str::parse\<close> at a width whose values are below \<open>bound\<close>.\<close>

definition parse_unsigned :: "nat \<Rightarrow> string \<Rightarrow> nat option" where
  "parse_unsigned bound s =
     (let ds = (case s of c # cs \<Rightarrow> if c = CHR ''+'' then cs else s | [] \<Rightarrow> s) in
      if ds = [] then None
      else (case parse_digits 0 ds of
              None \<Rightarrow> None
            | Some n \<Rightarrow> if n < bound then Some n else None))"

definition parse_u32 :: "string \<Rightarrow> u32 option" where
  "parse_u32 s = map_option of_nat (parse_unsigned (2 ^ 32) s)"

definition parse_u64 :: "string \<Rightarrow> u64 option" where
  "parse_u64 s = map_option of_nat (parse_unsigned (2 ^ 64) s)"

lemma parse_unsigned_show_nat: "n < bound \<Longrightarrow> parse_unsigned bound (show_nat n) = Some n"
proof -
  assume n: "n < bound"
  obtain c cs where s: "show_nat n = c # cs" by (cases "show_nat n") auto
  with show_nat_digits [of n] have "ascii_digit c" by simp
  then have "c \<noteq> CHR ''+''" by (auto simp: ascii_digit_def byte_def)
  with s n parse_digits_show_nat [of n] show ?thesis by (simp add: parse_unsigned_def)
qed

lemma parse_u32_show [simp]: "parse_u32 (show_nat (unat (x :: u32))) = Some x"
  using parse_unsigned_show_nat [of "unat x" "2 ^ 32"] unsigned_less [of x, where 'a = nat]
  by (simp add: parse_u32_def)

lemma parse_u64_show [simp]: "parse_u64 (show_nat (unat (x :: u64))) = Some x"
  using parse_unsigned_show_nat [of "unat x" "2 ^ 64"] unsigned_less [of x, where 'a = nat]
  by (simp add: parse_u64_def)

lemma show_nat_plain: "list_all plain (show_nat n)"
  using show_nat_digits [of n] by (auto simp: list_all_iff intro: ascii_digit_plain)

section \<open>Widening\<close>

lemma unat_ucast_widen:
  "LENGTH('a) \<le> LENGTH('b) \<Longrightarrow> unat (ucast (x :: 'a :: len word) :: 'b :: len word) = unat x"
proof -
  assume "LENGTH('a) \<le> LENGTH('b)"
  then have "(2 :: nat) ^ LENGTH('a) \<le> 2 ^ LENGTH('b)" by (rule power_increasing) simp
  then have "unat x < 2 ^ LENGTH('b)" using unsigned_less [of x, where 'a = nat] by linarith
  then show ?thesis by (simp add: unsigned_ucast_eq take_bit_nat_eq_self)
qed

lemma unat_max: "unat (max a b) = max (unat a) (unat (b :: 'a :: len word))"
  by (simp add: max_def word_le_nat_alt)

lemma unat_add_fits: "unat a + unat b < 2 ^ LENGTH('a) \<Longrightarrow> unat (a + b :: 'a :: len word) = unat a + unat b"
  by (simp add: unat_add_lem [THEN iffD1])

lemma unat_mult_fits: "unat a * unat b < 2 ^ LENGTH('a) \<Longrightarrow> unat (a * b :: 'a :: len word) = unat a * unat b"
  by (simp add: unat_mult_lem [THEN iffD1])

end
