(* ===== verification/Iso_Host.thy ===== *)
theory Iso_Host
  imports Iso_Path
begin

text \<open>
  Programs against the operating system. The storage backend, the VMM runtime, the guest agent
  and the bake of an image drive files, processes, devices and command line tools; what these
  answer is not theirs to decide. Such a function is a program: a tree of calls with a
  continuation for every answer. A run is a list of events, each a call with the answer it got;
  \<open>hruns p es x\<close> holds when the program \<open>p\<close> can make exactly the calls of \<open>es\<close>, with those answers,
  and return \<open>x\<close>. Theorems over all runs hold whatever the system answers.
\<close>

section \<open>Calls\<close>

datatype ErrKind = NotFound | NotADirectory | WouldBlock | NoSys | Busy | UnexpectedEof | InvalidInput | InvalidData | OtherKind

datatype IoErr = IoErr (io_kind: ErrKind) (io_text: string)

datatype FileType = FT_File | FT_Dir | FT_Symlink | FT_Block | FT_Other

record Meta =
  m_type :: FileType
  m_len :: u64
  m_mode :: u32
  m_uid :: u32
  m_gid :: u32
  m_rdev :: nat
  m_mtime :: int
  m_mtime_nsec :: int

text \<open>A command line tool run to its end (\<^verbatim>\<open>iso-storage-manager/src/command.rs\<close>).\<close>

record Cmd =
  argv :: "string list"
  ignore_err :: bool

record CmdOut =
  co_ok :: bool
  co_stdout :: string

text \<open>A process to start: its arguments, directory, namespaces and identity.\<close>

record SpawnSpec =
  sp_argv :: "string list"
  sp_cwd :: "string option"
  sp_netns :: "string option"
  sp_bind :: "(string \<times> string) option"
  sp_ids :: "(u32 \<times> u32) option"
  sp_env :: "(string \<times> string) list"
  sp_log :: "string option"

text \<open>Calls that only succeed or fail.\<close>

datatype HCall =
    CreateDirAll string
  | CreateDir string
  | CreateFile string
  | SetLen string u64
  | WriteFile string string
  | RemoveFile string
  | RemoveDir string
  | RemoveDirAll string
  | Rename string string
  | CopyFile string string
  | HardLink string string
  | Chown string u32 u32
  | Chmod string u32
  | Mknod string nat
  | Umount string
  | OpenFile string
  | Connect string
  | SetNs string
  | TunAttach string
  | TunSetOwner u32
  | TunSetGroup u32
  | KillPid nat nat
  | KillGroup nat nat
  | PidfdSend nat nat nat
  | WaitChild nat
  | SleepMs nat
  | ChildInsert "string" nat
  | SetTime nat nat
  | Unpack nat string
  | OpenWrite string
  | AddEntropy string "u32 list"
  | WriteAll string string
  | ReseedRng string

text \<open>Calls that answer a text, a number, a yes or no.\<close>

datatype HTextCall =
    ReadFile string
  | ReadPrefix string u64
  | ReadReady string nat
  | Canonicalize string
  | FindOnPath string
  | CurrentDir


datatype HNumCall =
    SpawnProc SpawnSpec
  | PidfdOpen nat
  | ChildGet string
  | ChildRemove string
  | TryWait nat
  | NowMs
  | UnixNanos
  | GetUid
  | GetEuid
  | RunTool "string list"
  | OpenAt string nat nat

datatype HProbe = Exists string | IsFile string | IfExists string | SignalZero nat

text \<open>A child run until it ends or a time is up: what was read of its two outputs, chunk by chunk.\<close>

datatype ChildEnd = Exited "32 word option" "32 word option" | WaitError IoErr | Elapsed

record ChildRun =
  cr_out :: "string list"
  cr_err :: "string list"
  cr_end :: ChildEnd

section \<open>Programs\<close>

datatype HQuery =
    QDo HCall
  | QText HTextCall
  | QNum HNumCall
  | QAsk HProbe
  | QMeta bool string
  | QList string
  | QRun Cmd
  | QHttp string string string string
  | QChild nat "string option" nat

datatype HAnswer =
    ADo "(IoErr, unit) result"
  | AText "(IoErr, string) result"
  | ANum "(IoErr, nat) result"
  | AAsk bool
  | AMeta "(IoErr, Meta) result"
  | AList "(IoErr, string list) result"
  | ARun "(CommonError, CmdOut) result"
  | AHttp "(CommonError, nat \<times> string) result"
  | AChild ChildRun

datatype 'a hprog = HRet 'a | HStep HQuery "HAnswer \<Rightarrow> 'a hprog"

primrec hbind :: "'a hprog \<Rightarrow> ('a \<Rightarrow> 'b hprog) \<Rightarrow> 'b hprog" where
  "hbind (HRet x) f = f x"
| "hbind (HStep q k) f = HStep q (\<lambda>a. hbind (k a) f)"

text \<open>Each kind of call has its own kind of answer; runs have no others (\<open>answers\<close>).\<close>

definition answers :: "HQuery \<Rightarrow> HAnswer \<Rightarrow> bool" where
  "answers q a =
     (case q of
        QDo _ \<Rightarrow> (case a of ADo _ \<Rightarrow> True | _ \<Rightarrow> False)
      | QText _ \<Rightarrow> (case a of AText _ \<Rightarrow> True | _ \<Rightarrow> False)
      | QNum _ \<Rightarrow> (case a of ANum _ \<Rightarrow> True | _ \<Rightarrow> False)
      | QAsk _ \<Rightarrow> (case a of AAsk _ \<Rightarrow> True | _ \<Rightarrow> False)
      | QMeta _ _ \<Rightarrow> (case a of AMeta _ \<Rightarrow> True | _ \<Rightarrow> False)
      | QList _ \<Rightarrow> (case a of AList _ \<Rightarrow> True | _ \<Rightarrow> False)
      | QRun _ \<Rightarrow> (case a of ARun _ \<Rightarrow> True | _ \<Rightarrow> False)
      | QHttp _ _ _ _ \<Rightarrow> (case a of AHttp _ \<Rightarrow> True | _ \<Rightarrow> False)
      | QChild _ _ _ \<Rightarrow> (case a of AChild _ \<Rightarrow> True | _ \<Rightarrow> False))"

abbreviation no_reply :: "(IoErr, 'a) result" where
  "no_reply \<equiv> Err (IoErr OtherKind [])"

definition HDo :: "HCall \<Rightarrow> ((IoErr, unit) result \<Rightarrow> 'a hprog) \<Rightarrow> 'a hprog" where
  "HDo c k = HStep (QDo c) (\<lambda>a. k (case a of ADo r \<Rightarrow> r | _ \<Rightarrow> no_reply))"

definition HText :: "HTextCall \<Rightarrow> ((IoErr, string) result \<Rightarrow> 'a hprog) \<Rightarrow> 'a hprog" where
  "HText c k = HStep (QText c) (\<lambda>a. k (case a of AText r \<Rightarrow> r | _ \<Rightarrow> no_reply))"

definition HNum :: "HNumCall \<Rightarrow> ((IoErr, nat) result \<Rightarrow> 'a hprog) \<Rightarrow> 'a hprog" where
  "HNum c k = HStep (QNum c) (\<lambda>a. k (case a of ANum r \<Rightarrow> r | _ \<Rightarrow> no_reply))"

definition HAsk :: "HProbe \<Rightarrow> (bool \<Rightarrow> 'a hprog) \<Rightarrow> 'a hprog" where
  "HAsk c k = HStep (QAsk c) (\<lambda>a. k (case a of AAsk r \<Rightarrow> r | _ \<Rightarrow> False))"

definition HMeta :: "bool \<Rightarrow> string \<Rightarrow> ((IoErr, Meta) result \<Rightarrow> 'a hprog) \<Rightarrow> 'a hprog" where
  "HMeta l p k = HStep (QMeta l p) (\<lambda>a. k (case a of AMeta r \<Rightarrow> r | _ \<Rightarrow> no_reply))"

definition HList :: "string \<Rightarrow> ((IoErr, string list) result \<Rightarrow> 'a hprog) \<Rightarrow> 'a hprog" where
  "HList p k = HStep (QList p) (\<lambda>a. k (case a of AList r \<Rightarrow> r | _ \<Rightarrow> no_reply))"

definition HRun :: "Cmd \<Rightarrow> ((CommonError, CmdOut) result \<Rightarrow> 'a hprog) \<Rightarrow> 'a hprog" where
  "HRun c k = HStep (QRun c) (\<lambda>a. k (case a of ARun r \<Rightarrow> r | _ \<Rightarrow> Err NotProvisioned))"

definition HHttp :: "string \<Rightarrow> string \<Rightarrow> string \<Rightarrow> string \<Rightarrow>
    ((CommonError, nat \<times> string) result \<Rightarrow> 'a hprog) \<Rightarrow> 'a hprog" where
  "HHttp s m p b k = HStep (QHttp s m p b) (\<lambda>a. k (case a of AHttp r \<Rightarrow> r | _ \<Rightarrow> Err NotProvisioned))"

definition HChild :: "nat \<Rightarrow> string option \<Rightarrow> nat \<Rightarrow> (ChildRun \<Rightarrow> 'a hprog) \<Rightarrow> 'a hprog" where
  "HChild pid input ms k = HStep (QChild pid input ms) (\<lambda>a. k (case a of AChild r \<Rightarrow> r
     | _ \<Rightarrow> \<lparr>cr_out = [], cr_err = [], cr_end = Elapsed\<rparr>))"

lemmas hop_defs = HDo_def HText_def HNum_def HAsk_def HMeta_def HList_def HRun_def HHttp_def HChild_def

lemma hbind_ops [simp]:
  "hbind (HDo c k1) f = HDo c (\<lambda>r. hbind (k1 r) f)"
  "hbind (HText ct k2) f = HText ct (\<lambda>r. hbind (k2 r) f)"
  "hbind (HNum cn k3) f = HNum cn (\<lambda>r. hbind (k3 r) f)"
  "hbind (HAsk ca k4) f = HAsk ca (\<lambda>r. hbind (k4 r) f)"
  "hbind (HMeta l p k5) f = HMeta l p (\<lambda>r. hbind (k5 r) f)"
  "hbind (HList p k6) f = HList p (\<lambda>r. hbind (k6 r) f)"
  "hbind (HRun cr k7) f = HRun cr (\<lambda>r. hbind (k7 r) f)"
  "hbind (HHttp s m p b k8) f = HHttp s m p b (\<lambda>r. hbind (k8 r) f)"
  "hbind (HChild pid input ms k9) f = HChild pid input ms (\<lambda>r. hbind (k9 r) f)"
  by (simp_all add: hop_defs)

text \<open>Rust's \<^verbatim>\<open>?\<close> on a call, a call whose failure is ignored, and a call whose error is worded.\<close>

definition htry :: "('e, 'a) result hprog \<Rightarrow> ('a \<Rightarrow> ('e, 'b) result hprog) \<Rightarrow> ('e, 'b) result hprog" where
  "htry p f = hbind p (\<lambda>r. case r of Inl e \<Rightarrow> HRet (Err e) | Inr x \<Rightarrow> f x)"

definition hdo :: "HCall \<Rightarrow> 'a hprog \<Rightarrow> 'a hprog" where
  "hdo c p = HDo c (\<lambda>_. p)"

definition hmust :: "(IoErr \<Rightarrow> 'e) \<Rightarrow> HCall \<Rightarrow> ('e, 'a) result hprog \<Rightarrow> ('e, 'a) result hprog" where
  "hmust err c p = HDo c (\<lambda>r. case r of Inl e \<Rightarrow> HRet (Err (err e)) | Inr _ \<Rightarrow> p)"

fun hforeach :: "('a \<Rightarrow> ('e, unit) result hprog) \<Rightarrow> 'a list \<Rightarrow> ('e, unit) result hprog" where
  "hforeach f [] = HRet (Ok ())"
| "hforeach f (x # xs) = htry (f x) (\<lambda>_. hforeach f xs)"

text \<open>The clock as a number of milliseconds.\<close>

definition now_ms :: "(nat \<Rightarrow> 'a hprog) \<Rightarrow> 'a hprog" where
  "now_ms k = HNum NowMs (\<lambda>r. k (case r of Ok t \<Rightarrow> t | Err _ \<Rightarrow> 0))"

section \<open>Runs\<close>

type_synonym HEvent = "HQuery \<times> HAnswer"

primrec hruns :: "'a hprog \<Rightarrow> HEvent list \<Rightarrow> 'a \<Rightarrow> bool" where
  "hruns (HRet x) es y = (es = [] \<and> y = x)"
| "hruns (HStep q k) es y =
     (case es of [] \<Rightarrow> False | (q', a) # es' \<Rightarrow> q' = q \<and> answers q a \<and> hruns (k a) es' y)"

lemma hruns_step:
  "hruns (HStep q k) es y \<longleftrightarrow> (\<exists>a es'. es = (q, a) # es' \<and> answers q a \<and> hruns (k a) es' y)"
  by (auto split: list.splits)

declare hruns.simps(2) [simp del]

lemma answers_iff:
  "answers (QDo c) a \<longleftrightarrow> (\<exists>r. a = ADo r)"
  "answers (QText ct) a \<longleftrightarrow> (\<exists>r. a = AText r)"
  "answers (QNum cn) a \<longleftrightarrow> (\<exists>r. a = ANum r)"
  "answers (QAsk ca) a \<longleftrightarrow> (\<exists>r. a = AAsk r)"
  "answers (QMeta l p) a \<longleftrightarrow> (\<exists>r. a = AMeta r)"
  "answers (QList p) a \<longleftrightarrow> (\<exists>r. a = AList r)"
  "answers (QRun cr) a \<longleftrightarrow> (\<exists>r. a = ARun r)"
  "answers (QHttp s m p b) a \<longleftrightarrow> (\<exists>r. a = AHttp r)"
  "answers (QChild pid input ms) a \<longleftrightarrow> (\<exists>r. a = AChild r)"
  by (cases a; simp add: answers_def)+

lemma hruns_ops:
  "hruns (HDo c k1) es y \<longleftrightarrow> (\<exists>r es'. es = (QDo c, ADo r) # es' \<and> hruns (k1 r) es' y)"
  "hruns (HText ct k2) es y \<longleftrightarrow> (\<exists>r es'. es = (QText ct, AText r) # es' \<and> hruns (k2 r) es' y)"
  "hruns (HNum cn k3) es y \<longleftrightarrow> (\<exists>r es'. es = (QNum cn, ANum r) # es' \<and> hruns (k3 r) es' y)"
  "hruns (HAsk ca k4) es y \<longleftrightarrow> (\<exists>r es'. es = (QAsk ca, AAsk r) # es' \<and> hruns (k4 r) es' y)"
  "hruns (HMeta l p k5) es y \<longleftrightarrow> (\<exists>r es'. es = (QMeta l p, AMeta r) # es' \<and> hruns (k5 r) es' y)"
  "hruns (HList p k6) es y \<longleftrightarrow> (\<exists>r es'. es = (QList p, AList r) # es' \<and> hruns (k6 r) es' y)"
  "hruns (HRun cr k7) es y \<longleftrightarrow> (\<exists>r es'. es = (QRun cr, ARun r) # es' \<and> hruns (k7 r) es' y)"
  "hruns (HHttp s m p b k8) es y \<longleftrightarrow> (\<exists>r es'. es = (QHttp s m p b, AHttp r) # es' \<and> hruns (k8 r) es' y)"
  "hruns (HChild pid input ms k9) es y \<longleftrightarrow>
     (\<exists>r es'. es = (QChild pid input ms, AChild r) # es' \<and> hruns (k9 r) es' y)"
  by (auto simp: hop_defs hruns_step answers_iff)

lemma hruns_bind:
  "hruns (hbind p f) es y \<longleftrightarrow> (\<exists>es1 es2 x. es = es1 @ es2 \<and> hruns p es1 x \<and> hruns (f x) es2 y)"
proof (induction p arbitrary: es)
  case (HRet x)
  show ?case by auto
next
  case (HStep q k)
  then have IH: "hruns (hbind (k a) f) es y \<longleftrightarrow>
      (\<exists>es1 es2 x. es = es1 @ es2 \<and> hruns (k a) es1 x \<and> hruns (f x) es2 y)" for a es by simp
  show ?case by (auto simp: hruns_step IH Cons_eq_append_conv) (metis append_Cons)+
qed

lemma hruns_try:
  "hruns (htry p f) es y \<longleftrightarrow>
     (\<exists>e. y = Err e \<and> hruns p es (Err e)) \<or>
     (\<exists>es1 es2 x. es = es1 @ es2 \<and> hruns p es1 (Ok x) \<and> hruns (f x) es2 y)"
  (is "?l \<longleftrightarrow> ?r")
proof
  assume ?l
  then obtain es1 es2 r where *: "es = es1 @ es2" "hruns p es1 r"
    "hruns (case r of Inl e \<Rightarrow> HRet (Err e) | Inr x \<Rightarrow> f x) es2 y"
    by (auto simp: htry_def hruns_bind)
  show ?r using * by (cases r) auto
next
  assume ?r
  then show ?l
  proof (elim disjE exE conjE)
    fix e
    assume "y = Err e" "hruns p es (Err e)"
    then show ?l unfolding htry_def hruns_bind by (intro exI [of _ es] exI [of _ "[]"] exI [of _ "Err e"]) simp
  next
    fix es1 es2 x
    assume "es = es1 @ es2" "hruns p es1 (Ok x)" "hruns (f x) es2 y"
    then show ?l unfolding htry_def hruns_bind by (intro exI [of _ es1] exI [of _ es2] exI [of _ "Ok x"]) simp
  qed
qed

lemma hruns_do: "hruns (hdo c p) es y \<longleftrightarrow> (\<exists>r es'. es = (QDo c, ADo r) # es' \<and> hruns p es' y)"
  by (auto simp: hdo_def hruns_ops)

lemma hruns_must:
  "hruns (hmust err c p) es y \<longleftrightarrow>
     (\<exists>e. es = [(QDo c, ADo (Err e))] \<and> y = Err (err e)) \<or>
     (\<exists>es'. es = (QDo c, ADo (Ok ())) # es' \<and> hruns p es' y)"
  (is "?l \<longleftrightarrow> ?r")
proof
  assume ?l
  then obtain r es' where *: "es = (QDo c, ADo r) # es'"
    "hruns (case r of Inl e \<Rightarrow> HRet (Err (err e)) | Inr _ \<Rightarrow> p) es' y"
    by (auto simp: hmust_def hruns_ops)
  show ?r using * by (cases r) auto
next
  assume ?r
  then show ?l by (auto simp: hmust_def hruns_ops)
qed

lemmas hruns_rules = hruns.simps(1) hruns_ops hruns_bind hruns_do hruns_must hruns_try

text \<open>What holds of every call of a program holds of every event of its runs.\<close>

primrec hevery :: "(HQuery \<Rightarrow> bool) \<Rightarrow> 'a hprog \<Rightarrow> bool" where
  "hevery P (HRet x) = True"
| "hevery P (HStep q k) = (P q \<and> (\<forall>a. answers q a \<longrightarrow> hevery P (k a)))"

lemma hevery_runs: "hevery P p \<Longrightarrow> hruns p es x \<Longrightarrow> (q, a) \<in> set es \<Longrightarrow> P q"
proof (induction p arbitrary: es)
  case (HStep q' k)
  then obtain a' es' where "es = (q', a') # es'" "answers q' a'" "hruns (k a') es' x"
    by (auto simp: hruns_step)
  with HStep show ?case by auto
qed simp

lemma hevery_ops [simp]:
  "hevery P (HDo c k1) \<longleftrightarrow> P (QDo c) \<and> (\<forall>r. hevery P (k1 r))"
  "hevery P (HText ct k2) \<longleftrightarrow> P (QText ct) \<and> (\<forall>r. hevery P (k2 r))"
  "hevery P (HNum cn k3) \<longleftrightarrow> P (QNum cn) \<and> (\<forall>r. hevery P (k3 r))"
  "hevery P (HAsk ca k4) \<longleftrightarrow> P (QAsk ca) \<and> (\<forall>r. hevery P (k4 r))"
  "hevery P (HMeta l p k5) \<longleftrightarrow> P (QMeta l p) \<and> (\<forall>r. hevery P (k5 r))"
  "hevery P (HList p k6) \<longleftrightarrow> P (QList p) \<and> (\<forall>r. hevery P (k6 r))"
  "hevery P (HRun cr k7) \<longleftrightarrow> P (QRun cr) \<and> (\<forall>r. hevery P (k7 r))"
  "hevery P (HHttp s m p b k8) \<longleftrightarrow> P (QHttp s m p b) \<and> (\<forall>r. hevery P (k8 r))"
  "hevery P (HChild pid input ms k9) \<longleftrightarrow> P (QChild pid input ms) \<and> (\<forall>r. hevery P (k9 r))"
  by (auto simp: hop_defs answers_iff)

lemma hevery_bind: "hevery P p \<Longrightarrow> (\<And>x. hevery P (f x)) \<Longrightarrow> hevery P (hbind p f)"
  by (induction p) simp_all

lemma hevery_try: "hevery P p \<Longrightarrow> (\<And>x. hevery P (f x)) \<Longrightarrow> hevery P (htry p f)"
  by (auto simp: htry_def intro!: hevery_bind split: sum.splits)

lemma hevery_do [simp]: "hevery P (hdo c p) \<longleftrightarrow> P (QDo c) \<and> hevery P p"
  by (simp add: hdo_def)

lemma hevery_must: "P (QDo c) \<Longrightarrow> hevery P p \<Longrightarrow> hevery P (hmust err c p)"
  by (auto simp: hmust_def split: sum.splits)

lemma hevery_foreach: "(\<And>x. x \<in> set xs \<Longrightarrow> hevery P (f x)) \<Longrightarrow> hevery P (hforeach f xs)"
  by (induction xs) (auto intro!: hevery_try)

lemmas hevery_rules = hevery_bind hevery_try hevery_must hevery_foreach

text \<open>Whatever the system answers, a program returns.\<close>

lemma answers_some: "\<exists>a. answers q a"
  by (cases q) (auto simp: answers_iff)

lemma hruns_total: "\<exists>es x. hruns p es x"
proof (induction p)
  case (HRet x)
  show ?case by simp
next
  case (HStep q k)
  obtain a where "answers q a" using answers_some by blast
  moreover obtain es x where "hruns (k a) es x" using HStep by blast
  ultimately have "hruns (HStep q k) ((q, a) # es) x" by (simp add: hruns_step)
  then show ?case by blast
qed

text \<open>A system with a state of its own, and a program run on it.\<close>

primrec hexec :: "('s \<Rightarrow> HQuery \<Rightarrow> HAnswer \<times> 's) \<Rightarrow> 'a hprog \<Rightarrow> 's \<Rightarrow> 'a \<times> 's" where
  "hexec sys (HRet x) s = (x, s)"
| "hexec sys (HStep q k) s = (case sys s q of (a, s') \<Rightarrow> hexec sys (k a) s')"

definition well_typed :: "('s \<Rightarrow> HQuery \<Rightarrow> HAnswer \<times> 's) \<Rightarrow> bool" where
  "well_typed sys \<longleftrightarrow> (\<forall>s q. answers q (fst (sys s q)))"

lemma hexec_runs: "well_typed sys \<Longrightarrow> hexec sys p s = (x, s') \<Longrightarrow> \<exists>es. hruns p es x"
proof (induction p arbitrary: s)
  case (HStep q k)
  obtain a s1 where sys: "sys s q = (a, s1)" by (cases "sys s q")
  with HStep.prems have "answers q a" by (metis fst_conv well_typed_def)
  moreover obtain es where "hruns (k a) es x" using HStep.IH [of "k a" s1] HStep.prems sys by auto
  ultimately have "hruns (HStep q k) ((q, a) # es) x" by (simp add: hruns_step)
  then show ?case by blast
qed auto

lemma hexec_bind: "hexec sys (hbind p f) s = (case hexec sys p s of (x, s') \<Rightarrow> hexec sys (f x) s')"
  by (induction p arbitrary: s) (auto split: prod.splits)

lemma hexec_try:
  "hexec sys (htry p f) s =
     (case hexec sys p s of (Inl e, s') \<Rightarrow> (Err e, s') | (Inr x, s') \<Rightarrow> hexec sys (f x) s')"
  by (auto simp: htry_def hexec_bind split: prod.splits sum.splits)

lemma hexec_run:
  "hexec sys (HRun c k) s =
     (case sys s (QRun c) of (a, s') \<Rightarrow> hexec sys (k (case a of ARun r \<Rightarrow> r | _ \<Rightarrow> Err NotProvisioned)) s')"
  by (simp add: HRun_def)

lemma hexec_do:
  "hexec sys (HDo c k) s =
     (case sys s (QDo c) of (a, s') \<Rightarrow> hexec sys (k (case a of ADo r \<Rightarrow> r | _ \<Rightarrow> no_reply)) s')"
  by (simp add: HDo_def)

section \<open>Calls that depend on what came before\<close>

text \<open>Every call a program makes is allowed after the events before it.\<close>

primrec hguard :: "(HEvent list \<Rightarrow> HQuery \<Rightarrow> bool) \<Rightarrow> 'a hprog \<Rightarrow> HEvent list \<Rightarrow> bool" where
  "hguard P (HRet x) h = True"
| "hguard P (HStep q k) h = (P h q \<and> (\<forall>a. answers q a \<longrightarrow> hguard P (k a) (h @ [(q, a)])))"

lemma hguard_runs:
  "hguard P p h \<Longrightarrow> hruns p (es1 @ (q, a) # es2) x \<Longrightarrow> P (h @ es1) q"
proof (induction p arbitrary: h es1)
  case (HStep q' k)
  show ?case
  proof (cases es1)
    case Nil
    with HStep.prems show ?thesis by (auto simp: hruns_step)
  next
    case (Cons e es)
    with HStep.prems obtain b where b: "e = (q', b)" "answers q' b" "hruns (k b) (es @ (q, a) # es2) x"
      by (auto simp: hruns_step)
    with HStep.prems(1) have "hguard P (k b) (h @ [(q', b)])" by simp
    from HStep.IH [OF _ this b(3)] Cons b(1) show ?thesis by simp
  qed
qed simp

lemma hguard_bind:
  "hguard P p h \<Longrightarrow> (\<And>es x. hruns p es x \<Longrightarrow> hguard P (f x) (h @ es)) \<Longrightarrow> hguard P (hbind p f) h"
proof (induction p arbitrary: h)
  case (HRet x)
  from HRet(2) [of "[]" x] show ?case by simp
next
  case (HStep q k)
  have "hguard P (hbind (k a) f) (h @ [(q, a)])" if a: "answers q a" for a
  proof (rule HStep.IH [of "k a"])
    show "hguard P (k a) (h @ [(q, a)])" using HStep.prems(1) a by simp
    show "hguard P (f x) ((h @ [(q, a)]) @ es)" if "hruns (k a) es x" for es x
      using HStep.prems(2) [of "(q, a) # es" x] a that by (simp add: hruns_step)
  qed simp
  with HStep.prems(1) show ?case by simp
qed

lemma hguard_every: "(\<And>h q. Q q \<Longrightarrow> P h q) \<Longrightarrow> hevery Q p \<Longrightarrow> hguard P p h"
  by (induction p arbitrary: h) auto

lemma hguard_ops:
  "hguard P (HDo c k1) h \<longleftrightarrow> P h (QDo c) \<and> (\<forall>r. hguard P (k1 r) (h @ [(QDo c, ADo r)]))"
  "hguard P (HText ct k2) h \<longleftrightarrow> P h (QText ct) \<and> (\<forall>r. hguard P (k2 r) (h @ [(QText ct, AText r)]))"
  "hguard P (HNum cn k3) h \<longleftrightarrow> P h (QNum cn) \<and> (\<forall>r. hguard P (k3 r) (h @ [(QNum cn, ANum r)]))"
  "hguard P (HAsk ca k4) h \<longleftrightarrow> P h (QAsk ca) \<and> (\<forall>r. hguard P (k4 r) (h @ [(QAsk ca, AAsk r)]))"
  "hguard P (hdo c p) h \<longleftrightarrow> P h (QDo c) \<and> (\<forall>r. hguard P p (h @ [(QDo c, ADo r)]))"
  by (auto simp: hdo_def hop_defs answers_iff)

end
