(* ===== verification/Iso_Storage.thy ===== *)
theory Iso_Storage
  imports Iso_Host
begin

text \<open>
  The storage backend (\<^verbatim>\<open>crates/iso-storage-manager\<close>): a VM's volume is a copy-on-write snapshot
  of its template's volume in an LVM thin pool on a loop-mounted file. Commands are values
  (\<^verbatim>\<open>command.rs\<close>), their building is pure, and the manager's operations (\<^verbatim>\<open>manager.rs\<close>) are
  programs that run them. LVM is not modelled: what the theorems need of it (what \<^verbatim>\<open>lvs\<close>,
  \<^verbatim>\<open>lvcreate\<close>, \<^verbatim>\<open>lvchange\<close> and \<^verbatim>\<open>lvremove\<close> do to the set of volumes) is the hypothesis \<open>lvm_ok\<close>.
  \<^verbatim>\<open>f64\<close> parsing is a parameter.
\<close>

section \<open>Commands\<close>

definition cmd_new :: "string list \<Rightarrow> Cmd" where
  "cmd_new args = \<lparr>argv = args, ignore_err = False\<rparr>"

definition cmd_lenient :: "string list \<Rightarrow> Cmd" where
  "cmd_lenient args = (cmd_new args)\<lparr>ignore_err := True\<rparr>"

definition cmd_display :: "Cmd \<Rightarrow> string" where
  "cmd_display c = join_with (CHR '' '') (argv c)"

text \<open>\<^verbatim>\<open>SystemRunner::run\<close>, from what starting the process gave: its error, or success, output
  and error output.\<close>

definition system_run :: "Cmd \<Rightarrow> (string, bool \<times> string \<times> string) result \<Rightarrow> (CommonError, CmdOut) result" where
  "system_run cmd output =
     (case output of
        Err e \<Rightarrow> Err (Backend (''spawn `'' @ cmd_display cmd @ ''`: '' @ e))
      | Ok (success, out, err) \<Rightarrow>
          if \<not> success \<and> \<not> ignore_err cmd
          then Err (Backend (''`'' @ cmd_display cmd @ ''` failed: '' @ trim err))
          else Ok \<lparr>co_ok = success, co_stdout = out\<rparr>)"

section \<open>Configuration and names\<close>

record StorageConfig =
  image_path :: string
  image_size :: u64
  vg :: string
  thin_pool :: string
  template_prefix :: string
  volume_prefix :: string

definition storage_config_default :: StorageConfig where
  "storage_config_default =
     \<lparr>image_path = ''/var/lib/iso/storage.img'', image_size = 100 * 1024 * 1024 * 1024,
      vg = ''iso'', thin_pool = ''pool'', template_prefix = ''tpl_'', volume_prefix = ''vm_''\<rparr>"

definition volume_lv :: "StorageConfig \<Rightarrow> VmId \<Rightarrow> string" where
  "volume_lv cfg vm = volume_prefix cfg @ hex_fixed 32 (unat vm)"

definition template_lv :: "StorageConfig \<Rightarrow> string \<Rightarrow> string" where
  "template_lv cfg template = template_prefix cfg @ template"

definition vg_lv :: "StorageConfig \<Rightarrow> string \<Rightarrow> string" where
  "vg_lv cfg lv = vg cfg @ ''/'' @ lv"

definition dev_path :: "StorageConfig \<Rightarrow> string \<Rightarrow> string" where
  "dev_path cfg lv = ''/dev/'' @ vg cfg @ ''/'' @ lv"

definition lv_exists_cmd :: "StorageConfig \<Rightarrow> string \<Rightarrow> Cmd" where
  "lv_exists_cmd cfg lv = cmd_lenient [''lvs'', ''--noheadings'', vg_lv cfg lv]"

definition snapshot_cmd :: "StorageConfig \<Rightarrow> string \<Rightarrow> string \<Rightarrow> Cmd" where
  "snapshot_cmd cfg template volume =
     cmd_new [''lvcreate'', ''--snapshot'', ''--name'', volume, ''--setactivationskip'', ''n'', vg_lv cfg template]"

definition activate_cmd :: "StorageConfig \<Rightarrow> string \<Rightarrow> Cmd" where
  "activate_cmd cfg lv =
     cmd_new [''lvchange'', ''--activate'', ''y'', ''--ignoreactivationskip'', vg_lv cfg lv]"

definition remove_cmd :: "StorageConfig \<Rightarrow> string \<Rightarrow> Cmd" where
  "remove_cmd cfg lv = cmd_lenient [''lvremove'', ''--force'', vg_lv cfg lv]"

definition template_create_cmd :: "StorageConfig \<Rightarrow> string \<Rightarrow> string \<Rightarrow> Cmd" where
  "template_create_cmd cfg template virtual_size =
     cmd_new [''lvcreate'', ''--type'', ''thin'', ''--virtualsize'', virtual_size, ''--thinpool'',
       thin_pool cfg, ''--name'', template, vg cfg]"

section \<open>Operations\<close>

definition run_cmd :: "Cmd \<Rightarrow> (CommonError, CmdOut) result hprog" where
  "run_cmd c = HRun c HRet"

definition lv_exists :: "StorageConfig \<Rightarrow> string \<Rightarrow> (CommonError, bool) result hprog" where
  "lv_exists cfg lv = htry (run_cmd (lv_exists_cmd cfg lv)) (\<lambda>out. HRet (Ok (co_ok out)))"

definition provision_sync ::
    "StorageConfig \<Rightarrow> VmId \<Rightarrow> string \<Rightarrow> (CommonError, StorageHandle) result hprog" where
  "provision_sync cfg vm tname =
     (let volume = volume_lv cfg vm;
          handle = \<lparr>sh_vm = vm, sh_device_path = dev_path cfg volume,
                    sh_backing_device = Some (dev_path cfg (template_lv cfg tname))\<rparr>
      in htry (lv_exists cfg volume) (\<lambda>there.
         if there then htry (run_cmd (activate_cmd cfg volume)) (\<lambda>_. HRet (Ok handle))
         else
           let template = template_lv cfg tname in
           htry (lv_exists cfg template) (\<lambda>found.
           if \<not> found then
             HRet (Err (Backend (''template '' @ [CHR 39] @ tname @ [CHR 39] @ '' not found (expected LV '' @
               vg_lv cfg template @ '')'')))
           else
             htry (run_cmd (snapshot_cmd cfg template volume)) (\<lambda>_.
             htry (run_cmd (activate_cmd cfg volume)) (\<lambda>_. HRet (Ok handle))))))"

definition teardown_sync :: "StorageConfig \<Rightarrow> VmId \<Rightarrow> (CommonError, unit) result hprog" where
  "teardown_sync cfg vm = htry (run_cmd (remove_cmd cfg (volume_lv cfg vm))) (\<lambda>_. HRet (Ok ()))"

definition be_io :: "string \<Rightarrow> IoErr \<Rightarrow> CommonError" where
  "be_io what e = Backend (what @ '': '' @ io_text e)"

text \<open>The backing chain, one step after another. A parent directory is the path's text without
  its last component; the quoting of its name in an error message is not modelled.\<close>

definition ensure_image :: "StorageConfig \<Rightarrow> (CommonError, unit) result hprog" where
  "ensure_image cfg =
     HAsk (Exists (image_path cfg)) (\<lambda>there.
     if there then HRet (Ok ())
     else
       let fresh = hmust (be_io ''create image'') (CreateFile (image_path cfg))
                    (hmust (be_io ''size image'') (SetLen (image_path cfg) (image_size cfg)) (HRet (Ok ())))
       in case path_parent (image_path cfg) of
            None \<Rightarrow> fresh
          | Some parent \<Rightarrow>
              hmust (be_io (''create '' @ path_text parent)) (CreateDirAll (path_text parent)) fresh)"

definition ensure_loop :: "StorageConfig \<Rightarrow> (CommonError, string) result hprog" where
  "ensure_loop cfg =
     htry (run_cmd (cmd_lenient [''losetup'', ''-j'', image_path cfg, ''-O'', ''NAME'', ''--noheadings''])) (\<lambda>out.
     let existing = trim (co_stdout out) in
     htry (if existing = [] then
             htry (run_cmd (cmd_new [''losetup'', ''--find'', ''--show'', image_path cfg])) (\<lambda>o2.
               HRet (Ok (trim (co_stdout o2))))
           else HRet (Ok existing)) (\<lambda>loopdev.
     if loopdev = [] then HRet (Err (Backend ''could not determine loop device''))
     else HRet (Ok loopdev)))"

definition unless_ok :: "Cmd \<Rightarrow> Cmd \<Rightarrow> (CommonError, unit) result hprog" where
  "unless_ok probe fix_it =
     htry (run_cmd probe) (\<lambda>out.
     if co_ok out then HRet (Ok ()) else htry (run_cmd fix_it) (\<lambda>_. HRet (Ok ())))"

definition ensure_backing_sync :: "StorageConfig \<Rightarrow> (CommonError, string) result hprog" where
  "ensure_backing_sync cfg =
     htry (ensure_image cfg) (\<lambda>_.
     htry (ensure_loop cfg) (\<lambda>loopdev.
     htry (unless_ok (cmd_lenient [''pvs'', loopdev]) (cmd_new [''pvcreate'', loopdev])) (\<lambda>_.
     htry (unless_ok (cmd_lenient [''vgs'', vg cfg]) (cmd_new [''vgcreate'', vg cfg, loopdev])) (\<lambda>_.
     htry (lv_exists cfg (thin_pool cfg)) (\<lambda>there.
     if there then HRet (Ok loopdev)
     else htry (run_cmd (cmd_new [''lvcreate'', ''--type'', ''thin-pool'', ''-l'', ''100%FREE'', ''--name'',
            thin_pool cfg, vg cfg])) (\<lambda>_. HRet (Ok loopdev)))))))"

definition ensure_template_sync :: "StorageConfig \<Rightarrow> string \<Rightarrow> string \<Rightarrow> (CommonError, unit) result hprog" where
  "ensure_template_sync cfg name virtual_size =
     htry (lv_exists cfg (template_lv cfg name)) (\<lambda>there.
     if there then HRet (Ok ())
     else htry (run_cmd (template_create_cmd cfg (template_lv cfg name) virtual_size)) (\<lambda>_. HRet (Ok ())))"

text \<open>\<^verbatim>\<open>pool_stats_sync\<close>. The second line of \<^verbatim>\<open>df\<close>'s output has the numbers; an empty one has none.
  A capacity is cast from \<^verbatim>\<open>f64\<close> to \<^verbatim>\<open>u64\<close>, which truncates and saturates.\<close>

definition f64_as_u64 :: "rat \<Rightarrow> u64" where
  "f64_as_u64 r = (if r \<ge> 2 ^ 64 then - 1 else of_nat (nat \<lfloor>r\<rfloor>))"

definition stat_percent :: "(string \<Rightarrow> f64 option) \<Rightarrow> string option \<Rightarrow> f64" where
  "stat_percent parse_f64 field =
     (case field of None \<Rightarrow> Some 0 | Some v \<Rightarrow> (case parse_f64 v of Some x \<Rightarrow> x | None \<Rightarrow> Some 0))"

definition nth_opt :: "nat \<Rightarrow> 'a list \<Rightarrow> 'a option" where
  "nth_opt i xs = (if i < length xs then Some (xs ! i) else None)"

definition stat_capacity :: "(string \<Rightarrow> f64 option) \<Rightarrow> string option \<Rightarrow> u64 option" where
  "stat_capacity parse_f64 field =
     (case Option.bind field parse_f64 of
        Some (Some r) \<Rightarrow> if r \<ge> 0 then Some (f64_as_u64 r) else None
      | _ \<Rightarrow> None)"

definition pool_stats_sync ::
    "(string \<Rightarrow> f64 option) \<Rightarrow> StorageConfig \<Rightarrow> (CommonError, PoolStats) result hprog" where
  "pool_stats_sync parse_f64 cfg =
     htry (run_cmd (cmd_new [''lvs'', ''--noheadings'', ''--nosuffix'', ''--units'', ''b'', ''-o'',
             ''data_percent,metadata_percent,lv_size'', vg_lv cfg (thin_pool cfg)])) (\<lambda>out.
     let fields = split_whitespace (co_stdout out);
         stats = \<lparr>ps_backend = Some ''lvm-thin'', capacity_bytes = stat_capacity parse_f64 (nth_opt 2 fields),
           filesystem_capacity_bytes = None, filesystem_available_bytes = None,
           data_percent = stat_percent parse_f64 (nth_opt 0 fields),
           metadata_percent = stat_percent parse_f64 (nth_opt 1 fields)\<rparr>
     in hbind (run_cmd (cmd_new [''df'', ''-B1'', ''--output=size,avail'', image_path cfg])) (\<lambda>df.
     case df of
       Err _ \<Rightarrow> HRet (Ok stats)
     | Ok o2 \<Rightarrow>
         (case nth_opt 1 (split_on (CHR 10) (co_stdout o2)) of
            None \<Rightarrow> HRet (Ok stats)
          | Some line \<Rightarrow>
              let fs = split_whitespace line in
              HRet (Ok (stats\<lparr>filesystem_capacity_bytes := Option.bind (nth_opt 0 fs) parse_u64,
                              filesystem_available_bytes := Option.bind (nth_opt 1 fs) parse_u64\<rparr>)))))"

section \<open>Names\<close>

lemma volume_lv_inj [simp]: "volume_lv cfg v = volume_lv cfg w \<longleftrightarrow> v = w"
proof
  assume "volume_lv cfg v = volume_lv cfg w"
  then have "hex_fixed 32 (unat v) = hex_fixed 32 (unat w)" by (simp add: volume_lv_def)
  moreover have "unat x < 16 ^ 32" for x :: VmId
    using unsigned_less [of x, where 'a = nat] by simp
  ultimately have "unat v = unat w" using hex_fixed_inj by blast
  then show "v = w" by (rule unsigned_word_eqI)
qed simp

lemma system_run_ok: "system_run cmd output = Ok out \<Longrightarrow> co_ok out \<or> ignore_err cmd"
  by (auto simp: system_run_def split: sum.splits prod.splits if_splits)

section \<open>What LVM does\<close>

text \<open>
  The system has a set of volumes, each with the volume it was cut from, if any. \<^verbatim>\<open>lvs\<close> tells
  whether a volume is there and \<^verbatim>\<open>lvchange\<close> activates one, neither changes the set; a snapshot
  that succeeds makes the volume it names, one that fails makes nothing; \<^verbatim>\<open>lvremove\<close> removes the
  volume or leaves it, and succeeds only when it is gone.
\<close>

definition lvm_ok ::
    "StorageConfig \<Rightarrow> ('s \<Rightarrow> HQuery \<Rightarrow> HAnswer \<times> 's) \<Rightarrow> ('s \<Rightarrow> string \<Rightarrow> string option option) \<Rightarrow> bool" where
  "lvm_ok cfg sys vols \<longleftrightarrow>
     (\<forall>s lv r s'. hexec sys (run_cmd (lv_exists_cmd cfg lv)) s = (r, s') \<longrightarrow>
        vols s' = vols s \<and> (\<forall>out. r = Ok out \<longrightarrow> co_ok out = (vols s lv \<noteq> None))) \<and>
     (\<forall>s t v r s'. hexec sys (run_cmd (snapshot_cmd cfg t v)) s = (r, s') \<longrightarrow>
        vols s' = (case r of Err _ \<Rightarrow> vols s | Ok _ \<Rightarrow> (vols s)(v \<mapsto> Some t))) \<and>
     (\<forall>s lv r s'. hexec sys (run_cmd (activate_cmd cfg lv)) s = (r, s') \<longrightarrow> vols s' = vols s) \<and>
     (\<forall>s lv r s'. hexec sys (run_cmd (remove_cmd cfg lv)) s = (r, s') \<longrightarrow>
        vols s' = (vols s)(lv := None) \<or>
        vols s' = vols s \<and> (\<forall>out. r = Ok out \<longrightarrow> \<not> co_ok out))"

lemma lvm_rules:
  assumes "lvm_ok cfg sys vols"
  shows "hexec sys (run_cmd (lv_exists_cmd cfg lv)) s = (r, s') \<Longrightarrow>
      vols s' = vols s \<and> (\<forall>out. r = Ok out \<longrightarrow> co_ok out = (vols s lv \<noteq> None))"
    and "hexec sys (run_cmd (snapshot_cmd cfg t v)) s = (r, s') \<Longrightarrow>
      vols s' = (case r of Err _ \<Rightarrow> vols s | Ok _ \<Rightarrow> (vols s)(v \<mapsto> Some t))"
    and "hexec sys (run_cmd (activate_cmd cfg lv)) s = (r, s') \<Longrightarrow> vols s' = vols s"
    and "hexec sys (run_cmd (remove_cmd cfg lv)) s = (r, s') \<Longrightarrow>
      vols s' = (vols s)(lv := None) \<or> vols s' = vols s \<and> (\<forall>out. r = Ok out \<longrightarrow> \<not> co_ok out)"
proof -
  note L = assms [unfolded lvm_ok_def]
  show "hexec sys (run_cmd (lv_exists_cmd cfg lv)) s = (r, s') \<Longrightarrow>
      vols s' = vols s \<and> (\<forall>out. r = Ok out \<longrightarrow> co_ok out = (vols s lv \<noteq> None))"
    using L [THEN conjunct1] by metis
  show "hexec sys (run_cmd (snapshot_cmd cfg t v)) s = (r, s') \<Longrightarrow>
      vols s' = (case r of Err _ \<Rightarrow> vols s | Ok _ \<Rightarrow> (vols s)(v \<mapsto> Some t))"
    using L [THEN conjunct2, THEN conjunct1, rule_format] .
  show "hexec sys (run_cmd (activate_cmd cfg lv)) s = (r, s') \<Longrightarrow> vols s' = vols s"
    using L [THEN conjunct2, THEN conjunct2, THEN conjunct1, rule_format] .
  show "hexec sys (run_cmd (remove_cmd cfg lv)) s = (r, s') \<Longrightarrow>
      vols s' = (vols s)(lv := None) \<or> vols s' = vols s \<and> (\<forall>out. r = Ok out \<longrightarrow> \<not> co_ok out)"
    using L [THEN conjunct2, THEN conjunct2, THEN conjunct2] by metis
qed

lemma lv_exists_exec:
  assumes "lvm_ok cfg sys vols" and "hexec sys (lv_exists cfg lv) s = (r, s')"
  shows "vols s' = vols s \<and> (\<forall>b. r = Ok b \<longrightarrow> b = (vols s lv \<noteq> None))"
  using assms(2) lvm_rules(1) [OF assms(1), of lv s]
  by (auto simp: lv_exists_def hexec_try split: prod.splits sum.splits)

lemma activate_exec:
  assumes "lvm_ok cfg sys vols" and "hexec sys (htry (run_cmd (activate_cmd cfg lv)) (\<lambda>_. HRet (Ok h))) s = (r, s')"
  shows "vols s' = vols s \<and> (\<forall>h'. r = Ok h' \<longrightarrow> h' = h)"
  using assms(2) lvm_rules(3) [OF assms(1), of lv s] by (auto simp: hexec_try split: prod.splits sum.splits)

lemma snapshot_exec:
  assumes "lvm_ok cfg sys vols"
    and "hexec sys (htry (run_cmd (snapshot_cmd cfg t v)) (\<lambda>_.
        htry (run_cmd (activate_cmd cfg v)) (\<lambda>_. HRet (Ok h)))) s = (r, s')"
  shows "vols s' = vols s \<and> isl r \<or> vols s' = (vols s)(v \<mapsto> Some t) \<and> (\<forall>h'. r = Ok h' \<longrightarrow> h' = h)"
proof -
  obtain r1 s1 where 1: "hexec sys (run_cmd (snapshot_cmd cfg t v)) s = (r1, s1)" by fastforce
  show ?thesis
  proof (cases r1)
    case (Inl e)
    with 1 assms(2) lvm_rules(2) [OF assms(1) 1] show ?thesis by (auto simp: hexec_try)
  next
    case (Inr out)
    then have "hexec sys (htry (run_cmd (activate_cmd cfg v)) (\<lambda>_. HRet (Ok h))) s1 = (r, s')"
      using 1 assms(2) by (simp add: hexec_try [of sys "run_cmd (snapshot_cmd cfg t v)"])
    with activate_exec [OF assms(1)] lvm_rules(2) [OF assms(1) 1] Inr show ?thesis by fastforce
  qed
qed

text \<open>C15: provisioning a VM touches that VM's volume only. On an LVM that does what its manual
  says, the volumes of every other VM and every template are as before; a volume that is there
  is kept, with its origin, and its handle returned; a success without one has made it as a
  snapshot of the named template, under a name no other VM's volume has; a failure has made
  nothing else.\<close>

theorem provision_isolated:
  assumes "lvm_ok cfg sys vols" and "hexec sys (provision_sync cfg vm tname) s = (r, s')"
  shows "(\<forall>lv. lv \<noteq> volume_lv cfg vm \<longrightarrow> vols s' lv = vols s lv) \<and>
    (vols s (volume_lv cfg vm) \<noteq> None \<longrightarrow> vols s' = vols s) \<and>
    (\<forall>h. r = Ok h \<longrightarrow>
      h = \<lparr>sh_vm = vm, sh_device_path = dev_path cfg (volume_lv cfg vm),
           sh_backing_device = Some (dev_path cfg (template_lv cfg tname))\<rparr> \<and>
      vols s' (volume_lv cfg vm) =
        (case vols s (volume_lv cfg vm) of None \<Rightarrow> Some (Some (template_lv cfg tname)) | Some x \<Rightarrow> Some x)) \<and>
    (\<forall>w. volume_lv cfg w = volume_lv cfg vm \<longrightarrow> w = vm)"
proof -
  let ?v = "volume_lv cfg vm" and ?t = "template_lv cfg tname"
  obtain r1 s1 where 1: "hexec sys (lv_exists cfg ?v) s = (r1, s1)" by fastforce
  note e1 = lv_exists_exec [OF assms(1) 1]
  note run = assms(2) [unfolded provision_sync_def Let_def, unfolded hexec_try [of sys "lv_exists cfg ?v"] 1]
  consider (fail) e where "r1 = Err e" | (there) "r1 = Ok True" | (fresh) "r1 = Ok False"
    by (cases r1) auto
  then show ?thesis
  proof cases
    case fail
    with run e1 show ?thesis by auto
  next
    case there
    with run e1 activate_exec [OF assms(1)] show ?thesis by fastforce
  next
    case fresh
    obtain r2 s2 where 2: "hexec sys (lv_exists cfg ?t) s1 = (r2, s2)" by fastforce
    note e2 = lv_exists_exec [OF assms(1) 2]
    have none: "vols s ?v = None" and same: "vols s2 = vols s" using e1 e2 fresh by auto
    show ?thesis
    proof (cases "r2 = Ok True")
      case True
      with run fresh 2 have "hexec sys (htry (run_cmd (snapshot_cmd cfg ?t ?v)) (\<lambda>_.
        htry (run_cmd (activate_cmd cfg ?v)) (\<lambda>_. HRet (Ok \<lparr>sh_vm = vm, sh_device_path = dev_path cfg ?v,
           sh_backing_device = Some (dev_path cfg ?t)\<rparr>)))) s2 = (r, s')"
        by (simp add: hexec_try [of sys "lv_exists cfg ?t"])
      from snapshot_exec [OF assms(1) this] none same show ?thesis by auto
    next
      case False
      with run fresh 2 same show ?thesis
        by (cases r2) (auto simp: hexec_try [of sys "lv_exists cfg ?t"])
    qed
  qed
qed

text \<open>Teardown removes this VM's volume and no other. It answers success also where \<^verbatim>\<open>lvremove\<close> failed
  and the volume is still there.\<close>

lemma teardown_isolated:
  assumes "lvm_ok cfg sys vols" and "hexec sys (teardown_sync cfg vm) s = (r, s')"
  shows "\<forall>lv. lv \<noteq> volume_lv cfg vm \<longrightarrow> vols s' lv = vols s lv"
  using assms(2) lvm_rules(4) [OF assms(1), of "volume_lv cfg vm" s]
  by (auto simp: teardown_sync_def hexec_try split: prod.splits sum.splits)

lemma teardown_hides_failure:
  "hruns (teardown_sync cfg vm) [(QRun (remove_cmd cfg (volume_lv cfg vm)), ARun (Ok \<lparr>co_ok = False, co_stdout = x\<rparr>))] (Ok ())"
  by (auto simp: teardown_sync_def run_cmd_def hruns_rules)

section \<open>A pool to try it on\<close>

text \<open>Volumes as a list of names with their origins.\<close>

definition pool_sys :: "(string \<times> string option) list \<Rightarrow> HQuery \<Rightarrow> HAnswer \<times> (string \<times> string option) list" where
  "pool_sys s q =
     (case q of
        QRun c \<Rightarrow>
          (case argv c of
             [x, y, lv] \<Rightarrow>
               if x = ''lvs'' then (ARun (Ok \<lparr>co_ok = map_of s lv \<noteq> None, co_stdout = []\<rparr>), s)
               else (ARun (Ok \<lparr>co_ok = True, co_stdout = []\<rparr>), filter (\<lambda>(k, _). k \<noteq> lv) s)
           | [_, _, _, v, _, _, t] \<Rightarrow>
               (ARun (Ok \<lparr>co_ok = True, co_stdout = []\<rparr>), (''iso/'' @ v, Some t) # s)
           | _ \<Rightarrow> (ARun (Ok \<lparr>co_ok = True, co_stdout = []\<rparr>), s))
      | _ \<Rightarrow> (ADo (Ok ()), s))"

definition pool_vols :: "(string \<times> string option) list \<Rightarrow> string \<Rightarrow> string option option" where
  "pool_vols s lv = map_option (map_option (drop 4)) (map_of s (''iso/'' @ lv))"

lemma map_of_drop_key: "map_of (filter (\<lambda>(k, _). k \<noteq> x) s) y = (if y = x then None else map_of s y)"
  by (induction s) auto

lemma pool_lvm_ok: "lvm_ok storage_config_default pool_sys pool_vols"
  unfolding lvm_ok_def
  by (auto simp: run_cmd_def hexec_run pool_sys_def lv_exists_cmd_def snapshot_cmd_def activate_cmd_def
      remove_cmd_def cmd_new_def cmd_lenient_def vg_lv_def storage_config_default_def pool_vols_def
      map_of_drop_key fun_eq_iff)

theorem provision_isolated_witness:
  "\<exists>h s'. hexec pool_sys (provision_sync storage_config_default 7 ''base'') [(''iso/tpl_base'', None)] = (Ok h, s') \<and>
     pool_vols s' (volume_lv storage_config_default 7) = Some (Some ''tpl_base'') \<and>
     pool_vols s' ''tpl_base'' = Some None"
proof -
  let ?p = "hexec pool_sys (provision_sync storage_config_default 7 ''base'') [(''iso/tpl_base'', None)]"
  have "\<not> isl (fst ?p)"
    by (simp add: provision_sync_def Let_def lv_exists_def hexec_try run_cmd_def hexec_run pool_sys_def lv_exists_cmd_def
        snapshot_cmd_def activate_cmd_def cmd_new_def cmd_lenient_def vg_lv_def storage_config_default_def
        template_lv_def volume_lv_def)
  then obtain h s' where run: "?p = (Ok h, s')" by (metis not_isl_Ok prod.collapse)
  have fresh: "pool_vols [(''iso/tpl_base'', None)] (volume_lv storage_config_default 7) = None"
    and base: "pool_vols [(''iso/tpl_base'', None)] ''tpl_base'' = Some None"
    by (simp_all add: pool_vols_def volume_lv_def storage_config_default_def)
  have "''tpl_base'' \<noteq> volume_lv storage_config_default 7"
    by (simp add: volume_lv_def storage_config_default_def)
  with provision_isolated [OF pool_lvm_ok run] fresh base run show ?thesis
    by (auto simp: template_lv_def storage_config_default_def)
qed

end
