(* ===== verification/Iso_Jail.thy ===== *)
theory Iso_Jail
  imports Iso_Net Iso_Path
begin

text \<open>
  The jail a VM's VMM runs in (\<^verbatim>\<open>crates/iso-firecracker/src/jail.rs\<close>): the settings read from the
  environment, the identity a VM gets from its slot, the limits derived from its size, and the
  plan of the jail with the jailer's arguments. The identity reads the slot back from the network
  manager's name for it (Iso-Net); the root theory joins it with the control plane's claim on
  slots. The environment is a function from names to values, a file is what reading it
  gave. Building the jail on disk is in Iso-Vmm.
\<close>

section \<open>Settings\<close>

definition DEFAULT_ID_BASE :: u32 where
  "DEFAULT_ID_BASE = 65536"

record JailerConfig =
  jc_bin :: string
  chroot_base :: string
  jc_uid :: u32
  jc_gid :: u32
  id_base_of :: "u32 option"
  cgroup_version :: u8
  default_limits :: bool
  cgroup_controllers :: "string list option"
  jc_cgroups :: "string list"
  resource_limits :: "string list"

definition is_off :: "string \<Rightarrow> bool" where
  "is_off v = (to_ascii_lowercase (trim v) \<in> {''0'', ''false'', ''no'', ''off''})"

text \<open>\<^verbatim>\<open>b.checked_add(SlotId::MAX as u32).is_some()\<close>: the last slot's id is a \<^verbatim>\<open>u32\<close>.\<close>

definition id_base :: "string option \<Rightarrow> bool \<Rightarrow> u32 option" where
  "id_base setting pinned =
     (case setting of
        Some v \<Rightarrow>
          if is_off v then None
          else Some (case parse_u32 (trim v) of
                 Some b \<Rightarrow> if unat b + unat slot_max < 2 ^ 32 then b else DEFAULT_ID_BASE
               | None \<Rightarrow> DEFAULT_ID_BASE)
      | None \<Rightarrow> if pinned then None else Some DEFAULT_ID_BASE)"

definition is_ascii_hexdigit :: "char \<Rightarrow> bool" where
  "is_ascii_hexdigit c \<longleftrightarrow> hex_value c \<noteq> None"

definition slot_of :: "string \<Rightarrow> u16 option" where
  "slot_of netns =
     (case strip_prefix ''vm'' netns of
        None \<Rightarrow> None
      | Some hex \<Rightarrow>
          if length hex \<noteq> 4 \<or> \<not> list_all is_ascii_hexdigit hex then None
          else case parse_hex 0 hex of
                 None \<Rightarrow> None
               | Some n \<Rightarrow> if (of_nat n :: u16) \<le> slot_max then Some (of_nat n) else None)"

text \<open>\<^verbatim>\<open>u32::saturating_add\<close>.\<close>

definition saturating_add :: "u32 \<Rightarrow> u32 \<Rightarrow> u32" where
  "saturating_add a b = (if unat a + unat b < 2 ^ 32 then a + b else - 1)"

definition identity :: "JailerConfig \<Rightarrow> string \<Rightarrow> u32 \<times> u32" where
  "identity jail netns =
     (case (id_base_of jail, slot_of netns) of
        (Some base, Some slot) \<Rightarrow>
          let i = saturating_add base (ucast slot) in (i, i)
      | _ \<Rightarrow> (jc_uid jail, jc_gid jail))"

section \<open>Controllers the host offers\<close>

definition CGROUP_ROOT :: string where
  "CGROUP_ROOT = ''/sys/fs/cgroup''"

definition DERIVED_CGROUPS :: "string list" where
  "DERIVED_CGROUPS = [''cpu.max'', ''memory.max'', ''pids.max'']"

definition controller :: "string \<Rightarrow> string" where
  "controller setting = takeWhile (\<lambda>c. c \<noteq> CHR ''.'' \<and> c \<noteq> CHR ''='') setting"

text \<open>Why defaults were left out; the words of the log line are not modelled.\<close>

datatype JailNote =
    NoController "string list" "string list"
  | NoControllersFile "string list" string

definition offered_controllers :: "(string, string) result \<Rightarrow> string list \<times> JailNote option" where
  "offered_controllers read =
     (let offered = (case read of Ok s \<Rightarrow> split_whitespace s | Err _ \<Rightarrow> []);
          skipped = filter (\<lambda>c. controller c \<notin> set offered) DERIVED_CGROUPS in
      if skipped = [] then (offered, None)
      else (offered, Some (case read of
              Ok _ \<Rightarrow> NoController skipped offered
            | Err e \<Rightarrow> NoControllersFile skipped e)))"

definition offers :: "JailerConfig \<Rightarrow> string \<Rightarrow> bool" where
  "offers jail c = (case cgroup_controllers jail of None \<Rightarrow> True | Some offered \<Rightarrow> c \<in> set offered)"

text \<open>\<^verbatim>\<open>from_env\<close>: a variable that is blank counts as unset, except for the switch itself.\<close>

definition env_var :: "(string \<Rightarrow> string option) \<Rightarrow> string \<Rightarrow> string option" where
  "env_var env k = (case env k of Some v \<Rightarrow> if trim v = '''' then None else Some v | None \<Rightarrow> None)"

definition env_list :: "(string \<Rightarrow> string option) \<Rightarrow> string \<Rightarrow> string list" where
  "env_list env k =
     (case env_var env k of
        None \<Rightarrow> []
      | Some v \<Rightarrow> filter (\<lambda>s. s \<noteq> '''') (map trim (split_on (CHR '','') v)))"

definition parse_u8 :: "string \<Rightarrow> u8 option" where
  "parse_u8 s = map_option of_nat (parse_unsigned 256 s)"

definition env_parsed :: "(string \<Rightarrow> string option) \<Rightarrow> string \<Rightarrow> (string \<Rightarrow> 'a option) \<Rightarrow> 'a \<Rightarrow> 'a" where
  "env_parsed env k parse dflt =
     (case env_var env k of
        None \<Rightarrow> dflt
      | Some v \<Rightarrow> (case parse v of Some x \<Rightarrow> x | None \<Rightarrow> dflt))"

definition from_env ::
    "(string \<Rightarrow> string option) \<Rightarrow> (string, string) result \<Rightarrow> string \<Rightarrow> JailerConfig option" where
  "from_env env controllers_file state_dir =
     (if (case env ''ISO_JAILER'' of Some v \<Rightarrow> is_off v | None \<Rightarrow> False) then None
      else
        let pinned = env_var env ''ISO_JAIL_UID'' \<noteq> None \<or> env_var env ''ISO_JAIL_GID'' \<noteq> None;
            version = env_parsed env ''ISO_JAIL_CGROUP_VERSION'' parse_u8 2;
            limits_on = \<not> (case env_var env ''ISO_JAIL_LIMITS'' of Some v \<Rightarrow> is_off v | None \<Rightarrow> False)
        in Some
          \<lparr>jc_bin = (case env_var env ''ISO_JAILER_BIN'' of Some v \<Rightarrow> v | None \<Rightarrow> ''jailer''),
           chroot_base = (case env_var env ''ISO_JAIL_DIR'' of
              Some v \<Rightarrow> v | None \<Rightarrow> path_join state_dir ''jail''),
           jc_uid = env_parsed env ''ISO_JAIL_UID'' parse_u32 65534,
           jc_gid = env_parsed env ''ISO_JAIL_GID'' parse_u32 65534,
           id_base_of = id_base (env_var env ''ISO_JAIL_ID_BASE'') pinned,
           cgroup_version = version,
           default_limits = limits_on,
           cgroup_controllers =
             (if limits_on \<and> version = 2 then Some (fst (offered_controllers controllers_file)) else None),
           jc_cgroups = env_list env ''ISO_JAIL_CGROUPS'',
           resource_limits = env_list env ''ISO_JAIL_RLIMITS''\<rparr>)"

section \<open>Limits\<close>

definition setting_key :: "string \<Rightarrow> string" where
  "setting_key s = (case split_once ''='' s of Some (k, _) \<Rightarrow> trim k | None \<Rightarrow> trim s)"

definition overlay :: "string list \<Rightarrow> string list \<Rightarrow> string list" where
  "overlay base over =
     fold (\<lambda>o' b. filter (\<lambda>x. setting_key x \<noteq> setting_key o') b) over base @ over"

text \<open>The sizes are widened to \<^verbatim>\<open>u64\<close> first; the pids limit is computed at \<^verbatim>\<open>u32\<close> and wraps there.\<close>

definition derived_cgroups :: "InstanceSpec \<Rightarrow> string list" where
  "derived_cgroups spec =
     (let mem = ucast (is_mem_mib spec) :: u64;
          headroom = max (mem div 8) 256;
          cpus = ucast (max (is_vcpus spec) 1) :: u64
      in [''cpu.max='' @ show_nat (unat ((cpus + 1) * 100000)) @ '' 100000'',
          ''memory.max='' @ show_nat (unat ((mem + headroom) * 1024 * 1024)),
          ''pids.max='' @ show_nat (unat (64 + is_vcpus spec))])"

definition limits :: "JailerConfig \<Rightarrow> InstanceSpec \<Rightarrow> string list \<times> string list" where
  "limits jail spec =
     (let cgroups = (if default_limits jail \<and> cgroup_version jail = 2
                     then filter (\<lambda>c. offers jail (controller c)) (derived_cgroups spec) else []);
          rlimits = (if default_limits jail then [''no-file=2048''] else [])
      in (overlay cgroups (jc_cgroups jail), overlay rlimits (resource_limits jail)))"

section \<open>The plan of a jail\<close>

definition base_name :: "string \<Rightarrow> string" where
  "base_name firecracker = (case file_name firecracker of Some n \<Rightarrow> n | None \<Rightarrow> ''firecracker'')"

definition jail_dir :: "JailerConfig \<Rightarrow> string \<Rightarrow> VmId \<Rightarrow> string" where
  "jail_dir jail firecracker vm =
     path_join (path_join (chroot_base jail) (base_name firecracker)) (vmid_display vm)"

definition cgroup_dir :: "string \<Rightarrow> VmId \<Rightarrow> string" where
  "cgroup_dir firecracker vm = path_join (path_join CGROUP_ROOT (base_name firecracker)) (vmid_display vm)"

definition GUEST_KERNEL :: string where "GUEST_KERNEL = ''/vmlinux''"

definition GUEST_ROOTFS :: string where "GUEST_ROOTFS = ''/rootfs''"

definition GUEST_SNAPSHOT_IN_MEM :: string where "GUEST_SNAPSHOT_IN_MEM = ''/snapshot/in/mem''"

definition GUEST_SNAPSHOT_IN_VMSTATE :: string where
  "GUEST_SNAPSHOT_IN_VMSTATE = ''/snapshot/in/vmstate''"

definition GUEST_SNAPSHOT_OUT_MEM :: string where "GUEST_SNAPSHOT_OUT_MEM = ''/snapshot/out/mem''"

definition GUEST_SNAPSHOT_OUT_VMSTATE :: string where
  "GUEST_SNAPSHOT_OUT_VMSTATE = ''/snapshot/out/vmstate''"

definition GUEST_API_SOCKET :: string where "GUEST_API_SOCKET = ''/run/firecracker.socket''"

record JailPlan =
  jp_jail_dir :: string
  jp_root :: string
  jp_api_socket :: string
  jp_kernel :: "string \<times> string"
  jp_rootfs_nodes :: "string list"
  jp_snapshot :: "(string \<times> string) list"
  jp_uid :: u32
  jp_gid :: u32
  jp_args :: "string list"

definition jail_plan :: "JailerConfig \<Rightarrow> string \<Rightarrow> string \<Rightarrow> InstanceSpec \<Rightarrow> JailPlan" where
  "jail_plan jail firecracker netns_path spec =
     (let dir = jail_dir jail firecracker (is_vm spec);
          root = path_join dir ''root'';
          nodes = [path_join root ''rootfs''] @
            (case is_rootfs_backing spec of
               None \<Rightarrow> []
             | Some baked \<Rightarrow>
                 if components (unrooted baked) \<noteq> components ''rootfs''
                 then [path_join root (unrooted baked)] else []);
          snapshot = (case is_resume_from spec of
               None \<Rightarrow> []
             | Some s \<Rightarrow> [(mem_file s, path_join root ''snapshot/in/mem''),
                         (vmstate s, path_join root ''snapshot/in/vmstate'')]);
          (uid, gid) = identity jail (is_netns spec);
          (cgroups, rlimits) = limits jail spec
      in \<lparr>jp_jail_dir = dir, jp_root = root, jp_api_socket = path_join root ''run/firecracker.socket'',
          jp_kernel = (is_kernel spec, path_join root ''vmlinux''),
          jp_rootfs_nodes = nodes, jp_snapshot = snapshot, jp_uid = uid, jp_gid = gid,
          jp_args =
            [''--id'', vmid_display (is_vm spec),
             ''--exec-file'', firecracker,
             ''--uid'', show_nat (unat uid),
             ''--gid'', show_nat (unat gid),
             ''--chroot-base-dir'', chroot_base jail,
             ''--cgroup-version'', show_nat (unat (cgroup_version jail)),
             ''--netns'', netns_path] @
            concat (map (\<lambda>c. [''--cgroup'', c]) cgroups) @
            concat (map (\<lambda>r. [''--resource-limit'', r]) rlimits)\<rparr>)"


section \<open>Identities\<close>

lemma hexdigit_is_hex: "n < 16 \<Longrightarrow> is_ascii_hexdigit (hexdigit n)"
  by (simp add: is_ascii_hexdigit_def hex_value_hexdigit)

lemma hex_fixed_is_hex: "list_all is_ascii_hexdigit (hex_fixed k n)"
  by (induction k arbitrary: n) (simp_all add: hexdigit_is_hex)

lemma slot_of_netns: "wf_slot s \<Longrightarrow> slot_of (fx_netns (derive s net)) = Some (slot_get s)"
proof -
  assume "wf_slot s"
  then have "unat (slot_get s) mod 65536 = unat (slot_get s)" and "slot_get s \<le> slot_max"
    using wf_slot_less [of s] by (simp_all add: wf_slot_def)
  moreover have "strip_prefix ''vm'' (fx_netns (derive s net)) = Some (hex_fixed 4 (unat (slot_get s)))"
    by (simp add: strip_prefix_Some_iff)
  ultimately show ?thesis
    by (simp add: slot_of_def hex_fixed_is_hex parse_hex_fixed)
qed

text \<open>The bases the settings give leave room for every slot.\<close>

definition base_fits :: "u32 \<Rightarrow> bool" where
  "base_fits b \<longleftrightarrow> unat b + unat slot_max < 2 ^ 32"

lemma id_base_fits: "id_base setting pinned = Some b \<Longrightarrow> base_fits b"
  by (auto simp: id_base_def base_fits_def DEFAULT_ID_BASE_def slot_max_def split: option.splits if_splits)

lemma from_env_base_fits:
  "from_env env file dir = Some jail \<Longrightarrow> id_base_of jail = Some b \<Longrightarrow> base_fits b"
  by (auto simp: from_env_def Let_def split: if_splits intro: id_base_fits)

lemma identity_of_slot:
  assumes "id_base_of jail = Some b" and "base_fits b" and "wf_slot s"
  shows "identity jail (fx_netns (derive s net)) = (b + ucast (slot_get s), b + ucast (slot_get s))"
    and "unat (b + ucast (slot_get s)) = unat b + unat (slot_get s)"
proof -
  have less: "unat b + unat (slot_get s) < 2 ^ 32"
    using assms(2,3) by (simp add: base_fits_def wf_slot_def word_le_nat_alt)
  have u: "unat (ucast (slot_get s) :: u32) = unat (slot_get s)" by (simp add: unat_ucast_widen)
  show "identity jail (fx_netns (derive s net)) = (b + ucast (slot_get s), b + ucast (slot_get s))"
    using assms(1) less u by (simp add: identity_def slot_of_netns [OF assms(3)] saturating_add_def Let_def del: derive_fields)
  show "unat (b + ucast (slot_get s)) = unat b + unat (slot_get s)"
    using less u by (simp add: unat_add_lem [THEN iffD1])
qed

section \<open>Limits\<close>

lemma overlay_eq: "overlay base over = filter (\<lambda>b. setting_key b \<notin> setting_key ` set over) base @ over"
proof -
  have "fold (\<lambda>o' b. filter (\<lambda>x. setting_key x \<noteq> setting_key o') b) over base =
      filter (\<lambda>b. setting_key b \<notin> setting_key ` set over) base"
    by (induction over arbitrary: base) (auto intro!: filter_cong)
  then show ?thesis by (simp add: overlay_def)
qed

lemma cpu_value:
  "unat ((ucast (max (v :: u32) 1) + 1) * 100000 :: u64) = (max (unat v) 1 + 1) * 100000"
proof -
  have w: "unat (ucast (max v 1) :: u64) = max (unat v) 1" by (simp add: unat_ucast_widen unat_max)
  have "max (unat v) 1 < 2 ^ 32" using unsigned_less [of v, where 'a = nat] by simp
  then have s: "unat (ucast (max v 1) + 1 :: u64) = max (unat v) 1 + 1" and "max (unat v) 1 + 1 \<le> 2 ^ 32"
    using unat_add_fits [of "ucast (max v 1) :: u64" 1] w by simp_all
  then have "(max (unat v) 1 + 1) * 100000 < 2 ^ 64" by simp
  then show ?thesis using unat_mult_fits [of "ucast (max v 1) + 1 :: u64" 100000] s by simp
qed

lemma memory_value:
  "unat ((ucast (m :: u32) + max (ucast m div 8) 256) * 1024 * 1024 :: u64) =
     (unat m + max (unat m div 8) 256) * 1048576"
proof -
  let ?h = "max (ucast m div 8) 256 :: u64" and ?n = "unat m + max (unat m div 8) 256"
  have m: "unat (ucast m :: u64) = unat m" by (simp add: unat_ucast_widen)
  have h: "unat ?h = max (unat m div 8) 256" by (simp add: unat_max unat_div m)
  have "unat m < 2 ^ 32" using unsigned_less [of m, where 'a = nat] by simp
  then have n: "?n < 2 ^ 33" by auto
  then have a: "unat (ucast m + ?h) = ?n" using unat_add_fits [of "ucast m :: u64" ?h] m h by simp
  then have b: "unat ((ucast m + ?h) * 1024) = ?n * 1024"
    using n unat_mult_fits [of "ucast m + ?h" 1024] by simp
  then show ?thesis using n unat_mult_fits [of "(ucast m + ?h) * 1024" 1024] by simp
qed

lemma derived_cgroups_eq:
  "derived_cgroups spec =
     [''cpu.max='' @ show_nat ((max (unat (is_vcpus spec)) 1 + 1) * 100000) @ '' 100000'',
      ''memory.max='' @ show_nat ((unat (is_mem_mib spec) + max (unat (is_mem_mib spec) div 8) 256) * 1048576),
      ''pids.max='' @ show_nat (unat (64 + is_vcpus spec))]"
  unfolding derived_cgroups_def Let_def cpu_value memory_value ..

section \<open>Jails do not overlap\<close>

text \<open>A path below a directory, by its text: nothing in it leads back up.\<close>

definition inside :: "string \<Rightarrow> string \<Rightarrow> bool" where
  "inside dir p \<longleftrightarrow> (\<exists>rest. p = dir @ ''/'' @ rest \<and> ParentDir \<notin> set (components rest))"

lemma length_concat_hex: "length (concat (map (hex_fixed k) xs)) = k * length xs"
  by (induction xs) auto

lemma length_vmid_display: "length (vmid_display v) = 36"
proof -
  have "length (be_bytes v) = 16" by (simp add: be_bytes_def)
  then show ?thesis by (simp add: vmid_display_def Let_def take_map drop_map length_concat_hex)
qed

lemma vmid_display_chars: "c \<in> set (vmid_display v) \<Longrightarrow> c = CHR ''-'' \<or> is_ascii_hexdigit c"
proof -
  assume "c \<in> set (vmid_display v)"
  then have "c = CHR ''-'' \<or> c \<in> set (filter (\<lambda>c. c \<noteq> CHR ''-'') (vmid_display v))" by simp
  then show ?thesis
    unfolding vmid_display_digits using hex_fixed_is_hex by (fastforce simp: list_all_iff)
qed

lemma slash_not_hex: "\<not> is_ascii_hexdigit (CHR ''/'')"
  by (simp add: is_ascii_hexdigit_def hex_value_def ascii_digit_def byte_def)

lemma vmid_display_rel: "\<not> is_absolute (vmid_display v)" "\<not> ends_with ''/'' (vmid_display v)"
    "vmid_display v \<noteq> ''''"
proof -
  have no: "CHR ''/'' \<notin> set (vmid_display v)" using vmid_display_chars slash_not_hex by fastforce
  then show "\<not> is_absolute (vmid_display v)"
    by (cases "vmid_display v") (auto simp: is_absolute_def starts_with_iff)
  show "\<not> ends_with ''/'' (vmid_display v)"
    using no by (auto simp: ends_with_iff suffix_def)
  show "vmid_display v \<noteq> ''''" using length_vmid_display [of v] by auto
qed

lemma ends_with_char: "ends_with [c] s \<longleftrightarrow> s \<noteq> [] \<and> last s = c"
  by (cases s rule: rev_cases) (auto simp: ends_with_iff)

text \<open>The jail directories of two VMs differ in the id they end in.\<close>

lemma jail_dir_ends: "\<exists>base. \<forall>vm. jail_dir jail fc vm = base @ vmid_display vm"
proof -
  let ?p = "path_join (chroot_base jail) (base_name fc)"
  have "jail_dir jail fc vm = (if ?p = '''' \<or> ends_with ''/'' ?p then ?p else ?p @ ''/'') @ vmid_display vm" for vm
    by (simp add: jail_dir_def path_join_def vmid_display_rel)
  then show ?thesis by blast
qed

lemma inside_jail_once:
  assumes "inside (jail_dir jail fc v) p" and "inside (jail_dir jail fc w) p"
  shows "v = w"
proof -
  obtain base where b: "\<And>vm. jail_dir jail fc vm = base @ vmid_display vm" using jail_dir_ends by blast
  from assms obtain r r' where "vmid_display v @ ''/'' @ r = vmid_display w @ ''/'' @ r'"
    by (auto simp: inside_def b)
  then show ?thesis using length_vmid_display by (simp add: append_eq_append_conv)
qed

lemma inside_root:
  assumes "ParentDir \<notin> set (components rel)" and "\<not> is_absolute rel"
  shows "inside (jail_dir jail fc vm) (path_join (path_join (jail_dir jail fc vm) ''root'') rel)"
proof -
  obtain base where b: "jail_dir jail fc vm = base @ vmid_display vm" using jail_dir_ends by blast
  then have "jail_dir jail fc vm \<noteq> ''''" and "\<not> ends_with ''/'' (jail_dir jail fc vm)"
    using vmid_display_rel [of vm] by (simp_all add: ends_with_char)
  then have "path_join (path_join (jail_dir jail fc vm) ''root'') rel = jail_dir jail fc vm @ ''/'' @ (''root/'' @ rel)"
    using assms(2) by (simp add: path_join_def is_absolute_def starts_with_iff ends_with_char)
  moreover have "ParentDir \<notin> set (components (''root/'' @ rel))"
    using assms(1) by (auto simp: components_def segments_def seg_component_def starts_with_iff is_absolute_def split_on_append)
  ultimately show ?thesis unfolding inside_def by blast
qed

lemma jail_plan_fields:
  "jp_jail_dir (jail_plan jail fc ns spec) = jail_dir jail fc (is_vm spec)"
  "jp_root (jail_plan jail fc ns spec) = path_join (jail_dir jail fc (is_vm spec)) ''root''"
  "jp_api_socket (jail_plan jail fc ns spec) =
     path_join (path_join (jail_dir jail fc (is_vm spec)) ''root'') ''run/firecracker.socket''"
  "jp_kernel (jail_plan jail fc ns spec) =
     (is_kernel spec, path_join (path_join (jail_dir jail fc (is_vm spec)) ''root'') ''vmlinux'')"
  "(jp_uid (jail_plan jail fc ns spec), jp_gid (jail_plan jail fc ns spec)) = identity jail (is_netns spec)"
  by (simp_all add: jail_plan_def Let_def split: prod.splits)

text \<open>Everything the plan puts on disk for a VM.\<close>

definition plan_paths :: "JailPlan \<Rightarrow> string list" where
  "plan_paths plan = jp_api_socket plan # snd (jp_kernel plan) # jp_rootfs_nodes plan @ map snd (jp_snapshot plan)"

lemma plan_paths_rel:
  assumes "p \<in> set (plan_paths (jail_plan jail fc ns spec))"
  obtains rel where "p = path_join (path_join (jail_dir jail fc (is_vm spec)) ''root'') rel"
    and "rel \<in> {''run/firecracker.socket'', ''vmlinux'', ''rootfs'', ''snapshot/in/mem'', ''snapshot/in/vmstate''} \<or>
      (\<exists>baked. is_rootfs_backing spec = Some baked \<and> rel = unrooted baked)"
  using assms
  by (cases "is_rootfs_backing spec")
    (auto simp: plan_paths_def jail_plan_def Let_def split: prod.splits option.splits if_splits)

lemma components_unrooted: "ParentDir \<in> set (components (unrooted p)) \<Longrightarrow> ParentDir \<in> set (components p)"
  by (induction p) (auto simp: unrooted_def components_def segments_def starts_with_iff split: if_splits)

text \<open>A VM's jail is its own. Every path the plan of a jail names on the host is below that
  VM's jail directory and below no other VM's, for a backing device whose path has no parent
  components.\<close>

lemma jail_plan_confined:
  assumes "\<forall>baked. is_rootfs_backing spec = Some baked \<longrightarrow> ParentDir \<notin> set (components baked)"
  shows "\<forall>p \<in> set (plan_paths (jail_plan jail fc ns spec)). \<forall>vm.
    inside (jail_dir jail fc vm) p \<longleftrightarrow> vm = is_vm spec"
proof (intro ballI allI)
  fix p vm
  assume "p \<in> set (plan_paths (jail_plan jail fc ns spec))"
  then obtain rel where p: "p = path_join (path_join (jail_dir jail fc (is_vm spec)) ''root'') rel"
    and rel: "rel \<in> {''run/firecracker.socket'', ''vmlinux'', ''rootfs'', ''snapshot/in/mem'', ''snapshot/in/vmstate''} \<or>
      (\<exists>baked. is_rootfs_backing spec = Some baked \<and> rel = unrooted baked)"
    by (rule plan_paths_rel)
  have "ParentDir \<notin> set (components rel) \<and> \<not> is_absolute rel"
    using rel
  proof
    assume "\<exists>baked. is_rootfs_backing spec = Some baked \<and> rel = unrooted baked"
    with assms show ?thesis using components_unrooted unrooted_rel by blast
  qed (auto simp: components_def segments_def starts_with_def is_absolute_def seg_component_def)
  then have "inside (jail_dir jail fc (is_vm spec)) p" unfolding p by (intro inside_root) auto
  then show "inside (jail_dir jail fc vm) p \<longleftrightarrow> vm = is_vm spec" using inside_jail_once by blast
qed

end
