(* ===== verification/Iso_Vmm.thy ===== *)
theory Iso_Vmm
  imports Iso_Jail Iso_Host Iso_Json
begin

text \<open>
  The Firecracker backend (\<^verbatim>\<open>crates/iso-firecracker\<close>): pidfiles that are checked before they are
  believed (\<^verbatim>\<open>pidfile.rs\<close>), the client of the VMM's API (\<^verbatim>\<open>client.rs\<close>), building a jail on disk
  (\<^verbatim>\<open>jail.rs\<close>, whose plan is Iso-Jail), and the runtime that creates, starts, suspends, stops and
  destroys VMMs (\<^verbatim>\<open>lib.rs\<close>). Operations are programs over the host (Iso-Host): the table of
  children, processes, sockets and files answer whatever they like between two calls. JSON
  text, \<^verbatim>\<open>DefaultHasher\<close> and the names of error texts are parameters or left out; a wait that
  polls has a number of rounds that its timeout bounds.
\<close>

section \<open>Pidfiles\<close>

record Recorded =
  rec_pid :: nat
  rec_start :: "u64 option"

definition pidfile_text :: "nat \<Rightarrow> u64 option \<Rightarrow> string" where
  "pidfile_text pid start =
     (case start of
        Some t \<Rightarrow> show_nat pid @ '' '' @ show_nat (unat t) @ [CHR 10]
      | None \<Rightarrow> show_nat pid @ [CHR 10])"

text \<open>A pid is a positive \<^verbatim>\<open>i32\<close>.\<close>

definition pidfile_parse :: "string \<Rightarrow> Recorded option" where
  "pidfile_parse s =
     (case split_whitespace s of
        [] \<Rightarrow> None
      | w # ws \<Rightarrow>
          (case parse_unsigned (2 ^ 31) w of
             None \<Rightarrow> None
           | Some pid \<Rightarrow>
               if pid > 0
               then Some \<lparr>rec_pid = pid,
                          rec_start = (case ws of [] \<Rightarrow> None | t # _ \<Rightarrow> parse_u64 t)\<rparr>
               else None))"

text \<open>Field 22 of \<^verbatim>\<open>/proc/<pid>/stat\<close>, counted from the last closing parenthesis; none for a zombie.\<close>

definition stat_start :: "string \<Rightarrow> u64 option" where
  "stat_start stat =
     (case rsplit_once (CHR '')'') stat of
        None \<Rightarrow> None
      | Some (_, rest) \<Rightarrow>
          let fields = split_whitespace rest in
          if fields \<noteq> [] \<and> hd fields \<in> {''Z'', ''X''} then None
          else if 19 < length fields then parse_u64 (fields ! 19) else None)"

definition proc_path :: "nat \<Rightarrow> string \<Rightarrow> string" where
  "proc_path pid what = ''/proc/'' @ show_nat pid @ ''/'' @ what"

definition start_time :: "nat \<Rightarrow> (u64 option \<Rightarrow> 'a hprog) \<Rightarrow> 'a hprog" where
  "start_time pid k =
     HText (ReadFile (proc_path pid ''stat'')) (\<lambda>r. k (case r of Err _ \<Rightarrow> None | Ok s \<Rightarrow> stat_start s))"

definition cmdline_args :: "string \<Rightarrow> string list" where
  "cmdline_args raw = filter (\<lambda>a. a \<noteq> []) (split_on (CHR 0x00) raw)"

fun has_pair :: "string list \<Rightarrow> string \<Rightarrow> string \<Rightarrow> bool" where
  "has_pair (a # b # rest) flag v = (a = flag \<and> b = v \<or> has_pair (b # rest) flag v)"
| "has_pair _ flag v = False"

definition is_live :: "Recorded \<Rightarrow> (string list \<Rightarrow> bool) \<Rightarrow> bool hprog" where
  "is_live rec names =
     start_time (rec_pid rec) (\<lambda>started.
     case started of
       None \<Rightarrow> HRet False
     | Some t \<Rightarrow>
         if (case rec_start rec of Some s \<Rightarrow> s \<noteq> t | None \<Rightarrow> False) then HRet False
         else HText (ReadFile (proc_path (rec_pid rec) ''cmdline'')) (\<lambda>r.
              HRet (case r of Err _ \<Rightarrow> False | Ok raw \<Rightarrow> names (cmdline_args raw))))"

text \<open>The signal goes through a descriptor that pins the process, where the kernel has them.\<close>

definition signal_if :: "nat \<Rightarrow> nat \<Rightarrow> bool hprog \<Rightarrow> bool hprog" where
  "signal_if pid sig check =
     HNum (PidfdOpen pid) (\<lambda>r.
     case r of
       Err e \<Rightarrow>
         if io_kind e = NoSys
         then hbind check (\<lambda>b. if b then HDo (KillPid pid sig) (\<lambda>r. HRet (\<not> isl r)) else HRet False)
         else HRet False
     | Ok fd \<Rightarrow>
         hbind check (\<lambda>b. if b then HDo (PidfdSend fd pid sig) (\<lambda>r. HRet (\<not> isl r)) else HRet False))"

definition SIGKILL :: nat where "SIGKILL = 9"

section \<open>The API client\<close>

definition SUN_PATH_MAX :: nat where "SUN_PATH_MAX = 107"

text \<open>\<^verbatim>\<open>SocketPath::new\<close>: a path too long for a socket address goes through its directory's
  descriptor.\<close>

definition socket_path :: "nat \<Rightarrow> string \<Rightarrow> (string, string) result" where
  "socket_path fd path =
     (if length path \<le> SUN_PATH_MAX then Ok path
      else case (path_parent path, file_name path) of
             (Some d, Some n) \<Rightarrow>
               if d \<noteq> [] then Ok (path_join (''/proc/self/fd/'' @ show_nat fd) n)
               else Err (''socket path '' @ path @ '' has no directory'')
           | _ \<Rightarrow> Err (''socket path '' @ path @ '' has no directory''))"

definition timeout_for :: "string \<Rightarrow> nat" where
  "timeout_for path = (if starts_with ''/snapshot/'' path then 15 * 60 * 1000 else 10 * 1000)"

definition CRLF2 :: string where "CRLF2 = [CHR 13, CHR 10, CHR 13, CHR 10]"

definition content_length :: "string \<Rightarrow> nat option" where
  "content_length headers =
     (let lines = map (\<lambda>l. if l \<noteq> [] \<and> last l = CHR 13 then butlast l else l) (split_on (CHR 10) headers);
          hits = List.map_filter (\<lambda>l. case split_once '':'' l of
              Some (k, v) \<Rightarrow> if eq_ignore_ascii_case k ''content-length'' then Some v else None
            | None \<Rightarrow> None) lines
      in case hits of [] \<Rightarrow> None | v # _ \<Rightarrow> parse_unsigned (2 ^ 64) (trim v))"

definition response_complete :: "string \<Rightarrow> bool" where
  "response_complete buf =
     (case split_once CRLF2 buf of
        None \<Rightarrow> False
      | Some (headers, _) \<Rightarrow>
          length headers + 4 + (case content_length headers of Some n \<Rightarrow> n | None \<Rightarrow> 0) \<le> length buf)"

text \<open>Reading stops when the declared body is there, or at the end of the stream.\<close>

fun read_response :: "string \<Rightarrow> string list \<Rightarrow> string" where
  "read_response buf [] = buf"
| "read_response buf (c # cs) = (if response_complete buf then buf else read_response (buf @ c) cs)"

definition parse_u16_code :: "string \<Rightarrow> nat option" where
  "parse_u16_code s = parse_unsigned 65536 s"

definition parse_response :: "string \<Rightarrow> (CommonError, nat \<times> string) result" where
  "parse_response text' =
     (let words = split_whitespace text' in
      case (if 1 < length words then parse_u16_code (words ! 1) else None) of
        None \<Rightarrow> Err (Backend ''malformed firecracker response'')
      | Some code \<Rightarrow>
          Ok (code,
            (case split_once CRLF2 text' of
               None \<Rightarrow> []
             | Some (_, rest) \<Rightarrow> (case split_once CRLF2 rest of None \<Rightarrow> rest | Some (b, _) \<Rightarrow> b))))"

definition expect_ok ::
    "string \<Rightarrow> string \<Rightarrow> string \<Rightarrow> string \<Rightarrow> (CommonError, 'a) result hprog \<Rightarrow> (CommonError, 'a) result hprog" where
  "expect_ok socket method path body k =
     HHttp socket method path body (\<lambda>r.
     case r of
       Err e \<Rightarrow> HRet (Err e)
     | Ok (code, resp) \<Rightarrow>
         if 200 \<le> code \<and> code < 300 then k
         else HRet (Err (Backend (method @ '' '' @ path @ '' -> '' @ show_nat code @ '': '' @ resp))))"

section \<open>Building a jail on disk\<close>

definition jail_err :: "string \<Rightarrow> IoErr \<Rightarrow> CommonError" where
  "jail_err what e = Backend (''jail: '' @ what @ '': '' @ io_text e)"

definition jail_chown :: "string \<Rightarrow> u32 \<Rightarrow> u32 \<Rightarrow> (CommonError, unit) result hprog" where
  "jail_chown path uid gid = hmust (jail_err (''chown '' @ path)) (Chown path uid gid) (HRet (Ok ()))"

text \<open>\<^verbatim>\<open>if let Some(parent) = path.parent()\<close> and the directories up to it.\<close>

definition make_parent :: "string \<Rightarrow> (CommonError, 'a) result hprog \<Rightarrow> (CommonError, 'a) result hprog" where
  "make_parent path k =
     (case path_parent path of
        None \<Rightarrow> k
      | Some parent \<Rightarrow> hmust (jail_err ''mkdir'') (CreateDirAll (path_text parent)) k)"

definition mknod_like :: "string \<Rightarrow> string \<Rightarrow> u32 \<Rightarrow> u32 \<Rightarrow> (CommonError, unit) result hprog" where
  "mknod_like node device uid gid =
     HMeta True device (\<lambda>r.
     case r of
       Err e \<Rightarrow> HRet (Err (jail_err (''stat '' @ device) e))
     | Ok meta \<Rightarrow>
         if m_type meta \<noteq> FT_Block then HRet (Err (Backend (''jail: '' @ device @ '' is not a block device'')))
         else make_parent node
           (hdo (RemoveFile node)
             (hmust (jail_err (''mknod '' @ node)) (Mknod node (m_rdev meta)) (jail_chown node uid gid))))"

text \<open>The cache directory of a source is named by a hash of its path, length and time stamp.\<close>

definition link_or_cache ::
    "(string \<Rightarrow> Meta \<Rightarrow> string) \<Rightarrow> nat \<Rightarrow> string \<Rightarrow> string \<Rightarrow> string \<Rightarrow> (CommonError, unit) result hprog" where
  "link_or_cache hash own_pid src dst cache_dir =
     make_parent dst
       (hdo (RemoveFile dst)
         (HDo (HardLink src dst) (\<lambda>linked.
          if \<not> isl linked then HRet (Ok ())
          else HMeta True src (\<lambda>m.
          case m of
            Err e \<Rightarrow> HRet (Err (jail_err (''stat '' @ src) e))
          | Ok meta \<Rightarrow>
              HText (Canonicalize src) (\<lambda>c.
              let canonical = (case c of Ok p \<Rightarrow> p | Err _ \<Rightarrow> src);
                  name = (case file_name src of Some n \<Rightarrow> n | None \<Rightarrow> ''file'');
                  cached_dir = path_join cache_dir (hash canonical meta);
                  cached = path_join cached_dir name;
                  tmp = path_join cached_dir (''.'' @ name @ ''.'' @ show_nat own_pid);
                  link = HDo (HardLink cached dst) (\<lambda>l.
                    if \<not> isl l then HRet (Ok ())
                    else hmust (jail_err (''copy '' @ cached)) (CopyFile cached dst) (HRet (Ok ())))
              in HAsk (Exists cached) (\<lambda>there.
                 if there then link
                 else hmust (jail_err ''mkdir cache'') (CreateDirAll cached_dir)
                   (hmust (jail_err (''copy '' @ src)) (CopyFile src tmp)
                     (hmust (jail_err ''rename into cache'') (Rename tmp cached) link))))))))"

definition jail_dirs :: "JailPlan \<Rightarrow> string list" where
  "jail_dirs plan =
     [jp_root plan, path_join (jp_root plan) ''run'', path_join (jp_root plan) ''snapshot'',
      path_join (jp_root plan) ''snapshot/in'', path_join (jp_root plan) ''snapshot/out'']"

definition materialize ::
    "(string \<Rightarrow> Meta \<Rightarrow> string) \<Rightarrow> nat \<Rightarrow> JailPlan \<Rightarrow> JailerConfig \<Rightarrow> string \<Rightarrow> (CommonError, unit) result hprog" where
  "materialize hash own_pid plan jail rootfs_device =
     (let uid = jp_uid plan; gid = jp_gid plan;
          cache = path_join (chroot_base jail) ''.cache'';
          link = link_or_cache hash own_pid
      in htry (hforeach (\<lambda>dir. hmust (jail_err (''mkdir '' @ dir)) (CreateDirAll dir) (jail_chown dir uid gid))
                 (jail_dirs plan)) (\<lambda>_.
         htry (link (fst (jp_kernel plan)) (snd (jp_kernel plan)) cache) (\<lambda>_.
         htry (hforeach (\<lambda>(src, dst). link src dst cache) (jp_snapshot plan)) (\<lambda>_.
         HMeta True rootfs_device (\<lambda>m.
         case m of
           Err e \<Rightarrow> HRet (Err (jail_err (''stat '' @ rootfs_device) e))
         | Ok meta \<Rightarrow>
             hforeach (\<lambda>node.
               if m_type meta = FT_Block then mknod_like node rootfs_device uid gid
               else htry (link rootfs_device node cache) (\<lambda>_. jail_chown node uid gid))
               (jp_rootfs_nodes plan))))))"

definition IFNAMSIZ :: nat where "IFNAMSIZ = 16"

text \<open>A TAP that does not exist is left for Firecracker to report.\<close>

definition give_tap :: "string \<Rightarrow> string \<Rightarrow> u32 \<Rightarrow> u32 \<Rightarrow> (CommonError, unit) result hprog" where
  "give_tap netns_path tap uid gid =
     (if tap = [] \<or> IFNAMSIZ \<le> length tap then HRet (Err (Backend ''jail: bad tap name''))
      else hmust (jail_err (''open netns '' @ netns_path)) (OpenFile netns_path)
        (if CHR 0x00 \<in> set tap then HRet (Err (Backend ''jail: tap name''))
         else hmust (jail_err ''setns'') (SetNs netns_path)
           (HAsk (IfExists tap) (\<lambda>there.
            if \<not> there then HRet (Ok ())
            else hmust (jail_err ''open /dev/net/tun'') (OpenFile ''/dev/net/tun'')
              (hmust (jail_err (''attach to '' @ tap)) (TunAttach tap)
                (hmust (jail_err ''TUNSETOWNER'') (TunSetOwner uid)
                  (hmust (jail_err ''TUNSETGROUP'') (TunSetGroup gid) (HRet (Ok ())))))))))"

definition seal_snapshot_file :: "string \<Rightarrow> (CommonError, unit) result hprog" where
  "seal_snapshot_file path =
     htry (jail_chown path 0 0) (\<lambda>_.
     hmust (jail_err (''chmod '' @ path)) (Chmod path 420) (HRet (Ok ())))"

definition jail_teardown :: "string \<Rightarrow> 'a hprog \<Rightarrow> 'a hprog" where
  "jail_teardown dir k = hdo (Umount (path_join dir ''root'')) (hdo (RemoveDirAll dir) k)"

text \<open>The search of \<^verbatim>\<open>PATH\<close> is one call; a name with a directory in it is taken as it is.\<close>

definition resolve_bin :: "string \<Rightarrow> (CommonError, string) result hprog" where
  "resolve_bin bin =
     (let finish = (\<lambda>found. HText (Canonicalize found) (\<lambda>r.
            case r of Ok p \<Rightarrow> HRet (Ok p) | Err e \<Rightarrow> HRet (Err (jail_err (''resolve '' @ found) e))))
      in if 1 < length (components bin) then finish bin
         else HText (FindOnPath bin) (\<lambda>r.
           case r of Ok p \<Rightarrow> finish p
           | Err _ \<Rightarrow> HRet (Err (Backend (''jail: '' @ bin @ '' not found on PATH'')))))"

section \<open>The runtime\<close>

record RateLimits =
  disk_bytes_per_sec :: u64
  disk_ops_per_sec :: u64
  net_bytes_per_sec :: u64
  entropy_bytes_per_sec :: u64

definition rate_limits_default :: RateLimits where
  "rate_limits_default =
     \<lparr>disk_bytes_per_sec = 1073741824, disk_ops_per_sec = 50000, net_bytes_per_sec = 250000000,
      entropy_bytes_per_sec = 65536\<rparr>"

record FcConfig =
  fc_cfg_bin :: string
  socket_dir :: string
  state_dir :: string
  netns_dir :: string
  boot_timeout :: nat
  fc_jailer :: "JailerConfig option"
  rate_limits :: "RateLimits option"

definition fc_config_default :: FcConfig where
  "fc_config_default =
     \<lparr>fc_cfg_bin = ''firecracker'', socket_dir = ''/run/iso/fc'', state_dir = ''/var/lib/iso/fc'',
      netns_dir = ''/var/run/netns'', boot_timeout = 10000, fc_jailer = None,
      rate_limits = Some rate_limits_default\<rparr>"

text \<open>\<^verbatim>\<open>FirecrackerRuntime\<close>; beside the source's fields what \<^verbatim>\<open>serde_json\<close>, \<^verbatim>\<open>DefaultHasher\<close> and
  \<^verbatim>\<open>std::process::id\<close> give. The table of children is part of the host.\<close>

record FirecrackerRuntime =
  rt_cfg :: FcConfig
  rt_fc_bin :: string
  rt_json :: "Json \<Rightarrow> string"
  rt_parse :: "string \<Rightarrow> Json option"
  rt_hash :: "string \<Rightarrow> Meta \<Rightarrow> string"
  rt_pid :: nat

record ApiPaths =
  ap_kernel :: string
  ap_rootfs :: string
  ap_snapshot_mem :: string
  ap_snapshot_vmstate :: string

definition VSOCK_UDS :: string where "VSOCK_UDS = ''v.sock''"

definition jail_root :: "FirecrackerRuntime \<Rightarrow> VmId \<Rightarrow> string option" where
  "jail_root rt vm =
     map_option (\<lambda>j. path_join (jail_dir j (rt_fc_bin rt) vm) ''root'') (fc_jailer (rt_cfg rt))"

definition unjailed_socket :: "FirecrackerRuntime \<Rightarrow> VmId \<Rightarrow> string" where
  "unjailed_socket rt vm = path_join (socket_dir (rt_cfg rt)) (vmid_display vm @ ''.sock'')"

definition fc_socket :: "FirecrackerRuntime \<Rightarrow> VmId \<Rightarrow> string" where
  "fc_socket rt vm =
     (case jail_root rt vm of
        Some jroot \<Rightarrow> path_join jroot ''run/firecracker.socket''
      | None \<Rightarrow> unjailed_socket rt vm)"

definition fc_pidfile :: "FirecrackerRuntime \<Rightarrow> VmId \<Rightarrow> string" where
  "fc_pidfile rt vm = path_join (state_dir (rt_cfg rt)) (vmid_display vm @ ''.pid'')"

definition snap_dir :: "FirecrackerRuntime \<Rightarrow> VmId \<Rightarrow> string" where
  "snap_dir rt vm = path_join (state_dir (rt_cfg rt)) (vmid_display vm)"

definition vsock_path :: "FirecrackerRuntime \<Rightarrow> VmId \<Rightarrow> string" where
  "vsock_path rt vm =
     (case jail_root rt vm of
        Some jroot \<Rightarrow> path_join jroot VSOCK_UDS
      | None \<Rightarrow> path_join (snap_dir rt vm) VSOCK_UDS)"

definition be_err :: "IoErr \<Rightarrow> CommonError" where
  "be_err e = Backend (io_text e)"

definition move_out :: "string \<Rightarrow> string \<Rightarrow> (CommonError, unit) result hprog" where
  "move_out src dst =
     HDo (Rename src dst) (\<lambda>r.
     if \<not> isl r then HRet (Ok ())
     else hmust (\<lambda>e. Backend (''copy '' @ src @ '': '' @ io_text e)) (CopyFile src dst)
            (hdo (RemoveFile src) (HRet (Ok ()))))"

definition recorded :: "FirecrackerRuntime \<Rightarrow> VmId \<Rightarrow> (Recorded option \<Rightarrow> 'a hprog) \<Rightarrow> 'a hprog" where
  "recorded rt vm k =
     HText (ReadFile (fc_pidfile rt vm)) (\<lambda>r. k (case r of Err _ \<Rightarrow> None | Ok s \<Rightarrow> pidfile_parse s))"

definition names_vm :: "FirecrackerRuntime \<Rightarrow> VmId \<Rightarrow> string list \<Rightarrow> bool" where
  "names_vm rt vm args \<longleftrightarrow>
     has_pair args ''--id'' (vmid_display vm) \<or> has_pair args ''--api-sock'' (unjailed_socket rt vm)"

definition pid_alive :: "FirecrackerRuntime \<Rightarrow> VmId \<Rightarrow> (bool \<Rightarrow> 'a hprog) \<Rightarrow> 'a hprog" where
  "pid_alive rt vm k =
     HNum (ChildGet (vmid_display vm)) (\<lambda>c.
     case c of
       Ok pid \<Rightarrow> HAsk (SignalZero pid) k
     | Err _ \<Rightarrow> recorded rt vm (\<lambda>rec.
         case rec of None \<Rightarrow> k False | Some r \<Rightarrow> hbind (is_live r (names_vm rt vm)) k))"

definition kill :: "FirecrackerRuntime \<Rightarrow> VmId \<Rightarrow> unit hprog" where
  "kill rt vm =
     HNum (ChildGet (vmid_display vm)) (\<lambda>c.
     case c of
       Ok pid \<Rightarrow> hdo (KillPid pid SIGKILL) (HRet ())
     | Err _ \<Rightarrow> recorded rt vm (\<lambda>rec.
         case rec of
           None \<Rightarrow> HRet ()
         | Some r \<Rightarrow> hbind (signal_if (rec_pid r) SIGKILL (is_live r (names_vm rt vm))) (\<lambda>_. HRet ())))"

text \<open>A round of the wait sleeps 50 ms.\<close>

fun wait_dead_loop :: "FirecrackerRuntime \<Rightarrow> VmId \<Rightarrow> nat \<Rightarrow> nat \<Rightarrow> unit hprog" where
  "wait_dead_loop rt vm deadline 0 = HRet ()"
| "wait_dead_loop rt vm deadline (Suc n) =
     pid_alive rt vm (\<lambda>alive.
     if \<not> alive then HRet ()
     else now_ms (\<lambda>now.
       if now < deadline then hdo (SleepMs 50) (wait_dead_loop rt vm deadline n) else HRet ()))"

definition wait_dead :: "FirecrackerRuntime \<Rightarrow> VmId \<Rightarrow> nat \<Rightarrow> unit hprog" where
  "wait_dead rt vm timeout = now_ms (\<lambda>t. wait_dead_loop rt vm (t + timeout) (timeout div 50 + 2))"

definition teardown_vmm :: "FirecrackerRuntime \<Rightarrow> VmId \<Rightarrow> bool \<Rightarrow> unit hprog" where
  "teardown_vmm rt vm keep_snapshot =
     hbind (kill rt vm) (\<lambda>_.
     HNum (ChildRemove (vmid_display vm)) (\<lambda>own.
     hbind (case own of
              Ok pid \<Rightarrow> hdo (WaitChild pid) (HRet ())
            | Err _ \<Rightarrow> wait_dead rt vm 5000) (\<lambda>_.
     hdo (RemoveFile (fc_socket rt vm))
       (hdo (RemoveFile (fc_pidfile rt vm))
         (let jail = (case fc_jailer (rt_cfg rt) of
                None \<Rightarrow> HRet ()
              | Some j \<Rightarrow> jail_teardown (jail_dir j (rt_fc_bin rt) vm)
                  (hdo (RemoveDir (cgroup_dir (rt_fc_bin rt) vm)) (HRet ())))
          in if keep_snapshot then jail else hdo (RemoveDirAll (snap_dir rt vm)) jail)))))"

text \<open>\<^verbatim>\<open>write_pidfile\<close>: the child's pid with its start time.\<close>

definition write_pidfile ::
    "FirecrackerRuntime \<Rightarrow> VmId \<Rightarrow> nat \<Rightarrow> (CommonError, 'a) result hprog \<Rightarrow> (CommonError, 'a) result hprog" where
  "write_pidfile rt vm pid k =
     start_time pid (\<lambda>t. hmust be_err (WriteFile (fc_pidfile rt vm) (pidfile_text pid t)) k)"

definition log_path :: "FirecrackerRuntime \<Rightarrow> VmId \<Rightarrow> string" where
  "log_path rt vm = path_join (state_dir (rt_cfg rt)) (vmid_display vm @ ''.log'')"

definition spawn_jailed ::
    "FirecrackerRuntime \<Rightarrow> JailerConfig \<Rightarrow> InstanceSpec \<Rightarrow> (CommonError, ApiPaths) result hprog" where
  "spawn_jailed rt jailer spec =
     hmust be_err (CreateDirAll (state_dir (rt_cfg rt)))
       (htry (resolve_bin (fc_cfg_bin (rt_cfg rt))) (\<lambda>fc.
        let ns = path_join (netns_dir (rt_cfg rt)) (is_netns spec);
            plan = jail_plan jailer fc ns spec
        in if Some (jp_root plan) \<noteq> jail_root rt (is_vm spec)
           then HRet (Err (Backend ''jail path changed since the runtime was built''))
           else jail_teardown (jp_jail_dir plan)
             (htry (materialize (rt_hash rt) (rt_pid rt) plan jailer (is_rootfs_device spec)) (\<lambda>_.
              htry (if is_tap spec \<noteq> [] then give_tap ns (is_tap spec) (jp_uid plan) (jp_gid plan)
                    else HRet (Ok ())) (\<lambda>_.
              HNum (SpawnProc \<lparr>sp_argv = [jc_bin jailer] @ jp_args plan @ [''--'', ''--api-sock'', GUEST_API_SOCKET],
                  sp_cwd = None, sp_netns = None, sp_bind = None, sp_ids = None, sp_env = [],
                  sp_log = Some (log_path rt (is_vm spec))\<rparr>) (\<lambda>child.
              case child of
                Err e \<Rightarrow> HRet (Err (Backend (''spawn '' @ jc_bin jailer @ '': '' @ io_text e)))
              | Ok pid \<Rightarrow>
                  write_pidfile rt (is_vm spec) pid
                    (hdo (ChildInsert (vmid_display (is_vm spec)) pid)
                      (HRet (Ok \<lparr>ap_kernel = GUEST_KERNEL, ap_rootfs = GUEST_ROOTFS,
                         ap_snapshot_mem = GUEST_SNAPSHOT_IN_MEM,
                         ap_snapshot_vmstate = GUEST_SNAPSHOT_IN_VMSTATE\<rparr>)))))))))"

definition nul_free :: "string \<Rightarrow> bool" where "nul_free s \<longleftrightarrow> CHR 0x00 \<notin> set s"

text \<open>\<^verbatim>\<open>spawn\<close>: the namespaces the child enters are part of what is started; a path with a NUL byte in
  it is refused before.\<close>

definition fc_spawn ::
    "FirecrackerRuntime \<Rightarrow> VmId \<Rightarrow> string \<Rightarrow> (string \<times> string) option \<Rightarrow> (CommonError, unit) result hprog" where
  "fc_spawn rt vm netns rootfs_bind =
     hmust be_err (CreateDirAll (socket_dir (rt_cfg rt)))
       (hmust be_err (CreateDirAll (state_dir (rt_cfg rt)))
         (hmust be_err (CreateDirAll (snap_dir rt vm))
           (hdo (RemoveFile (fc_socket rt vm))
             (hdo (RemoveFile (vsock_path rt vm))
               (let ns = path_join (netns_dir (rt_cfg rt)) netns in
                hmust (\<lambda>e. Backend (''open netns '' @ ns @ '': '' @ io_text e)) (OpenFile ns)
                  (if (case rootfs_bind of None \<Rightarrow> False | Some (d, b) \<Rightarrow> \<not> nul_free d \<or> \<not> nul_free b)
                   then HRet (Err (Backend ''nul byte in a path''))
                   else HNum (SpawnProc \<lparr>sp_argv = [fc_cfg_bin (rt_cfg rt), ''--api-sock'', fc_socket rt vm],
                       sp_cwd = Some (snap_dir rt vm), sp_netns = Some ns, sp_bind = rootfs_bind,
                       sp_ids = None, sp_env = [], sp_log = Some (log_path rt vm)\<rparr>) (\<lambda>child.
                     case child of
                       Err e \<Rightarrow> HRet (Err (be_err e))
                     | Ok pid \<Rightarrow> write_pidfile rt vm pid
                         (hdo (ChildInsert (vmid_display vm) pid) (HRet (Ok ()))))))))))"

definition jnat :: "nat \<Rightarrow> Json" where "jnat n = JNum (of_nat n)"

definition rate_limiter :: "u64 \<Rightarrow> u64 option \<Rightarrow> Json" where
  "rate_limiter bytes ops =
     JObj ([(''bandwidth'', JObj [(''size'', jnat (unat bytes)), (''refill_time'', jnat 1000)])] @
       (case ops of None \<Rightarrow> [] | Some n \<Rightarrow>
         [(''ops'', JObj [(''size'', jnat (unat n)), (''refill_time'', jnat 1000)])]))"

text \<open>\<^verbatim>\<open>MacAddr\<close>'s text: six bytes in hexadecimal with colons.\<close>

fun mac_display :: "MacAddr \<Rightarrow> string" where
  "mac_display (MacAddr bs) = join_with (CHR '':'') (map (\<lambda>b. hex_fixed 2 (unat b)) bs)"

definition boot_config :: "FirecrackerRuntime \<Rightarrow> InstanceSpec \<Rightarrow> string \<Rightarrow> string \<Rightarrow> (string \<times> Json) list" where
  "boot_config rt spec kern rootfs =
     (let limits = rate_limits (rt_cfg rt);
          limiter = (\<lambda>k f. case limits of None \<Rightarrow> [] | Some l \<Rightarrow> [(k, f l)])
      in [(''/machine-config'',
            JObj [(''vcpu_count'', jnat (unat (is_vcpus spec))), (''mem_size_mib'', jnat (unat (is_mem_mib spec)))]),
          (''/boot-source'',
            JObj [(''kernel_image_path'', JStr kern), (''boot_args'', JStr (is_boot_args spec))]),
          (''/drives/rootfs'',
            JObj ([(''drive_id'', JStr ''rootfs''), (''path_on_host'', JStr rootfs),
                   (''is_root_device'', JBool True), (''is_read_only'', JBool False),
                   (''cache_type'', JStr ''Writeback'')] @
                  limiter ''rate_limiter'' (\<lambda>l. rate_limiter (disk_bytes_per_sec l) (Some (disk_ops_per_sec l)))))] @
         (if is_tap spec \<noteq> [] then
            [(''/network-interfaces/eth0'',
              JObj ([(''iface_id'', JStr ''eth0''), (''host_dev_name'', JStr (is_tap spec)),
                     (''guest_mac'', JStr (mac_display (is_mac spec)))] @
                    limiter ''rx_rate_limiter'' (\<lambda>l. rate_limiter (net_bytes_per_sec l) None) @
                    limiter ''tx_rate_limiter'' (\<lambda>l. rate_limiter (net_bytes_per_sec l) None)))]
          else []) @
         (case is_vsock_cid spec of
            None \<Rightarrow> []
          | Some cid \<Rightarrow> [(''/vsock'', JObj [(''guest_cid'', jnat (unat cid)), (''uds_path'', JStr VSOCK_UDS)])]) @
         [(''/entropy'', JObj (limiter ''rate_limiter'' (\<lambda>l. rate_limiter (entropy_bytes_per_sec l) None)))])"

fun wait_socket_loop :: "FirecrackerRuntime \<Rightarrow> VmId \<Rightarrow> nat \<Rightarrow> nat \<Rightarrow> (CommonError, unit) result hprog" where
  "wait_socket_loop rt vm deadline 0 =
     HRet (Err (Backend ''timed out waiting for firecracker API socket''))"
| "wait_socket_loop rt vm deadline (Suc n) =
     now_ms (\<lambda>now.
     if deadline \<le> now then HRet (Err (Backend ''timed out waiting for firecracker API socket''))
     else
       let again = pid_alive rt vm (\<lambda>alive.
         if \<not> alive then HRet (Err (Backend ''firecracker exited before its API socket was ready''))
         else hdo (SleepMs 20) (wait_socket_loop rt vm deadline n))
       in HAsk (Exists (fc_socket rt vm)) (\<lambda>there.
          if there then HDo (Connect (fc_socket rt vm)) (\<lambda>r. if isl r then again else HRet (Ok ()))
          else again))"

text \<open>The message of a time-out lists the jail as well; here it is one text.\<close>

definition wait_socket :: "FirecrackerRuntime \<Rightarrow> VmId \<Rightarrow> (CommonError, unit) result hprog" where
  "wait_socket rt vm =
     now_ms (\<lambda>t. wait_socket_loop rt vm (t + boot_timeout (rt_cfg rt)) (boot_timeout (rt_cfg rt) div 20 + 2))"

definition fc_put ::
    "FirecrackerRuntime \<Rightarrow> VmId \<Rightarrow> string \<Rightarrow> Json \<Rightarrow> (CommonError, 'a) result hprog \<Rightarrow> (CommonError, 'a) result hprog" where
  "fc_put rt vm path body k = expect_ok (fc_socket rt vm) ''PUT'' path (rt_json rt body) k"

definition fc_patch ::
    "FirecrackerRuntime \<Rightarrow> VmId \<Rightarrow> string \<Rightarrow> Json \<Rightarrow> (CommonError, 'a) result hprog \<Rightarrow> (CommonError, 'a) result hprog" where
  "fc_patch rt vm path body k = expect_ok (fc_socket rt vm) ''PATCH'' path (rt_json rt body) k"

definition fc_state :: "FirecrackerRuntime \<Rightarrow> VmId \<Rightarrow> (CommonError, string) result hprog" where
  "fc_state rt vm =
     HHttp (fc_socket rt vm) ''GET'' ''/'' [] (\<lambda>r.
     case r of
       Err e \<Rightarrow> HRet (Err e)
     | Ok (code, body) \<Rightarrow>
         if \<not> (200 \<le> code \<and> code < 300) then HRet (Err (Backend (''GET / -> '' @ show_nat code)))
         else (case rt_parse rt body of
                 None \<Rightarrow> HRet (Err (Backend ''not JSON''))
               | Some v \<Rightarrow> HRet (Ok (case as_str (json_index v ''state'') of Some s \<Rightarrow> s | None \<Rightarrow> []))))"

definition fc_paths :: "FirecrackerRuntime \<Rightarrow> InstanceSpec \<Rightarrow> (CommonError, ApiPaths) result hprog" where
  "fc_paths rt spec =
     (case fc_jailer (rt_cfg rt) of
        Some jailer \<Rightarrow> spawn_jailed rt jailer spec
      | None \<Rightarrow>
          htry (fc_spawn rt (is_vm spec) (is_netns spec)
                 (map_option (\<lambda>baked. (is_rootfs_device spec, baked)) (is_rootfs_backing spec))) (\<lambda>_.
          HRet (Ok \<lparr>ap_kernel = is_kernel spec, ap_rootfs = is_rootfs_device spec,
             ap_snapshot_mem = (case is_resume_from spec of Some s \<Rightarrow> mem_file s | None \<Rightarrow> []),
             ap_snapshot_vmstate = (case is_resume_from spec of Some s \<Rightarrow> vmstate s | None \<Rightarrow> [])\<rparr>)))"

definition fc_create :: "FirecrackerRuntime \<Rightarrow> InstanceSpec \<Rightarrow> (CommonError, unit) result hprog" where
  "fc_create rt spec =
     htry (fc_paths rt spec) (\<lambda>paths.
     htry (wait_socket rt (is_vm spec)) (\<lambda>_.
     if is_resume_from spec \<noteq> None then
       fc_put rt (is_vm spec) ''/snapshot/load''
         (JObj [(''snapshot_path'', JStr (ap_snapshot_vmstate paths)),
                (''mem_backend'', JObj [(''backend_type'', JStr ''File''), (''backend_path'', JStr (ap_snapshot_mem paths))]),
                (''enable_diff_snapshots'', JBool False), (''resume_vm'', JBool False)])
         (HRet (Ok ()))
     else
       hforeach (\<lambda>(path, body). fc_put rt (is_vm spec) path body (HRet (Ok ())))
         (boot_config rt spec (ap_kernel paths) (ap_rootfs paths))))"

definition fc_start :: "FirecrackerRuntime \<Rightarrow> VmId \<Rightarrow> (CommonError, unit) result hprog" where
  "fc_start rt vm =
     htry (fc_state rt vm) (\<lambda>s.
     if s = ''Paused'' then fc_patch rt vm ''/vm'' (JObj [(''state'', JStr ''Resumed'')]) (HRet (Ok ()))
     else fc_put rt vm ''/actions'' (JObj [(''action_type'', JStr ''InstanceStart'')]) (HRet (Ok ())))"

definition fc_suspend :: "FirecrackerRuntime \<Rightarrow> VmId \<Rightarrow> (CommonError, SnapshotRef) result hprog" where
  "fc_suspend rt vm =
     fc_patch rt vm ''/vm'' (JObj [(''state'', JStr ''Paused'')])
       (hmust be_err (CreateDirAll (snap_dir rt vm))
         (let out = \<lparr>mem_file = path_join (snap_dir rt vm) ''mem'', vmstate = path_join (snap_dir rt vm) ''vmstate''\<rparr>;
              (state, mem) = (case jail_root rt vm of
                 Some _ \<Rightarrow> (GUEST_SNAPSHOT_OUT_VMSTATE, GUEST_SNAPSHOT_OUT_MEM)
               | None \<Rightarrow> (vmstate out, mem_file out))
          in fc_put rt vm ''/snapshot/create''
               (JObj [(''snapshot_type'', JStr ''Full''), (''snapshot_path'', JStr state), (''mem_file_path'', JStr mem)])
               (case jail_root rt vm of
                  None \<Rightarrow> HRet (Ok out)
                | Some jroot \<Rightarrow>
                    let snap_out = path_join jroot ''snapshot/out'' in
                    htry (move_out (path_join snap_out ''vmstate'') (vmstate out)) (\<lambda>_.
                    htry (move_out (path_join snap_out ''mem'') (mem_file out)) (\<lambda>_.
                    htry (seal_snapshot_file (vmstate out)) (\<lambda>_.
                    htry (seal_snapshot_file (mem_file out)) (\<lambda>_. HRet (Ok out))))))))"

definition fc_stop :: "FirecrackerRuntime \<Rightarrow> VmId \<Rightarrow> (CommonError, unit) result hprog" where
  "fc_stop rt vm = fc_put rt vm ''/actions'' (JObj [(''action_type'', JStr ''SendCtrlAltDel'')]) (HRet (Ok ()))"

definition fc_halt :: "FirecrackerRuntime \<Rightarrow> VmId \<Rightarrow> (CommonError, unit) result hprog" where
  "fc_halt rt vm = hbind (kill rt vm) (\<lambda>_. HRet (Ok ()))"

definition fc_release :: "FirecrackerRuntime \<Rightarrow> VmId \<Rightarrow> (CommonError, unit) result hprog" where
  "fc_release rt vm = hbind (teardown_vmm rt vm True) (\<lambda>_. HRet (Ok ()))"

definition fc_destroy :: "FirecrackerRuntime \<Rightarrow> VmId \<Rightarrow> (CommonError, unit) result hprog" where
  "fc_destroy rt vm = hbind (teardown_vmm rt vm False) (\<lambda>_. HRet (Ok ()))"

text \<open>The reply line of a guest-initiated connection, from the bytes the socket gives.\<close>

fun channel_line :: "string \<Rightarrow> string \<Rightarrow> (CommonError, string) result" where
  "channel_line line [] = Err (Backend ''vsock CONNECT refused: nothing is listening on that guest port'')"
| "channel_line line (b # bs) =
     (if b = CHR 10 then Ok line
      else if 32 < length (line @ [b]) then Err (Backend ''malformed vsock CONNECT reply'')
      else channel_line (line @ [b]) bs)"

definition channel_reply :: "u32 \<Rightarrow> string \<Rightarrow> (CommonError, unit) result" where
  "channel_reply port bytes =
     and_then (channel_line [] bytes) (\<lambda>reply.
     if starts_with ''OK '' reply then Ok ()
     else Err (Backend (''vsock CONNECT '' @ show_nat (unat port) @ '' failed: '' @ reply)))"

definition guest_channel :: "FirecrackerRuntime \<Rightarrow> VmId \<Rightarrow> u32 \<Rightarrow> (CommonError, unit) result hprog" where
  "guest_channel rt vm port =
     hmust be_err (Connect (vsock_path rt vm))
       (hmust be_err (WriteAll (vsock_path rt vm) (''CONNECT '' @ show_nat (unat port) @ [CHR 10]))
         (HText (ReadReady (vsock_path rt vm) 33) (\<lambda>r.
          case r of Err e \<Rightarrow> HRet (Err (be_err e)) | Ok bytes \<Rightarrow> HRet (channel_reply port bytes))))"

text \<open>A VMM whose API does not answer is running as long as its process is there.\<close>

definition api_status ::
    "FirecrackerRuntime \<Rightarrow> VmId \<Rightarrow> (CommonError, string) result \<Rightarrow> (CommonError, VmStatus) result hprog" where
  "api_status rt vm st =
     (case st of
        Ok s \<Rightarrow> HRet (Ok (if s = ''Running'' then VS_Running
                          else if s = ''Paused'' then VS_Suspended else VS_Created))
      | Err _ \<Rightarrow> pid_alive rt vm (\<lambda>alive. HRet (Ok (if alive then VS_Running else VS_Stopped))))"

definition status_ask :: "FirecrackerRuntime \<Rightarrow> VmId \<Rightarrow> (CommonError, VmStatus) result hprog" where
  "status_ask rt vm =
     HAsk (Exists (fc_socket rt vm)) (\<lambda>there.
     if \<not> there then pid_alive rt vm (\<lambda>alive. HRet (Ok (if alive then VS_Created else VS_Absent)))
     else hbind (fc_state rt vm) (api_status rt vm))"

text \<open>\<^verbatim>\<open>try_wait\<close> answers whether the child has exited: a positive number for yes.\<close>

definition fc_status :: "FirecrackerRuntime \<Rightarrow> VmId \<Rightarrow> (CommonError, VmStatus) result hprog" where
  "fc_status rt vm =
     HNum (ChildGet (vmid_display vm)) (\<lambda>c.
     case c of
       Err _ \<Rightarrow> status_ask rt vm
     | Ok pid \<Rightarrow>
         HNum (TryWait pid) (\<lambda>w.
         case w of
           Err e \<Rightarrow> HRet (Err (be_err e))
         | Ok n \<Rightarrow>
             if n > 0 then HNum (ChildRemove (vmid_display vm)) (\<lambda>_. HRet (Ok VS_Stopped))
             else status_ask rt vm))"

end
