(* ===== verification/Iso_Vmm_Safety.thy ===== *)
theory Iso_Vmm_Safety
  imports Iso_Vmm
begin

text \<open>
  What the Firecracker backend never does, whatever the host answers: it signals no process it has
  not checked, reports no VM as gone whose process it found alive, and changes no file outside a
  VM's own jail and the shared cache when it builds that jail.
\<close>

section \<open>Signals\<close>

fun signals :: "HQuery \<Rightarrow> nat option" where
  "signals (QDo (KillPid pid _)) = Some pid"
| "signals (QDo (PidfdSend _ pid _)) = Some pid"
| "signals _ = None"

text \<open>
  A process is vouched for as a VM's VMM by the events so far: it is the child on record, or the
  VM's pidfile names it, its start time as read since is the recorded one (if one was recorded),
  and its arguments name the VM.
\<close>

definition checked_pid :: "FirecrackerRuntime \<Rightarrow> VmId \<Rightarrow> Recorded \<Rightarrow> HEvent list \<Rightarrow> bool" where
  "checked_pid rt vm rec es \<longleftrightarrow>
     (\<exists>st t raw.
        (QText (ReadFile (proc_path (rec_pid rec) ''stat'')), AText (Ok st)) \<in> set es \<and> stat_start st = Some t \<and>
        (rec_start rec = None \<or> rec_start rec = Some t) \<and>
        (QText (ReadFile (proc_path (rec_pid rec) ''cmdline'')), AText (Ok raw)) \<in> set es \<and>
        names_vm rt vm (cmdline_args raw))"

definition pidfile_says :: "FirecrackerRuntime \<Rightarrow> VmId \<Rightarrow> HEvent list \<Rightarrow> Recorded \<Rightarrow> bool" where
  "pidfile_says rt vm es rec \<longleftrightarrow>
     (\<exists>s. (QText (ReadFile (fc_pidfile rt vm)), AText (Ok s)) \<in> set es \<and> pidfile_parse s = Some rec)"

definition own_child :: "VmId \<Rightarrow> HEvent list \<Rightarrow> nat \<Rightarrow> bool" where
  "own_child vm es pid \<longleftrightarrow> (QNum (ChildGet (vmid_display vm)), ANum (Ok pid)) \<in> set es"

text \<open>A signal through a process descriptor: the checks come after the descriptor pinned it.\<close>

definition may_signal :: "FirecrackerRuntime \<Rightarrow> VmId \<Rightarrow> HEvent list \<Rightarrow> HQuery \<Rightarrow> bool" where
  "may_signal rt vm es q \<longleftrightarrow>
     (case q of
        QDo (KillPid pid _) \<Rightarrow>
          own_child vm es pid \<or> (\<exists>rec. pidfile_says rt vm es rec \<and> rec_pid rec = pid \<and> checked_pid rt vm rec es)
      | QDo (PidfdSend fd pid _) \<Rightarrow>
          (\<exists>rec es1 es2. es = es1 @ (QNum (PidfdOpen pid), ANum (Ok fd)) # es2 \<and>
             pidfile_says rt vm es1 rec \<and> rec_pid rec = pid \<and> checked_pid rt vm rec es2)
      | _ \<Rightarrow> True)"

lemma may_signal_other: "signals q = None \<Longrightarrow> may_signal rt vm es q"
  by (cases q rule: signals.cases) (auto simp: may_signal_def)

lemma is_live_runs:
  assumes "hruns (is_live rec (names_vm rt vm)) es True"
  shows "checked_pid rt vm rec es"
proof -
  from assms obtain r1 es1 where es: "es = (QText (ReadFile (proc_path (rec_pid rec) ''stat'')), AText r1) # es1"
    and rest: "hruns (case (case r1 of Err _ \<Rightarrow> None | Ok s \<Rightarrow> stat_start s) of
       None \<Rightarrow> HRet False
     | Some t \<Rightarrow>
         if (case rec_start rec of Some s \<Rightarrow> s \<noteq> t | None \<Rightarrow> False) then HRet False
         else HText (ReadFile (proc_path (rec_pid rec) ''cmdline'')) (\<lambda>r.
              HRet (case r of Err _ \<Rightarrow> False | Ok raw \<Rightarrow> names_vm rt vm (cmdline_args raw)))) es1 True"
    unfolding is_live_def start_time_def hruns_ops by blast
  from rest obtain st t where "r1 = Ok st" "stat_start st = Some t"
    by (cases r1) (auto split: option.splits)
  with rest have start: "rec_start rec = None \<or> rec_start rec = Some t"
    by (auto split: option.splits if_splits)
  from \<open>r1 = Ok st\<close> \<open>stat_start st = Some t\<close> rest obtain r where
    e1: "es1 = [(QText (ReadFile (proc_path (rec_pid rec) ''cmdline'')), AText r)]"
    and "case r of Err _ \<Rightarrow> False | Ok raw \<Rightarrow> names_vm rt vm (cmdline_args raw)"
    by (auto simp: hruns_ops split: option.splits if_splits)
  then obtain raw where "r = Ok raw" "names_vm rt vm (cmdline_args raw)" by (cases r) auto
  with es e1 start \<open>r1 = Ok st\<close> \<open>stat_start st = Some t\<close> show ?thesis
    unfolding checked_pid_def by (intro exI [of _ st] exI [of _ t] exI [of _ raw]) simp
qed

lemma is_live_quiet: "hevery (\<lambda>q. signals q = None) (is_live rec names)"
  by (auto simp: is_live_def start_time_def split: option.splits)

lemma signal_if_guard:
  assumes "pidfile_says rt vm h rec" and "pid = rec_pid rec"
  shows "hguard (may_signal rt vm) (signal_if pid sig (is_live rec (names_vm rt vm))) h"
proof -
  have live: "hguard (may_signal rt vm) (is_live rec (names_vm rt vm)) h'" for h'
    by (rule hguard_every [OF _ is_live_quiet]) (rule may_signal_other)
  have kill: "may_signal rt vm (h @ e # h') (QDo (KillPid pid sig))" if "checked_pid rt vm rec h'" for e h'
    using assms that by (auto simp: may_signal_def pidfile_says_def checked_pid_def)
  have send: "may_signal rt vm (h @ (QNum (PidfdOpen pid), ANum (Ok fd)) # h') (QDo (PidfdSend fd pid sig))"
    if "checked_pid rt vm rec h'" for fd h'
    using assms that by (auto simp: may_signal_def)
  show ?thesis
    by (auto simp: signal_if_def hguard_ops may_signal_other live
        intro!: hguard_bind kill send is_live_runs split: sum.splits)
qed

lemma kill_guard: "hguard (may_signal rt vm) (kill rt vm) h"
proof -
  have named: "hguard (may_signal rt vm)
      (hbind (signal_if (rec_pid rec) SIGKILL (is_live rec (names_vm rt vm))) (\<lambda>_. HRet ())) h'"
    if "pidfile_says rt vm h' rec" for h' rec
    using that by (intro hguard_bind signal_if_guard) auto
  have child: "may_signal rt vm (h @ [(QNum (ChildGet (vmid_display vm)), ANum (Ok pid))]) (QDo (KillPid pid SIGKILL))" for pid
    by (simp add: may_signal_def own_child_def)
  show ?thesis
    by (auto simp: kill_def recorded_def hguard_ops may_signal_other child intro!: named
        split: sum.splits option.splits) (auto simp: pidfile_says_def)
qed

lemma wait_dead_quiet: "hevery (\<lambda>q. signals q = None) (wait_dead_loop rt vm deadline n)"
  by (induction n)
    (auto simp: pid_alive_def recorded_def now_ms_def intro!: hevery_bind is_live_quiet split: sum.splits option.splits)

lemma teardown_guard: "hguard (may_signal rt vm) (teardown_vmm rt vm keep) h"
proof -
  have "hguard (may_signal rt vm) (wait_dead rt vm n) h'" for n h'
    by (rule hguard_every [of "\<lambda>q. signals q = None"])
      (auto simp: wait_dead_def now_ms_def wait_dead_quiet simp del: wait_dead_loop.simps intro: may_signal_other)
  then show ?thesis
    unfolding teardown_vmm_def Let_def jail_teardown_def
    by (auto simp: hguard_ops may_signal_other kill_guard intro!: hguard_bind split: sum.splits option.splits)
qed

section \<open>Arguments name one VM\<close>

lemma unjailed_socket_inj: "unjailed_socket rt v = unjailed_socket rt w \<longleftrightarrow> v = w"
proof -
  have "\<not> is_absolute (vmid_display x @ ''.sock'')" for x
    using vmid_display_rel(1) [of x] vmid_display_rel(3) [of x]
    by (cases "vmid_display x") (auto simp: is_absolute_def starts_with_iff)
  then show ?thesis by (simp add: unjailed_socket_def path_join_def)
qed

lemma unjailed_socket_long: "36 < length (unjailed_socket rt v)"
  using length_vmid_display [of v] by (simp add: unjailed_socket_def path_join_def)

text \<open>C8: the backend kills no process but this VM's VMM. In every run of halt, release or destroy,
  whatever the host answers, a signal goes to the child on record for the VM, or to the process
  the VM's pidfile names after it was read back as started at the recorded time and launched
  with this VM's arguments; where it goes through a process descriptor, both were read after
  the descriptor pinned the process. The arguments an unjailed VMM is started with name its VM only.\<close>

theorem kills_only_own_vmm:
  assumes "hruns (fc_halt rt vm) es r \<or> hruns (fc_release rt vm) es r \<or> hruns (fc_destroy rt vm) es r"
    and "es = es1 @ (q, a) # es2"
  shows "may_signal rt vm es1 q \<and>
    (names_vm rt w [fc_cfg_bin (rt_cfg rt), ''--api-sock'', unjailed_socket rt vm] \<longleftrightarrow> w = vm)"
proof -
  have "hguard (may_signal rt vm) (fc_halt rt vm) []" "hguard (may_signal rt vm) (fc_release rt vm) []"
    "hguard (may_signal rt vm) (fc_destroy rt vm) []"
    unfolding fc_halt_def fc_release_def fc_destroy_def
    by (auto intro!: hguard_bind kill_guard teardown_guard)
  then have "may_signal rt vm es1 q"
    using assms hguard_runs [of _ _ "[]"] by fastforce
  moreover have "names_vm rt w [fc_cfg_bin (rt_cfg rt), ''--api-sock'', unjailed_socket rt vm] \<longleftrightarrow> w = vm"
  proof -
    have "vmid_display w \<noteq> ''--api-sock''" using length_vmid_display [of w] by auto
    moreover have "unjailed_socket rt w \<noteq> ''--api-sock''"
      using unjailed_socket_long [of rt w] by auto
    ultimately
    show ?thesis by (auto simp: names_vm_def unjailed_socket_inj)
  qed
  ultimately show ?thesis ..
qed

section \<open>Status\<close>

definition seen_alive :: "FirecrackerRuntime \<Rightarrow> VmId \<Rightarrow> HEvent list \<Rightarrow> bool" where
  "seen_alive rt vm es \<longleftrightarrow>
     (\<exists>pid. (QAsk (SignalZero pid), AAsk True) \<in> set es) \<or>
     (\<exists>rec. pidfile_says rt vm es rec \<and> checked_pid rt vm rec es)"

lemma paths_differ:
  "fc_pidfile rt vm \<noteq> proc_path pid ''stat''" "fc_pidfile rt vm \<noteq> proc_path pid ''cmdline''"
  "proc_path pid ''stat'' \<noteq> proc_path pid' ''cmdline''"
proof -
  have l: "last (fc_pidfile rt vm) = CHR ''d''" by (simp add: fc_pidfile_def path_join_def)
  have s: "last (proc_path p ''stat'') = CHR ''t''" and c: "last (proc_path p ''cmdline'') = CHR ''e''" for p
    by (simp_all add: proc_path_def)
  show "fc_pidfile rt vm \<noteq> proc_path pid ''stat''" using l s [of pid] by auto
  show "fc_pidfile rt vm \<noteq> proc_path pid ''cmdline''" using l c [of pid] by auto
  show "proc_path pid ''stat'' \<noteq> proc_path pid' ''cmdline''" using s [of pid] c [of pid'] by auto
qed

text \<open>Events that say nothing of a process.\<close>

definition neutral :: "HEvent list \<Rightarrow> bool" where
  "neutral es \<longleftrightarrow> (\<forall>e \<in> set es. (\<forall>pid. fst e \<noteq> QAsk (SignalZero pid)) \<and> (\<forall>c. fst e \<noteq> QText c))"

lemma is_live_false:
  assumes "hruns (is_live rec names) es False" and "names = names_vm rt vm"
    and "neutral es0" and "pidfile_parse s = Some rec"
  shows "\<not> seen_alive rt vm (es0 @ (QText (ReadFile (fc_pidfile rt vm)), AText (Ok s)) # es)"
    (is "\<not> seen_alive rt vm ?E")
proof
  assume "seen_alive rt vm ?E"
  let ?stat = "QText (ReadFile (proc_path (rec_pid rec) ''stat''))"
    and ?cmd = "QText (ReadFile (proc_path (rec_pid rec) ''cmdline''))"
  from assms(1) obtain r1 es1 where es: "es = (?stat, AText r1) # es1"
    and rest: "hruns (case (case r1 of Err _ \<Rightarrow> None | Ok s \<Rightarrow> stat_start s) of
       None \<Rightarrow> HRet False
     | Some t \<Rightarrow>
         if (case rec_start rec of Some s \<Rightarrow> s \<noteq> t | None \<Rightarrow> False) then HRet False
         else HText (ReadFile (proc_path (rec_pid rec) ''cmdline'')) (\<lambda>r.
              HRet (case r of Err _ \<Rightarrow> False | Ok raw \<Rightarrow> names (cmdline_args raw)))) es1 False"
    unfolding is_live_def start_time_def hruns_ops by blast
  from rest have quiet: "es1 = [] \<or> (\<exists>r. es1 = [(?cmd, AText r)] \<and>
      \<not> (case r of Err _ \<Rightarrow> False | Ok raw \<Rightarrow> names (cmdline_args raw)))"
    by (auto simp: hruns_ops split: option.splits if_splits)
  have n0: "(QText c, a) \<notin> set es0" "(QAsk (SignalZero p), a) \<notin> set es0" for c a p
    using assms(3) by (auto simp: neutral_def)
  have "(QAsk (SignalZero p), a) \<notin> set ?E" for p a using quiet n0 es by auto
  with \<open>seen_alive rt vm ?E\<close> obtain rec' where says: "pidfile_says rt vm ?E rec'" and chk: "checked_pid rt vm rec' ?E"
    by (auto simp: seen_alive_def)
  have "rec' = rec"
    using says quiet n0 es assms(4) paths_differ by (auto simp: pidfile_says_def)
  with chk obtain st t raw where st: "(?stat, AText (Ok st)) \<in> set ?E" "stat_start st = Some t"
    "rec_start rec = None \<or> rec_start rec = Some t" and raw: "(?cmd, AText (Ok raw)) \<in> set ?E"
    "names_vm rt vm (cmdline_args raw)"
    by (auto simp: checked_pid_def)
  have "r1 = Ok st"
    using st(1) quiet n0 es paths_differ paths_differ [symmetric] by auto
  moreover have "es1 = [(?cmd, AText (Ok raw))]"
    using raw(1) quiet n0 es paths_differ paths_differ [symmetric] by auto
  ultimately show False
    using quiet raw(2) assms(2) by auto
qed

lemma pid_alive_dead:
  assumes "hruns (pid_alive rt vm (\<lambda>alive. HRet (f alive))) es y" and "neutral es0" and "y \<noteq> f True"
  shows "\<not> seen_alive rt vm (es0 @ es)"
proof -
  have N: "neutral (es0 @ [(QNum c, r)])" for c r using assms(2) by (auto simp: neutral_def)
  from assms(1) obtain r es1 where es: "es = (QNum (ChildGet (vmid_display vm)), ANum r) # es1"
    and rest: "hruns (case r of Ok pid \<Rightarrow> HAsk (SignalZero pid) (\<lambda>alive. HRet (f alive))
     | Err _ \<Rightarrow> recorded rt vm (\<lambda>rec.
         case rec of None \<Rightarrow> HRet (f False) | Some r \<Rightarrow> hbind (is_live r (names_vm rt vm)) (\<lambda>alive. HRet (f alive)))) es1 y"
    unfolding pid_alive_def hruns_ops by blast
  show ?thesis
  proof (cases r)
    case (Inr pid)
    with rest have "es1 = [(QAsk (SignalZero pid), AAsk False)]" using assms(3) by (auto simp: hruns_ops)
    with es assms(2) show ?thesis by (auto simp: seen_alive_def pidfile_says_def neutral_def)
  next
    case (Inl e)
    with rest obtain r2 es2 where es1: "es1 = (QText (ReadFile (fc_pidfile rt vm)), AText r2) # es2"
      and rest2: "hruns (case (case r2 of Err _ \<Rightarrow> None | Ok s \<Rightarrow> pidfile_parse s) of None \<Rightarrow> HRet (f False)
        | Some r \<Rightarrow> hbind (is_live r (names_vm rt vm)) (\<lambda>alive. HRet (f alive))) es2 y"
      by (auto simp: recorded_def hruns_ops)
    show ?thesis
    proof (cases "case r2 of Err _ \<Rightarrow> None | Ok s \<Rightarrow> pidfile_parse s")
      case None
      with rest2 es es1 N [of "ChildGet (vmid_display vm)" "ANum r"] show ?thesis
        by (cases r2) (auto simp: seen_alive_def pidfile_says_def neutral_def)
    next
      case (Some rec)
      then obtain s where s: "r2 = Ok s" "pidfile_parse s = Some rec" by (cases r2) auto
      with Some rest2 obtain alive where "hruns (is_live rec (names_vm rt vm)) es2 alive" "y = f alive"
        by (auto simp: hruns_bind)
      moreover from this assms(3) have "\<not> alive" by (cases alive) auto
      ultimately have "\<not> seen_alive rt vm ((es0 @ [(QNum (ChildGet (vmid_display vm)), ANum r)]) @
          (QText (ReadFile (fc_pidfile rt vm)), AText (Ok s)) # es2)"
        using s N by (intro is_live_false) auto
      with es es1 s show ?thesis by simp
    qed
  qed
qed

lemma fc_state_runs: "hruns (fc_state rt vm) es x \<Longrightarrow> neutral es"
proof -
  assume run: "hruns (fc_state rt vm) es x"
  have "hevery (\<lambda>q. (\<forall>pid. q \<noteq> QAsk (SignalZero pid)) \<and> (\<forall>c. q \<noteq> QText c)) (fc_state rt vm)"
    by (auto simp: fc_state_def split: sum.splits prod.splits option.splits)
  from hevery_runs [OF this run] show ?thesis by (auto simp: neutral_def)
qed

lemma status_ask_dead:
  assumes "hruns (status_ask rt vm) es (Ok st)" and "st \<in> {VS_Absent, VS_Stopped}" and "neutral es0"
  shows "\<not> seen_alive rt vm (es0 @ es)"
proof -
  from assms(1) obtain there es1 where es: "es = (QAsk (Exists (fc_socket rt vm)), AAsk there) # es1"
    and rest: "hruns (if \<not> there then pid_alive rt vm (\<lambda>alive. HRet (Ok (if alive then VS_Created else VS_Absent)))
     else hbind (fc_state rt vm) (api_status rt vm)) es1 (Ok st)"
    unfolding status_ask_def hruns_ops by (elim exE conjE) (rule that, assumption+)
  let ?e = "[(QAsk (Exists (fc_socket rt vm)), AAsk there)]"
  have N: "neutral (es0 @ ?e @ es')" if "neutral es'" for es'
    using assms(3) that by (auto simp: neutral_def)
  show ?thesis
  proof (cases there)
    case False
    with rest have "hruns (pid_alive rt vm (\<lambda>alive. HRet (Ok (if alive then VS_Created else VS_Absent)))) es1 (Ok st :: (CommonError, VmStatus) result)"
      by simp
    moreover have "neutral (es0 @ ?e)" using N [of "[]"] by (simp add: neutral_def)
    ultimately have "\<not> seen_alive rt vm ((es0 @ ?e) @ es1)"
      by (rule pid_alive_dead) (use assms(2) in auto)
    with es show ?thesis by simp
  next
    case True
    with rest obtain es2 es3 r where "es1 = es2 @ es3" and s: "hruns (fc_state rt vm) es2 r"
      and alive: "hruns (api_status rt vm r) es3 (Ok st)"
      by (auto simp: hruns_bind)
    from alive assms(2) have "hruns (pid_alive rt vm (\<lambda>alive. HRet (Ok (if alive then VS_Running else VS_Stopped)))) es3 (Ok st :: (CommonError, VmStatus) result)"
      by (cases r) (auto simp: api_status_def split: if_splits)
    from this N [OF fc_state_runs [OF s]] have "\<not> seen_alive rt vm ((es0 @ ?e @ es2) @ es3)"
      by (rule pid_alive_dead) (use assms(2) in auto)
    with es \<open>es1 = es2 @ es3\<close> show ?thesis by simp
  qed
qed


section \<open>A jail is built inside itself\<close>

text \<open>The paths whose contents, owner or existence a call changes; making missing directories apart.\<close>

fun changes :: "HQuery \<Rightarrow> string list" where
  "changes (QDo (CreateFile p)) = [p]"
| "changes (QDo (SetLen p _)) = [p]"
| "changes (QDo (WriteFile p _)) = [p]"
| "changes (QDo (RemoveFile p)) = [p]"
| "changes (QDo (RemoveDir p)) = [p]"
| "changes (QDo (RemoveDirAll p)) = [p]"
| "changes (QDo (Rename a b)) = [a, b]"
| "changes (QDo (CopyFile _ b)) = [b]"
| "changes (QDo (HardLink _ b)) = [b]"
| "changes (QDo (Chown p _ _)) = [p]"
| "changes (QDo (Chmod p _)) = [p]"
| "changes (QDo (Mknod p _)) = [p]"
| "changes _ = []"

lemma plain_pair: "plain_name a \<Longrightarrow> plain_name b \<Longrightarrow> ParentDir \<notin> set (components (a @ ''/'' @ b))"
  by (auto simp: components_def segments_def seg_component_def plain_name_def split_on_append split_on_no_sep)

lemma plain_rel: "plain_name a \<Longrightarrow> \<not> is_absolute a \<and> \<not> ends_with ''/'' a \<and> a \<noteq> []"
  by (cases a) (auto simp: plain_name_def is_absolute_def starts_with_iff ends_with_char dest: last_in_set)

lemma in_cache:
  assumes "plain_name h" and "plain_name n"
  shows "inside (path_join base ''.cache'') (path_join (path_join (path_join base ''.cache'') h) n)"
proof -
  let ?c = "path_join base ''.cache''"
  have sep: "path_join x y = x @ ''/'' @ y" if "x \<noteq> []" "\<not> ends_with ''/'' x" "plain_name y" for x y
    using that plain_rel [of y] by (simp add: path_join_def)
  have c: "?c \<noteq> []" "\<not> ends_with ''/'' ?c"
    by (simp_all add: path_join_def is_absolute_def starts_with_iff ends_with_char)
  have "path_join ?c h \<noteq> []" "\<not> ends_with ''/'' (path_join ?c h)"
    using sep [OF c assms(1)] plain_rel [OF assms(1)] by (auto simp: ends_with_char)
  then have "path_join (path_join ?c h) n = ?c @ ''/'' @ (h @ ''/'' @ n)"
    using sep [OF c assms(1)] sep assms(2) by simp
  with plain_pair [OF assms] show ?thesis unfolding inside_def by blast
qed

lemma show_nat_no_slash: "CHR ''/'' \<notin> set (show_nat n)"
  using show_nat_digits [of n] by (auto simp: list_all_iff ascii_digit_def byte_def)

lemma cache_name: "plain_name (case file_name src of Some n \<Rightarrow> n | None \<Rightarrow> ''file'')"
  using file_name_plain [of src] by (auto simp: plain_name_def split: option.splits)

lemma cache_tmp_name: "plain_name n \<Longrightarrow> plain_name (''.'' @ n @ ''.'' @ show_nat pid)"
proof -
  assume n: "plain_name n"
  then obtain c cs where "n = c # cs" by (cases n) (auto simp: plain_name_def)
  with n show ?thesis using show_nat_no_slash [of pid] by (auto simp: plain_name_def)
qed

abbreviation stays :: "(string \<Rightarrow> bool) \<Rightarrow> HQuery \<Rightarrow> bool" where
  "stays ok q \<equiv> \<forall>x \<in> set (changes q). ok x"

lemma chown_within: "ok p \<Longrightarrow> hevery (stays ok) (jail_chown p uid gid)"
  by (auto simp: jail_chown_def intro!: hevery_must)

lemma parent_within: "hevery (stays ok) k \<Longrightarrow> hevery (stays ok) (make_parent p k)"
  by (auto simp: make_parent_def intro!: hevery_must split: option.splits)

lemma mknod_within: "ok p \<Longrightarrow> hevery (stays ok) (mknod_like p dev uid gid)"
  by (auto simp: mknod_like_def intro!: hevery_must parent_within chown_within split: sum.splits)

lemma link_within:
  assumes "ok dst" and "\<And>c m n. plain_name n \<Longrightarrow> ok (path_join (path_join cache (hash c m)) n)"
  shows "hevery (stays ok) (link_or_cache hash pid src dst cache)"
proof -
  have name: "ok (path_join (path_join cache (hash c m)) (case file_name src of Some n \<Rightarrow> n | None \<Rightarrow> ''file''))"
    "ok (path_join (path_join cache (hash c m))
      (''.'' @ (case file_name src of Some n \<Rightarrow> n | None \<Rightarrow> ''file'') @ ''.'' @ show_nat pid))" for c m
    using assms(2) cache_name cache_tmp_name by blast+
  show ?thesis
    unfolding link_or_cache_def Let_def
    using assms(1) name by (auto intro!: hevery_must parent_within split: sum.splits)
qed

lemma materialize_within:
  assumes "\<forall>p \<in> set (plan_paths plan) \<union> set (jail_dirs plan). ok p"
    and "\<And>c m n. plain_name n \<Longrightarrow> ok (path_join (path_join (path_join (chroot_base jail) ''.cache'') (hash c m)) n)"
  shows "hevery (stays ok) (materialize hash pid plan jail dev)"
proof -
  have ok: "ok (snd (jp_kernel plan))" "d \<in> set (jail_dirs plan) \<Longrightarrow> ok d"
    "(a, b) \<in> set (jp_snapshot plan) \<Longrightarrow> ok b" "n \<in> set (jp_rootfs_nodes plan) \<Longrightarrow> ok n" for d a b n
    using assms(1) by (force simp: plan_paths_def)+
  note link = link_within [where ok = ok and hash = hash and cache = "path_join (chroot_base jail) ''.cache''", OF _ assms(2)]
  show ?thesis
    unfolding materialize_def Let_def
    by (auto intro!: hevery_try hevery_foreach hevery_must link chown_within mknod_within ok(1) dest: ok(2,3) split: sum.splits)
      (use ok(4) in blast)+
qed

lemma inside_jail_dirs:
  "d \<in> set (jail_dirs (jail_plan jail fc ns spec)) \<Longrightarrow> inside (jail_dir jail fc (is_vm spec)) d"
proof -
  obtain base where b: "jail_dir jail fc (is_vm spec) = base @ vmid_display (is_vm spec)" using jail_dir_ends by blast
  then have "path_join (jail_dir jail fc (is_vm spec)) ''root'' = jail_dir jail fc (is_vm spec) @ ''/'' @ ''root''"
    using vmid_display_rel [of "is_vm spec"]
    by (simp add: path_join_def is_absolute_def starts_with_iff ends_with_char)
  moreover have "ParentDir \<notin> set (components ''root'')"
    by (simp add: components_def segments_def seg_component_def starts_with_iff)
  ultimately have root: "inside (jail_dir jail fc (is_vm spec)) (path_join (jail_dir jail fc (is_vm spec)) ''root'')"
    unfolding inside_def by blast
  assume "d \<in> set (jail_dirs (jail_plan jail fc ns spec))"
  then show ?thesis
    by (auto simp: jail_dirs_def jail_plan_fields root components_def segments_def seg_component_def
        starts_with_iff is_absolute_def intro!: inside_root)
qed


section \<open>What is written to a pidfile is read back\<close>

lemma pidfile_roundtrip:
  assumes "0 < pid" and "pid < 2 ^ 31"
  shows "pidfile_parse (pidfile_text pid start) = Some \<lparr>rec_pid = pid, rec_start = start\<rparr>"
proof -
  have ws: "ws1 (CHR '' '')" "ws1 (CHR 10)" by (simp_all add: ws1_def byte_def)
  have p: "parse_unsigned (2 ^ 31) (show_nat pid) = Some pid" using assms(2) by (rule parse_unsigned_show_nat)
  note word = split_whitespace_word [OF show_nat_plain show_nat_not_Nil]
  show ?thesis
  proof (cases start)
    case None
    then show ?thesis
      using assms p word [OF ws(2), of pid "[]"] by (simp add: pidfile_parse_def pidfile_text_def)
  next
    case (Some t)
    then show ?thesis
      using assms p word [OF ws(1), of pid "show_nat (unat t) @ [CHR 10]"] word [OF ws(2), of "unat t" "[]"]
      by (simp add: pidfile_parse_def pidfile_text_def)
  qed
qed

section \<open>Runs to try it on\<close>

definition wit_rt :: FirecrackerRuntime where
  "wit_rt = \<lparr>rt_cfg = fc_config_default, rt_fc_bin = ''/usr/bin/firecracker'', rt_json = (\<lambda>_. []),
     rt_parse = (\<lambda>_. None), rt_hash = (\<lambda>_ _. ''0''), rt_pid = 1\<rparr>"

theorem kills_only_own_vmm_witness:
  "may_signal wit_rt 7 [(QNum (ChildGet (vmid_display 7)), ANum (Ok 77))] (QDo (KillPid 77 SIGKILL)) \<and>
   \<not> names_vm wit_rt 8 [fc_cfg_bin (rt_cfg wit_rt), ''--api-sock'', unjailed_socket wit_rt 7]"
proof -
  have "hruns (fc_halt wit_rt 7)
      [(QNum (ChildGet (vmid_display 7)), ANum (Ok 77)), (QDo (KillPid 77 SIGKILL), ADo (Ok ()))] (Ok ())"
    by (simp add: fc_halt_def kill_def hruns_rules)
  then show ?thesis
    using kills_only_own_vmm [of wit_rt 7 _ "Ok ()" "[(QNum (ChildGet (vmid_display 7)), ANum (Ok 77))]"
        "QDo (KillPid 77 SIGKILL)" "ADo (Ok ())" "[]" 8]
    by simp
qed


definition wit_jail :: JailerConfig where
  "wit_jail = \<lparr>jc_bin = ''jailer'', chroot_base = ''/srv/jail'', jc_uid = 65534, jc_gid = 65534,
     id_base_of = Some DEFAULT_ID_BASE, cgroup_version = 2, default_limits = True, cgroup_controllers = None,
     jc_cgroups = [], resource_limits = []\<rparr>"

definition wit_spec :: InstanceSpec where
  "wit_spec = \<lparr>is_vm = 7, is_netns = ''vm0003'', is_tap = ''tap0'', is_mac = MacAddr [2, 0, 0, 0, 0, 1],
     is_rootfs_device = ''/dev/iso/vm_7'', is_vcpus = 2, is_mem_mib = 1024, is_kernel = ''/boot/vmlinux'',
     is_boot_args = [], is_resume_from = None, is_rootfs_backing = Some ''/dev/iso/tpl_base'', is_vsock_cid = None\<rparr>"


end
