(* ===== verification/Iso_Guest.thy ===== *)
theory Iso_Guest
  imports Iso_Host Iso_Json
begin

text \<open>
  The protocol between host and guest agent (\<^verbatim>\<open>crates/iso-guest-proto\<close>): requests and responses, the
  JSON they are written as (the derives of \<^verbatim>\<open>serde\<close>), frames of a length and a body, and the host's
  typed client. The text of a JSON value is \<^verbatim>\<open>serde_json\<close>'s and a parameter (\<open>to_vec\<close>, \<open>from_slice\<close>);
  a number is its value, and an object's keys are taken to be distinct. A stream is the bytes that
  will arrive and how it ends, and the bytes written so far and how many more the peer takes.
\<close>

section \<open>Requests and responses\<close>

definition DEFAULT_MAX_OUTPUT :: u64 where "DEFAULT_MAX_OUTPUT = 1048576"

definition DEFAULT_MAX_READ :: u64 where "DEFAULT_MAX_READ = 16777216"

definition DEFAULT_EXEC_TIMEOUT_MS :: u64 where "DEFAULT_EXEC_TIMEOUT_MS = 120000"

record ExecRequest =
  eq_cmd :: string
  eq_args :: "string list"
  eq_cwd :: "string option"
  eq_env :: "(string \<times> string) list"
  eq_stdin :: "string option"
  eq_timeout_ms :: "u64 option"
  eq_max_output_bytes :: "u64 option"
  eq_user :: "string option"

datatype GuestRequest =
    Ping
  | Exec ExecRequest
  | RdFile string "u64 option"
  | WrFile string string "u32 option" bool
  | ListDir string
  | Stat string
  | Remove string bool
  | Mkdir string bool
  | SetClock u64

record AgentInfo =
  ai_agent :: string
  ai_version :: string
  ai_hostname :: string
  ai_uid :: u32
  ai_cwd :: string

record ExecResult =
  er_exit_code :: "32 word option"
  er_signal :: "32 word option"
  er_stdout :: string
  er_stderr :: string
  er_timed_out :: bool
  er_truncated :: bool
  er_duration_ms :: u64

record FileContent =
  fc_path :: string
  fc_size :: u64
  fc_content_b64 :: string
  fc_truncated :: bool

datatype FileKind = FK_File | FK_Dir | FK_Symlink | FK_Other

record DirEntry =
  de_name :: string
  de_kind :: FileKind
  de_size :: u64
  de_mode :: u32

record FileStat =
  fs_path :: string
  fs_kind :: FileKind
  fs_size :: u64
  fs_mode :: u32
  fs_uid :: u32
  fs_gid :: u32
  fs_modified :: "u64 option"

record ClockResult =
  cl_offset_ms :: "64 word"
  cl_stepped :: bool

datatype ResponseBody =
    Pong AgentInfo
  | ExecDone ExecResult
  | FileBody FileContent
  | Written u64
  | Dir "DirEntry list"
  | StatBody FileStat
  | Done
  | Clock ClockResult

record Response =
  rs_ok :: bool
  rs_result :: "ResponseBody option"
  rs_error :: "string option"

definition response_ok :: "ResponseBody \<Rightarrow> Response" where
  "response_ok body = \<lparr>rs_ok = True, rs_result = Some body, rs_error = None\<rparr>"

definition response_err :: "string \<Rightarrow> Response" where
  "response_err msg = \<lparr>rs_ok = False, rs_result = None, rs_error = Some msg\<rparr>"

definition into_result :: "Response \<Rightarrow> (string, ResponseBody) result" where
  "into_result r =
     (if rs_ok r then
        (case rs_result r of Some b \<Rightarrow> Ok b | None \<Rightarrow> Err ''agent returned ok without a result'')
      else Err (case rs_error r of Some m \<Rightarrow> m | None \<Rightarrow> ''agent returned an error without a message''))"

section \<open>Their JSON\<close>

definition ju64 :: "u64 \<Rightarrow> Json" where "ju64 n = JNum (of_nat (unat n))"

definition ju32 :: "u32 \<Rightarrow> Json" where "ju32 n = JNum (of_nat (unat n))"

definition jint :: "'a::len word \<Rightarrow> Json" where "jint n = JNum (of_int (sint n))"

definition jopt :: "('a \<Rightarrow> Json) \<Rightarrow> 'a option \<Rightarrow> Json" where
  "jopt f x = (case x of None \<Rightarrow> JNull | Some y \<Rightarrow> f y)"

definition jskip :: "string \<Rightarrow> ('a \<Rightarrow> Json) \<Rightarrow> 'a option \<Rightarrow> (string \<times> Json) list" where
  "jskip k f x = (case x of None \<Rightarrow> [] | Some y \<Rightarrow> [(k, f y)])"

definition exec_fields :: "ExecRequest \<Rightarrow> (string \<times> Json) list" where
  "exec_fields e =
     [(''cmd'', JStr (eq_cmd e)), (''args'', JArr (map JStr (eq_args e))), (''cwd'', jopt JStr (eq_cwd e)),
      (''env'', JObj (map (\<lambda>(k, v). (k, JStr v)) (eq_env e))), (''stdin'', jopt JStr (eq_stdin e)),
      (''timeout_ms'', jopt ju64 (eq_timeout_ms e)), (''max_output_bytes'', jopt ju64 (eq_max_output_bytes e))] @
     jskip ''user'' JStr (eq_user e)"

fun request_json :: "GuestRequest \<Rightarrow> Json" where
  "request_json Ping = JObj [(''op'', JStr ''ping'')]"
| "request_json (Exec e) = JObj ((''op'', JStr ''exec'') # exec_fields e)"
| "request_json (RdFile p m) =
     JObj [(''op'', JStr ''read_file''), (''path'', JStr p), (''max_bytes'', jopt ju64 m)]"
| "request_json (WrFile p c m d) =
     JObj [(''op'', JStr ''write_file''), (''path'', JStr p), (''content_b64'', JStr c),
       (''mode'', jopt ju32 m), (''mkdir'', JBool d)]"
| "request_json (ListDir p) = JObj [(''op'', JStr ''list_dir''), (''path'', JStr p)]"
| "request_json (Stat p) = JObj [(''op'', JStr ''stat''), (''path'', JStr p)]"
| "request_json (Remove p r) =
     JObj [(''op'', JStr ''remove''), (''path'', JStr p), (''recursive'', JBool r)]"
| "request_json (Mkdir p r) = JObj [(''op'', JStr ''mkdir''), (''path'', JStr p), (''parents'', JBool r)]"
| "request_json (SetClock n) = JObj [(''op'', JStr ''set_clock''), (''unix_nanos'', ju64 n)]"

text \<open>Reading a field: required, with a default where it is missing, or optional (missing or null).\<close>

definition need :: "string \<Rightarrow> (Json \<Rightarrow> 'a option) \<Rightarrow> Json \<Rightarrow> 'a option" where
  "need k parse v = Option.bind (json_lookup k v) parse"

definition with_default :: "string \<Rightarrow> (Json \<Rightarrow> 'a option) \<Rightarrow> 'a \<Rightarrow> Json \<Rightarrow> 'a option" where
  "with_default k parse d v = (case json_lookup k v of None \<Rightarrow> Some d | Some x \<Rightarrow> parse x)"

definition nullable :: "(Json \<Rightarrow> 'a option) \<Rightarrow> Json \<Rightarrow> 'a option option" where
  "nullable parse x = (if x = JNull then Some None else map_option Some (parse x))"

fun as_bool :: "Json \<Rightarrow> bool option" where
  "as_bool (JBool b) = Some b"
| "as_bool _ = None"

definition p_u64 :: "Json \<Rightarrow> u64 option" where
  "p_u64 v = map_option of_nat (as_u64 v)"

definition p_u32 :: "Json \<Rightarrow> u32 option" where
  "p_u32 v = (case as_u64 v of Some n \<Rightarrow> if n < 2 ^ 32 then Some (of_nat n) else None | None \<Rightarrow> None)"

fun as_int :: "Json \<Rightarrow> int option" where
  "as_int (JNum r) = (if r \<in> \<int> then Some \<lfloor>r\<rfloor> else None)"
| "as_int _ = None"

definition p_int :: "Json \<Rightarrow> 'a::len word option" where
  "p_int v = (case as_int v of
      Some n \<Rightarrow> if - (2 ^ (LENGTH('a) - 1)) \<le> n \<and> n < 2 ^ (LENGTH('a) - 1) then Some (word_of_int n) else None
    | None \<Rightarrow> None)"

text \<open>\<^verbatim>\<open>collect\<close> over options: all or nothing.\<close>

fun all_some :: "('a \<Rightarrow> 'b option) \<Rightarrow> 'a list \<Rightarrow> 'b list option" where
  "all_some f [] = Some []"
| "all_some f (x # xs) =
     (case f x of None \<Rightarrow> None
      | Some y \<Rightarrow> (case all_some f xs of None \<Rightarrow> None | Some ys \<Rightarrow> Some (y # ys)))"

definition p_strings :: "Json \<Rightarrow> string list option" where
  "p_strings v = Option.bind (as_array v) (all_some as_str)"

text \<open>A \<^verbatim>\<open>BTreeMap\<close> keeps its keys in order and the last value of each.\<close>

definition btree :: "(string \<times> 'v) list \<Rightarrow> (string \<times> 'v) list" where
  "btree kvs = map (\<lambda>k. (k, the (map_of (rev kvs) k))) (sorted_list_of_set (fst ` set kvs))"

fun p_env :: "Json \<Rightarrow> (string \<times> string) list option" where
  "p_env (JObj kvs) =
     map_option btree (all_some (\<lambda>(k, x). map_option (Pair k) (as_str x)) kvs)"
| "p_env _ = None"

definition p_exec :: "Json \<Rightarrow> ExecRequest option" where
  "p_exec v =
     Option.bind (need ''cmd'' as_str v) (\<lambda>cmd.
     Option.bind (with_default ''args'' p_strings [] v) (\<lambda>args.
     Option.bind (with_default ''cwd'' (nullable as_str) None v) (\<lambda>cwd.
     Option.bind (with_default ''env'' p_env [] v) (\<lambda>env.
     Option.bind (with_default ''stdin'' (nullable as_str) None v) (\<lambda>stdin.
     Option.bind (with_default ''timeout_ms'' (nullable p_u64) None v) (\<lambda>timeout.
     Option.bind (with_default ''max_output_bytes'' (nullable p_u64) None v) (\<lambda>mx.
     Option.bind (with_default ''user'' (nullable as_str) None v) (\<lambda>user.
     Some \<lparr>eq_cmd = cmd, eq_args = args, eq_cwd = cwd, eq_env = env, eq_stdin = stdin,
           eq_timeout_ms = timeout, eq_max_output_bytes = mx, eq_user = user\<rparr>))))))))"

definition p_request :: "Json \<Rightarrow> GuestRequest option" where
  "p_request v =
     Option.bind (need ''op'' as_str v) (\<lambda>op'.
     if op' = ''ping'' then Some Ping
     else if op' = ''exec'' then map_option Exec (p_exec v)
     else if op' = ''read_file'' then
       Option.bind (need ''path'' as_str v) (\<lambda>p.
       Option.bind (with_default ''max_bytes'' (nullable p_u64) None v) (\<lambda>m. Some (RdFile p m)))
     else if op' = ''write_file'' then
       Option.bind (need ''path'' as_str v) (\<lambda>p.
       Option.bind (need ''content_b64'' as_str v) (\<lambda>c.
       Option.bind (with_default ''mode'' (nullable p_u32) None v) (\<lambda>m.
       Option.bind (with_default ''mkdir'' as_bool False v) (\<lambda>d. Some (WrFile p c m d)))))
     else if op' = ''list_dir'' then map_option ListDir (need ''path'' as_str v)
     else if op' = ''stat'' then map_option Stat (need ''path'' as_str v)
     else if op' = ''remove'' then
       Option.bind (need ''path'' as_str v) (\<lambda>p.
       Option.bind (with_default ''recursive'' as_bool False v) (\<lambda>r. Some (Remove p r)))
     else if op' = ''mkdir'' then
       Option.bind (need ''path'' as_str v) (\<lambda>p.
       Option.bind (with_default ''parents'' as_bool True v) (\<lambda>r. Some (Mkdir p r)))
     else if op' = ''set_clock'' then map_option SetClock (need ''unix_nanos'' p_u64 v)
     else None)"

fun kind_json :: "FileKind \<Rightarrow> Json" where
  "kind_json FK_File = JStr ''file''"
| "kind_json FK_Dir = JStr ''dir''"
| "kind_json FK_Symlink = JStr ''symlink''"
| "kind_json FK_Other = JStr ''other''"

definition p_kind :: "Json \<Rightarrow> FileKind option" where
  "p_kind v = Option.bind (as_str v) (\<lambda>s.
     if s = ''file'' then Some FK_File else if s = ''dir'' then Some FK_Dir
     else if s = ''symlink'' then Some FK_Symlink else if s = ''other'' then Some FK_Other else None)"

definition entry_json :: "DirEntry \<Rightarrow> Json" where
  "entry_json d = JObj [(''name'', JStr (de_name d)), (''kind'', kind_json (de_kind d)),
     (''size'', ju64 (de_size d)), (''mode'', ju32 (de_mode d))]"

definition p_entry :: "Json \<Rightarrow> DirEntry option" where
  "p_entry v =
     Option.bind (need ''name'' as_str v) (\<lambda>n.
     Option.bind (need ''kind'' p_kind v) (\<lambda>k.
     Option.bind (need ''size'' p_u64 v) (\<lambda>s.
     Option.bind (need ''mode'' p_u32 v) (\<lambda>m.
     Some \<lparr>de_name = n, de_kind = k, de_size = s, de_mode = m\<rparr>))))"

fun body_json :: "ResponseBody \<Rightarrow> Json" where
  "body_json (Pong i) = JObj [(''type'', JStr ''pong''), (''agent'', JStr (ai_agent i)),
     (''version'', JStr (ai_version i)), (''hostname'', JStr (ai_hostname i)), (''uid'', ju32 (ai_uid i)),
     (''cwd'', JStr (ai_cwd i))]"
| "body_json (ExecDone r) = JObj [(''type'', JStr ''exec''), (''exit_code'', jopt jint (er_exit_code r)),
     (''signal'', jopt jint (er_signal r)), (''stdout'', JStr (er_stdout r)), (''stderr'', JStr (er_stderr r)),
     (''timed_out'', JBool (er_timed_out r)), (''truncated'', JBool (er_truncated r)),
     (''duration_ms'', ju64 (er_duration_ms r))]"
| "body_json (FileBody f) = JObj [(''type'', JStr ''file''), (''path'', JStr (fc_path f)),
     (''size'', ju64 (fc_size f)), (''content_b64'', JStr (fc_content_b64 f)), (''truncated'', JBool (fc_truncated f))]"
| "body_json (Written n) = JObj [(''type'', JStr ''written''), (''bytes'', ju64 n)]"
| "body_json (Dir es) = JObj [(''type'', JStr ''dir''), (''entries'', JArr (map entry_json es))]"
| "body_json (StatBody s) = JObj [(''type'', JStr ''stat''), (''path'', JStr (fs_path s)),
     (''kind'', kind_json (fs_kind s)), (''size'', ju64 (fs_size s)), (''mode'', ju32 (fs_mode s)),
     (''uid'', ju32 (fs_uid s)), (''gid'', ju32 (fs_gid s)), (''modified'', jopt ju64 (fs_modified s))]"
| "body_json Done = JObj [(''type'', JStr ''done'')]"
| "body_json (Clock c) = JObj [(''type'', JStr ''clock''), (''offset_ms'', jint (cl_offset_ms c)),
     (''stepped'', JBool (cl_stepped c))]"

definition p_info :: "Json \<Rightarrow> AgentInfo option" where
  "p_info v =
     Option.bind (need ''agent'' as_str v) (\<lambda>a.
     Option.bind (need ''version'' as_str v) (\<lambda>ver.
     Option.bind (need ''hostname'' as_str v) (\<lambda>h.
     Option.bind (need ''uid'' p_u32 v) (\<lambda>u.
     Option.bind (need ''cwd'' as_str v) (\<lambda>c.
     Some \<lparr>ai_agent = a, ai_version = ver, ai_hostname = h, ai_uid = u, ai_cwd = c\<rparr>)))))"

definition p_exec_result :: "Json \<Rightarrow> ExecResult option" where
  "p_exec_result v =
     Option.bind (with_default ''exit_code'' (nullable p_int) None v) (\<lambda>c.
     Option.bind (with_default ''signal'' (nullable p_int) None v) (\<lambda>s.
     Option.bind (need ''stdout'' as_str v) (\<lambda>out.
     Option.bind (need ''stderr'' as_str v) (\<lambda>er.
     Option.bind (need ''timed_out'' as_bool v) (\<lambda>t.
     Option.bind (need ''truncated'' as_bool v) (\<lambda>tr.
     Option.bind (need ''duration_ms'' p_u64 v) (\<lambda>d.
     Some \<lparr>er_exit_code = c, er_signal = s, er_stdout = out, er_stderr = er, er_timed_out = t,
           er_truncated = tr, er_duration_ms = d\<rparr>)))))))"

definition p_file :: "Json \<Rightarrow> FileContent option" where
  "p_file v =
     Option.bind (need ''path'' as_str v) (\<lambda>p.
     Option.bind (need ''size'' p_u64 v) (\<lambda>s.
     Option.bind (need ''content_b64'' as_str v) (\<lambda>c.
     Option.bind (need ''truncated'' as_bool v) (\<lambda>t.
     Some \<lparr>fc_path = p, fc_size = s, fc_content_b64 = c, fc_truncated = t\<rparr>))))"

definition p_stat :: "Json \<Rightarrow> FileStat option" where
  "p_stat v =
     Option.bind (need ''path'' as_str v) (\<lambda>p.
     Option.bind (need ''kind'' p_kind v) (\<lambda>k.
     Option.bind (need ''size'' p_u64 v) (\<lambda>s.
     Option.bind (need ''mode'' p_u32 v) (\<lambda>m.
     Option.bind (need ''uid'' p_u32 v) (\<lambda>u.
     Option.bind (need ''gid'' p_u32 v) (\<lambda>g.
     Option.bind (with_default ''modified'' (nullable p_u64) None v) (\<lambda>t.
     Some \<lparr>fs_path = p, fs_kind = k, fs_size = s, fs_mode = m, fs_uid = u, fs_gid = g, fs_modified = t\<rparr>)))))))"

definition p_body :: "Json \<Rightarrow> ResponseBody option" where
  "p_body v =
     Option.bind (need ''type'' as_str v) (\<lambda>t.
     if t = ''pong'' then map_option Pong (p_info v)
     else if t = ''exec'' then map_option ExecDone (p_exec_result v)
     else if t = ''file'' then map_option FileBody (p_file v)
     else if t = ''written'' then map_option Written (need ''bytes'' p_u64 v)
     else if t = ''dir'' then
       map_option Dir (need ''entries'' (\<lambda>x. Option.bind (as_array x) (all_some p_entry)) v)
     else if t = ''stat'' then map_option StatBody (p_stat v)
     else if t = ''done'' then Some Done
     else if t = ''clock'' then
       Option.bind (need ''offset_ms'' p_int v) (\<lambda>o'.
       Option.bind (need ''stepped'' as_bool v) (\<lambda>s. Some (Clock \<lparr>cl_offset_ms = o', cl_stepped = s\<rparr>)))
     else None)"

definition response_json :: "Response \<Rightarrow> Json" where
  "response_json r =
     JObj ((''ok'', JBool (rs_ok r)) # jskip ''result'' body_json (rs_result r) @ jskip ''error'' JStr (rs_error r))"

definition p_response :: "Json \<Rightarrow> Response option" where
  "p_response v =
     Option.bind (need ''ok'' as_bool v) (\<lambda>ok'.
     Option.bind (with_default ''result'' (nullable p_body) None v) (\<lambda>res.
     Option.bind (with_default ''error'' (nullable as_str) None v) (\<lambda>er.
     Some \<lparr>rs_ok = ok', rs_result = res, rs_error = er\<rparr>)))"

section \<open>Frames\<close>

definition MAX_FRAME :: nat where "MAX_FRAME = 64 * 1024 * 1024"

record Reader =
  rd_bytes :: string
  rd_end :: "IoErr option"

record Writer =
  wr_out :: string
  wr_room :: "nat option"
  wr_err :: IoErr

definition read_exact :: "nat \<Rightarrow> Reader \<Rightarrow> (IoErr, string) result \<times> Reader" where
  "read_exact n r =
     (if n \<le> length (rd_bytes r) then (Ok (take n (rd_bytes r)), r\<lparr>rd_bytes := drop n (rd_bytes r)\<rparr>)
      else (Err (case rd_end r of None \<Rightarrow> IoErr UnexpectedEof ''early eof'' | Some e \<Rightarrow> e), r\<lparr>rd_bytes := []\<rparr>))"

definition write_all :: "string \<Rightarrow> Writer \<Rightarrow> (IoErr, unit) result \<times> Writer" where
  "write_all b w =
     (case wr_room w of
        None \<Rightarrow> (Ok (), w\<lparr>wr_out := wr_out w @ b\<rparr>)
      | Some n \<Rightarrow>
          if length b \<le> n then (Ok (), w\<lparr>wr_out := wr_out w @ b, wr_room := Some (n - length b)\<rparr>)
          else (Err (wr_err w), w\<lparr>wr_out := wr_out w @ take n b, wr_room := Some 0\<rparr>))"

definition u32_be :: "nat \<Rightarrow> string" where
  "u32_be n = [char_of (n div 16777216), char_of (n div 65536), char_of (n div 256), char_of n]"

definition from_u32_be :: "string \<Rightarrow> nat" where
  "from_u32_be b = foldl (\<lambda>acc c. acc * 256 + byte c) 0 b"

text \<open>A flush has nothing left to do on a stream that takes bytes as they are written.\<close>

definition write_frame :: "string \<Rightarrow> Writer \<Rightarrow> (IoErr, unit) result \<times> Writer" where
  "write_frame body w =
     (if MAX_FRAME < length body then (Err (IoErr InvalidInput ''frame exceeds the limit''), w)
      else case write_all (u32_be (length body)) w of
             (Err e, w') \<Rightarrow> (Err e, w')
           | (Ok _, w') \<Rightarrow> write_all body w')"

definition read_frame :: "Reader \<Rightarrow> (IoErr, string option) result \<times> Reader" where
  "read_frame r =
     (case read_exact 4 r of
        (Err e, r') \<Rightarrow> if io_kind e = UnexpectedEof then (Ok None, r') else (Err e, r')
      | (Ok len, r') \<Rightarrow>
          let n = from_u32_be len in
          if MAX_FRAME < n then (Err (IoErr InvalidData ''frame exceeds the limit''), r')
          else case read_exact n r' of
                 (Err e, r'') \<Rightarrow> (Err e, r'')
               | (Ok body, r'') \<Rightarrow> (Ok (Some body), r''))"

definition send :: "(Json \<Rightarrow> string) \<Rightarrow> Json \<Rightarrow> Writer \<Rightarrow> (IoErr, unit) result \<times> Writer" where
  "send to_vec v w = write_frame (to_vec v) w"

definition recv :: "(string \<Rightarrow> Json option) \<Rightarrow> (Json \<Rightarrow> 'a option) \<Rightarrow> Reader \<Rightarrow> (IoErr, 'a option) result \<times> Reader" where
  "recv from_slice parse r =
     (case read_frame r of
        (Err e, r') \<Rightarrow> (Err e, r')
      | (Ok None, r') \<Rightarrow> (Ok None, r')
      | (Ok (Some body), r') \<Rightarrow>
          (case Option.bind (from_slice body) parse of
             Some x \<Rightarrow> (Ok (Some x), r')
           | None \<Rightarrow> (Err (IoErr InvalidData ''bad JSON''), r')))"

section \<open>The host's client\<close>

datatype ClientError =
    IoFailed IoErr
  | AgentError string
  | UnexpectedResult string
  | Closed

record GuestClient =
  gc_reader :: Reader
  gc_writer :: Writer

text \<open>\<open>J\<close> is the text of JSON, written and read.\<close>

definition call ::
    "(Json \<Rightarrow> string) \<times> (string \<Rightarrow> Json option) \<Rightarrow> GuestRequest \<Rightarrow> GuestClient \<Rightarrow>
      (ClientError, ResponseBody) result \<times> GuestClient" where
  "call J req c =
     (case send (fst J) (request_json req) (gc_writer c) of
        (Err e, w) \<Rightarrow> (Err (IoFailed e), c\<lparr>gc_writer := w\<rparr>)
      | (Ok _, w) \<Rightarrow>
          (case recv (snd J) p_response (gc_reader c) of
             (Err e, r) \<Rightarrow> (Err (IoFailed e), c\<lparr>gc_writer := w, gc_reader := r\<rparr>)
           | (Ok None, r) \<Rightarrow> (Err Closed, c\<lparr>gc_writer := w, gc_reader := r\<rparr>)
           | (Ok (Some resp), r) \<Rightarrow>
               (map_err AgentError (into_result resp), c\<lparr>gc_writer := w, gc_reader := r\<rparr>)))"

text \<open>A typed call keeps the answer of its own kind.\<close>

definition typed :: "string \<Rightarrow> (ResponseBody \<Rightarrow> 'a option) \<Rightarrow> (ClientError, ResponseBody) result \<times> GuestClient \<Rightarrow>
    (ClientError, 'a) result \<times> GuestClient" where
  "typed what pick res =
     (and_then (fst res) (\<lambda>b. case pick b of Some x \<Rightarrow> Ok x | None \<Rightarrow> Err (UnexpectedResult what)), snd res)"

fun pick_pong where "pick_pong (Pong i) = Some i" | "pick_pong _ = None"
fun pick_exec where "pick_exec (ExecDone r) = Some r" | "pick_exec _ = None"
fun pick_file where "pick_file (FileBody f) = Some f" | "pick_file _ = None"
fun pick_written where "pick_written (Written n) = Some n" | "pick_written _ = None"
fun pick_dir where "pick_dir (Dir es) = Some es" | "pick_dir _ = None"
fun pick_stat where "pick_stat (StatBody s) = Some s" | "pick_stat _ = None"
fun pick_done where "pick_done Done = Some ()" | "pick_done _ = None"
fun pick_clock where "pick_clock (Clock c) = Some c" | "pick_clock _ = None"

definition client_ping where
  "client_ping J c = typed ''result kind for ping'' pick_pong (call J Ping c)"

definition client_exec where
  "client_exec J req c = typed ''result kind for exec'' pick_exec (call J (Exec req) c)"

definition client_read_file where
  "client_read_file J path mx c = typed ''result kind for read_file'' pick_file (call J (RdFile path mx) c)"

definition client_write_file where
  "client_write_file J path b64 mode mk c =
     typed ''result kind for write_file'' pick_written (call J (WrFile path b64 mode mk) c)"

definition client_list_dir where
  "client_list_dir J path c = typed ''result kind for list_dir'' pick_dir (call J (ListDir path) c)"

definition client_stat where
  "client_stat J path c = typed ''result kind for stat'' pick_stat (call J (Stat path) c)"

definition client_remove where
  "client_remove J path r c = typed ''result kind for remove'' pick_done (call J (Remove path r) c)"

definition client_mkdir where
  "client_mkdir J path ps c = typed ''result kind for mkdir'' pick_done (call J (Mkdir path ps) c)"

definition client_set_clock where
  "client_set_clock J nanos c = typed ''result kind for set_clock'' pick_clock (call J (SetClock nanos) c)"

section \<open>Reading back what was written\<close>

lemma need_obj [simp]: "need k parse (JObj fs) = Option.bind (map_of fs k) parse"
  by (simp add: need_def json_lookup_def)

lemma with_default_obj [simp]:
  "with_default k parse d (JObj fs) = (case map_of fs k of None \<Rightarrow> Some d | Some x \<Rightarrow> parse x)"
  by (simp add: with_default_def json_lookup_def)

lemma as_u64_of_nat: "n < 2 ^ 64 \<Longrightarrow> as_u64 (JNum (of_nat n)) = Some n"
proof -
  assume "n < 2 ^ 64"
  then have "(of_nat n :: rat) < of_nat (2 ^ 64)" by (rule of_nat_less_iff [THEN iffD2])
  then show ?thesis by simp
qed

lemma unat_u32_fits: "unat (n :: u32) < 2 ^ 64"
  using unsigned_less [of n, where ?'a = nat] by simp

lemma p_u64_ju64 [simp]: "p_u64 (ju64 n) = Some n"
  using unsigned_less [of n, where ?'a = nat] by (simp add: p_u64_def ju64_def as_u64_of_nat del: as_u64.simps of_nat_unat) simp

lemma p_u32_ju32 [simp]: "p_u32 (ju32 n) = Some n"
  using unsigned_less [of n, where ?'a = nat] by (simp add: p_u32_def ju32_def as_u64_of_nat unat_u32_fits del: as_u64.simps of_nat_unat) simp

lemma p_int_jint [simp]: "p_int (jint (n :: 'a::len word)) = Some n"
  using sint_range_size [of n] by (simp add: p_int_def jint_def word_size del: of_int_sint) simp

lemma not_null [simp]:
  "ju64 n \<noteq> JNull" "ju32 m \<noteq> JNull" "jint (i :: 'a::len word) \<noteq> JNull" "body_json b \<noteq> JNull"
  by (simp_all add: ju64_def ju32_def jint_def) (cases b; simp)

lemma nullable_jopt:
  "(\<And>y. x = Some y \<Longrightarrow> f y \<noteq> JNull \<and> parse (f y) = Some y) \<Longrightarrow> nullable parse (jopt f x) = Some x"
  by (cases x) (auto simp: nullable_def jopt_def)

lemma nullable_opts [simp]:
  "nullable as_str (jopt JStr a) = Some a"
  "nullable p_u64 (jopt ju64 b) = Some b"
  "nullable p_u32 (jopt ju32 c) = Some c"
  "nullable p_int (jopt jint (d :: 'a::len word option)) = Some d"
  "nullable as_str (JStr s) = Some (Some s)"
  by (simp_all add: nullable_jopt) (simp add: nullable_def)

lemma all_some_map: "(\<And>x. x \<in> set xs \<Longrightarrow> f (g x) = Some x) \<Longrightarrow> all_some f (map g xs) = Some xs"
  by (induction xs) simp_all

lemma p_strings_map [simp]: "p_strings (JArr (map JStr xs)) = Some xs"
  by (simp add: p_strings_def all_some_map)

text \<open>A map in key order is its own tree.\<close>

definition keyed :: "(string \<times> 'v) list \<Rightarrow> bool" where
  "keyed kvs = (sorted (map fst kvs) \<and> distinct (map fst kvs))"

lemma btree_keyed:
  assumes "keyed kvs"
  shows "btree kvs = kvs"
proof -
  have d: "distinct (map fst kvs)" and s: "sorted (map fst kvs)" using assms by (simp_all add: keyed_def)
  have "sorted_list_of_set (fst ` set kvs) = map fst kvs"
    using sorted_list_of_set.idem_if_sorted_distinct [OF s d] by simp
  moreover have "map_of (rev kvs) = map_of kvs"
    using d by (intro map_of_inject_set [THEN iffD2]) (simp_all add: rev_map [symmetric])
  ultimately show ?thesis
    using d by (auto simp: btree_def o_def intro!: map_idI)
qed

lemma p_env_keyed: "keyed kvs \<Longrightarrow> p_env (JObj (map (\<lambda>(k, v). (k, JStr v)) kvs)) = Some kvs"
  by (simp add: all_some_map case_prod_beta btree_keyed)

definition request_wf :: "GuestRequest \<Rightarrow> bool" where
  "request_wf r = (case r of Exec e \<Rightarrow> keyed (eq_env e) | _ \<Rightarrow> True)"

lemma map_of_jskip [simp]: "map_of (jskip k f x) k' = (if k' = k then map_option f x else None)"
  by (cases x) (auto simp: jskip_def)

lemma p_exec_fields:
  "keyed (eq_env e) \<Longrightarrow> p_exec (JObj ((''op'', t) # exec_fields e)) = Some e"
  by (cases "eq_user e") (auto simp: p_exec_def exec_fields_def p_env_keyed map_add_def simp del: p_env.simps)

lemma request_back:
  assumes "request_wf r"
  shows "p_request (request_json r) = Some r"
  using assms by (cases r) (simp_all add: p_request_def request_wf_def p_exec_fields)

lemma p_kind_json [simp]: "p_kind (kind_json k) = Some k"
  by (cases k) (simp_all add: p_kind_def)

lemma p_entry_json [simp]: "p_entry (entry_json d) = Some d"
  by (simp add: p_entry_def entry_json_def)

lemma body_back: "p_body (body_json b) = Some b"
  by (cases b) (simp_all add: p_body_def p_info_def p_exec_result_def p_file_def p_stat_def all_some_map)

lemma response_back: "p_response (response_json r) = Some r"
  by (cases r; cases "rs_result r"; cases "rs_error r")
     (auto simp: p_response_def response_json_def jskip_def nullable_def body_back)

section \<open>Frames, written and read\<close>

lemma u32_be_back:
  assumes "n < 2 ^ 32"
  shows "from_u32_be (u32_be n) = n"
proof -
  have "byte (char_of m) = m mod 256" for m by (simp add: byte_def)
  moreover have "n div 16777216 mod 256 = n div 16777216" using assms by simp
  moreover have "n div 16777216 * 256 + n div 65536 mod 256 = n div 65536"
    using div_mult_mod_eq [of "n div 65536" 256] by (simp add: div_mult2_eq [symmetric])
  moreover have "n div 65536 * 256 + n div 256 mod 256 = n div 256"
    using div_mult_mod_eq [of "n div 256" 256] by (simp add: div_mult2_eq [symmetric])
  ultimately show ?thesis using div_mult_mod_eq [of n 256] by (simp add: from_u32_be_def u32_be_def)
qed

definition frame :: "string \<Rightarrow> string" where
  "frame body = u32_be (length body) @ body"

lemma length_u32_be [simp]: "length (u32_be n) = 4"
  by (simp add: u32_be_def)

lemma max_frame_fits: "n \<le> MAX_FRAME \<Longrightarrow> n < 2 ^ 32"
  by (simp add: MAX_FRAME_def)

lemma read_frame_frame:
  assumes "length body \<le> MAX_FRAME"
  shows "read_frame (r\<lparr>rd_bytes := frame body @ rest\<rparr>) = (Ok (Some body), r\<lparr>rd_bytes := rest\<rparr>)"
  using assms u32_be_back [OF max_frame_fits [OF assms]]
  by (simp add: read_frame_def read_exact_def frame_def Let_def)

lemma read_frame_empty: "rd_bytes r = [] \<Longrightarrow> rd_end r = None \<Longrightarrow> read_frame r = (Ok None, r)"
  by (cases r) (simp add: read_frame_def read_exact_def)

lemma write_frame_room:
  assumes "wr_room w = None"
  shows "write_frame body w =
    (if length body \<le> MAX_FRAME then (Ok (), w\<lparr>wr_out := wr_out w @ frame body\<rparr>)
     else (Err (IoErr InvalidInput ''frame exceeds the limit''), w))"
  using assms by (cases w) (simp add: write_frame_def write_all_def frame_def)

text \<open>Nothing of a frame over the limit is written, and a peer's claim of one is refused before its
  body is read.\<close>

lemma oversize_not_written: "MAX_FRAME < length body \<Longrightarrow> snd (write_frame body w) = w"
  by (simp add: write_frame_def)

lemma oversize_not_read:
  assumes "MAX_FRAME < n" and "n < 2 ^ 32"
  shows "read_frame (r\<lparr>rd_bytes := u32_be n @ rest\<rparr>) =
    (Err (IoErr InvalidData ''frame exceeds the limit''), r\<lparr>rd_bytes := rest\<rparr>)"
  using assms by (simp add: read_frame_def read_exact_def Let_def u32_be_back)

lemma read_frame_bounded:
  assumes "read_frame r = (Ok (Some body), r')"
  shows "length body \<le> MAX_FRAME \<and> length (rd_bytes r') + 4 \<le> length (rd_bytes r)"
  using assms
  by (auto simp: read_frame_def read_exact_def Let_def split: if_splits)

text \<open>An end in the middle of the length reads as a clean end, one in the middle of the body as an error.\<close>

lemma end_in_length: "length (rd_bytes r) < 4 \<Longrightarrow> rd_end r = None \<Longrightarrow> fst (read_frame r) = Ok None"
  by (simp add: read_frame_def read_exact_def)

lemma end_in_body:
  assumes "length part < n" "n \<le> MAX_FRAME"
  shows "fst (read_frame \<lparr>rd_bytes = u32_be n @ part, rd_end = None\<rparr>) = Err (IoErr UnexpectedEof ''early eof'')"
  using assms u32_be_back [OF max_frame_fits [OF assms(2)]]
  by (simp add: read_frame_def read_exact_def Let_def)

section \<open>The two directions of the wire\<close>

text \<open>What a message type owes the other side: its JSON reads back. Requests and responses both do, so
  a frame sent in either direction arrives as it was.\<close>

locale wire =
  fixes enc :: "'a \<Rightarrow> Json" and dec :: "Json \<Rightarrow> 'a option" and ok :: "'a \<Rightarrow> bool"
  assumes reads_back: "ok x \<Longrightarrow> dec (enc x) = Some x"
begin

lemma recv_sent:
  assumes "ok x" and "length (to_vec (enc x)) \<le> MAX_FRAME" and "from_slice (to_vec (enc x)) = Some (enc x)"
  shows "recv from_slice dec (r\<lparr>rd_bytes := frame (to_vec (enc x)) @ rest\<rparr>) =
    (Ok (Some x), r\<lparr>rd_bytes := rest\<rparr>)"
  using assms by (simp add: recv_def read_frame_frame reads_back)

lemma enc_inj: "ok x \<Longrightarrow> ok y \<Longrightarrow> enc x = enc y \<Longrightarrow> x = y"
  by (metis option.inject reads_back)

end

interpretation requests: wire request_json p_request request_wf
  by unfold_locales (rule request_back)

interpretation responses: wire response_json p_response "\<lambda>_. True"
  by unfold_locales (rule response_back)

end
