(* ===== verification/Iso_Agent.thy ===== *)
theory Iso_Agent
  imports Iso_Guest
begin

text \<open>
  The guest agent (\<^verbatim>\<open>crates/iso-guest-agent\<close>): \<^verbatim>\<open>user.rs\<close>, \<^verbatim>\<open>reseed.rs\<close> and \<^verbatim>\<open>lib.rs\<close>, as programs
  against the guest's operating system. What the agent takes from elsewhere is an \<open>AgentEnv\<close>: its
  environment, the passwd database of the C library, base64, the lossy reading of bytes as UTF-8
  and the version it was built with. A file's chunks are as the kernel hands them out.
\<close>

unbundle bit_operations_syntax

record Account =
  ac_name :: string
  ac_uid :: u32
  ac_gid :: u32
  ac_home :: string

record AgentEnv =
  ae_var :: "string \<Rightarrow> string option"
  ae_getpwnam :: "string \<Rightarrow> Account option"
  ae_getpwuid :: "u32 \<Rightarrow> Account option"
  ae_encode :: "string \<Rightarrow> string"
  ae_decode :: "string \<Rightarrow> string option"
  ae_lossy :: "string \<Rightarrow> string"
  ae_utf8 :: "string \<Rightarrow> bool"
  ae_version :: string
  ae_json :: "(Json \<Rightarrow> string) \<times> (string \<Rightarrow> Json option)"

section \<open>Users\<close>

definition by_name :: "AgentEnv \<Rightarrow> string \<Rightarrow> Account option" where
  "by_name A nm = (if CHR 0x00 \<in> set nm then None else ae_getpwnam A nm)"

definition by_uid :: "AgentEnv \<Rightarrow> u32 \<Rightarrow> Account option" where
  "by_uid A uid = ae_getpwuid A uid"

definition user_resolve :: "AgentEnv \<Rightarrow> string \<Rightarrow> (string, Account) result" where
  "user_resolve A who =
     (case parse_u32 who of
        Some uid \<Rightarrow>
          Ok (case by_uid A uid of
                Some a \<Rightarrow> a
              | None \<Rightarrow> \<lparr>ac_name = show_nat (unat uid), ac_uid = uid, ac_gid = uid, ac_home = ''/''\<rparr>)
      | None \<Rightarrow> (case by_name A who of Some a \<Rightarrow> Ok a | None \<Rightarrow> Err ''no such user''))"

section \<open>Reseeding a resumed clone\<close>

definition HWRNG :: string where "HWRNG = ''/dev/hwrng''"
definition RANDOM :: string where "RANDOM = ''/dev/urandom''"
definition SSH_DIR :: string where "SSH_DIR = ''/etc/ssh''"
definition HWRNG_BYTES :: nat where "HWRNG_BYTES = 64"
definition MAX_HOST_BYTES :: nat where "MAX_HOST_BYTES = 512"

record Reseeded =
  rz_mixed :: nat
  rz_credited :: bool
  rz_reseeded :: bool

definition read_hwrng :: "string \<Rightarrow> string hprog" where
  "read_hwrng path =
     HText (ReadReady path HWRNG_BYTES) (\<lambda>r. HRet (case r of Ok b \<Rightarrow> take HWRNG_BYTES b | Err _ \<Rightarrow> []))"

text \<open>\<^verbatim>\<open>struct rand_pool_info\<close>: bits credited, bytes given, then the bytes, four to a little-endian word.\<close>

fun le_words :: "string \<Rightarrow> u32 list" where
  "le_words [] = []"
| "le_words (a # bs) =
     of_nat (byte a + (case bs of b # _ \<Rightarrow> 256 * byte b | [] \<Rightarrow> 0)
       + (case drop 1 bs of c # _ \<Rightarrow> 65536 * byte c | [] \<Rightarrow> 0)
       + (case drop 2 bs of d # _ \<Rightarrow> 16777216 * byte d | [] \<Rightarrow> 0)) # le_words (drop 3 bs)"

definition pool_info :: "string \<Rightarrow> u32 list" where
  "pool_info bytes = of_nat (length bytes * 8) # of_nat (length bytes) # le_words bytes"

definition add_entropy :: "string \<Rightarrow> string \<Rightarrow> bool hprog" where
  "add_entropy dev bytes = HDo (AddEntropy dev (pool_info bytes)) (\<lambda>r. HRet (\<not> isl r))"

definition mix_in :: "string \<Rightarrow> string \<Rightarrow> (string, bool) result hprog" where
  "mix_in random bytes =
     (if bytes = [] then HRet (Ok False)
      else hbind (add_entropy random bytes) (\<lambda>credited.
        if credited then HRet (Ok True)
        else hmust (\<lambda>e. ''write '' @ random @ '': '' @ io_text e) (WriteAll random bytes) (HRet (Ok False))))"

definition reseed_with :: "string \<Rightarrow> string \<Rightarrow> string \<Rightarrow> (string, Reseeded) result hprog" where
  "reseed_with hwrng random host =
     hbind (read_hwrng hwrng) (\<lambda>dev_bytes.
     let bytes = take MAX_HOST_BYTES host @ dev_bytes in
     hmust (\<lambda>e. ''open '' @ random @ '': '' @ io_text e) (OpenWrite random)
       (htry (mix_in random bytes) (\<lambda>credited.
        HDo (ReseedRng random) (\<lambda>r.
        HRet (Ok \<lparr>rz_mixed = length bytes, rz_credited = credited, rz_reseeded = \<not> isl r\<rparr>)))))"

definition reseed_kernel_rng :: "string \<Rightarrow> (string, Reseeded) result hprog" where
  "reseed_kernel_rng host = reseed_with HWRNG RANDOM host"

definition strip_suffix :: "string \<Rightarrow> string \<Rightarrow> string option" where
  "strip_suffix suf s = (if ends_with suf s then Some (take (length s - length suf) s) else None)"

definition key_type :: "AgentEnv \<Rightarrow> string \<Rightarrow> string option" where
  "key_type A nm =
     (if ae_utf8 A nm then Option.bind (strip_prefix ''ssh_host_'' nm) (strip_suffix ''_key'') else None)"

definition key_file :: "string \<Rightarrow> string \<Rightarrow> string" where
  "key_file dir t = path_join dir (''ssh_host_'' @ t @ ''_key'')"

definition new_key :: "string \<Rightarrow> string \<Rightarrow> string \<Rightarrow> (string, unit) result hprog" where
  "new_key keygen dir t =
     hdo (RemoveFile (key_file dir t))
      (hdo (RemoveFile (path_join dir (''ssh_host_'' @ t @ ''_key.pub'')))
        (HNum (RunTool [keygen, ''-q'', ''-t'', t, ''-N'', [], ''-f'', key_file dir t]) (\<lambda>r.
           HRet (case r of
                   Err e \<Rightarrow> Err (''run '' @ keygen @ '': '' @ io_text e)
                 | Ok code \<Rightarrow>
                     if code = 0 then Ok ()
                     else Err (''ssh-keygen -t '' @ t @ '' -f '' @ key_file dir t @ '': exit status: '' @ show_nat code)))))"

definition regenerate_with :: "AgentEnv \<Rightarrow> string \<Rightarrow> string option hprog \<Rightarrow> (string, string list) result hprog" where
  "regenerate_with A dir keygen =
     HList dir (\<lambda>r. case r of
         Inl e \<Rightarrow> HRet (if io_kind e = NotFound then Ok [] else Err (''list '' @ dir @ '': '' @ io_text e))
       | Inr names \<Rightarrow>
           let types = sort (List.map_filter (key_type A) names) in
           if types = [] then HRet (Ok types)
           else hbind keygen (\<lambda>k. case k of
                  None \<Rightarrow> HRet (Err ''ssh-keygen not found'')
                | Some kg \<Rightarrow> htry (hforeach (new_key kg dir) types) (\<lambda>_. HRet (Ok types))))"

fun first_file :: "string list \<Rightarrow> string option hprog" where
  "first_file [] = HRet None"
| "first_file (p # ps) = HAsk (IsFile p) (\<lambda>b. if b then HRet (Some p) else first_file ps)"

definition tool_dirs :: "AgentEnv \<Rightarrow> string list" where
  "tool_dirs A =
     split_on (CHR '':'') (case ae_var A ''PATH'' of Some p \<Rightarrow> p | None \<Rightarrow> []) @
     [''/run/current-system/sw/bin'', ''/usr/sbin'', ''/usr/bin'', ''/sbin'', ''/bin'']"

definition find_tool :: "AgentEnv \<Rightarrow> string \<Rightarrow> string option hprog" where
  "find_tool A nm = first_file (map (\<lambda>d. path_join d nm) (tool_dirs A))"

definition regenerate_ssh_host_keys :: "AgentEnv \<Rightarrow> string \<Rightarrow> (string, string list) result hprog" where
  "regenerate_ssh_host_keys A dir = regenerate_with A dir (find_tool A ''ssh-keygen'')"

definition restart_sshd :: "AgentEnv \<Rightarrow> unit hprog" where
  "restart_sshd A =
     hbind (find_tool A ''systemctl'') (\<lambda>t. case t of
         None \<Rightarrow> HRet ()
       | Some sc \<Rightarrow> HNum (RunTool [sc, ''try-restart'', ''sshd.service'']) (\<lambda>_. HRet ()))"

definition error_json :: "string \<Rightarrow> Json" where
  "error_json e = JObj [(''error'', JStr e)]"

definition reseeded_json :: "Reseeded \<Rightarrow> Json" where
  "reseeded_json z = JObj [(''mixed'', JNum (of_nat (rz_mixed z))), (''credited'', JBool (rz_credited z)),
     (''reseeded'', JBool (rz_reseeded z))]"

definition rekey :: "AgentEnv \<Rightarrow> bool \<Rightarrow> Json \<Rightarrow> (Json \<times> bool) hprog" where
  "rekey A ok report =
     hbind (regenerate_ssh_host_keys A SSH_DIR) (\<lambda>r. case r of
         Inr types \<Rightarrow>
           hbind (if types = [] then HRet () else restart_sshd A) (\<lambda>_.
           HRet (json_insert ''ssh_host_keys'' (JArr (map JStr types)) report, ok))
       | Inl e \<Rightarrow> HRet (json_insert ''ssh_host_keys'' (error_json e) report, False))"

definition reseed_command :: "AgentEnv \<Rightarrow> string \<Rightarrow> bool \<Rightarrow> (Json \<times> bool) hprog" where
  "reseed_command A stdin ssh_host_keys =
     (case ae_decode A (trim stdin) of
        None \<Rightarrow> HRet (error_json ''stdin is not base64'', False)
      | Some host \<Rightarrow>
          hbind (reseed_kernel_rng host) (\<lambda>r.
          let ok = (case r of Ok z \<Rightarrow> rz_reseeded z | Err _ \<Rightarrow> False);
              rng = (case r of Ok z \<Rightarrow> reseeded_json z | Err e \<Rightarrow> error_json e);
              report = JObj [(''rng'', rng)]
          in if ssh_host_keys then rekey A ok report else HRet (report, ok)))"

section \<open>Commands\<close>

text \<open>\<open>chunks\<close> is what the reads return, until the end of the stream or an error.\<close>

fun capture :: "nat \<Rightarrow> string list \<Rightarrow> string \<Rightarrow> bool \<Rightarrow> string \<times> bool" where
  "capture cap [] buf truncated = (buf, truncated)"
| "capture cap (chunk # chunks) buf truncated =
     (let room = cap - length buf in
      if room < length chunk then capture cap chunks (buf @ take room chunk) True
      else capture cap chunks (buf @ chunk) truncated)"

definition wanted_user :: "AgentEnv \<Rightarrow> ExecRequest \<Rightarrow> string option" where
  "wanted_user A req =
     (case eq_user req of
        Some u \<Rightarrow> Some u
      | None \<Rightarrow> (case ae_var A ''ISO_DEFAULT_USER'' of
                   Some u \<Rightarrow> if u = [] then None else Some u
                 | None \<Rightarrow> None))"

definition get_id :: "HNumCall \<Rightarrow> (u32 \<Rightarrow> 'a hprog) \<Rightarrow> 'a hprog" where
  "get_id c k = HNum c (\<lambda>r. k (case r of Ok n \<Rightarrow> of_nat n | Err _ \<Rightarrow> 0))"

text \<open>The account to switch to, or none when the command runs as the agent itself.\<close>

definition switch_to :: "AgentEnv \<Rightarrow> string option \<Rightarrow> (string, Account option) result hprog" where
  "switch_to A wanted =
     (case wanted of
        None \<Rightarrow> HRet (Ok None)
      | Some u \<Rightarrow>
          (case user_resolve A u of
             Inl e \<Rightarrow> HRet (Err (''user '' @ u @ '': '' @ e))
           | Inr who \<Rightarrow>
               get_id GetUid (\<lambda>uid.
               if ac_uid who \<noteq> uid then
                 get_id GetEuid (\<lambda>euid.
                 if euid \<noteq> 0 then HRet (Err (''cannot run as '' @ u @ '': the agent is not root''))
                 else HRet (Ok (Some who)))
               else HRet (Ok None))))"

definition exec_spec :: "ExecRequest \<Rightarrow> Account option \<Rightarrow> SpawnSpec" where
  "exec_spec req who =
     \<lparr>sp_argv = eq_cmd req # eq_args req, sp_cwd = eq_cwd req, sp_netns = None, sp_bind = None,
      sp_ids = map_option (\<lambda>w. (ac_uid w, ac_gid w)) who,
      sp_env = (case who of None \<Rightarrow> []
                | Some w \<Rightarrow> [(''HOME'', ac_home w), (''USER'', ac_name w), (''LOGNAME'', ac_name w)]) @ eq_env req,
      sp_log = None\<rparr>"

definition exec_result :: "AgentEnv \<Rightarrow> nat \<Rightarrow> ChildRun \<Rightarrow> nat \<Rightarrow> (string, ExecResult) result" where
  "exec_result A cap run ms =
     (let (out, t1) = capture cap (cr_out run) [] False;
          (err, t2) = capture cap (cr_err run) [] False;
          res = (\<lambda>code sig timed_out truncated.
            \<lparr>er_exit_code = code, er_signal = sig, er_stdout = ae_lossy A out, er_stderr = ae_lossy A err,
             er_timed_out = timed_out, er_truncated = truncated, er_duration_ms = of_nat ms\<rparr>)
      in case cr_end run of
           Exited code sig \<Rightarrow> Ok (res code sig False (t1 \<or> t2))
         | WaitError e \<Rightarrow> Err (''wait: '' @ io_text e)
         | Elapsed \<Rightarrow> Ok (res None (Some 9) True True))"

definition end_child :: "nat \<Rightarrow> ChildEnd \<Rightarrow> 'a hprog \<Rightarrow> 'a hprog" where
  "end_child pid how p =
     (case how of
        Elapsed \<Rightarrow> hdo (KillGroup pid 9) (hdo (KillPid pid 9) (hdo (WaitChild pid) p))
      | _ \<Rightarrow> p)"

definition exec_timeout :: "ExecRequest \<Rightarrow> nat" where
  "exec_timeout req = unat (case eq_timeout_ms req of Some t \<Rightarrow> t | None \<Rightarrow> DEFAULT_EXEC_TIMEOUT_MS)"

definition exec_cap :: "ExecRequest \<Rightarrow> nat" where
  "exec_cap req = unat (case eq_max_output_bytes req of Some n \<Rightarrow> n | None \<Rightarrow> DEFAULT_MAX_OUTPUT)"

definition exec_child :: "AgentEnv \<Rightarrow> ExecRequest \<Rightarrow> Account option \<Rightarrow> (string, ExecResult) result hprog" where
  "exec_child A req who =
     now_ms (\<lambda>started.
     HNum (SpawnProc (exec_spec req who)) (\<lambda>r. case r of
         Inl e \<Rightarrow> HRet (Err (''spawn '' @ eq_cmd req @ '': '' @ io_text e))
       | Inr pid \<Rightarrow>
           HChild pid (eq_stdin req) (exec_timeout req) (\<lambda>run.
           end_child pid (cr_end run)
             (now_ms (\<lambda>now. HRet (exec_result A (exec_cap req) run (now - started)))))))"

definition agent_exec :: "AgentEnv \<Rightarrow> ExecRequest \<Rightarrow> (string, ExecResult) result hprog" where
  "agent_exec A req = htry (switch_to A (wanted_user A req)) (exec_child A req)"

section \<open>Files\<close>

definition io_err :: "string \<Rightarrow> string \<Rightarrow> IoErr \<Rightarrow> string" where
  "io_err what path e = what @ '' '' @ path @ '': '' @ io_text e"

definition agent_read_file :: "AgentEnv \<Rightarrow> string \<Rightarrow> u64 option \<Rightarrow> (string, FileContent) result hprog" where
  "agent_read_file A path max_bytes =
     (let cap = (case max_bytes of Some n \<Rightarrow> n | None \<Rightarrow> DEFAULT_MAX_READ) in
      HMeta True path (\<lambda>m. case m of
          Inl e \<Rightarrow> HRet (Err (io_err ''stat'' path e))
        | Inr meta \<Rightarrow>
            if m_type meta \<noteq> FT_File then HRet (Err (''read '' @ path @ '': not a regular file''))
            else hmust (io_err ''open'' path) (OpenFile path)
              (HText (ReadPrefix path cap) (\<lambda>r. HRet (case r of
                  Err e \<Rightarrow> Err (io_err ''read'' path e)
                | Ok buf \<Rightarrow> Ok \<lparr>fc_path = path, fc_size = m_len meta, fc_content_b64 = ae_encode A (take (unat cap) buf),
                                fc_truncated = (cap < m_len meta)\<rparr>)))))"

definition parent_to_make :: "string \<Rightarrow> bool \<Rightarrow> string option" where
  "parent_to_make path mk =
     (if mk then (case path_parent path of
                    Some cs \<Rightarrow> if path_text cs = [] then None else Some (path_text cs)
                  | None \<Rightarrow> None)
      else None)"

definition agent_write_file ::
    "AgentEnv \<Rightarrow> string \<Rightarrow> string \<Rightarrow> u32 option \<Rightarrow> bool \<Rightarrow> (string, u64) result hprog" where
  "agent_write_file A path content_b64 mode mk =
     (case ae_decode A content_b64 of
        None \<Rightarrow> HRet (Err (''write '' @ path @ '': content is not base64''))
      | Some bytes \<Rightarrow>
          htry (case parent_to_make path mk of
                  None \<Rightarrow> HRet (Ok ())
                | Some p \<Rightarrow> hmust (io_err ''mkdir'' p) (CreateDirAll p) (HRet (Ok ()))) (\<lambda>_.
          hmust (io_err ''write'' path) (WriteFile path bytes)
            (case mode of
               None \<Rightarrow> HRet (Ok (of_nat (length bytes)))
             | Some m \<Rightarrow> hmust (io_err ''chmod'' path) (Chmod path m) (HRet (Ok (of_nat (length bytes)))))))"

fun kind_of :: "FileType \<Rightarrow> FileKind" where
  "kind_of FT_Symlink = FK_Symlink"
| "kind_of FT_Dir = FK_Dir"
| "kind_of FT_File = FK_File"
| "kind_of FT_Block = FK_Other"
| "kind_of FT_Other = FK_Other"

definition perm_bits :: "Meta \<Rightarrow> u32" where
  "perm_bits m = m_mode m AND 4095"

fun dir_entries :: "AgentEnv \<Rightarrow> string \<Rightarrow> string list \<Rightarrow> DirEntry list hprog" where
  "dir_entries A path [] = HRet []"
| "dir_entries A path (nm # names) =
     HMeta False (path_join path nm) (\<lambda>r. case r of
         Inl _ \<Rightarrow> dir_entries A path names
       | Inr m \<Rightarrow> hbind (dir_entries A path names) (\<lambda>es.
           HRet (\<lparr>de_name = ae_lossy A nm, de_kind = kind_of (m_type m), de_size = m_len m,
                  de_mode = perm_bits m\<rparr> # es)))"

definition agent_list_dir :: "AgentEnv \<Rightarrow> string \<Rightarrow> (string, DirEntry list) result hprog" where
  "agent_list_dir A path =
     HList path (\<lambda>r. case r of
         Inl e \<Rightarrow> HRet (Err (io_err ''list'' path e))
       | Inr names \<Rightarrow> hbind (dir_entries A path names) (\<lambda>es. HRet (Ok (sort_key de_name es))))"

definition agent_stat :: "string \<Rightarrow> (string, FileStat) result hprog" where
  "agent_stat path =
     HMeta False path (\<lambda>r. HRet (case r of
         Err e \<Rightarrow> Err (io_err ''stat'' path e)
       | Ok m \<Rightarrow> Ok \<lparr>fs_path = path, fs_kind = kind_of (m_type m), fs_size = m_len m, fs_mode = perm_bits m,
                     fs_uid = m_uid m, fs_gid = m_gid m,
                     fs_modified = (if 0 \<le> m_mtime m then Some (of_int (m_mtime m)) else None)\<rparr>))"

definition agent_remove :: "string \<Rightarrow> bool \<Rightarrow> (string, unit) result hprog" where
  "agent_remove path recursive =
     HMeta False path (\<lambda>r. case r of
         Inl e \<Rightarrow> HRet (Err (io_err ''remove'' path e))
       | Inr m \<Rightarrow>
           hmust (io_err ''remove'' path)
             (if m_type m = FT_Dir then (if recursive then RemoveDirAll path else RemoveDir path)
              else RemoveFile path)
             (HRet (Ok ())))"

definition agent_mkdir :: "string \<Rightarrow> bool \<Rightarrow> (string, unit) result hprog" where
  "agent_mkdir path parents =
     hmust (io_err ''mkdir'' path) (if parents then CreateDirAll path else CreateDir path) (HRet (Ok ()))"

section \<open>The clock, and who the agent is\<close>

definition CLOCK_STEP_MS :: int where "CLOCK_STEP_MS = 1000"

definition clock_offset :: "u64 \<Rightarrow> nat \<Rightarrow> 64 word" where
  "clock_offset unix_nanos guest_nanos = of_nat (unat unix_nanos div 1000000) - of_nat (guest_nanos div 1000000)"

definition agent_set_clock :: "u64 \<Rightarrow> (string, ClockResult) result hprog" where
  "agent_set_clock unix_nanos =
     HNum UnixNanos (\<lambda>r.
     let offset_ms = clock_offset unix_nanos (case r of Ok n \<Rightarrow> n | Err _ \<Rightarrow> 0) in
     if \<bar>sint offset_ms\<bar> < CLOCK_STEP_MS then HRet (Ok \<lparr>cl_offset_ms = offset_ms, cl_stepped = False\<rparr>)
     else hmust (\<lambda>e. ''set clock: '' @ io_text e @ '' (the agent needs CAP_SYS_TIME)'')
            (SetTime (unat unix_nanos div 1000000000) (unat unix_nanos mod 1000000000))
            (HRet (Ok \<lparr>cl_offset_ms = offset_ms, cl_stepped = True\<rparr>)))"

definition agent_info :: "AgentEnv \<Rightarrow> AgentInfo hprog" where
  "agent_info A =
     HText (ReadFile ''/etc/hostname'') (\<lambda>h.
     get_id GetUid (\<lambda>uid.
     HText CurrentDir (\<lambda>d.
     HRet \<lparr>ai_agent = ''iso-guest-agent'', ai_version = ae_version A,
           ai_hostname = (case h of Ok s \<Rightarrow> trim s | Err _ \<Rightarrow> []), ai_uid = uid,
           ai_cwd = (case d of Ok s \<Rightarrow> ae_lossy A s | Err _ \<Rightarrow> [])\<rparr>)))"

section \<open>One request, one connection\<close>

definition answer_with :: "('a \<Rightarrow> ResponseBody) \<Rightarrow> (string, 'a) result hprog \<Rightarrow> (string, ResponseBody) result hprog" where
  "answer_with f p = hbind p (\<lambda>r. HRet (map_ok f r))"

fun dispatch :: "AgentEnv \<Rightarrow> GuestRequest \<Rightarrow> (string, ResponseBody) result hprog" where
  "dispatch A Ping = hbind (agent_info A) (\<lambda>i. HRet (Ok (Pong i)))"
| "dispatch A (Exec e) = answer_with ExecDone (agent_exec A e)"
| "dispatch A (RdFile path mx) = answer_with FileBody (agent_read_file A path mx)"
| "dispatch A (WrFile path b64 mode mk) = answer_with Written (agent_write_file A path b64 mode mk)"
| "dispatch A (ListDir path) = answer_with Dir (agent_list_dir A path)"
| "dispatch A (Stat path) = answer_with StatBody (agent_stat path)"
| "dispatch A (Remove path rc) = answer_with (\<lambda>_. Done) (agent_remove path rc)"
| "dispatch A (Mkdir path ps) = answer_with (\<lambda>_. Done) (agent_mkdir path ps)"
| "dispatch A (SetClock nanos) =
     hbind (answer_with Clock (agent_set_clock nanos)) (\<lambda>clock.
     hbind (reseed_kernel_rng []) (\<lambda>_. HRet clock))"

definition agent_handle :: "AgentEnv \<Rightarrow> GuestRequest \<Rightarrow> Response hprog" where
  "agent_handle A req =
     hbind (dispatch A req) (\<lambda>r. HRet (case r of Ok b \<Rightarrow> response_ok b | Err e \<Rightarrow> response_err e))"

function serve_connection :: "AgentEnv \<Rightarrow> Reader \<Rightarrow> Writer \<Rightarrow> (Reader \<times> Writer) hprog" where
  "serve_connection A r w =
     (case recv (snd (ae_json A)) p_request r of
        (Ok (Some req), r') \<Rightarrow>
          hbind (agent_handle A req) (\<lambda>resp.
          case send (fst (ae_json A)) (response_json resp) w of
            (Err _, w') \<Rightarrow> HRet (r', w')
          | (Ok _, w') \<Rightarrow> serve_connection A r' w')
      | (Ok None, r') \<Rightarrow> HRet (r', w)
      | (Err e, r') \<Rightarrow>
          HRet (r', snd (send (fst (ae_json A)) (response_json (response_err (''bad request: '' @ io_text e))) w)))"
  by pat_completeness auto
termination
  by (relation "measure (\<lambda>(A, r, w). length (rd_bytes r))")
     (auto simp: recv_def dest!: read_frame_bounded split: prod.splits sum.splits option.splits)

declare serve_connection.simps [simp del]

section \<open>What is captured\<close>

text \<open>A capture keeps the first \<open>cap\<close> bytes of the stream, however the reads cut it, and says whether
  there were more.\<close>

lemma capture_from:
  assumes "length buf \<le> cap"
  shows "capture cap chunks buf t =
    (take cap (buf @ concat chunks), t \<or> cap < length (buf @ concat chunks))"
  using assms
proof (induction chunks arbitrary: buf t)
  case Nil
  then show ?case by simp
next
  case (Cons c cs)
  show ?case
  proof (cases "cap - length buf < length c")
    case True
    then show ?thesis using Cons.prems by (simp add: Cons.IH Let_def) linarith
  next
    case False
    then show ?thesis using Cons.prems by (simp add: Cons.IH Let_def)
  qed
qed

lemma capture_exact:
  "capture cap chunks [] False = (take cap (concat chunks), cap < length (concat chunks))"
  by (simp add: capture_from)

section \<open>A conversation\<close>

text \<open>The host's calls one after another on a connection, and the agent's answers to the same requests.\<close>

fun calls :: "(Json \<Rightarrow> string) \<times> (string \<Rightarrow> Json option) \<Rightarrow> GuestRequest list \<Rightarrow> GuestClient \<Rightarrow>
    (ClientError, ResponseBody) result list \<times> GuestClient" where
  "calls J [] c = ([], c)"
| "calls J (q # qs) c =
     (let (x, c') = call J q c; (xs, c'') = calls J qs c' in (x # xs, c''))"

fun answered :: "AgentEnv \<Rightarrow> GuestRequest list \<Rightarrow> Response list \<Rightarrow> HEvent list \<Rightarrow> bool" where
  "answered A [] [] es = (es = [])"
| "answered A (q # qs) (a # as) es =
     (\<exists>es1 es2. es = es1 @ es2 \<and> hruns (agent_handle A q) es1 a \<and> answered A qs as es2)"
| "answered A _ _ es = False"

definition speaks :: "(Json \<Rightarrow> string) \<times> (string \<Rightarrow> Json option) \<Rightarrow> Json \<Rightarrow> bool" where
  "speaks J v = (snd J (fst J v) = Some v)"

definition frame_fits :: "(Json \<Rightarrow> string) \<times> (string \<Rightarrow> Json option) \<Rightarrow> Json \<Rightarrow> bool" where
  "frame_fits J v = (length (fst J v) \<le> MAX_FRAME)"

definition bytes_of :: "(Json \<Rightarrow> string) \<times> (string \<Rightarrow> Json option) \<Rightarrow> Json list \<Rightarrow> string" where
  "bytes_of J vs = concat (map (\<lambda>v. frame (fst J v)) vs)"

definition arriving :: "string \<Rightarrow> Reader" where
  "arriving b = \<lparr>rd_bytes = b, rd_end = None\<rparr>"

definition written :: "string \<Rightarrow> Writer" where
  "written b = \<lparr>wr_out = b, wr_room = None, wr_err = IoErr OtherKind []\<rparr>"

lemma bytes_of_simps [simp]:
  "bytes_of J [] = []" "bytes_of J (v # vs) = frame (fst J v) @ bytes_of J vs"
  by (simp_all add: bytes_of_def)

lemma send_written:
  "send (fst J) v (written b) =
    (if frame_fits J v then (Ok (), written (b @ frame (fst J v)))
     else (Err (IoErr InvalidInput ''frame exceeds the limit''), written b))"
  by (simp add: send_def write_frame_room written_def frame_fits_def)

lemma recv_request:
  assumes "frame_fits J (request_json q)" "speaks J (request_json q)" "request_wf q"
  shows "recv (snd J) p_request (arriving (frame (fst J (request_json q)) @ rest)) = (Ok (Some q), arriving rest)"
  using assms requests.recv_sent [where x = q and to_vec = "fst J" and from_slice = "snd J" and r = "arriving rest" and rest = rest]
  by (simp add: arriving_def speaks_def frame_fits_def)

lemma recv_response:
  assumes "frame_fits J (response_json a)" "speaks J (response_json a)"
  shows "recv (snd J) p_response (arriving (frame (fst J (response_json a)) @ rest)) = (Ok (Some a), arriving rest)"
  using assms responses.recv_sent [where x = a and to_vec = "fst J" and from_slice = "snd J" and r = "arriving rest" and rest = rest]
  by (simp add: arriving_def speaks_def frame_fits_def)

lemma recv_arriving_empty: "recv g parse (arriving []) = (Ok None, arriving [])"
  by (simp add: recv_def read_frame_empty arriving_def)

lemma serve_next:
  assumes "request_wf q" "frame_fits (ae_json A) (request_json q)" "speaks (ae_json A) (request_json q)"
  shows "serve_connection A (arriving (frame (fst (ae_json A) (request_json q)) @ rest)) (written b) =
    hbind (agent_handle A q) (\<lambda>a.
      if frame_fits (ae_json A) (response_json a)
      then serve_connection A (arriving rest) (written (b @ frame (fst (ae_json A) (response_json a))))
      else HRet (arriving rest, written b))"
  unfolding serve_connection.simps [of A "arriving (frame (fst (ae_json A) (request_json q)) @ rest)"]
  by (simp add: recv_request assms send_written if_distrib cong: if_cong)

lemma serve_session:
  assumes "\<forall>q\<in>set qs. request_wf q \<and> frame_fits (ae_json A) (request_json q) \<and> speaks (ae_json A) (request_json q)"
    and "hruns (serve_connection A (arriving (bytes_of (ae_json A) (map request_json qs))) (written b)) es (r, w)"
  shows "\<exists>as. answered A (take (length as) qs) as es
    \<and> (length as = length qs \<or> as \<noteq> [] \<and> \<not> frame_fits (ae_json A) (response_json (last as)))
    \<and> w = written (b @ bytes_of (ae_json A) (takeWhile (frame_fits (ae_json A)) (map response_json as)))"
  using assms
proof (induction qs arbitrary: b es)
  case Nil
  then have "es = []" "w = written b"
    by (simp_all add: serve_connection.simps [of A "arriving []"] recv_arriving_empty)
  then show ?case by (intro exI [of _ "[]"]) simp
next
  case (Cons q qs)
  let ?J = "ae_json A"
  obtain es1 es2 a where es: "es = es1 @ es2" and h: "hruns (agent_handle A q) es1 a" and
    k: "hruns (if frame_fits ?J (response_json a)
         then serve_connection A (arriving (bytes_of ?J (map request_json qs))) (written (b @ frame (fst ?J (response_json a))))
         else HRet (arriving (bytes_of ?J (map request_json qs)), written b)) es2 (r, w)"
    using Cons.prems by (auto simp: serve_next hruns_bind)
  show ?case
  proof (cases "frame_fits ?J (response_json a)")
    case True
    then obtain as where as: "answered A (take (length as) qs) as es2"
      "length as = length qs \<or> as \<noteq> [] \<and> \<not> frame_fits ?J (response_json (last as))"
      "w = written ((b @ frame (fst ?J (response_json a))) @ bytes_of ?J (takeWhile (frame_fits ?J) (map response_json as)))"
      using Cons.IH [of "b @ frame (fst ?J (response_json a))" es2] Cons.prems(1) k by auto
    then show ?thesis using True es h by (intro exI [of _ "a # as"]) auto
  next
    case False
    then have "es2 = []" "w = written b" using k by simp_all
    then show ?thesis using False es h by (intro exI [of _ "[a]"]) simp
  qed
qed

lemma call_answered:
  assumes "frame_fits J (request_json q)" "frame_fits J (response_json a)" "speaks J (response_json a)"
  shows "call J q \<lparr>gc_reader = arriving (frame (fst J (response_json a)) @ rest), gc_writer = written b\<rparr> =
    (map_err AgentError (into_result a),
     \<lparr>gc_reader = arriving rest, gc_writer = written (b @ frame (fst J (request_json q)))\<rparr>)"
  using assms by (simp add: call_def send_written recv_response)

lemma call_closed:
  assumes "frame_fits J (request_json q)"
  shows "call J q \<lparr>gc_reader = arriving [], gc_writer = written b\<rparr> =
    (Err Closed, \<lparr>gc_reader = arriving [], gc_writer = written (b @ frame (fst J (request_json q)))\<rparr>)"
  using assms by (simp add: call_def send_written recv_arriving_empty)

lemma calls_closed:
  assumes "\<forall>q\<in>set qs. frame_fits J (request_json q)"
  shows "calls J qs \<lparr>gc_reader = arriving [], gc_writer = written b\<rparr> =
    (replicate (length qs) (Err Closed),
     \<lparr>gc_reader = arriving [], gc_writer = written (b @ bytes_of J (map request_json qs))\<rparr>)"
  using assms by (induction qs arbitrary: b) (simp_all add: call_closed)

lemma calls_answered:
  assumes "\<forall>q\<in>set qs. frame_fits J (request_json q)"
    and "\<forall>a\<in>set as. frame_fits J (response_json a) \<and> speaks J (response_json a)" and "length as \<le> length qs"
  shows "calls J qs \<lparr>gc_reader = arriving (bytes_of J (map response_json as)), gc_writer = written b\<rparr> =
    (map (\<lambda>a. map_err AgentError (into_result a)) as @ replicate (length qs - length as) (Err Closed),
     \<lparr>gc_reader = arriving [], gc_writer = written (b @ bytes_of J (map request_json qs))\<rparr>)"
  using assms
proof (induction qs arbitrary: as b)
  case Nil
  then show ?case by simp
next
  case (Cons q qs)
  show ?case
  proof (cases as)
    case Nil
    then show ?thesis using calls_closed [of "q # qs" J b] Cons.prems(1) by simp
  next
    case (Cons a as')
    then show ?thesis using Cons.prems Cons.IH [of as'] by (simp add: call_answered)
  qed
qed

section \<open>Who a command runs as, and what is reported of it\<close>

definition said_id :: "(IoErr, nat) result \<Rightarrow> u32" where
  "said_id r = (case r of Ok n \<Rightarrow> of_nat n | Err _ \<Rightarrow> 0)"

lemma get_id_runs: "hruns (get_id c k) es x \<longleftrightarrow> (\<exists>r es'. es = (QNum c, ANum r) # es' \<and> hruns (k (said_id r)) es' x)"
  by (simp add: get_id_def hruns_ops said_id_def)

text \<open>The switch: to nobody when no user is wanted or the agent is that user, to the account when the
  agent was asked for another and is root.\<close>

definition switched :: "AgentEnv \<Rightarrow> string option \<Rightarrow> HEvent list \<Rightarrow> Account option \<Rightarrow> bool" where
  "switched A wanted es who =
     (case wanted of
        None \<Rightarrow> es = [] \<and> who = None
      | Some u \<Rightarrow>
          (case user_resolve A u of
             Inl _ \<Rightarrow> False
           | Inr a \<Rightarrow>
               (\<exists>n. said_id n = ac_uid a \<and> es = [(QNum GetUid, ANum n)] \<and> who = None) \<or>
               (\<exists>n m. said_id n \<noteq> ac_uid a \<and> said_id m = 0
                   \<and> es = [(QNum GetUid, ANum n), (QNum GetEuid, ANum m)] \<and> who = Some a)))"

lemma switch_runs: "hruns (switch_to A wanted) es (Ok who) \<longleftrightarrow> switched A wanted es who"
proof (cases wanted)
  case None
  then show ?thesis by (auto simp: switch_to_def switched_def)
next
  case (Some u)
  show ?thesis
  proof (cases "user_resolve A u")
    case (Inl e)
    with Some show ?thesis by (simp add: switch_to_def switched_def)
  next
    case (Inr a)
    have "hruns (switch_to A wanted) es (Ok who) \<longleftrightarrow>
      (\<exists>n es'. es = (QNum GetUid, ANum n) # es' \<and>
        (if ac_uid a \<noteq> said_id n
         then \<exists>m. es' = [(QNum GetEuid, ANum m)] \<and> said_id m = 0 \<and> who = Some a
         else es' = [] \<and> who = None))"
      using Some Inr
      by (auto simp: switch_to_def get_id_runs if_distrib [of "\<lambda>p. hruns p _ _"] split: if_splits)
    then show ?thesis using Some Inr by (auto simp: switched_def split: if_splits) metis+
  qed
qed

lemma end_child_runs:
  "hruns (end_child pid how p) es x \<longleftrightarrow>
    (if how = Elapsed
     then \<exists>r1 r2 r3 es'. es = [(QDo (KillGroup pid 9), ADo r1), (QDo (KillPid pid 9), ADo r2), (QDo (WaitChild pid), ADo r3)] @ es'
            \<and> hruns p es' x
     else hruns p es x)"
  by (cases how) (auto simp: end_child_def hruns_do)

lemma exec_child_runs:
  assumes "hruns (exec_child A req who) es (Ok res)"
  shows "\<exists>t pid run es2 t2 ms.
    es = (QNum NowMs, t) # (QNum (SpawnProc (exec_spec req who)), ANum (Ok pid))
       # (QChild pid (eq_stdin req) (exec_timeout req), AChild run) # es2 @ [(QNum NowMs, t2)] \<and>
    (if cr_end run = Elapsed
     then \<exists>r1 r2 r3. es2 = [(QDo (KillGroup pid 9), ADo r1), (QDo (KillPid pid 9), ADo r2), (QDo (WaitChild pid), ADo r3)]
     else es2 = []) \<and>
    exec_result A (exec_cap req) run ms = Ok res"
proof -
  obtain t r es1 where 1: "es = (QNum NowMs, ANum t) # (QNum (SpawnProc (exec_spec req who)), ANum r) # es1"
    and k: "hruns (case r of
         Inl e \<Rightarrow> HRet (Err (''spawn '' @ eq_cmd req @ '': '' @ io_text e))
       | Inr pid \<Rightarrow>
           HChild pid (eq_stdin req) (exec_timeout req) (\<lambda>run.
           end_child pid (cr_end run)
             (now_ms (\<lambda>now. HRet (exec_result A (exec_cap req) run (now - (case t of Ok m \<Rightarrow> m | Err _ \<Rightarrow> 0))))))) es1 (Ok res)"
    using assms unfolding exec_child_def now_ms_def hruns_ops by blast
  show ?thesis
  proof (cases r)
    case (Inl e)
    with k show ?thesis by simp
  next
    case (Inr pid)
    then obtain run es2 where 2: "es1 = (QChild pid (eq_stdin req) (exec_timeout req), AChild run) # es2"
      and k2: "hruns (end_child pid (cr_end run)
             (now_ms (\<lambda>now. HRet (exec_result A (exec_cap req) run (now - (case t of Ok m \<Rightarrow> m | Err _ \<Rightarrow> 0)))))) es2 (Ok res)"
      using k by (auto simp: hruns_ops)
    show ?thesis
    proof (cases "cr_end run = Elapsed")
      case True
      then show ?thesis using 1 2 k2 Inr by (auto simp: end_child_runs now_ms_def hruns_ops)
    next
      case False
      then show ?thesis using 1 2 k2 Inr by (auto simp: end_child_runs now_ms_def hruns_ops)
    qed
  qed
qed

text \<open>The report of a command: the first \<open>cap\<close> bytes of each output, cut when there were more or the
  time was up.\<close>

lemma exec_result_exact:
  assumes "exec_result A cap run ms = Ok res"
  shows "er_stdout res = ae_lossy A (take cap (concat (cr_out run)))
    \<and> er_stderr res = ae_lossy A (take cap (concat (cr_err run)))
    \<and> (er_timed_out res \<longleftrightarrow> cr_end run = Elapsed)
    \<and> (er_truncated res \<longleftrightarrow> cr_end run = Elapsed \<or> cap < length (concat (cr_out run)) \<or> cap < length (concat (cr_err run)))
    \<and> (\<forall>code sig. cr_end run = Exited code sig \<longrightarrow> er_exit_code res = code \<and> er_signal res = sig)"
  using assms by (cases "cr_end run") (auto simp: exec_result_def capture_exact Let_def)


text \<open>Witness: a root agent runs \<^verbatim>\<open>id\<close> as \<^verbatim>\<open>bob\<close>, which writes five bytes and is cut at three.\<close>

definition wit_env :: AgentEnv where
  "wit_env = \<lparr>ae_var = (\<lambda>_. None), ae_getpwnam = (\<lambda>_. Some \<lparr>ac_name = ''bob'', ac_uid = 1000, ac_gid = 1000, ac_home = ''/''\<rparr>), ae_getpwuid = (\<lambda>_. None), ae_encode = id,
     ae_decode = Some, ae_lossy = id, ae_utf8 = (\<lambda>_. True), ae_version = ''0.1'',
     ae_json =
       (\<lambda>v. if v = request_json (Mkdir ''/d'' True) then ''q''
            else if v = response_json (response_ok Done) then ''d''
            else (case json_lookup ''error'' v of Some (JStr s) \<Rightarrow> CHR ''e'' # s | _ \<Rightarrow> []),
        \<lambda>s. case s of [] \<Rightarrow> None
             | c # cs \<Rightarrow> if c = CHR ''q'' then Some (request_json (Mkdir ''/d'' True))
                  else if c = CHR ''d'' then Some (response_json (response_ok Done))
                  else Some (response_json (response_err cs)))\<rparr>"

definition wit_req :: ExecRequest where
  "wit_req = \<lparr>eq_cmd = ''id'', eq_args = [], eq_cwd = None, eq_env = [], eq_stdin = None, eq_timeout_ms = None,
     eq_max_output_bytes = Some 3, eq_user = Some ''bob''\<rparr>"

definition wit_run :: ChildRun where
  "wit_run = \<lparr>cr_out = [''ab'', ''cde''], cr_err = [], cr_end = Exited (Some 0) None\<rparr>"

definition wit_who :: Account where
  "wit_who = \<lparr>ac_name = ''bob'', ac_uid = 1000, ac_gid = 1000, ac_home = ''/''\<rparr>"

definition wit_events :: "HEvent list" where
  "wit_events =
     [(QNum GetUid, ANum (Ok 0)), (QNum GetEuid, ANum (Ok 0)), (QNum NowMs, ANum (Ok 5)),
      (QNum (SpawnProc (exec_spec wit_req (Some wit_who))), ANum (Ok 42)),
      (QChild 42 None 120000, AChild wit_run), (QNum NowMs, ANum (Ok 9))]"

definition wit_res :: ExecResult where
  "wit_res = \<lparr>er_exit_code = Some 0, er_signal = None, er_stdout = ''abc'', er_stderr = [], er_timed_out = False,
     er_truncated = True, er_duration_ms = 4\<rparr>"

lemma wit_resolve: "user_resolve wit_env ''bob'' = Ok wit_who"
  by (simp add: user_resolve_def by_name_def wit_env_def wit_who_def parse_u32_def parse_unsigned_def digit_value_def ascii_digit_def byte_def)

lemma wit_exec_runs: "hruns (agent_exec wit_env wit_req) wit_events (Ok wit_res)"
proof -
  have w: "wanted_user wit_env wit_req = Some ''bob''" by (simp add: wanted_user_def wit_req_def)
  have s: "hruns (switch_to wit_env (Some ''bob'')) [(QNum GetUid, ANum (Ok 0)), (QNum GetEuid, ANum (Ok 0))] (Ok (Some wit_who))"
    by (simp add: switch_runs switched_def wit_resolve wit_who_def said_id_def)
  have t: "exec_timeout wit_req = 120000" "exec_cap wit_req = 3" "eq_stdin wit_req = None"
    by (simp_all add: exec_timeout_def exec_cap_def wit_req_def DEFAULT_EXEC_TIMEOUT_MS_def)
  have "exec_result wit_env 3 wit_run 4 = Ok wit_res"
    by (simp add: exec_result_def capture_exact wit_run_def wit_res_def wit_env_def)
  then have c: "hruns (exec_child wit_env wit_req (Some wit_who)) (drop 2 wit_events) (Ok wit_res)"
    by (simp add: exec_child_def now_ms_def hruns_ops end_child_runs t wit_events_def wit_run_def)
  show ?thesis
    unfolding agent_exec_def hruns_try w
    using s c by (intro disjI2 exI conjI) (simp_all add: wit_events_def)
qed


section \<open>Answers in order\<close>

lemma answered_length: "answered A qs as es \<Longrightarrow> length as = length qs"
  by (induction A qs as es rule: answered.induct) auto

lemma answered_speaks:
  "answered A qs as es \<Longrightarrow> a \<in> set as \<Longrightarrow> \<exists>q es'. q \<in> set qs \<and> hruns (agent_handle A q) es' a"
  by (induction A qs as es rule: answered.induct) (auto, blast)

text \<open>C16: A host and an agent on one connection: when the JSON of the requests and of the answers the
  agent can give reads back, the host's calls get the agent's answers, each its own and in the order of
  the requests, each request handled once and only after the one before it was answered. Where an
  answer is over the limit of a frame it is not sent, no later request is handled, and this call and
  every later one fails as closed. The host has then written exactly the bytes the agent was given.\<close>

theorem session_in_order:
  assumes "\<forall>q\<in>set qs. request_wf q \<and> frame_fits (ae_json A) (request_json q) \<and> speaks (ae_json A) (request_json q)"
    and "\<forall>q\<in>set qs. \<forall>es a. hruns (agent_handle A q) es a \<longrightarrow> speaks (ae_json A) (response_json a)"
    and "hruns (serve_connection A (arriving (bytes_of (ae_json A) (map request_json qs))) (written [])) es (r, w)"
  shows "\<exists>as. answered A (take (length as) qs) as es
    \<and> (length as = length qs \<or> as \<noteq> [] \<and> \<not> frame_fits (ae_json A) (response_json (last as)))
    \<and> (let sent = takeWhile (\<lambda>a. frame_fits (ae_json A) (response_json a)) as in
       calls (ae_json A) qs \<lparr>gc_reader = arriving (wr_out w), gc_writer = written []\<rparr> =
         (map (\<lambda>a. map_err AgentError (into_result a)) sent @ replicate (length qs - length sent) (Err Closed),
          \<lparr>gc_reader = arriving [], gc_writer = written (bytes_of (ae_json A) (map request_json qs))\<rparr>))"
proof -
  let ?J = "ae_json A"
  obtain as where as: "answered A (take (length as) qs) as es"
    "length as = length qs \<or> as \<noteq> [] \<and> \<not> frame_fits ?J (response_json (last as))"
    "w = written (bytes_of ?J (takeWhile (frame_fits ?J) (map response_json as)))"
    using serve_session [OF assms(1,3)] by auto
  let ?sent = "takeWhile (\<lambda>a. frame_fits ?J (response_json a)) as"
  have w: "wr_out w = bytes_of ?J (map response_json ?sent)"
    by (simp add: as(3) written_def takeWhile_map o_def)
  have l: "length ?sent \<le> length qs"
    using answered_length [OF as(1)] length_takeWhile_le [of "\<lambda>a. frame_fits ?J (response_json a)" as] by simp
  have "\<forall>a\<in>set ?sent. frame_fits ?J (response_json a) \<and> speaks ?J (response_json a)"
    using answered_speaks [OF as(1)] assms(2) by (auto dest!: set_takeWhileD in_set_takeD)
  then show ?thesis
    using as(1,2) calls_answered [of qs ?J ?sent "[]"] l assms(1) w by (intro exI [of _ as]) (simp add: Let_def)
qed

definition wit_mkdir :: "HEvent list" where
  "wit_mkdir = [(QDo (CreateDirAll ''/d''), ADo (Ok ())), (QDo (CreateDirAll ''/d''), ADo (Err (IoErr OtherKind ''no'')))]"

text \<open>Witness: a directory made twice, the second time refused.\<close>

theorem session_in_order_witness:
  "\<exists>as. answered wit_env (take (length as) [Mkdir ''/d'' True, Mkdir ''/d'' True]) as wit_mkdir"
proof -
  let ?q = "Mkdir ''/d'' True"
  have hd: "agent_handle wit_env ?q = HDo (CreateDirAll ''/d'') (\<lambda>r. HRet
      (case r of Ok _ \<Rightarrow> response_ok Done | Err e \<Rightarrow> response_err (io_err ''mkdir'' ''/d'' e)))"
    by (auto simp: agent_handle_def answer_with_def agent_mkdir_def hmust_def map_ok_def and_then_def
        intro!: arg_cong [of _ _ "HDo _"] split: sum.splits)
  have d: "response_json (response_ok Done) \<noteq> request_json ?q" "response_json (response_err s) \<noteq> request_json ?q"
    "response_json (response_err s) \<noteq> response_json (response_ok Done)" for s
    by (simp_all add: response_json_def response_ok_def response_err_def jskip_def)
  have e: "json_lookup ''error'' (response_json (response_err s)) = Some (JStr s)" for s
    by (simp add: json_lookup_def response_json_def response_err_def jskip_def)
  have sp: "speaks (ae_json wit_env) (response_json (response_ok Done))"
    "speaks (ae_json wit_env) (response_json (response_err s))" "speaks (ae_json wit_env) (request_json ?q)" for s
    by (simp_all add: speaks_def wit_env_def d e del: request_json.simps)
  have ft: "frame_fits (ae_json wit_env) (request_json ?q)" "frame_fits (ae_json wit_env) (response_json (response_ok Done))"
    by (simp_all add: frame_fits_def wit_env_def MAX_FRAME_def d del: request_json.simps)
  have fe: "frame_fits (ae_json wit_env) (response_json (response_err ''mkdir /d: no''))"
    by (simp add: frame_fits_def wit_env_def MAX_FRAME_def d e del: request_json.simps)
  have run: "hruns (serve_connection wit_env (arriving (bytes_of (ae_json wit_env) (map request_json [?q, ?q]))) (written []))
      wit_mkdir (arriving [], written (bytes_of (ae_json wit_env)
        [response_json (response_ok Done), response_json (response_err ''mkdir /d: no'')]))"
    using serve_next [of ?q wit_env "[]"]
    by (simp add: serve_next request_wf_def ft sp hd hruns_ops wit_mkdir_def serve_connection.simps [of _ "arriving []"]
        recv_arriving_empty io_err_def fe del: request_json.simps)
  have a1: "\<forall>q\<in>set [?q, ?q]. request_wf q \<and> frame_fits (ae_json wit_env) (request_json q) \<and> speaks (ae_json wit_env) (request_json q)"
    using ft sp by (simp add: request_wf_def del: request_json.simps)
  have a2: "\<forall>q\<in>set [?q, ?q]. \<forall>es a. hruns (agent_handle wit_env q) es a \<longrightarrow> speaks (ae_json wit_env) (response_json a)"
  proof (intro ballI allI impI)
    fix q es a
    assume q: "q \<in> set [?q, ?q]" and h: "hruns (agent_handle wit_env q) es a"
    have "\<exists>r :: (IoErr, unit) result. a = (case r of Ok _ \<Rightarrow> response_ok Done | Err e \<Rightarrow> response_err (io_err ''mkdir'' ''/d'' e))"
      using q h by (simp add: hd hruns_ops) blast
    then obtain r :: "(IoErr, unit) result" where "a = (case r of Ok _ \<Rightarrow> response_ok Done | Err e \<Rightarrow> response_err (io_err ''mkdir'' ''/d'' e))" ..
    then show "speaks (ae_json wit_env) (response_json a)" using sp by (cases r) simp_all
  qed
  show ?thesis
    using session_in_order [OF a1 a2 run] by (elim exE conjE) (rule exI, assumption)
qed

section \<open>The clock\<close>

text \<open>The clock is stepped from a difference of a second on, to the host's time.\<close>

lemma clock_steps_at_a_second:
  assumes "clock_offset host guest = 1000"
  shows "hruns (agent_set_clock host)
    [(QNum UnixNanos, ANum (Ok guest)),
     (QDo (SetTime (unat host div 1000000000) (unat host mod 1000000000)), ADo (Ok ()))]
    (Ok \<lparr>cl_offset_ms = 1000, cl_stepped = True\<rparr>)"
  using assms by (simp add: agent_set_clock_def hruns_ops hruns_must CLOCK_STEP_MS_def)

lemma clock_left_alone:
  assumes "\<bar>sint (clock_offset host guest)\<bar> < 1000"
  shows "hruns (agent_set_clock host) ((QNum UnixNanos, ANum (Ok guest)) # es) x \<longleftrightarrow>
    es = [] \<and> x = Ok \<lparr>cl_offset_ms = clock_offset host guest, cl_stepped = False\<rparr>"
  using assms by (simp add: agent_set_clock_def hruns_ops CLOCK_STEP_MS_def)

end
