(* ===== verification/Spec2Isabelle.thy ===== *)
theory Spec2Isabelle
  imports Iso_Net Iso_Safety Iso_Create Iso_Reconcile Iso_Metadata Iso_Master_Runs Iso_Board
    Iso_Storage Iso_Vmm_Safety Iso_Agent
begin

text \<open>
  \<^bold>\<open>iso: a verification development.\<close>

  The program runs short-lived micro-VMs on a host and decides what they may reach. A control
  plane keeps one record per VM in SQLite, gives each running VM a network slot and host ports,
  drives three backends (network, storage, VMM) through its life, recovers after a crash and
  supervises exits. A slot fixes the VM's addresses and interfaces, and the network manager
  turns a slot and a policy into nftables rules that leave a VM the services address and, in
  proxy mode, the egress proxy. The proxy names a connection by its source address through the
  identify service, looks at its TLS name, and tunnels, terminates or drops it; on terminated
  connections it judges each request by the VM's rules and injects credentials. A DNS server
  resolves for a VM the names its rules could reach and remembers the answers, which is how a
  connection without a TLS name gets one; a secrets service holds the credentials and a metadata
  service tells a VM about itself. In a fleet one API places VMs on many hosts, keeps its own
  record of where they are, reconciles it with what the hosts have, and signs each policy; the
  signed policy travels with a connection from the host's edge to a shared proxy tier. A master
  runs agents on such VMs: sessions that are created, prompted, put to sleep, recovered and
  closed, alone or in swarms of planners and workers that send each other messages and share a
  board. Below the control plane a storage backend keeps a thin volume per VM, a runtime starts
  Firecracker in a jail and speaks its API, and inside each VM an agent runs commands and
  serves files for the host over a protocol of its own.

  \<^bold>\<open>Theories and the code they model.\<close>
  \<^item> \<open>Iso_Prelude\<close>, \<open>Iso_Strings\<close>: results, machine words and Rust's string operations over the
    UTF-8 bytes of a string; the generic lemmas the components share.
  \<^item> \<open>Iso_Policy\<close>: \<^verbatim>\<open>crates/iso-policy/src/lib.rs\<close>. Host and path patterns, rules and rule sets;
    parsing, printing, matching, evaluation.
  \<^item> \<open>Iso_Signed\<close>: \<^verbatim>\<open>crates/iso-policy/src/signed.rs\<close>. Signing and verification over a record of
    parameters for base64, the claims' JSON and Ed25519.
  \<^item> \<open>Iso_Common\<close>: \<^verbatim>\<open>crates/iso-common/src\<close> and \<^verbatim>\<open>iso-control-plane/src/types.rs\<close>. Ids, records,
    requests and the textual forms of the enumerations.
  \<^item> \<open>Iso_Alloc\<close>: \<^verbatim>\<open>slot.rs\<close> and \<^verbatim>\<open>port.rs\<close> of \<^verbatim>\<open>iso-control-plane\<close>, at machine width, as two
    interpretations of the locale \<open>id_pool\<close>.
  \<^item> \<open>Iso_Net\<close>: \<^verbatim>\<open>config.rs\<close>, \<^verbatim>\<open>fixture.rs\<close>, \<^verbatim>\<open>plan.rs\<close>, the pure part of \<^verbatim>\<open>manager.rs\<close>, and the
    rendering of rules in \<^verbatim>\<open>nft.rs\<close>, with an evaluation of packets against rendered rules.
  \<^item> \<open>Iso_Store\<close>: \<^verbatim>\<open>store.rs\<close> and \<^verbatim>\<open>error.rs\<close> of \<^verbatim>\<open>iso-control-plane\<close>. The tables as lists of rows
    and every statement the control plane executes.
  \<^item> \<open>Iso_Prog\<close>, \<open>Iso_Control\<close>: \<^verbatim>\<open>control.rs\<close> and \<^verbatim>\<open>config.rs\<close>. A handler is a program, a tree of
    memory operations, store statements and queries, backend calls and lock operations, whose
    answers the environment gives; each \<^verbatim>\<open>await\<close> and each statement is a node.
  \<^item> \<open>Iso_Sched\<close>, \<open>Iso_Safety\<close>: handlers interleaved step by step, every call free to fail, with a
    ghost logic of which thread holds which lock and owns which slot.
  \<^item> \<open>Iso_Ops\<close>, \<open>Iso_Create\<close>: one handler run alone against arbitrary answers.
  \<^item> \<open>Iso_Sni\<close>: \<^verbatim>\<open>crates/iso-proxy/src/sni.rs\<close>. The peek at a ClientHello and the replay.
  \<^item> \<open>Iso_Identify\<close>: \<^verbatim>\<open>identify.rs\<close> and \<^verbatim>\<open>dns_memory.rs\<close> of \<^verbatim>\<open>iso-controld\<close>, with IPv4 texts.
  \<^item> \<open>Iso_Dns\<close>: \<^verbatim>\<open>dns_gate.rs\<close> of \<^verbatim>\<open>iso-controld\<close> and the request handler of \<^verbatim>\<open>iso-dns-server\<close>.
  \<^item> \<open>Iso_Proxy\<close>: \<^verbatim>\<open>policy.rs\<close>, \<^verbatim>\<open>dst.rs\<close>, \<^verbatim>\<open>edge.rs\<close>, \<^verbatim>\<open>ws.rs\<close> and \<^verbatim>\<open>lib.rs\<close> of \<^verbatim>\<open>iso-proxy\<close>.
  \<^item> \<open>Iso_Json\<close>: JSON values with \<^verbatim>\<open>serde_json\<close>'s accessors.
  \<^item> \<open>Iso_Secrets\<close>: \<^verbatim>\<open>crates/iso-secrets/src/lib.rs\<close>. The trait \<^verbatim>\<open>SecretProvider\<close> is the locale
    \<open>secret_provider\<close>, a chain of providers the locale \<open>secret_chain\<close>, both interpreted on the file
    provider; the handler, the client, the program adapter.
  \<^item> \<open>Iso_Metadata\<close>: \<^verbatim>\<open>metadata.rs\<close> of \<^verbatim>\<open>iso-controld\<close>.
  \<^item> \<open>Iso_Fleet\<close>: \<^verbatim>\<open>crates/iso-fleet/src\<close>. The tables of \<^verbatim>\<open>store.rs\<close>, \<^verbatim>\<open>placement.rs\<close>, signing in \<^verbatim>\<open>lib.rs\<close>,
    the handlers of \<^verbatim>\<open>api.rs\<close> and the sync of \<^verbatim>\<open>sync.rs\<close> as programs over statements and host calls;
    a run alone on the tables is \<open>falone\<close>, a run among others \<open>ftrace\<close>.
  \<^item> \<open>Iso_Reconcile\<close>: what those programs keep true.
  \<^item> \<open>Iso_Master\<close>: \<^verbatim>\<open>model.rs\<close>, \<^verbatim>\<open>config.rs\<close> and \<^verbatim>\<open>store.rs\<close> of \<^verbatim>\<open>iso-master\<close>. The phases of a session,
    the checks of the configuration, each statement of the store.
  \<^item> \<open>Iso_Engine\<close>: \<^verbatim>\<open>engine.rs\<close> and the requests of \<^verbatim>\<open>plane.rs\<close>. Each operation is a program of atomic
    actions, an \<open>mprog\<close>, that goes on from the reply; one locked section of the code is one
    \<open>with_lock\<close>.
  \<^item> \<open>Iso_Swarm\<close>: the system these programs make up (\<open>msys\<close>): requests, single actions of any
    program with any reply the outside may give, and restarts. The locale \<open>rely_guarantee\<close> states
    what programs over a shared state owe each other and is interpreted on it.
  \<^item> \<open>Iso_Swarm_Safety\<close>, \<open>Iso_Master_Runs\<close>: what holds in every reachable state, and of single
    operations among others (\<open>mtrace\<close>) or alone (\<open>malone\<close>); \<open>drive\<close> executes the system on a script.
  \<^item> \<open>Iso_Board\<close>: the master's keyed tables as interpretations of the locale \<open>keyed_writes\<close>, the names
    of swarm sessions, the paths of the board.
  \<^item> \<open>Iso_Path\<close>, \<open>Iso_Host\<close>: Rust's paths and numbers in text; programs against the operating
    system, trees of calls to files, processes, devices and tools with a continuation for every
    answer, and their runs as lists of events.
  \<^item> \<open>Iso_Storage\<close>: \<^verbatim>\<open>crates/iso-storage-manager/src\<close>. Every operation of the LVM thin backend.
  \<^item> \<open>Iso_Jail\<close>, \<open>Iso_Vmm\<close>: \<^verbatim>\<open>jail.rs\<close>, \<^verbatim>\<open>pidfile.rs\<close>, \<^verbatim>\<open>client.rs\<close> and \<^verbatim>\<open>lib.rs\<close> of \<^verbatim>\<open>iso-firecracker\<close>.
    The settings, identities and plan of a jail, then the jail on disk and the runtime's
    operations; \<open>Iso_Vmm_Safety\<close>: what holds in every run of them.
  \<^item> \<open>Iso_Guest\<close>: \<^verbatim>\<open>crates/iso-guest-proto\<close>. Messages, their JSON, frames, the host's client; the
    locale \<open>wire\<close> is what a message type owes the other side, interpreted on both directions.
  \<^item> \<open>Iso_Agent\<close>: \<^verbatim>\<open>lib.rs\<close>, \<^verbatim>\<open>user.rs\<close> and \<^verbatim>\<open>reseed.rs\<close> of \<^verbatim>\<open>iso-guest-agent\<close>.
  \<^item> this theory: what spans the network plan, the control plane, the proxy, the metadata
    service, the jails and the volumes.

  \<^bold>\<open>What is shown.\<close> Of the rule language: what each pattern matches and each evaluation decides,
  that rules and policies survive their text, that the order of rules does not matter. Of the
  allocators: an allocation gives a free id and fails only when there is none, slots in
  rotation. Of the store: the tables stay well formed and implement a map from ids to records,
  and placement and policy updates commute. Of the control plane: under every interleaving no
  two records claim a slot, a slot is freed only when no record claims it and no handler is at
  work on it, and a VM is worked on by one handler at a time; alone, every handler returns with
  no lock held, a failed create leaves nothing behind, and a policy edit is atomic. Of the
  network: slots share nothing, a VM's packets leave only through the proxy and reach only the
  services of the host. Of the DNS server: nothing is resolved upstream but what the asker's
  policy names, a slot's next VM is never judged by the last one's policy, and the name put to
  an address is one the VM resolved. Of the proxy: connections and requests leave only as the
  policy allows, the policy is the one on record for the VM, a policy change ends what was held
  under the old one, a credential leaves only where the secrets files put it, and a tier with
  the fleet's key trusts nothing else. Of the metadata service: a VM is told of itself, and of no
  secret's value. Of the fleet: a create never makes two VMs, what it signs is what the tier
  enforces, a delete forgets only what no host can have, and a sync settles each record by
  what its host has. Of the master: swarms are trees of bounded depth under every interleaving
  and restart, messages go between parent and child and are handed out once, sessions follow
  their state machine, a hierarchy is gathered exactly and fenced before any of it is destroyed,
  and a restart leaves no session live and no message to be replayed; one race, by which an
  access list the operator sets is undone, is shown to be reachable. Of the backends: whatever the
  host answers, provisioning changes no other volume, a jail is built inside its own directory,
  no process is killed but the VM's own, and a VM whose process lives is not reported gone; two
  VMs that hold slots run under different identities. Of the guest agent: a command runs as the
  user asked for or not at all and its outputs are cut exactly, and a host's calls get the
  agent's answers in order.

  \<^bold>\<open>Assumptions, bounds and fuel.\<close> Safety under interleaving assumes that a caller does not reuse
  the id of a VM and that a record's deletion does not fail (\<open>rollback\<close> drops the VM's lock even
  then); the slot capacity is within the 32768 slots of the address plan. \<open>create_vm_atomic\<close> and
  \<open>set_policy_spec\<close> are for a store that works, every backend call free to fail. The poll loop of
  \<open>wait_exit\<close> has \<open>graceful_stop_ms div 50 + 1\<close> rounds, more than fit before its deadline at 50 ms
  each. Floating point loads of the fleet's placement are rationals with the rounding a parameter.
  The ids the master draws are not empty. The length of a JSON text and the
  quoting of a name are parameters there.
  All other loops are structural or have a measure. Instants are milliseconds, and two
  readings of the clock in one operation are two parameters.

  The polls of the runtime have \<open>timeout div 50 + 2\<close> and \<open>boot_timeout div 20 + 2\<close> rounds, again more
  than fit. \<open>provision_isolated\<close> assumes LVM's commands do what their manual says (\<open>lvm_ok\<close>, met by a
  pool of named volumes); \<open>session_in_order\<close> that JSON text reads back. The hash that names a cached
  file, base64, the passwd database and the text of JSON are parameters.

  \<^bold>\<open>Not modelled.\<close> The executors against the kernel (\<^verbatim>\<open>netlink.rs\<close>, \<^verbatim>\<open>conntrack.rs\<close>): socket code
  for the plan that is modelled. The control plane's handlers take any answer of their backends;
  the backends are modelled on their own. The guest clock and entropy calls, guest channel and
  statistics of \<^verbatim>\<open>control.rs\<close>, and the migration of the old ingress column in \<^verbatim>\<open>store.rs\<close>. Sockets,
  TLS, HTTP and DNS message handling of the libraries, the tunnel pool and its header encoding in
  \<^verbatim>\<open>tunnel.rs\<close>, leaf minting, access logs. The HTTP API and process set-up of \<^verbatim>\<open>iso-controld\<close>; the
  HTTP client, TLS and key files of \<^verbatim>\<open>iso-fleet\<close>; the web server, agent processes and metrics of
  \<^verbatim>\<open>iso-master\<close> and its one-off update of old events; the agent as PID 1 (\<^verbatim>\<open>init.rs\<close>); the certificate
  authorities, \<^verbatim>\<open>iso-rpc\<close>, the generated client and the command line. Of these the sign-in of the
  master's web server and the image unpacking of the command line have logic of their own.
\<close>

section \<open>Identification\<close>

lemma find_unique:
  assumes "x \<in> set xs" and "P x" and "\<forall>y \<in> set xs. P y \<longrightarrow> y = x"
  shows "find P xs = Some x"
proof (cases "find P xs")
  case None
  with assms(1,2) show ?thesis by (auto simp: find_None_iff)
next
  case (Some y)
  then have "y \<in> set xs" "P y" by (auto simp: find_Some_iff)
  with assms(3) Some show ?thesis by blast
qed

lemma reach_slot_wf:
  assumes "reach cfg K fails cp ps U" and "\<And>vid. \<not> fails (DeleteVm vid)"
    and "list_vms (cp_store cp) = Ok vms" and "v \<in> set vms" and "v_slot v = Some s"
  shows "wf_slot s"
proof -
  have "ids_ok (cp_store cp)"
    using reach_inv [OF assms(1,2)] sys_invD(1) by (fastforce simp: world_inv_def)
  then have "row_view (cp_store cp) (v_id v) = Some (Some s)"
    using view_of_record [OF _ assms(3,4)] assms(5) by simp
  then show ?thesis by (simp add: wf_slot_def view_fits)
qed

lemma identify_iff:
  assumes "reach cfg K fails cp ps U" and "\<And>vid. \<not> fails (DeleteVm vid)" and "wf_net net"
    and "list_vms (cp_store cp) = Ok vms" and "v \<in> set vms" and "v_slot v = Some s"
  shows "(identify (address_to_slot net) addr (cp_store cp) = Ok (Some v)) \<longleftrightarrow>
    addr = fx_vh_ip (derive s net) \<or> addr = fx_vp_ip (derive s net)"
proof
  assume "identify (address_to_slot net) addr (cp_store cp) = Ok (Some v)"
  then have "address_to_slot net addr = Some s"
    using assms(4,6) by (auto simp: identify_def find_Some_iff split: option.splits)
  then show "addr = fx_vh_ip (derive s net) \<or> addr = fx_vp_ip (derive s net)"
    using address_to_slot_iff [OF assms(3)] by simp
next
  assume "addr = fx_vh_ip (derive s net) \<or> addr = fx_vp_ip (derive s net)"
  then have "address_to_slot net addr = Some s"
    using address_to_slot_iff [OF assms(3)] reach_slot_wf [OF assms(1) _ assms(4,5,6)] assms(2) by simp
  moreover have "find (\<lambda>u. v_slot u = Some s) vms = Some v"
  proof (rule find_unique)
    show "\<forall>u \<in> set vms. v_slot u = Some s \<longrightarrow> u = v"
      using reach_slots [OF assms(1) _ assms(4,5,6)] assms(2) by blast
  qed (fact assms)+
  ultimately show "identify (address_to_slot net) addr (cp_store cp) = Ok (Some v)"
    using assms(4) by (simp add: identify_def)
qed

text \<open>The sample state: one record, recovered.\<close>

lemma sample_facts:
  "cp_store (recovered sample_cfg sample_db [sample_vm]) = sample_db" "wf_net net_config_default"
  "v_slot sample_vm = Some (SlotId 3)" "list_vms sample_db = Ok [sample_vm]"
  using sample_list
  by (simp_all add: recovered_def control_plane_new_def wf_net_def net_config_default_def ipv4_def sample_vm_def)

lemma sample_rules:
  obtains rs where "from_record (v_allow sample_vm) (v_rules sample_vm) = Ok rs"
proof -
  have "ok_and (from_record (v_allow sample_vm) (v_rules sample_vm)) (\<lambda>_. True)" by code_simp
  with that show thesis unfolding ok_and_iff by blast
qed

text \<open>Identification is exact across the network plan, the records and the allocator. In
  every state any interleaving of handlers reaches, an address names the VM that holds a slot
  if and only if it is one of the two addresses of that slot.\<close>

theorem identify_exact:
  assumes "reach cfg K fails cp ps U" and "\<forall>vid. \<not> fails (DeleteVm vid)" and "wf_net net"
    and "list_vms (cp_store cp) = Ok vms" and "v \<in> set vms" and "v_slot v = Some s"
  shows "(identify (address_to_slot net) addr (cp_store cp) = Ok (Some v)) \<longleftrightarrow>
    addr = fx_vh_ip (derive s net) \<or> addr = fx_vp_ip (derive s net)"
  using identify_iff [OF assms(1) _ assms(3,4,5,6)] assms(2) by blast

theorem identify_exact_witness:
  "identify (address_to_slot net_config_default) (fx_vp_ip (derive (SlotId 3) net_config_default))
     (cp_store (recovered sample_cfg sample_db [sample_vm])) = Ok (Some sample_vm)"
proof -
  from sample_facts show ?thesis
    using identify_exact [OF sample_reach_init, of net_config_default "[sample_vm]" sample_vm "SlotId 3"
        "fx_vp_ip (derive (SlotId 3) net_config_default)"] sample_list
    by simp
qed

text \<open>C12: the policy a connection is served under is the policy on record for the VM that made
  it. In every reachable state, a connection from the address of a slot a VM holds resolves, over
  the identify service, to that VM's id, generation, mode, principal and signature, and to
  exactly the rules its record compiles to.\<close>

theorem connection_policy_exact:
  assumes "reach cfg K fails cp ps U" and "\<forall>vid. \<not> fails (DeleteVm vid)" and "wf_net net"
    and "list_vms (cp_store cp) = Ok vms" and "v \<in> set vms" and "v_slot v = Some s"
    and "from_record (v_allow v) (v_rules v) = Ok rs"
  shows "policy_from_identify (identify_handle (address_to_slot net) (cp_store cp) mem now
      (Some \<lparr>iq_ip = ipv4_display (fx_vp_ip (derive s net)), iq_dst = d\<rparr>)) =
    Some \<lparr>po_egress = egress_str (v_egress v), po_principal = v_principal v, po_rules = rs,
      po_policy_gen = v_policy_gen v, po_vm = Some (vmid_display (v_id v)), po_signed = v_signed v\<rparr>"
proof -
  have "identify (address_to_slot net) (fx_vp_ip (derive s net)) (cp_store cp) = Ok (Some v)"
    using identify_iff [OF assms(1) _ assms(3,4,5,6)] assms(2) by blast
  from identify_policy [OF this assms(7)] show ?thesis .
qed

theorem connection_policy_exact_witness:
  "\<exists>p. policy_from_identify (identify_handle (address_to_slot net_config_default)
       (cp_store (recovered sample_cfg sample_db [sample_vm])) [] 0
       (Some \<lparr>iq_ip = ipv4_display (fx_vp_ip (derive (SlotId 3) net_config_default)), iq_dst = None\<rparr>)) = Some p \<and>
     po_policy_gen p = v_policy_gen sample_vm"
proof -
  obtain rs where "from_record (v_allow sample_vm) (v_rules sample_vm) = Ok rs" by (rule sample_rules)
  with sample_facts show ?thesis
    using connection_policy_exact [OF sample_reach_init, of net_config_default "[sample_vm]" sample_vm "SlotId 3" rs "[]" 0 None]
      sample_list
    by simp
qed

text \<open>C32: a VM that asks the metadata service about itself is told of itself. In every reachable
  state, a request from the address of the slot a VM holds is answered with that VM's id and
  principal and, for each host its rules name, with exactly the names of the headers the
  proxy is given for that VM and host, whatever the path; in deny mode with none.\<close>

theorem whoami_own:
  assumes "reach cfg K fails cp ps U" and "\<forall>vid. \<not> fails (DeleteVm vid)" and "wf_net net"
    and "list_vms (cp_store cp) = Ok vms" and "v \<in> set vms" and "v_slot v = Some s"
    and "from_record (v_allow v) (v_rules v) = Ok rs"
    and answer: "answer = whoami shown (address_to_slot net) (cp_store cp) host (Some (toml_service b64 fs))
      (V4 (fx_vp_ip (derive s net)))"
  shows "json_index answer ''id'' = JStr (vmid_display (v_id v)) \<and>
    json_index answer ''principal'' = opt_json JStr (v_principal v) \<and>
    json_index answer ''credentials'' =
      (if v_egress v = E_Deny then JNull
       else JArr (map (\<lambda>h. JObj [(''host'', JStr h), (''headers'', json_strings
         (sort (map fst (secrets_headers (toml_service b64 fs) h (v_principal v) path))))]) (literal_allow_hosts rs)))"
proof -
  have "identify (address_to_slot net) (fx_vp_ip (derive s net)) (cp_store cp) = Ok (Some v)"
    using identify_iff [OF assms(1) _ assms(3,4,5,6)] assms(2) by blast
  note fields = whoami_fields [OF this, of shown host "Some (toml_service b64 fs)", folded answer]
  have "secrets_names (toml_service b64 fs) h (v_principal v) None =
      sort (map fst (secrets_headers (toml_service b64 fs) h (v_principal v) path))" for h
    using toml_service_names toml_path_irrelevant by metis
  then show ?thesis
    using fields assms(7) by (simp add: credentials_def opt_json_def split: EgressMode.split)
qed

theorem whoami_own_witness:
  "json_index (whoami (\<lambda>_. []) (address_to_slot net_config_default) (cp_store (recovered sample_cfg sample_db [sample_vm])) None
     (Some (toml_service (\<lambda>s. s) [sample_secrets ''s3cret''])) (V4 (fx_vp_ip (derive (SlotId 3) net_config_default)))) ''id'' =
   JStr (vmid_display (v_id sample_vm))"
proof -
  obtain rs where "from_record (v_allow sample_vm) (v_rules sample_vm) = Ok rs" by (rule sample_rules)
  with sample_facts show ?thesis
    using whoami_own [OF sample_reach_init, of net_config_default "[sample_vm]" sample_vm "SlotId 3" rs _ "\<lambda>_. []" None "\<lambda>s. s"
        "[sample_secrets ''s3cret'']", OF _ _ _ _ _ _ refl] sample_list
    by simp
qed

section \<open>Isolation\<close>

text \<open>C7: two VMs on a host share nothing of what keeps them apart. In every state any interleaving
  of handlers reaches, the VMMs of two VMs that hold slots run under different uids and gids when the
  host's settings derive them from the slot, in different network namespaces and
  different jails, and their disks are different logical volumes.\<close>

theorem vms_apart:
  assumes "reach cfg K fails cp ps U" and "\<forall>vid. \<not> fails (DeleteVm vid)"
    and "from_env env controllers dir = Some jail" and "id_base_of jail = Some b"
    and "list_vms (cp_store cp) = Ok vms" and "u \<in> set vms" and "v \<in> set vms" and "v_id u \<noteq> v_id v"
    and "v_slot u = Some s" and "v_slot v = Some s'"
  shows "fst (identity jail (fx_netns (derive s net))) \<noteq> fst (identity jail (fx_netns (derive s' net)))
    \<and> snd (identity jail (fx_netns (derive s net))) \<noteq> snd (identity jail (fx_netns (derive s' net)))
    \<and> fx_netns (derive s net) \<noteq> fx_netns (derive s' net) \<and> jail_dir jail fc (v_id u) \<noteq> jail_dir jail fc (v_id v)
    \<and> volume_lv scfg (v_id u) \<noteq> volume_lv scfg (v_id v)"
proof -
  have wf: "wf_slot s" "wf_slot s'"
    using reach_slot_wf [OF assms(1) _ assms(5)] assms(2,6,7,9,10) by blast+
  have fit: "base_fits b" using from_env_base_fits [OF assms(3,4)] .
  have "s \<noteq> s'"
    using reach_slots [OF assms(1) _ assms(5,6,9)] assms(2,7,8,10) by blast
  then have ne: "unat (slot_get s) \<noteq> unat (slot_get s')"
    by (cases s; cases s') (auto dest: unsigned_word_eqI)
  have "unat (b + ucast (slot_get s)) \<noteq> unat (b + ucast (slot_get s'))"
    using ne unfolding identity_of_slot(2) [OF assms(4) fit wf(1)] identity_of_slot(2) [OF assms(4) fit wf(2)] by simp
  then have "b + ucast (slot_get s) \<noteq> b + ucast (slot_get s')" by metis
  moreover have "fx_netns (derive s net) \<noteq> fx_netns (derive s' net)"
    using \<open>s \<noteq> s'\<close> by (simp add: hex_slot_inj)
  moreover have "jail_dir jail fc (v_id u) \<noteq> jail_dir jail fc (v_id v)"
    using assms(8) by (simp add: jail_dir_def path_join_def vmid_display_rel)
  ultimately show ?thesis
    using identity_of_slot(1) [OF assms(4) fit wf(1)] identity_of_slot(1) [OF assms(4) fit wf(2)] assms(8)
    by (simp del: derive_fields)
qed

text \<open>Witness: two records, recovered.\<close>

definition pair_vm :: VmRecord where
  "pair_vm = sample_vm\<lparr>v_id := 8, v_slot := Some (SlotId 4)\<rparr>"

definition pair_db :: Db where
  "pair_db = sample_db\<lparr>db_vms := [row_of_vm sample_vm, row_of_vm pair_vm]\<rparr>"

lemma pair_vm_fits: "vm_fits pair_vm" "uint (v_policy_gen pair_vm) < 2 ^ 63"
  by (simp_all add: pair_vm_def sample_vm_def vm_fits_def slot_max_def)

lemma pair_insert: "insert_vm pair_vm sample_db = Ok pair_db"
  using pair_vm_fits(2)
  by (simp add: insert_vm_def pair_db_def sample_db_def db_empty_def vm_count_def row_of_vm_def pair_vm_def sample_vm_def)

lemma pair_list: "list_vms pair_db = Ok [sample_vm, pair_vm]"
proof -
  have "forwards_in v pair_db = []" for v
    by (simp add: forwards_in_def pair_db_def sample_db_def db_empty_def)
  then show ?thesis
    using row_of_vm_reads [OF sample_vm_fits] row_of_vm_reads [OF pair_vm_fits]
    by (simp add: list_vms_def) (simp add: pair_db_def sample_db_def sample_vm_def pair_vm_def db_empty_def)
qed

lemma pair_view:
  "row_view pair_db vid = (if vid = 7 then Some (Some (SlotId 3)) else if vid = 8 then Some (Some (SlotId 4)) else None)"
proof -
  have "row_view pair_db = (row_view sample_db)(8 \<mapsto> Some (SlotId 4))"
    using view_insert [OF pair_insert pair_vm_fits(1)] by (simp add: pair_vm_def)
  then show ?thesis by (simp add: sample_view)
qed

lemma pair_reach:
  "reach sample_cfg sample_codec (\<lambda>_. False) (recovered sample_cfg pair_db [sample_vm, pair_vm])
     ((\<lambda>_. Ret ())(0 := no_answer (recover_each sample_cfg [sample_vm, pair_vm]))) {vid. row_view pair_db vid \<noteq> None}"
proof (rule reach_init)
  show "ids_ok pair_db"
    by (simp add: ids_ok_def pair_db_def sample_db_def db_empty_def row_of_vm_def pair_vm_def sample_vm_def)
  show "claims_distinct pair_db" by (simp add: claims_distinct_def pair_view)
qed (simp_all add: pair_list sample_cfg_def)

theorem vms_apart_witness:
  "\<exists>jail. from_env (\<lambda>_. None) (Err []) ''/s'' = Some jail \<and>
     fst (identity jail (fx_netns (derive (SlotId 3) net_config_default))) \<noteq>
     fst (identity jail (fx_netns (derive (SlotId 4) net_config_default)))"
proof -
  obtain jail where j: "from_env (\<lambda>_. None) (Err []) ''/s'' = Some jail" "id_base_of jail = Some DEFAULT_ID_BASE"
    by (simp add: from_env_def env_var_def id_base_def Let_def)
  have "cp_store (recovered sample_cfg pair_db [sample_vm, pair_vm]) = pair_db"
    by (simp add: recovered_def control_plane_new_def)
  then show ?thesis
    using vms_apart [OF pair_reach _ j, of "[sample_vm, pair_vm]" sample_vm pair_vm "SlotId 3" "SlotId 4" net_config_default]
      pair_list j(1) by (intro exI [of _ jail]) (simp add: pair_vm_def sample_vm_def del: derive_fields)
qed

end
